(* ===== verification/Prelude.thy ===== *)
theory Prelude
  imports Main "HOL-Library.Word" "HOL-Library.Multiset"
begin

text \<open>
  Shared material of the development: the machine integer types of \<open>include/def.h\<close>, the
  faults that undefined behaviour of the C++ code is reported as, the result type of the
  operations that can fault, byte blocks with the two \<open>memcpy\<close> shapes the code uses
  (reading a slice, overwriting a slice), and the generic facts on lists and options the
  component theories rest on.
\<close>

section \<open>Collections of facts\<close>

named_theorems model_defs \<open>definitions of the operations of a component\<close>
named_theorems inv_defs \<open>definitions of the invariants\<close>

section \<open>Machine types\<close>

type_synonym uint8 = "8 word"
type_synonym uint16 = "16 word"
type_synonym uint32 = "32 word"
type_synonym uint64 = "64 word"
type_synonym byte = char

definition nul :: byte where "nul = CHR 0x00"

text \<open>A \<open>std::function\<close> value is opaque to the library: it is stored, moved and called.\<close>

type_synonym closure = nat

text \<open>A \<open>Coroutine*\<close> always points into the pool of its scheduler; it is the pool index.\<close>

type_synonym co_ptr = nat

section \<open>Faults and results\<close>

datatype fault =
    OutOfBounds \<comment> \<open>an access outside an array, a vector or an allocated block\<close>
  | NullDeref \<comment> \<open>a null pointer is dereferenced\<close>
  | WildPointer \<comment> \<open>a pointer that was never initialised is used\<close>
  | InactiveMember \<comment> \<open>a member of a union is used after another one was written\<close>
  | DanglingIterator \<comment> \<open>an iterator whose element was erased is used\<close>
  | AssertFail \<comment> \<open>an \<open>assert\<close> of the source fails, or it aborts\<close>
  | OutOfAnswers \<comment> \<open>no fault: the list of kernel answers that was given is used up\<close>

type_synonym 'a res = "fault + 'a"

definition res_bind :: "'a res \<Rightarrow> ('a \<Rightarrow> 'b res) \<Rightarrow> 'b res" where
  "res_bind r f = (case r of Inl e \<Rightarrow> Inl e | Inr x \<Rightarrow> f x)"

lemma res_bind_simps [simp]:
  "res_bind (Inl e) f = Inl e"
  "res_bind (Inr x) f = f x"
  by (simp_all add: res_bind_def)

lemma res_bind_Inr_conv: "res_bind r f = Inr y \<longleftrightarrow> (\<exists>x. r = Inr x \<and> f x = Inr y)"
  by (cases r) simp_all

lemma res_bind_Inl_conv:
  "res_bind r f = Inl e \<longleftrightarrow> r = Inl e \<or> (\<exists>x. r = Inr x \<and> f x = Inl e)"
  by (cases r) auto

lemma res_bind_assoc: "res_bind (res_bind r f) g = res_bind r (\<lambda>x. res_bind (f x) g)"
  by (cases r) simp_all

section \<open>Blocks of memory\<close>

text \<open>\<open>slice off n xs\<close> is what \<open>memcpy(dst, xs + off, n)\<close> reads; \<open>blit off ys xs\<close> is the
  block \<open>xs\<close> after \<open>memcpy(xs + off, ys, |ys|)\<close>.\<close>

definition slice :: "nat \<Rightarrow> nat \<Rightarrow> 'a list \<Rightarrow> 'a list" where
  "slice off n xs = take n (drop off xs)"

definition blit :: "nat \<Rightarrow> 'a list \<Rightarrow> 'a list \<Rightarrow> 'a list" where
  "blit off ys xs = take off xs @ ys @ drop (off + length ys) xs"

lemma length_slice [simp]: "length (slice off n xs) = min n (length xs - off)"
  by (simp add: slice_def min.commute)

lemma length_blit [simp]: "off + length ys \<le> length xs \<Longrightarrow> length (blit off ys xs) = length xs"
  by (simp add: blit_def)

lemma nth_blit:
  assumes "off + length ys \<le> length xs" "i < length xs"
  shows "blit off ys xs ! i = (if off \<le> i \<and> i < off + length ys then ys ! (i - off) else xs ! i)"
proof -
  have "min (length xs) off = off"
    using assms by simp
  moreover have "off + length ys \<le> i \<Longrightarrow>
      drop (off + length ys) xs ! (i - off - length ys) = xs ! i"
    using assms by simp
  ultimately show ?thesis
    by (auto simp: blit_def nth_append)
qed

lemma nth_slice: "i < n \<Longrightarrow> off + i < length xs \<Longrightarrow> slice off n xs ! i = xs ! (off + i)"
  by (simp add: slice_def)

lemma slice_blit_same [simp]:
  assumes "off + length ys \<le> length xs"
  shows "slice off (length ys) (blit off ys xs) = ys"
  using assms by (simp add: slice_def blit_def)

lemma slice_blit_disjoint:
  assumes "off + length ys \<le> length xs" "o' + n \<le> length xs"
    and "o' + n \<le> off \<or> off + length ys \<le> o'"
  shows "slice o' n (blit off ys xs) = slice o' n xs"
proof (rule nth_equalityI)
  show "length (slice o' n (blit off ys xs)) = length (slice o' n xs)"
    using assms by simp
next
  fix i assume "i < length (slice o' n (blit off ys xs))"
  then have "i < n" using assms by simp
  then show "slice o' n (blit off ys xs) ! i = slice o' n xs ! i"
    using assms by (auto simp: nth_slice nth_blit)
qed

lemma take_blit: "off \<le> length xs \<Longrightarrow> take (off + length ys) (blit off ys xs) = take off xs @ ys"
  by (simp add: blit_def)

lemma take_blit_prefix:
  "off \<le> length xs \<Longrightarrow> take (off + length ys) (blit off (ys @ zs) xs) = take off xs @ ys"
  by (simp add: blit_def)

section \<open>Words\<close>

lemma unat_lt2p: "unat (w :: 'a::len word) < 2 ^ LENGTH('a)"
  by (rule unsigned_less)

lemma unat_eq_iff [simp]: "unat (x :: 'a::len word) = unat y \<longleftrightarrow> x = y"
  by (simp add: word_unat_eq_iff)

lemma unat_of_nat_lt: "n < 2 ^ LENGTH('a) \<Longrightarrow> unat (of_nat n :: 'a::len word) = n"
  by (simp add: unat_of_nat)

lemma of_nat_word_nonzero: "0 < n \<Longrightarrow> n < 2 ^ LENGTH('a) \<Longrightarrow> (of_nat n :: 'a::len word) \<noteq> 0"
  by (metis unat_of_nat_lt less_numeral_extra(3) unat_0)

lemma unat_word_of_int_nonneg:
  "0 \<le> i \<Longrightarrow> i < 2 ^ LENGTH('a) \<Longrightarrow> unat (word_of_int i :: 'a::len word) = nat i"
  by (simp add: unsigned_of_int take_bit_int_eq_self)

lemma sint_word_of_int_small: "\<bar>i\<bar> < 2 ^ 31 \<Longrightarrow> sint (word_of_int i :: uint32) = i"
  by (simp add: signed_of_int signed_take_bit_int_eq_self)

lemma unat_of_char: "unat (of_char c :: uint8) = of_char c"
proof -
  have "(of_char c :: uint8) = of_nat (of_char c)" by (simp add: of_nat_of_char)
  moreover have "(of_char c :: nat) < 256" by (metis mod_less_divisor of_char_mod_256 zero_less_numeral)
  ultimately show ?thesis by (simp add: unat_of_nat_lt)
qed

lemma of_char_eq_0_iff: "(of_char c :: uint8) = 0 \<longleftrightarrow> c = CHR 0x00"
proof -
  have z: "(of_char (CHR 0x00) :: nat) = 0" by simp
  have "(of_char c :: uint8) = 0 \<longleftrightarrow> unat (of_char c :: uint8) = 0" by (simp add: unat_0_iff)
  also have "\<dots> \<longleftrightarrow> (of_char c :: nat) = of_char (CHR 0x00)" by (simp only: unat_of_char z)
  finally show ?thesis by (simp only: of_char_eq_iff)
qed

section \<open>Lists\<close>

lemma mset_swap_nonempty:
  "mset (if xs \<noteq> [] then ys else xs) + mset (if xs \<noteq> [] then xs else ys) = mset xs + mset ys"
  by simp

lemma sorted_map_insort_append:
  "sorted (map f (xs @ ys)) \<Longrightarrow> (\<forall>x \<in> set xs. f x \<le> f z) \<Longrightarrow> (\<forall>y \<in> set ys. f z \<le> f y) \<Longrightarrow>
   sorted (map f (xs @ z # ys))"
  by (auto simp: sorted_append)

lemma distinct_map_insert_append:
  "distinct (map f (xs @ ys)) \<Longrightarrow> f z \<notin> f ` set (xs @ ys) \<Longrightarrow> distinct (map f (xs @ z # ys))"
  by auto

lemma count_list_update:
  "i < length xs \<Longrightarrow>
   count_list (xs[i := y]) x + (if xs ! i = x then 1 else 0) = count_list xs x + (if y = x then 1 else 0)"
proof (induction xs arbitrary: i)
  case Nil
  then show ?case by simp
next
  case (Cons a xs)
  show ?case
  proof (cases i)
    case 0
    then show ?thesis by simp
  next
    case (Suc j)
    with Cons.IH [of j] Cons.prems show ?thesis by (auto split: if_splits)
  qed
qed

lemma mset_list_update:
  "i < length xs \<Longrightarrow> add_mset (xs ! i) (mset (xs[i := y])) = add_mset y (mset xs)"
  by (simp add: mset_update insert_DiffM nth_mem_mset add_mset_commute)

end
