(* ===== verification/Atomic.thy ===== *)
theory Atomic
  imports Prelude
begin

text \<open>
  Atomic operations: \<open>include/atomic.h\<close>, which has one implementation of every operation per
  compiler (MSVC intrinsics behind overloads on the operand size, the \<open>__atomic\<close> builtins of
  GCC from 4.7 on and Clang, the older \<open>__sync\<close> builtins of GCC), and the counter
  \<open>AtomicIntegerT\<close> of \<open>include/base/atomic_int.h\<close>.

  An operation is a function from the value of the cell to the returned value and the new value
  of the cell; being atomic, an execution is a sequence of such steps. The operand width is a
  type variable, which covers the four overloads of the MSVC helpers and every instance of the
  templates; signed and unsigned operands of a width have the same bits. The intrinsics and
  builtins are part of the compilers and are written out from their documentation.

  The interface \<open>atomic_cell\<close> is what the scheduler, the channels and the timers rely on
  (compare-and-swap, exchange, load, store); all three implementations satisfy it.
\<close>

unbundle bit_operations_syntax

section \<open>Compiler intrinsics\<close>

type_synonym 'a rmw = "'a word \<Rightarrow> 'a word \<times> 'a word"

text \<open>\<open>__atomic_OP_fetch\<close> and \<open>__sync_OP_and_fetch\<close> return the new value,
  \<open>__atomic_fetch_OP\<close>, \<open>__sync_fetch_and_OP\<close> and \<open>_InterlockedOP\<close> (exchange-add,
  or, and, xor) the old one; \<open>_InterlockedIncrement\<close> and \<open>_InterlockedDecrement\<close> the new one.\<close>

definition op_fetch :: "('a::len word \<Rightarrow> 'a word \<Rightarrow> 'a word) \<Rightarrow> 'a word \<Rightarrow> 'a rmw" where
  "op_fetch f v x = (f x v, f x v)"

definition fetch_op :: "('a::len word \<Rightarrow> 'a word \<Rightarrow> 'a word) \<Rightarrow> 'a word \<Rightarrow> 'a rmw" where
  "fetch_op f v x = (x, f x v)"

definition exchange :: "'a::len word \<Rightarrow> 'a rmw" where
  "exchange v x = (x, v)"

text \<open>Compare-and-exchange: whether it stored, the value it found, the new value.\<close>

definition compare_exchange :: "'a::len word \<Rightarrow> 'a word \<Rightarrow> 'a word \<Rightarrow> bool \<times> 'a word \<times> 'a word" where
  "compare_exchange expected desired x =
     (if x = expected then (True, x, desired) else (False, x, x))"

lemmas intrinsic_defs = op_fetch_def fetch_op_def exchange_def compare_exchange_def

section \<open>GCC from 4.7 on and Clang\<close>

definition atomic_inc :: "'a::len rmw" where
  [model_defs]: "atomic_inc = op_fetch (+) 1"

definition atomic_dec :: "'a::len rmw" where
  [model_defs]: "atomic_dec = op_fetch (-) 1"

definition atomic_add :: "'a::len word \<Rightarrow> 'a rmw" where
  [model_defs]: "atomic_add v = op_fetch (+) v"

definition atomic_sub :: "'a::len word \<Rightarrow> 'a rmw" where
  [model_defs]: "atomic_sub v = op_fetch (-) v"

definition atomic_fetch_inc :: "'a::len rmw" where
  [model_defs]: "atomic_fetch_inc = fetch_op (+) 1"

definition atomic_fetch_dec :: "'a::len rmw" where
  [model_defs]: "atomic_fetch_dec = fetch_op (-) 1"

definition atomic_fetch_add :: "'a::len word \<Rightarrow> 'a rmw" where
  [model_defs]: "atomic_fetch_add v = fetch_op (+) v"

definition atomic_fetch_sub :: "'a::len word \<Rightarrow> 'a rmw" where
  [model_defs]: "atomic_fetch_sub v = fetch_op (-) v"

definition atomic_or :: "'a::len word \<Rightarrow> 'a rmw" where
  [model_defs]: "atomic_or v = op_fetch (OR) v"

definition atomic_and :: "'a::len word \<Rightarrow> 'a rmw" where
  [model_defs]: "atomic_and v = op_fetch (AND) v"

definition atomic_xor :: "'a::len word \<Rightarrow> 'a rmw" where
  [model_defs]: "atomic_xor v = op_fetch (XOR) v"

definition atomic_fetch_or :: "'a::len word \<Rightarrow> 'a rmw" where
  [model_defs]: "atomic_fetch_or v = fetch_op (OR) v"

definition atomic_fetch_and :: "'a::len word \<Rightarrow> 'a rmw" where
  [model_defs]: "atomic_fetch_and v = fetch_op (AND) v"

definition atomic_fetch_xor :: "'a::len word \<Rightarrow> 'a rmw" where
  [model_defs]: "atomic_fetch_xor v = fetch_op (XOR) v"

definition atomic_swap :: "'a::len word \<Rightarrow> 'a rmw" where
  [model_defs]: "atomic_swap v = exchange v"

text \<open>The builtin stores into the local \<open>x\<close> the value it found when it fails; \<open>x\<close>,
  initially \<open>o\<close>, is returned.\<close>

definition atomic_compare_swap :: "'a::len word \<Rightarrow> 'a word \<Rightarrow> 'a rmw" where
  [model_defs]: "atomic_compare_swap o' v p =
     (case compare_exchange o' v p of (ok, found, p') \<Rightarrow> (if ok then o' else found, p'))"

definition atomic_get :: "'a::len rmw" where
  [model_defs]: "atomic_get p = (p, p)"

definition atomic_set :: "'a::len word \<Rightarrow> 'a word \<Rightarrow> 'a word" where
  [model_defs]: "atomic_set v p = v"

definition atomic_reset :: "'a::len word \<Rightarrow> 'a word" where
  [model_defs]: "atomic_reset p = 0"

section \<open>Older GCC\<close>

definition sync_atomic_inc :: "'a::len rmw" where
  [model_defs]: "sync_atomic_inc = op_fetch (+) 1"

definition sync_atomic_dec :: "'a::len rmw" where
  [model_defs]: "sync_atomic_dec = op_fetch (-) 1"

definition sync_atomic_add :: "'a::len word \<Rightarrow> 'a rmw" where
  [model_defs]: "sync_atomic_add v = op_fetch (+) v"

definition sync_atomic_sub :: "'a::len word \<Rightarrow> 'a rmw" where
  [model_defs]: "sync_atomic_sub v = op_fetch (-) v"

definition sync_atomic_fetch_inc :: "'a::len rmw" where
  [model_defs]: "sync_atomic_fetch_inc = fetch_op (+) 1"

definition sync_atomic_fetch_dec :: "'a::len rmw" where
  [model_defs]: "sync_atomic_fetch_dec = fetch_op (-) 1"

definition sync_atomic_fetch_add :: "'a::len word \<Rightarrow> 'a rmw" where
  [model_defs]: "sync_atomic_fetch_add v = fetch_op (+) v"

definition sync_atomic_fetch_sub :: "'a::len word \<Rightarrow> 'a rmw" where
  [model_defs]: "sync_atomic_fetch_sub v = fetch_op (-) v"

definition sync_atomic_or :: "'a::len word \<Rightarrow> 'a rmw" where
  [model_defs]: "sync_atomic_or v = op_fetch (OR) v"

definition sync_atomic_and :: "'a::len word \<Rightarrow> 'a rmw" where
  [model_defs]: "sync_atomic_and v = op_fetch (AND) v"

definition sync_atomic_xor :: "'a::len word \<Rightarrow> 'a rmw" where
  [model_defs]: "sync_atomic_xor v = op_fetch (XOR) v"

definition sync_atomic_fetch_or :: "'a::len word \<Rightarrow> 'a rmw" where
  [model_defs]: "sync_atomic_fetch_or v = fetch_op (OR) v"

definition sync_atomic_fetch_and :: "'a::len word \<Rightarrow> 'a rmw" where
  [model_defs]: "sync_atomic_fetch_and v = fetch_op (AND) v"

definition sync_atomic_fetch_xor :: "'a::len word \<Rightarrow> 'a rmw" where
  [model_defs]: "sync_atomic_fetch_xor v = fetch_op (XOR) v"

definition sync_atomic_swap :: "'a::len word \<Rightarrow> 'a rmw" where
  [model_defs]: "sync_atomic_swap v = exchange v"

definition sync_atomic_compare_swap :: "'a::len word \<Rightarrow> 'a word \<Rightarrow> 'a rmw" where
  [model_defs]: "sync_atomic_compare_swap o' v p = snd (compare_exchange o' v p)"

definition sync_atomic_get :: "'a::len rmw" where
  [model_defs]: "sync_atomic_get = sync_atomic_fetch_or 0"

definition sync_atomic_set :: "'a::len word \<Rightarrow> 'a word \<Rightarrow> 'a word" where
  [model_defs]: "sync_atomic_set v p = snd (exchange v p)"

definition sync_atomic_reset :: "'a::len word \<Rightarrow> 'a word" where
  [model_defs]: "sync_atomic_reset p = 0"

section \<open>MSVC: the overloads in namespace xx\<close>

text \<open>\<open>ret f r\<close> is the expression \<open>intrinsic(...) OP v\<close> of an overload: the result of the
  intrinsic is adjusted, the cell is as the intrinsic left it.\<close>

definition ret :: "('a::len word \<Rightarrow> 'a word) \<Rightarrow> 'a word \<times> 'a word \<Rightarrow> 'a word \<times> 'a word" where
  "ret f r = (f (fst r), snd r)"

text \<open>\<open>_InterlockedIncrement\<close> and \<open>_InterlockedDecrement\<close>, which the wider overloads of
  \<open>atomic_inc\<close> and \<open>atomic_dec\<close> call in place of the exchange-add of the one for a byte.\<close>

definition Interlocked_inc :: "'a::len rmw" where
  "Interlocked_inc p = op_fetch (+) 1 p"

definition Interlocked_dec :: "'a::len rmw" where
  "Interlocked_dec p = op_fetch (-) 1 p"

definition xx_atomic_inc :: "'a::len rmw" where
  [model_defs]: "xx_atomic_inc p =
     (if LENGTH('a) = 8 then ret (\<lambda>r. r + 1) (fetch_op (+) 1 p) else Interlocked_inc p)"

definition xx_atomic_dec :: "'a::len rmw" where
  [model_defs]: "xx_atomic_dec p =
     (if LENGTH('a) = 8 then ret (\<lambda>r. r - 1) (fetch_op (+) (- 1) p) else Interlocked_dec p)"

definition xx_atomic_add :: "'a::len word \<Rightarrow> 'a rmw" where
  [model_defs]: "xx_atomic_add v p = ret (\<lambda>r. r + v) (fetch_op (+) v p)"

definition xx_atomic_sub :: "'a::len word \<Rightarrow> 'a rmw" where
  [model_defs]: "xx_atomic_sub v p = ret (\<lambda>r. r - v) (fetch_op (+) (- v) p)"

definition xx_atomic_fetch_inc :: "'a::len rmw" where
  [model_defs]: "xx_atomic_fetch_inc p = fetch_op (+) 1 p"

definition xx_atomic_fetch_dec :: "'a::len rmw" where
  [model_defs]: "xx_atomic_fetch_dec p = fetch_op (+) (- 1) p"

definition xx_atomic_fetch_add :: "'a::len word \<Rightarrow> 'a rmw" where
  [model_defs]: "xx_atomic_fetch_add v p = fetch_op (+) v p"

definition xx_atomic_fetch_sub :: "'a::len word \<Rightarrow> 'a rmw" where
  [model_defs]: "xx_atomic_fetch_sub v p = fetch_op (+) (- v) p"

definition xx_atomic_or :: "'a::len word \<Rightarrow> 'a rmw" where
  [model_defs]: "xx_atomic_or v p = ret (\<lambda>r. r OR v) (fetch_op (OR) v p)"

definition xx_atomic_and :: "'a::len word \<Rightarrow> 'a rmw" where
  [model_defs]: "xx_atomic_and v p = ret (\<lambda>r. r AND v) (fetch_op (AND) v p)"

definition xx_atomic_xor :: "'a::len word \<Rightarrow> 'a rmw" where
  [model_defs]: "xx_atomic_xor v p = ret (\<lambda>r. r XOR v) (fetch_op (XOR) v p)"

definition xx_atomic_fetch_or :: "'a::len word \<Rightarrow> 'a rmw" where
  [model_defs]: "xx_atomic_fetch_or v p = fetch_op (OR) v p"

definition xx_atomic_fetch_and :: "'a::len word \<Rightarrow> 'a rmw" where
  [model_defs]: "xx_atomic_fetch_and v p = fetch_op (AND) v p"

definition xx_atomic_fetch_xor :: "'a::len word \<Rightarrow> 'a rmw" where
  [model_defs]: "xx_atomic_fetch_xor v p = fetch_op (XOR) v p"

definition xx_atomic_swap :: "'a::len word \<Rightarrow> 'a rmw" where
  [model_defs]: "xx_atomic_swap v = exchange v"

definition xx_atomic_compare_swap :: "'a::len word \<Rightarrow> 'a word \<Rightarrow> 'a rmw" where
  [model_defs]: "xx_atomic_compare_swap o' v p = snd (compare_exchange o' v p)"

section \<open>MSVC: the templates\<close>

definition ms_atomic_inc :: "'a::len rmw" where
  [model_defs]: "ms_atomic_inc = xx_atomic_inc"

definition ms_atomic_dec :: "'a::len rmw" where
  [model_defs]: "ms_atomic_dec = xx_atomic_dec"

definition ms_atomic_add :: "'a::len word \<Rightarrow> 'a rmw" where
  [model_defs]: "ms_atomic_add v = xx_atomic_add v"

definition ms_atomic_sub :: "'a::len word \<Rightarrow> 'a rmw" where
  [model_defs]: "ms_atomic_sub v = xx_atomic_sub v"

definition ms_atomic_fetch_inc :: "'a::len rmw" where
  [model_defs]: "ms_atomic_fetch_inc = xx_atomic_fetch_inc"

definition ms_atomic_fetch_dec :: "'a::len rmw" where
  [model_defs]: "ms_atomic_fetch_dec = xx_atomic_fetch_dec"

definition ms_atomic_fetch_add :: "'a::len word \<Rightarrow> 'a rmw" where
  [model_defs]: "ms_atomic_fetch_add v = xx_atomic_fetch_add v"

definition ms_atomic_fetch_sub :: "'a::len word \<Rightarrow> 'a rmw" where
  [model_defs]: "ms_atomic_fetch_sub v = xx_atomic_fetch_sub v"

definition ms_atomic_or :: "'a::len word \<Rightarrow> 'a rmw" where
  [model_defs]: "ms_atomic_or v = xx_atomic_or v"

definition ms_atomic_and :: "'a::len word \<Rightarrow> 'a rmw" where
  [model_defs]: "ms_atomic_and v = xx_atomic_and v"

definition ms_atomic_xor :: "'a::len word \<Rightarrow> 'a rmw" where
  [model_defs]: "ms_atomic_xor v = xx_atomic_xor v"

definition ms_atomic_fetch_or :: "'a::len word \<Rightarrow> 'a rmw" where
  [model_defs]: "ms_atomic_fetch_or v = xx_atomic_fetch_or v"

definition ms_atomic_fetch_and :: "'a::len word \<Rightarrow> 'a rmw" where
  [model_defs]: "ms_atomic_fetch_and v = xx_atomic_fetch_and v"

definition ms_atomic_fetch_xor :: "'a::len word \<Rightarrow> 'a rmw" where
  [model_defs]: "ms_atomic_fetch_xor v = xx_atomic_fetch_xor v"

definition ms_atomic_swap :: "'a::len word \<Rightarrow> 'a rmw" where
  [model_defs]: "ms_atomic_swap v = xx_atomic_swap v"

definition ms_atomic_compare_swap :: "'a::len word \<Rightarrow> 'a word \<Rightarrow> 'a rmw" where
  [model_defs]: "ms_atomic_compare_swap o' v = xx_atomic_compare_swap o' v"

definition ms_atomic_get :: "'a::len rmw" where
  [model_defs]: "ms_atomic_get = ms_atomic_fetch_xor 0"

definition ms_atomic_set :: "'a::len word \<Rightarrow> 'a word \<Rightarrow> 'a word" where
  [model_defs]: "ms_atomic_set v p = snd (ms_atomic_swap v p)"

definition ms_atomic_reset :: "'a::len word \<Rightarrow> 'a word" where
  [model_defs]: "ms_atomic_reset p = snd (ms_atomic_swap 0 p)"

section \<open>The atomic counter\<close>

text \<open>\<open>AtomicIntegerT\<close>: the state is the volatile \<open>value_\<close>; an operation returns
  what it returns and the new value. \<open>Add\<close>, \<open>Increment\<close> and \<open>Decrement\<close> discard the result.\<close>

definition AtomicInteger_init :: "'a::len word" where
  "AtomicInteger_init = 0"

definition AtomicInteger_Get :: "'a::len rmw" where
  [model_defs]: "AtomicInteger_Get value = snd (compare_exchange 0 0 value)"

definition AtomicInteger_GetAndAdd :: "'a::len word \<Rightarrow> 'a rmw" where
  [model_defs]: "AtomicInteger_GetAndAdd x = fetch_op (+) x"

definition AtomicInteger_AddAndGet :: "'a::len word \<Rightarrow> 'a rmw" where
  [model_defs]: "AtomicInteger_AddAndGet x value = ret (\<lambda>r. r + x) (AtomicInteger_GetAndAdd x value)"

definition AtomicInteger_IncrementAndGet :: "'a::len rmw" where
  [model_defs]: "AtomicInteger_IncrementAndGet = AtomicInteger_AddAndGet 1"

definition AtomicInteger_DecrementAndGet :: "'a::len rmw" where
  [model_defs]: "AtomicInteger_DecrementAndGet = AtomicInteger_AddAndGet (- 1)"

definition AtomicInteger_Add :: "'a::len word \<Rightarrow> 'a word \<Rightarrow> 'a word" where
  [model_defs]: "AtomicInteger_Add x value = snd (AtomicInteger_GetAndAdd x value)"

definition AtomicInteger_Increment :: "'a::len word \<Rightarrow> 'a word" where
  [model_defs]: "AtomicInteger_Increment value = snd (AtomicInteger_IncrementAndGet value)"

definition AtomicInteger_Decrement :: "'a::len word \<Rightarrow> 'a word" where
  [model_defs]: "AtomicInteger_Decrement value = snd (AtomicInteger_DecrementAndGet value)"

definition AtomicInteger_GetAndSet :: "'a::len word \<Rightarrow> 'a rmw" where
  [model_defs]: "AtomicInteger_GetAndSet newValue = exchange newValue"

section \<open>The interface of an atomic cell\<close>

text \<open>Several threads compare-and-swap the same cell from \<open>o\<close>, each to a value of its own:
  the values they get back and the final value, in the order the operations take effect.\<close>

primrec cas_race ::
  "('a word \<Rightarrow> 'a word \<Rightarrow> 'a::len rmw) \<Rightarrow> 'a word \<Rightarrow> 'a word list \<Rightarrow> 'a word \<Rightarrow> 'a word list \<times> 'a word" where
  "cas_race cas o' [] p = ([], p)"
| "cas_race cas o' (v # vs) p =
     (let (r, p1) = cas o' v p; (rs, p2) = cas_race cas o' vs p1 in (r # rs, p2))"

locale atomic_cell =
  fixes cas :: "'a word \<Rightarrow> 'a word \<Rightarrow> 'a::len rmw"
    and swap :: "'a word \<Rightarrow> 'a rmw"
    and get :: "'a rmw"
    and set :: "'a word \<Rightarrow> 'a word \<Rightarrow> 'a word"
  assumes cas_law: "cas o' v p = (p, if p = o' then v else p)"
    and swap_law: "swap v p = (p, v)"
    and get_law: "get p = (p, p)"
    and set_law: "set v p = v"
begin

lemma cas_race_lost:
  "p \<noteq> o' \<Longrightarrow> cas_race cas o' vs p = (replicate (length vs) p, p)"
  by (induction vs) (simp_all add: cas_law)

lemma cas_race_won:
  "v \<noteq> o' \<Longrightarrow> cas_race cas o' (v # vs) o' = (o' # replicate (length vs) v, v)"
  by (simp add: cas_law cas_race_lost)

end

lemma atomic_compare_swap_eq: "atomic_compare_swap o' v p = (p, if p = o' then v else p)"
  by (simp add: atomic_compare_swap_def compare_exchange_def)

lemma atomic_swap_eq: "atomic_swap v p = (p, v)"
  by (simp add: atomic_swap_def exchange_def)

lemmas atomic_simps [simp] = atomic_compare_swap_eq atomic_swap_eq

interpretation gcc: atomic_cell atomic_compare_swap atomic_swap atomic_get atomic_set
  by unfold_locales (simp_all add: model_defs intrinsic_defs)

interpretation sync: atomic_cell sync_atomic_compare_swap sync_atomic_swap sync_atomic_get sync_atomic_set
  by unfold_locales (simp_all add: model_defs intrinsic_defs)

interpretation msvc: atomic_cell ms_atomic_compare_swap ms_atomic_swap ms_atomic_get ms_atomic_set
  by unfold_locales (simp_all add: model_defs intrinsic_defs)

section \<open>The implementations agree\<close>

text \<open>The three implementations of \<open>atomic.h\<close> are the same operations: whatever the
  compiler, each returns the same value and leaves the same value in the cell, although MSVC's
  subtract by exchange-adding the negated operand, read by xor-ing zero and reset by exchanging, and
  the older GCC's read by or-ing zero.\<close>

lemma atomic_backends_agree:
  fixes p v o' :: "'a::len word"
  shows "ms_atomic_inc p = atomic_inc p \<and> sync_atomic_inc p = atomic_inc p \<and>
    ms_atomic_dec p = atomic_dec p \<and> sync_atomic_dec p = atomic_dec p \<and>
    ms_atomic_add v p = atomic_add v p \<and> sync_atomic_add v p = atomic_add v p \<and>
    ms_atomic_sub v p = atomic_sub v p \<and> sync_atomic_sub v p = atomic_sub v p \<and>
    ms_atomic_fetch_inc p = atomic_fetch_inc p \<and> sync_atomic_fetch_inc p = atomic_fetch_inc p \<and>
    ms_atomic_fetch_dec p = atomic_fetch_dec p \<and> sync_atomic_fetch_dec p = atomic_fetch_dec p \<and>
    ms_atomic_fetch_add v p = atomic_fetch_add v p \<and> sync_atomic_fetch_add v p = atomic_fetch_add v p \<and>
    ms_atomic_fetch_sub v p = atomic_fetch_sub v p \<and> sync_atomic_fetch_sub v p = atomic_fetch_sub v p \<and>
    ms_atomic_or v p = atomic_or v p \<and> sync_atomic_or v p = atomic_or v p \<and>
    ms_atomic_and v p = atomic_and v p \<and> sync_atomic_and v p = atomic_and v p \<and>
    ms_atomic_xor v p = atomic_xor v p \<and> sync_atomic_xor v p = atomic_xor v p \<and>
    ms_atomic_fetch_or v p = atomic_fetch_or v p \<and> sync_atomic_fetch_or v p = atomic_fetch_or v p \<and>
    ms_atomic_fetch_and v p = atomic_fetch_and v p \<and> sync_atomic_fetch_and v p = atomic_fetch_and v p \<and>
    ms_atomic_fetch_xor v p = atomic_fetch_xor v p \<and> sync_atomic_fetch_xor v p = atomic_fetch_xor v p \<and>
    ms_atomic_swap v p = atomic_swap v p \<and> sync_atomic_swap v p = atomic_swap v p \<and>
    ms_atomic_compare_swap o' v p = atomic_compare_swap o' v p \<and> sync_atomic_compare_swap o' v p = atomic_compare_swap o' v p \<and>
    ms_atomic_get p = atomic_get p \<and> sync_atomic_get p = atomic_get p \<and>
    ms_atomic_set v p = atomic_set v p \<and> sync_atomic_set v p = atomic_set v p \<and>
    ms_atomic_reset p = atomic_reset p \<and> sync_atomic_reset p = atomic_reset p"
  by (simp add: model_defs ret_def intrinsic_defs Interlocked_inc_def Interlocked_dec_def)

text \<open>Of any number of threads that compare-and-swap a cell from its current value, each
  to a value different from it, exactly the first succeeds (gets the old value back and so
  wins), every other one gets the winner's value and fails, and the winner's value stays. This
  is what decides between a timer, a reader and a writer that race for a waiting coroutine.\<close>

theorem compare_swap_one_winner:
  assumes "v \<noteq> o'"
  shows "cas_race atomic_compare_swap o' (v # vs) o' = (o' # replicate (length vs) v, v)"
  using assms by (rule gcc.cas_race_won)

theorem compare_swap_one_winner_witness:
  "cas_race atomic_compare_swap 0 [4, 2, 4] (0 :: uint8) = ([0, 4, 4], 4)"
  using compare_swap_one_winner [of "4 :: uint8" 0 "[2, 4]"] by simp

text \<open>The atomic counter counts: in every interleaving of increments and decrements, each
  as one atomic step, the final value is the initial value plus the number of increments minus
  the number of decrements, modulo the width of the counter.\<close>

theorem AtomicInteger_counts:
  "foldl (\<lambda>x up. if up then AtomicInteger_Increment x else AtomicInteger_Decrement x) (x :: 'a::len word) ops =
     x + of_nat (count_list ops True) - of_nat (count_list ops False)"
  by (induction ops arbitrary: x) (simp_all add: model_defs ret_def intrinsic_defs)

end
