(* ===== verification/Fifo.thy ===== *)
theory Fifo
  imports Prelude
begin

text \<open>
  The first-in first-out contract that the queues of the library share: the two task queues of
  a scheduler, the ring buffer of a channel, the wait queue of a coroutine mutex. A component
  performs steps; a step yields an event that says what the step accepted into the queue and
  what it delivered out of it. \<open>run_ops\<close> performs a sequence of steps and collects the events.

  The interface \<open>fifo\<close> has one law per step: what the step delivers, followed by what is then
  queued, is what was queued followed by what the step accepts, for steps whose arguments are
  admissible (\<open>op_ok\<close>). The client lemma lifts it to
  every sequence of steps: deliveries are a prefix of the acceptances, in the same order, and the
  difference is exactly what is still queued.
\<close>

primrec run_ops :: "('op \<Rightarrow> 'q \<Rightarrow> 'e \<times> 'q) \<Rightarrow> 'op list \<Rightarrow> 'q \<Rightarrow> 'e list \<times> 'q" where
  "run_ops step [] q = ([], q)"
| "run_ops step (x # xs) q =
     (let (e, q1) = step x q; (es, q2) = run_ops step xs q1 in (e # es, q2))"

lemma run_ops_Cons_simps:
  "fst (run_ops step (x # xs) q) = fst (step x q) # fst (run_ops step xs (snd (step x q)))"
  "snd (run_ops step (x # xs) q) = snd (run_ops step xs (snd (step x q)))"
  by (simp_all add: case_prod_unfold Let_def)

locale op_invariant =
  fixes step :: "'op \<Rightarrow> 'q \<Rightarrow> 'e \<times> 'q"
    and op_ok :: "'op \<Rightarrow> bool"
    and invar :: "'q \<Rightarrow> bool"
  assumes invar_step: "invar q \<Longrightarrow> op_ok x \<Longrightarrow> invar (snd (step x q))"
begin

lemma invar_run: "invar q \<Longrightarrow> \<forall>x \<in> set xs. op_ok x \<Longrightarrow> invar (snd (run_ops step xs q))"
  by (induction xs arbitrary: q) (simp_all add: run_ops_Cons_simps invar_step del: run_ops.simps(2))

end

locale fifo = op_invariant step op_ok invar
  for step :: "'op \<Rightarrow> 'q \<Rightarrow> 'e \<times> 'q" and op_ok :: "'op \<Rightarrow> bool" and invar :: "'q \<Rightarrow> bool" +
  fixes items :: "'q \<Rightarrow> 'a list"
    and accepted :: "'e \<Rightarrow> 'a list"
    and delivered :: "'e \<Rightarrow> 'a list"
  assumes step_fifo: "invar q \<Longrightarrow> op_ok x \<Longrightarrow>
    delivered (fst (step x q)) @ items (snd (step x q)) = items q @ accepted (fst (step x q))"
begin

lemma run_fifo:
  "invar q \<Longrightarrow> \<forall>x \<in> set xs. op_ok x \<Longrightarrow>
   concat (map delivered (fst (run_ops step xs q))) @ items (snd (run_ops step xs q)) =
     items q @ concat (map accepted (fst (run_ops step xs q)))"
proof (induction xs arbitrary: q)
  case Nil
  show ?case by simp
next
  case (Cons x xs)
  have "concat (map delivered (fst (run_ops step xs (snd (step x q))))) @
      items (snd (run_ops step xs (snd (step x q)))) =
      items (snd (step x q)) @ concat (map accepted (fst (run_ops step xs (snd (step x q)))))"
    using Cons by (simp add: invar_step)
  with step_fifo [OF Cons.prems(1), of x] Cons.prems(2) show ?case
    by (simp only: run_ops_Cons_simps list.map concat.simps append_assoc)
      (metis append_assoc list.set_intros(1))
qed

lemma run_no_loss:
  "invar q \<Longrightarrow> \<forall>x \<in> set xs. op_ok x \<Longrightarrow>
   mset (concat (map delivered (fst (run_ops step xs q)))) + mset (items (snd (run_ops step xs q))) =
     mset (items q) + mset (concat (map accepted (fst (run_ops step xs q))))"
  using arg_cong [OF run_fifo, of q xs mset] by simp

end

end
