(* ===== verification/Syscall.thy ===== *)
theory Syscall
  imports Prelude
begin

text \<open>
  What the library sees of the operating system. A system call is never computed by the model: its
  answer, a result and the value of \<open>errno\<close> after it, is an input of the operation that makes the
  call. An operation that makes calls in a loop consumes a list of answers, in the order the kernel
  gives them, and returns what is left of it; it has no result when the list ends before
  the loop does, so that a theorem that a loop returns has to say which answers make it return.
\<close>

type_synonym answer = "int \<times> int"

text \<open>The Linux values of the error numbers the code tests.\<close>

definition ENOENT :: int where "ENOENT = 2"
definition EINTR :: int where "EINTR = 4"
definition EAGAIN :: int where "EAGAIN = 11"
definition EWOULDBLOCK :: int where "EWOULDBLOCK = 11"
definition ETIMEDOUT :: int where "ETIMEDOUT = 110"
definition EINPROGRESS :: int where "EINPROGRESS = 115"
definition EALREADY :: int where "EALREADY = 114"
definition EBADF :: int where "EBADF = 9"

lemmas errno_defs = ENOENT_def EINTR_def EAGAIN_def EWOULDBLOCK_def ETIMEDOUT_def EINPROGRESS_def
  EALREADY_def EBADF_def

end
