(* ===== verification/Epoll.thy ===== *)
theory Epoll
  imports Atomic Fifo Syscall
begin

text \<open>
  Readiness events. \<open>SockCtx\<close> (\<open>include/sock_ctx.h\<close>, \<open>src/sock_ctx.cc\<close>) records for a
  descriptor which coroutine of which scheduler waits to read and which waits to write;
  \<open>Epoll\<close> (\<open>include/epoll.h\<close>, \<open>src/epoll.cc\<close>) keeps the interest list of the kernel in
  step with it and holds the eventfd that wakes a scheduler up.

  The kernel is a parameter: \<open>ctl\<close> is \<open>epoll_ctl\<close> on the descriptor of this \<open>Epoll\<close>, a
  function of the kernel's state. What the manual page promises of it is \<open>epoll_laws\<close>, with respect to a function
  that reads the interest list off the kernel's state. The record \<open>ep_world\<close> holds what the
  operations change: the contexts of the descriptors and the kernel.
\<close>

unbundle bit_operations_syntax

section \<open>Socket contexts\<close>

record event_t =
  ev_co_id :: uint32
  ev_sched_id :: uint32

record SockCtx =
  read_ev :: event_t
  write_ev :: event_t

definition SockCtx_AddEvRead :: "uint32 \<Rightarrow> uint32 \<Rightarrow> SockCtx \<Rightarrow> SockCtx" where
  [model_defs]: "SockCtx_AddEvRead sched_id co_id c =
     c\<lparr>read_ev := (read_ev c)\<lparr>ev_sched_id := sched_id, ev_co_id := co_id\<rparr>\<rparr>"

definition SockCtx_AddEvWrite :: "uint32 \<Rightarrow> uint32 \<Rightarrow> SockCtx \<Rightarrow> SockCtx" where
  [model_defs]: "SockCtx_AddEvWrite sched_id co_id c =
     c\<lparr>write_ev := (write_ev c)\<lparr>ev_sched_id := sched_id, ev_co_id := co_id\<rparr>\<rparr>"

definition SockCtx_DelEvRead :: "SockCtx \<Rightarrow> SockCtx" where
  [model_defs]: "SockCtx_DelEvRead c = c\<lparr>read_ev := (read_ev c)\<lparr>ev_sched_id := - 1, ev_co_id := - 1\<rparr>\<rparr>"

definition SockCtx_DelEvWrite :: "SockCtx \<Rightarrow> SockCtx" where
  [model_defs]: "SockCtx_DelEvWrite c = c\<lparr>write_ev := (write_ev c)\<lparr>ev_sched_id := - 1, ev_co_id := - 1\<rparr>\<rparr>"

definition SockCtx_DelEvent :: "SockCtx \<Rightarrow> SockCtx" where
  [model_defs]: "SockCtx_DelEvent c = SockCtx_DelEvWrite (SockCtx_DelEvRead c)"

definition SockCtx_init :: SockCtx where
  "SockCtx_init = SockCtx_DelEvent \<lparr>read_ev = \<lparr>ev_co_id = 0, ev_sched_id = 0\<rparr>,
     write_ev = \<lparr>ev_co_id = 0, ev_sched_id = 0\<rparr>\<rparr>"

definition SockCtx_has_ev_read :: "SockCtx \<Rightarrow> bool" where
  [model_defs]: "SockCtx_has_ev_read c \<longleftrightarrow> ev_co_id (read_ev c) \<noteq> - 1"

definition SockCtx_has_ev_read_by :: "uint32 \<Rightarrow> SockCtx \<Rightarrow> bool" where
  [model_defs]: "SockCtx_has_ev_read_by sched_id c \<longleftrightarrow>
     sched_id = ev_sched_id (read_ev c) \<and> ev_co_id (read_ev c) \<noteq> - 1"

definition SockCtx_has_ev_write :: "SockCtx \<Rightarrow> bool" where
  [model_defs]: "SockCtx_has_ev_write c \<longleftrightarrow> ev_co_id (write_ev c) \<noteq> - 1"

definition SockCtx_has_ev_write_by :: "uint32 \<Rightarrow> SockCtx \<Rightarrow> bool" where
  [model_defs]: "SockCtx_has_ev_write_by sched_id c \<longleftrightarrow>
     sched_id = ev_sched_id (write_ev c) \<and> ev_co_id (write_ev c) \<noteq> - 1"

definition SockCtx_has_event :: "SockCtx \<Rightarrow> bool" where
  [model_defs]: "SockCtx_has_event c \<longleftrightarrow> SockCtx_has_ev_read c \<or> SockCtx_has_ev_write c"

definition SockCtx_get_read_co_id :: "uint32 \<Rightarrow> SockCtx \<Rightarrow> uint32" where
  [model_defs]: "SockCtx_get_read_co_id sched_id c =
     (if sched_id = ev_sched_id (read_ev c) then ev_co_id (read_ev c) else - 1)"

definition SockCtx_get_write_co_id :: "uint32 \<Rightarrow> SockCtx \<Rightarrow> uint32" where
  [model_defs]: "SockCtx_get_write_co_id sched_id c =
     (if sched_id = ev_sched_id (write_ev c) then ev_co_id (write_ev c) else - 1)"

text \<open>\<open>map[fd]\<close> of a \<open>std::map\<close> default-constructs what is not there: the map is a
  function that is \<open>SockCtx_init\<close> at first.\<close>

type_synonym SockCtxMap = "int \<Rightarrow> SockCtx"

definition get_sock_ctx :: "SockCtxMap \<Rightarrow> int \<Rightarrow> SockCtx" where
  [model_defs]: "get_sock_ctx m fd = m fd"

text \<open>\<open>enum io_event_t\<close> of \<open>include/io_event.h\<close>.\<close>

datatype io_event_t = kEvRead | kEvWrite

section \<open>The interest list\<close>

definition EPOLLIN :: uint32 where "EPOLLIN = 0x001"
definition EPOLLOUT :: uint32 where "EPOLLOUT = 0x004"
definition EPOLLET :: uint32 where "EPOLLET = push_bit 31 1"

record epoll_event =
  events :: uint32
  data_fd :: int

datatype ctl_op = EPOLL_CTL_ADD | EPOLL_CTL_MOD | EPOLL_CTL_DEL

type_synonym 'k ctl = "ctl_op \<Rightarrow> int \<Rightarrow> epoll_event option \<Rightarrow> 'k \<Rightarrow> answer \<times> 'k"

text \<open>The pointer to the array of events: the constructor may return before it sets it.\<close>

datatype ev_ptr = EvUninit | EvNull | EvBlock

definition kEventNum :: nat where
  "kEventNum = 1024"

record Epoll =
  ep :: int
  sched_id :: uint32
  wake_up_fd :: int
  ev_arr :: ev_ptr
  is_wakeup :: uint8

record 'k ep_world =
  socks :: SockCtxMap
  kern :: 'k

definition Epoll_AddEvRead :: "'k ctl \<Rightarrow> Epoll \<Rightarrow> int \<Rightarrow> uint32 \<Rightarrow> 'k ep_world \<Rightarrow> bool \<times> 'k ep_world" where
  [model_defs]: "Epoll_AddEvRead ctl e fd co_id w =
     (if fd < 0 then (False, w)
      else let ctx = get_sock_ctx (socks w) fd in
        if SockCtx_has_ev_read ctx then (True, w)
        else let has_ev_write = SockCtx_has_ev_write_by (sched_id e) ctx;
                 ev = \<lparr>events = (if has_ev_write then EPOLLIN OR EPOLLOUT OR EPOLLET else EPOLLIN OR EPOLLET),
                       data_fd = fd\<rparr>;
                 ((res, errno), k) = ctl (if has_ev_write then EPOLL_CTL_MOD else EPOLL_CTL_ADD) fd (Some ev) (kern w)
             in if res = 0
                then (True, w\<lparr>kern := k, socks := (socks w)(fd := SockCtx_AddEvRead (sched_id e) co_id ctx)\<rparr>)
                else (False, w\<lparr>kern := k\<rparr>))"

definition Epoll_AddEvWrite :: "'k ctl \<Rightarrow> Epoll \<Rightarrow> int \<Rightarrow> uint32 \<Rightarrow> 'k ep_world \<Rightarrow> bool \<times> 'k ep_world" where
  [model_defs]: "Epoll_AddEvWrite ctl e fd co_id w =
     (if fd < 0 then (False, w)
      else let ctx = get_sock_ctx (socks w) fd in
        if SockCtx_has_ev_write ctx then (True, w)
        else let has_ev_read = SockCtx_has_ev_read_by (sched_id e) ctx;
                 ev = \<lparr>events = (if has_ev_read then EPOLLOUT OR EPOLLIN OR EPOLLET else EPOLLOUT OR EPOLLET),
                       data_fd = fd\<rparr>;
                 ((res, errno), k) = ctl (if has_ev_read then EPOLL_CTL_MOD else EPOLL_CTL_ADD) fd (Some ev) (kern w)
             in if res = 0
                then (True, w\<lparr>kern := k, socks := (socks w)(fd := SockCtx_AddEvWrite (sched_id e) co_id ctx)\<rparr>)
                else (False, w\<lparr>kern := k\<rparr>))"

text \<open>The deletions log a failure and go on; \<open>co_id\<close> is not used. The event passed to
  \<open>EPOLL_CTL_MOD\<close> is value-initialised and only its \<open>events\<close> are set.\<close>

definition Epoll_DelEvRead :: "'k ctl \<Rightarrow> Epoll \<Rightarrow> int \<Rightarrow> uint32 \<Rightarrow> 'k ep_world \<Rightarrow> 'k ep_world" where
  [model_defs]: "Epoll_DelEvRead ctl e fd co_id w =
     (if fd < 0 then w
      else let ctx = get_sock_ctx (socks w) fd in
        if \<not> SockCtx_has_ev_read ctx then w
        else let ctx = SockCtx_DelEvRead ctx;
                 (answer, k) =
                   (if \<not> SockCtx_has_ev_write ctx then ctl EPOLL_CTL_DEL fd None (kern w)
                    else ctl EPOLL_CTL_MOD fd (Some \<lparr>events = EPOLLOUT OR EPOLLET, data_fd = 0\<rparr>) (kern w))
             in w\<lparr>kern := k, socks := (socks w)(fd := ctx)\<rparr>)"

definition Epoll_DelEvWrite :: "'k ctl \<Rightarrow> Epoll \<Rightarrow> int \<Rightarrow> uint32 \<Rightarrow> 'k ep_world \<Rightarrow> 'k ep_world" where
  [model_defs]: "Epoll_DelEvWrite ctl e fd co_id w =
     (if fd < 0 then w
      else let ctx = get_sock_ctx (socks w) fd in
        if \<not> SockCtx_has_ev_write ctx then w
        else let ctx = SockCtx_DelEvWrite ctx;
                 (answer, k) =
                   (if \<not> SockCtx_has_ev_read ctx then ctl EPOLL_CTL_DEL fd None (kern w)
                    else ctl EPOLL_CTL_MOD fd (Some \<lparr>events = EPOLLIN OR EPOLLET, data_fd = 0\<rparr>) (kern w))
             in w\<lparr>kern := k, socks := (socks w)(fd := ctx)\<rparr>)"

definition Epoll_DelEvent :: "'k ctl \<Rightarrow> Epoll \<Rightarrow> int \<Rightarrow> 'k ep_world \<Rightarrow> 'k ep_world" where
  [model_defs]: "Epoll_DelEvent ctl e fd w =
     (if fd < 0 then w
      else let ctx = get_sock_ctx (socks w) fd in
        if SockCtx_has_event ctx then
          let (answer, k) = ctl EPOLL_CTL_DEL fd None (kern w)
          in w\<lparr>kern := k, socks := (socks w)(fd := SockCtx_DelEvent ctx)\<rparr>
        else w)"

text \<open>The constructor: \<open>evtfd\<close> and \<open>ep\<close> are the answers of \<open>eventfd\<close> and
  \<open>epoll_create1\<close>, \<open>calloc_ok\<close> says whether the event array was allocated. A negative
  \<open>evtfd\<close> aborts the program; the other two failures leave the object without the wake-up
  event. \<open>is_wakeup_\<close> is 0 or 1.\<close>

definition Epoll_Epoll :: "'k ctl \<Rightarrow> int \<Rightarrow> int \<Rightarrow> bool \<Rightarrow> uint32 \<Rightarrow> 'k ep_world \<Rightarrow> (Epoll \<times> 'k ep_world) res" where
  [model_defs]: "Epoll_Epoll ctl evtfd epfd calloc_ok sid w =
     (if evtfd < 0 then Inl AssertFail
      else let e = \<lparr>ep = epfd, sched_id = sid, wake_up_fd = evtfd, ev_arr = EvUninit, is_wakeup = 0\<rparr>
           in if epfd < 0 then Inr (e, w)
              else if \<not> calloc_ok then Inr (e\<lparr>ev_arr := EvNull\<rparr>, w)
              else let e = e\<lparr>ev_arr := EvBlock\<rparr> in Inr (e, snd (Epoll_AddEvRead ctl e evtfd 0 w)))"

text \<open>What closing and destruction release, in order.\<close>

datatype ep_release = FreeEvents | CloseFd int

definition Epoll_Close :: "Epoll \<Rightarrow> ep_release list" where
  [model_defs]: "Epoll_Close e = [CloseFd (wake_up_fd e), CloseFd (ep e)]"

definition Epoll_destroy :: "Epoll \<Rightarrow> (ep_release list \<times> Epoll) res" where
  [model_defs]: "Epoll_destroy e =
     (case ev_arr e of
        EvUninit \<Rightarrow> Inl WildPointer
      | EvNull \<Rightarrow> Inr (Epoll_Close e, e)
      | EvBlock \<Rightarrow> Inr (FreeEvents # Epoll_Close e, e\<lparr>ev_arr := EvNull\<rparr>))"

text \<open>\<open>epoll_wait\<close> is a function of its arguments: descriptor, array, capacity and time-out.\<close>

definition Epoll_Wait :: "(int \<Rightarrow> ev_ptr \<Rightarrow> nat \<Rightarrow> int \<Rightarrow> 'a) \<Rightarrow> Epoll \<Rightarrow> int \<Rightarrow> 'a" where
  [model_defs]: "Epoll_Wait epoll_wait e ms = epoll_wait (ep e) (ev_arr e) kEventNum ms"

definition Epoll_index :: "epoll_event list \<Rightarrow> nat \<Rightarrow> epoll_event res" where
  [model_defs]: "Epoll_index arr i = (if i < length arr then Inr (arr ! i) else Inl OutOfBounds)"

definition Epoll_is_wakeup_fd :: "Epoll \<Rightarrow> epoll_event \<Rightarrow> bool" where
  [model_defs]: "Epoll_is_wakeup_fd e ev \<longleftrightarrow> data_fd ev = wake_up_fd e"

definition Epoll_user_data :: "epoll_event \<Rightarrow> int" where
  [model_defs]: "Epoll_user_data ev = data_fd ev"

text \<open>An object whose construction succeeded gives back what it took: the array once, and each of its two
  descriptors once. One whose \<open>epoll_create1\<close> failed frees a pointer that was never set.\<close>

lemma Epoll_destroy_releases:
  assumes "Epoll_Epoll ctl evtfd epfd calloc_ok sid w = Inr (e, w')"
  shows "epfd \<ge> 0 \<Longrightarrow> \<exists>e'. Epoll_destroy e =
      Inr ((if calloc_ok then [FreeEvents] else []) @ [CloseFd evtfd, CloseFd epfd], e') \<and> ev_arr e' = EvNull"
    and "epfd < 0 \<Longrightarrow> Epoll_destroy e = Inl WildPointer"
  using assms by (auto simp: Epoll_Epoll_def Epoll_destroy_def Epoll_Close_def Let_def split: if_splits)

section \<open>Waking up\<close>

text \<open>The loops around \<open>write\<close> and \<open>read\<close> of the eventfd, on the answers the kernel
  gives. An answer of 10 bytes or more would repeat the call, as \<open>EINTR\<close> does.\<close>

fun eventfd_loop :: "answer list \<Rightarrow> answer list option" where
  "eventfd_loop [] = None"
| "eventfd_loop ((res, errno) # as) =
     (if res \<noteq> - 1 then (if res < 10 then Some as else eventfd_loop as)
      else if errno = EWOULDBLOCK \<or> errno = EAGAIN then Some as
      else if errno = EINTR then eventfd_loop as
      else Some as)"

definition Epoll_Wakeup :: "answer list \<Rightarrow> Epoll \<Rightarrow> (Epoll \<times> answer list) option" where
  [model_defs]: "Epoll_Wakeup as e =
     (let (old, new) = atomic_compare_swap 0 1 (is_wakeup e); e1 = e\<lparr>is_wakeup := new\<rparr>
      in if old = 0 then map_option (Pair e1) (eventfd_loop as) else Some (e1, as))"

definition Epoll_HandleWakeUpEvent :: "answer list \<Rightarrow> Epoll \<Rightarrow> (Epoll \<times> answer list) option" where
  [model_defs]: "Epoll_HandleWakeUpEvent as e =
     map_option (\<lambda>rest. (e\<lparr>is_wakeup := snd (atomic_swap 0 (is_wakeup e))\<rparr>, rest)) (eventfd_loop as)"

section \<open>The kernel's interest list follows the contexts\<close>

text \<open>What the manual page of \<open>epoll_ctl\<close> documents: a call changes the interest list at
  its descriptor only, and not at all when it fails; adding succeeds only on a descriptor that is not registered,
  modifying and deleting only on one that is. Any of them may fail, for instance for lack of memory
  (\<open>ENOMEM\<close>); \<open>keeps_up\<close> says of a kernel that modifying and deleting what is registered never does.\<close>

definition epoll_laws :: "'k ctl \<Rightarrow> ('k \<Rightarrow> int \<Rightarrow> epoll_event option) \<Rightarrow> bool" where
  "epoll_laws ctl interest \<longleftrightarrow>
     (\<forall>op fd ev k. case ctl op fd ev k of ((res, errno), k') \<Rightarrow>
        (\<forall>fd'. fd' \<noteq> fd \<longrightarrow> interest k' fd' = interest k fd') \<and>
        (res \<noteq> 0 \<longrightarrow> interest k' fd = interest k fd) \<and>
        (op = EPOLL_CTL_ADD \<longrightarrow> res = 0 \<longrightarrow> interest k fd = None \<and> interest k' fd = ev) \<and>
        (op = EPOLL_CTL_MOD \<longrightarrow> res = 0 \<longrightarrow> interest k fd \<noteq> None \<and> interest k' fd = ev) \<and>
        (op = EPOLL_CTL_DEL \<longrightarrow> res = 0 \<longrightarrow> interest k fd \<noteq> None \<and> interest k' fd = None))"

definition keeps_up :: "'k ctl \<Rightarrow> ('k \<Rightarrow> int \<Rightarrow> epoll_event option) \<Rightarrow> bool" where
  "keeps_up ctl interest \<longleftrightarrow>
     (\<forall>op fd ev k. op \<noteq> EPOLL_CTL_ADD \<longrightarrow> interest k fd \<noteq> None \<longrightarrow> fst (fst (ctl op fd ev k)) = 0)"

text \<open>An entry of the list: for input, for output, and whether its events carry the number of the descriptor or 0.\<close>

record reg =
  for_in :: bool
  for_out :: bool
  routed :: bool

definition entry :: "int \<Rightarrow> reg \<Rightarrow> epoll_event option" where
  "entry fd r =
     (if for_in r \<or> for_out r
      then Some \<lparr>events = (if for_in r then EPOLLIN else 0) OR (if for_out r then EPOLLOUT else 0) OR EPOLLET,
                 data_fd = (if routed r then fd else 0)\<rparr>
      else None)"

definition unregistered :: reg where
  "unregistered = \<lparr>for_in = False, for_out = False, routed = False\<rparr>"

text \<open>With a single scheduler every registered event is its own.\<close>

definition owned :: "uint32 \<Rightarrow> SockCtx \<Rightarrow> bool" where
  "owned sid c \<longleftrightarrow>
     (SockCtx_has_ev_read c \<longrightarrow> ev_sched_id (read_ev c) = sid) \<and>
     (SockCtx_has_ev_write c \<longrightarrow> ev_sched_id (write_ev c) = sid)"

text \<open>The list has at least what the contexts ask for; and the contexts and the list are what an abstract state says.\<close>

definition ep_covers :: "('k \<Rightarrow> int \<Rightarrow> epoll_event option) \<Rightarrow> uint32 \<Rightarrow> 'k ep_world \<Rightarrow> bool" where
  [inv_defs]: "ep_covers interest sid w \<longleftrightarrow>
     (\<forall>fd. owned sid (socks w fd) \<and> (\<exists>r. interest (kern w) fd = entry fd r \<and>
        (SockCtx_has_ev_read (socks w fd) \<longrightarrow> for_in r) \<and> (SockCtx_has_ev_write (socks w fd) \<longrightarrow> for_out r)))"

definition ep_sim :: "('k \<Rightarrow> int \<Rightarrow> epoll_event option) \<Rightarrow> uint32 \<Rightarrow> (int \<Rightarrow> reg) \<Rightarrow> 'k ep_world \<Rightarrow> bool" where
  [inv_defs]: "ep_sim interest sid st w \<longleftrightarrow>
     (\<forall>fd. owned sid (socks w fd) \<and> interest (kern w) fd = entry fd (st fd) \<and>
        SockCtx_has_ev_read (socks w fd) = for_in (st fd) \<and> SockCtx_has_ev_write (socks w fd) = for_out (st fd))"

datatype ep_op = AddEvRead int uint32 | AddEvWrite int uint32 | DelEvRead int uint32
  | DelEvWrite int uint32 | DelEvent int

fun ep_step :: "'k ctl \<Rightarrow> Epoll \<Rightarrow> ep_op \<Rightarrow> 'k ep_world \<Rightarrow> bool \<times> 'k ep_world" where
  "ep_step ctl e (AddEvRead fd co) w = Epoll_AddEvRead ctl e fd co w"
| "ep_step ctl e (AddEvWrite fd co) w = Epoll_AddEvWrite ctl e fd co w"
| "ep_step ctl e (DelEvRead fd co) w = (True, Epoll_DelEvRead ctl e fd co w)"
| "ep_step ctl e (DelEvWrite fd co) w = (True, Epoll_DelEvWrite ctl e fd co w)"
| "ep_step ctl e (DelEvent fd) w = (True, Epoll_DelEvent ctl e fd w)"

fun co_id_ok :: "ep_op \<Rightarrow> bool" where
  "co_id_ok (AddEvRead fd co) = (co \<noteq> - 1)"
| "co_id_ok (AddEvWrite fd co) = (co \<noteq> - 1)"
| "co_id_ok _ = True"

text \<open>What the operations promise, given what the additions answered: the deletion of one of two events leaves the other,
  without the number of the descriptor, until an addition sets it again.\<close>

fun reg_step :: "ep_op \<times> bool \<Rightarrow> (int \<Rightarrow> reg) \<Rightarrow> int \<Rightarrow> reg" where
  "reg_step (AddEvRead fd co, ok) st =
     (if fd < 0 \<or> for_in (st fd) \<or> \<not> ok then st else st(fd := (st fd)\<lparr>for_in := True, routed := True\<rparr>))"
| "reg_step (AddEvWrite fd co, ok) st =
     (if fd < 0 \<or> for_out (st fd) \<or> \<not> ok then st else st(fd := (st fd)\<lparr>for_out := True, routed := True\<rparr>))"
| "reg_step (DelEvRead fd co, ok) st =
     (if fd < 0 \<or> \<not> for_in (st fd) then st else st(fd := (st fd)\<lparr>for_in := False, routed := False\<rparr>))"
| "reg_step (DelEvWrite fd co, ok) st =
     (if fd < 0 \<or> \<not> for_out (st fd) then st else st(fd := (st fd)\<lparr>for_out := False, routed := False\<rparr>))"
| "reg_step (DelEvent fd, ok) st = (if fd < 0 then st else st(fd := unregistered))"

lemmas sock_ctx_defs = SockCtx_AddEvRead_def SockCtx_AddEvWrite_def SockCtx_DelEvRead_def
  SockCtx_DelEvWrite_def SockCtx_DelEvent_def SockCtx_has_ev_read_def SockCtx_has_ev_write_def
  SockCtx_has_ev_read_by_def SockCtx_has_ev_write_by_def SockCtx_has_event_def get_sock_ctx_def

lemma SockCtx_after [simp]:
  "SockCtx_has_ev_read (SockCtx_AddEvRead s co c) \<longleftrightarrow> co \<noteq> - 1"
  "SockCtx_has_ev_write (SockCtx_AddEvRead s co c) = SockCtx_has_ev_write c"
  "SockCtx_has_ev_write (SockCtx_AddEvWrite s co c) \<longleftrightarrow> co \<noteq> - 1"
  "SockCtx_has_ev_read (SockCtx_AddEvWrite s co c) = SockCtx_has_ev_read c"
  "\<not> SockCtx_has_ev_read (SockCtx_DelEvRead c)"
  "SockCtx_has_ev_write (SockCtx_DelEvRead c) = SockCtx_has_ev_write c"
  "\<not> SockCtx_has_ev_write (SockCtx_DelEvWrite c)"
  "SockCtx_has_ev_read (SockCtx_DelEvWrite c) = SockCtx_has_ev_read c"
  "\<not> SockCtx_has_ev_read (SockCtx_DelEvent c)" "\<not> SockCtx_has_ev_write (SockCtx_DelEvent c)"
  by (simp_all add: sock_ctx_defs)

lemma owned_after [simp]:
  "owned s c \<Longrightarrow> owned s (SockCtx_AddEvRead s co c)"
  "owned s c \<Longrightarrow> owned s (SockCtx_AddEvWrite s co c)"
  "owned s c \<Longrightarrow> owned s (SockCtx_DelEvRead c)"
  "owned s c \<Longrightarrow> owned s (SockCtx_DelEvWrite c)"
  "owned s (SockCtx_DelEvent c)"
  by (simp_all add: owned_def sock_ctx_defs)

lemma owned_by:
  "owned s c \<Longrightarrow> SockCtx_has_ev_read_by s c = SockCtx_has_ev_read c"
  "owned s c \<Longrightarrow> SockCtx_has_ev_write_by s c = SockCtx_has_ev_write c"
  by (auto simp: owned_def sock_ctx_defs)

text \<open>What a call of \<open>epoll_ctl\<close> does to the list.\<close>

lemma ctl_effect:
  assumes "epoll_laws ctl interest" "ctl op fd ev k = ((res, errno), k')" "op = EPOLL_CTL_DEL \<longrightarrow> ev = None"
  shows "interest k' = (if res = 0 then (interest k)(fd := ev) else interest k)"
proof
  fix fd'
  note law = assms(1) [unfolded epoll_laws_def, THEN spec [of _ op], THEN spec [of _ fd],
      THEN spec [of _ ev], THEN spec [of _ k], unfolded assms(2) prod.case]
  show "interest k' fd' = (if res = 0 then (interest k)(fd := ev) else interest k) fd'"
    using law assms(3) by (cases op; cases "fd' = fd"; cases "res = 0") auto
qed

text \<open>The effect of the operations, where they call it. An addition changes list and context or neither; a deletion always changes the
  context, and the list unless the kernel fails.\<close>

lemma AddEvRead_effect:
  assumes "epoll_laws ctl interest" "owned (sched_id e) (socks w fd)" "Epoll_AddEvRead ctl e fd co w = (ok, w')"
  shows "fd < 0 \<or> SockCtx_has_ev_read (socks w fd) \<Longrightarrow> w' = w"
    and "\<not> fd < 0 \<Longrightarrow> \<not> SockCtx_has_ev_read (socks w fd) \<Longrightarrow>
      interest (kern w') = (if ok then (interest (kern w))(fd := entry fd \<lparr>for_in = True, for_out = SockCtx_has_ev_write (socks w fd), routed = True\<rparr>)
        else interest (kern w)) \<and>
      socks w' = (if ok then (socks w)(fd := SockCtx_AddEvRead (sched_id e) co (socks w fd)) else socks w)"
  using assms
  by (auto simp: Epoll_AddEvRead_def Let_def get_sock_ctx_def owned_by entry_def dest!: ctl_effect [OF assms(1)] split: prod.splits if_splits)

lemma AddEvWrite_effect:
  assumes "epoll_laws ctl interest" "owned (sched_id e) (socks w fd)" "Epoll_AddEvWrite ctl e fd co w = (ok, w')"
  shows "fd < 0 \<or> SockCtx_has_ev_write (socks w fd) \<Longrightarrow> w' = w"
    and "\<not> fd < 0 \<Longrightarrow> \<not> SockCtx_has_ev_write (socks w fd) \<Longrightarrow>
      interest (kern w') = (if ok then (interest (kern w))(fd := entry fd \<lparr>for_in = SockCtx_has_ev_read (socks w fd), for_out = True, routed = True\<rparr>)
        else interest (kern w)) \<and>
      socks w' = (if ok then (socks w)(fd := SockCtx_AddEvWrite (sched_id e) co (socks w fd)) else socks w)"
  using assms
  by (auto simp: Epoll_AddEvWrite_def Let_def get_sock_ctx_def owned_by entry_def or.left_commute dest!: ctl_effect [OF assms(1)] split: prod.splits if_splits)

text \<open>A deletion makes one call, after which \<open>r\<close> is to be registered.\<close>

definition del_effect :: "'k ctl \<Rightarrow> ('k \<Rightarrow> int \<Rightarrow> epoll_event option) \<Rightarrow> int \<Rightarrow> reg \<Rightarrow> SockCtx \<Rightarrow> 'k ep_world \<Rightarrow> 'k ep_world \<Rightarrow> bool" where
  "del_effect ctl interest fd r c w w' \<longleftrightarrow> socks w' = (socks w)(fd := c) \<and>
     (interest (kern w') = interest (kern w) \<and> (keeps_up ctl interest \<longrightarrow> interest (kern w) fd = None) \<or>
      interest (kern w') = (interest (kern w))(fd := entry fd r))"

lemma del_effectI:
  assumes "epoll_laws ctl interest" "entry fd r = ev"
    and "ctl (if ev = None then EPOLL_CTL_DEL else EPOLL_CTL_MOD) fd ev (kern w) = (a, k)"
  shows "del_effect ctl interest fd r c w (w\<lparr>kern := k, socks := (socks w)(fd := c)\<rparr>)"
proof -
  obtain res errno where a: "a = (res, errno)" by (metis surj_pair)
  have "interest k = (if res = 0 then (interest (kern w))(fd := ev) else interest (kern w))"
    using ctl_effect [OF assms(1) assms(3) [unfolded a]] by simp
  moreover have "keeps_up ctl interest \<Longrightarrow> interest (kern w) fd \<noteq> None \<Longrightarrow> res = 0"
    using assms(3) a by (force simp: keeps_up_def split: if_splits dest!: spec [of _ "if ev = None then EPOLL_CTL_DEL else EPOLL_CTL_MOD"]
        spec [of _ fd] spec [of _ ev] spec [of _ "kern w"])
  ultimately show ?thesis using assms(2) by (auto simp: del_effect_def)
qed

lemma DelEvRead_effect:
  assumes "epoll_laws ctl interest" "\<not> fd < 0" "SockCtx_has_ev_read (socks w fd)"
  shows "del_effect ctl interest fd \<lparr>for_in = False, for_out = SockCtx_has_ev_write (socks w fd), routed = False\<rparr>
    (SockCtx_DelEvRead (socks w fd)) w (Epoll_DelEvRead ctl e fd co w)"
proof -
  let ?r = "\<lparr>for_in = False, for_out = SockCtx_has_ev_write (socks w fd), routed = False\<rparr>"
  obtain a k where "ctl (if entry fd ?r = None then EPOLL_CTL_DEL else EPOLL_CTL_MOD) fd (entry fd ?r) (kern w) = (a, k)"
    by (metis surj_pair)
  with del_effectI [OF assms(1) refl this, where c = "SockCtx_DelEvRead (socks w fd)"] assms(2,3) show ?thesis
    by (auto simp: Epoll_DelEvRead_def Let_def get_sock_ctx_def entry_def split: if_splits)
qed

lemma DelEvWrite_effect:
  assumes "epoll_laws ctl interest" "\<not> fd < 0" "SockCtx_has_ev_write (socks w fd)"
  shows "del_effect ctl interest fd \<lparr>for_in = SockCtx_has_ev_read (socks w fd), for_out = False, routed = False\<rparr>
    (SockCtx_DelEvWrite (socks w fd)) w (Epoll_DelEvWrite ctl e fd co w)"
proof -
  let ?r = "\<lparr>for_in = SockCtx_has_ev_read (socks w fd), for_out = False, routed = False\<rparr>"
  obtain a k where "ctl (if entry fd ?r = None then EPOLL_CTL_DEL else EPOLL_CTL_MOD) fd (entry fd ?r) (kern w) = (a, k)"
    by (metis surj_pair)
  with del_effectI [OF assms(1) refl this, where c = "SockCtx_DelEvWrite (socks w fd)"] assms(2,3) show ?thesis
    by (auto simp: Epoll_DelEvWrite_def Let_def get_sock_ctx_def entry_def split: if_splits)
qed

lemma DelEvent_effect:
  assumes "epoll_laws ctl interest" "\<not> fd < 0" "SockCtx_has_event (socks w fd)"
  shows "del_effect ctl interest fd unregistered (SockCtx_DelEvent (socks w fd)) w (Epoll_DelEvent ctl e fd w)"
proof -
  obtain a k where "ctl EPOLL_CTL_DEL fd None (kern w) = (a, k)" by (metis surj_pair)
  with del_effectI [OF assms(1), of fd unregistered None w a k "SockCtx_DelEvent (socks w fd)"] assms(2,3) show ?thesis
    by (simp add: Epoll_DelEvent_def Let_def get_sock_ctx_def entry_def unregistered_def)
qed

text \<open>A deletion that drops to the context \<open>c\<close> and the registration \<open>r\<close>.\<close>

lemma ep_covers_del:
  assumes "ep_covers interest s w" "del_effect ctl interest fd r c w w'" "owned s c"
    and "SockCtx_has_ev_read c \<Longrightarrow> SockCtx_has_ev_read (socks w fd) \<and> for_in r"
    and "SockCtx_has_ev_write c \<Longrightarrow> SockCtx_has_ev_write (socks w fd) \<and> for_out r"
  shows "ep_covers interest s w'"
proof -
  have c: "owned s (socks w fd')" "\<exists>r. interest (kern w) fd' = entry fd' r \<and>
      (SockCtx_has_ev_read (socks w fd') \<longrightarrow> for_in r) \<and> (SockCtx_has_ev_write (socks w fd') \<longrightarrow> for_out r)" for fd'
    using assms(1) by (auto simp: ep_covers_def)
  have "socks w' = (socks w)(fd := c)"
    "interest (kern w') = interest (kern w) \<or> interest (kern w') = (interest (kern w))(fd := entry fd r)"
    using assms(2) by (auto simp: del_effect_def)
  with c c(2) [of fd] assms(3-5) show ?thesis unfolding ep_covers_def by fastforce
qed

lemma ep_sim_del:
  assumes "keeps_up ctl interest" "ep_sim interest s st w" "del_effect ctl interest fd r c w w'" "owned s c"
    and "for_in (st fd) \<or> for_out (st fd)" "SockCtx_has_ev_read c = for_in r" "SockCtx_has_ev_write c = for_out r"
  shows "ep_sim interest s (st(fd := r)) w'"
  using assms unfolding ep_sim_def del_effect_def by (auto simp: entry_def split: if_splits)

lemma ep_covers_step:
  assumes laws: "epoll_laws ctl interest" and ok: "ep_covers interest (sched_id e) w" "co_id_ok op"
  shows "ep_covers interest (sched_id e) (snd (ep_step ctl e op w))"
proof -
  have own: "owned (sched_id e) (socks w fd)" for fd using ok(1) by (simp add: ep_covers_def)
  show ?thesis
  proof (cases op)
    case (AddEvRead fd co)
    obtain b w' where r: "Epoll_AddEvRead ctl e fd co w = (b, w')" by force
    note eff = AddEvRead_effect [OF laws own r]
    show ?thesis
      using eff ok AddEvRead r own [of fd] by (cases "fd < 0 \<or> SockCtx_has_ev_read (socks w fd)"; cases b) (auto simp: ep_covers_def)
  next
    case (AddEvWrite fd co)
    obtain b w' where r: "Epoll_AddEvWrite ctl e fd co w = (b, w')" by force
    note eff = AddEvWrite_effect [OF laws own r]
    show ?thesis
      using eff ok AddEvWrite r own [of fd] by (cases "fd < 0 \<or> SockCtx_has_ev_write (socks w fd)"; cases b) (auto simp: ep_covers_def)
  next
    case (DelEvRead fd co)
    show ?thesis
    proof (cases "fd < 0 \<or> \<not> SockCtx_has_ev_read (socks w fd)")
      case True
      with DelEvRead ok(1) show ?thesis by (auto simp: Epoll_DelEvRead_def get_sock_ctx_def)
    next
      case False
      with DelEvRead ep_covers_del [OF ok(1) DelEvRead_effect [OF laws]] own show ?thesis by simp
    qed
  next
    case (DelEvWrite fd co)
    show ?thesis
    proof (cases "fd < 0 \<or> \<not> SockCtx_has_ev_write (socks w fd)")
      case True
      with DelEvWrite ok(1) show ?thesis by (auto simp: Epoll_DelEvWrite_def get_sock_ctx_def)
    next
      case False
      with DelEvWrite ep_covers_del [OF ok(1) DelEvWrite_effect [OF laws]] own show ?thesis by simp
    qed
  next
    case (DelEvent fd)
    show ?thesis
    proof (cases "fd < 0 \<or> \<not> SockCtx_has_event (socks w fd)")
      case True
      with DelEvent ok(1) show ?thesis by (auto simp: Epoll_DelEvent_def get_sock_ctx_def)
    next
      case False
      with DelEvent ep_covers_del [OF ok(1) DelEvent_effect [OF laws]] show ?thesis by simp
    qed
  qed
qed

lemma ep_sim_step:
  assumes laws: "epoll_laws ctl interest" "keeps_up ctl interest" and ok: "ep_sim interest (sched_id e) st w" "co_id_ok op"
    and step: "ep_step ctl e op w = (b, w')"
  shows "ep_sim interest (sched_id e) (reg_step (op, b) st) w'"
proof -
  have own: "owned (sched_id e) (socks w fd)" and has: "SockCtx_has_ev_read (socks w fd) = for_in (st fd)"
      "SockCtx_has_ev_write (socks w fd) = for_out (st fd)" for fd
    using ok(1) by (simp_all add: ep_sim_def)
  show ?thesis
  proof (cases op)
    case (AddEvRead fd co)
    with step have r: "Epoll_AddEvRead ctl e fd co w = (b, w')" by simp
    note eff = AddEvRead_effect [OF laws(1) own r]
    show ?thesis
      using eff ok AddEvRead has [of fd] own [of fd]
      by (cases "fd < 0 \<or> for_in (st fd)"; cases b) (auto simp: ep_sim_def entry_def)
  next
    case (AddEvWrite fd co)
    with step have r: "Epoll_AddEvWrite ctl e fd co w = (b, w')" by simp
    note eff = AddEvWrite_effect [OF laws(1) own r]
    show ?thesis
      using eff ok AddEvWrite has [of fd] own [of fd]
      by (cases "fd < 0 \<or> for_out (st fd)"; cases b) (auto simp: ep_sim_def entry_def)
  next
    case (DelEvRead fd co)
    show ?thesis
    proof (cases "fd < 0 \<or> \<not> for_in (st fd)")
      case True
      with DelEvRead ok(1) step has [of fd] show ?thesis by (auto simp: Epoll_DelEvRead_def get_sock_ctx_def)
    next
      case False
      have "(st fd)\<lparr>for_in := False, routed := False\<rparr> = \<lparr>for_in = False, for_out = SockCtx_has_ev_write (socks w fd), routed = False\<rparr>"
        using has [of fd] by simp
      moreover have "ep_sim interest (sched_id e)
          (st(fd := \<lparr>for_in = False, for_out = SockCtx_has_ev_write (socks w fd), routed = False\<rparr>)) (Epoll_DelEvRead ctl e fd co w)"
        using False has [of fd] own by (intro ep_sim_del [OF laws(2) ok(1) DelEvRead_effect [OF laws(1)]]) simp_all
      ultimately show ?thesis using False DelEvRead step by simp
    qed
  next
    case (DelEvWrite fd co)
    show ?thesis
    proof (cases "fd < 0 \<or> \<not> for_out (st fd)")
      case True
      with DelEvWrite ok(1) step has [of fd] show ?thesis by (auto simp: Epoll_DelEvWrite_def get_sock_ctx_def)
    next
      case False
      have "(st fd)\<lparr>for_out := False, routed := False\<rparr> = \<lparr>for_in = SockCtx_has_ev_read (socks w fd), for_out = False, routed = False\<rparr>"
        using has [of fd] by simp
      moreover have "ep_sim interest (sched_id e)
          (st(fd := \<lparr>for_in = SockCtx_has_ev_read (socks w fd), for_out = False, routed = False\<rparr>)) (Epoll_DelEvWrite ctl e fd co w)"
        using False has [of fd] own by (intro ep_sim_del [OF laws(2) ok(1) DelEvWrite_effect [OF laws(1)]]) simp_all
      ultimately show ?thesis using False DelEvWrite step by simp
    qed
  next
    case (DelEvent fd)
    show ?thesis
    proof (cases "fd < 0 \<or> \<not> SockCtx_has_event (socks w fd)")
      case True
      then have w': "w' = w" using DelEvent step by (auto simp: Epoll_DelEvent_def get_sock_ctx_def)
      show ?thesis
      proof (cases "fd < 0")
        case False
        with True has [of fd] have "\<not> for_in (st fd)" "\<not> for_out (st fd)" by (simp_all add: SockCtx_has_event_def)
        then have "for_in ((st(fd := unregistered)) x) = for_in (st x)" "for_out ((st(fd := unregistered)) x) = for_out (st x)"
          "entry x ((st(fd := unregistered)) x) = entry x (st x)" for x
          by (simp_all add: unregistered_def entry_def)
        with ok(1) False DelEvent w' show ?thesis by (simp add: ep_sim_def del: fun_upd_apply)
      qed (use DelEvent w' ok(1) in simp)
    next
      case False
      then have "ep_sim interest (sched_id e) (st(fd := unregistered)) (Epoll_DelEvent ctl e fd w)"
        using has [of fd] by (intro ep_sim_del [OF laws(2) ok(1) DelEvent_effect [OF laws(1)]]) (auto simp: SockCtx_has_event_def unregistered_def)
      with False DelEvent step show ?thesis by simp
    qed
  qed
qed

interpretation epolls: op_invariant "ep_step ctl e" co_id_ok
    "\<lambda>w. epoll_laws ctl interest \<longrightarrow> ep_covers interest (sched_id e) w" for ctl e interest
  by unfold_locales (simp add: ep_covers_step)

lemma ep_sim_run:
  assumes "epoll_laws ctl interest" "keeps_up ctl interest"
  shows "ep_sim interest (sched_id e) st w \<Longrightarrow> \<forall>op \<in> set ops. co_id_ok op \<Longrightarrow> run_ops (ep_step ctl e) ops w = (results, w') \<Longrightarrow>
    ep_sim interest (sched_id e) (fold reg_step (zip ops results) st) w'"
proof (induction ops arbitrary: st w results)
  case (Cons op ops)
  obtain b w1 where s: "ep_step ctl e op w = (b, w1)" by force
  obtain bs w2 where r: "run_ops (ep_step ctl e) ops w1 = (bs, w2)" by force
  have "results = b # bs" "w2 = w'" using Cons.prems(3) s r by auto
  moreover have "ep_sim interest (sched_id e) (reg_step (op, b) st) w1"
    using ep_sim_step [OF assms Cons.prems(1) _ s] Cons.prems(2) by simp
  ultimately show ?case using Cons.IH [of "reg_step (op, b) st" w1 bs] Cons.prems(2) r by simp
qed simp

text \<open>A reference kernel that satisfies the laws: the interest list itself.\<close>

fun ref_ctl :: "(int \<Rightarrow> epoll_event option) ctl" where
  "ref_ctl EPOLL_CTL_ADD fd ev k = (if k fd = None then ((0, 0), k(fd := ev)) else ((- 1, 17), k))"
| "ref_ctl EPOLL_CTL_MOD fd ev k = (if k fd \<noteq> None then ((0, 0), k(fd := ev)) else ((- 1, ENOENT), k))"
| "ref_ctl EPOLL_CTL_DEL fd ev k = (if k fd \<noteq> None then ((0, 0), k(fd := None)) else ((- 1, ENOENT), k))"

lemma ref_ctl_laws: "epoll_laws ref_ctl (\<lambda>k. k)" "keeps_up ref_ctl (\<lambda>k. k)"
proof -
  show "epoll_laws ref_ctl (\<lambda>k. k)"
    unfolding epoll_laws_def
  proof (intro allI)
    fix op fd ev and k :: "int \<Rightarrow> epoll_event option"
    show "case ref_ctl op fd ev k of ((res, errno), k') \<Rightarrow>
        (\<forall>fd'. fd' \<noteq> fd \<longrightarrow> k' fd' = k fd') \<and> (res \<noteq> 0 \<longrightarrow> k' fd = k fd) \<and>
        (op = EPOLL_CTL_ADD \<longrightarrow> res = 0 \<longrightarrow> k fd = None \<and> k' fd = ev) \<and>
        (op = EPOLL_CTL_MOD \<longrightarrow> res = 0 \<longrightarrow> k fd \<noteq> None \<and> k' fd = ev) \<and>
        (op = EPOLL_CTL_DEL \<longrightarrow> res = 0 \<longrightarrow> k fd \<noteq> None \<and> k' fd = None)"
      by (cases op) simp_all
  qed
  have "op \<noteq> EPOLL_CTL_ADD \<Longrightarrow> k fd \<noteq> None \<Longrightarrow> fst (fst (ref_ctl op fd ev k)) = 0" for op fd ev k
    by (cases op) simp_all
  then show "keeps_up ref_ctl (\<lambda>k. k)" by (simp add: keeps_up_def)
qed

definition ep_world_init :: "(int \<Rightarrow> epoll_event option) ep_world" where
  "ep_world_init = \<lparr>socks = (\<lambda>_. SockCtx_init), kern = (\<lambda>_. None)\<rparr>"

definition epoll0 :: Epoll where
  "epoll0 = \<lparr>ep = 3, sched_id = 0, wake_up_fd = 4, ev_arr = EvBlock, is_wakeup = 0\<rparr>"

lemma SockCtx_init_no_event: "\<not> SockCtx_has_ev_read SockCtx_init" "\<not> SockCtx_has_ev_write SockCtx_init"
  by (simp_all add: SockCtx_init_def)

lemma ep_world_init_ok: "ep_sim (\<lambda>k. k) s (\<lambda>_. unregistered) ep_world_init"
  by (simp add: ep_sim_def ep_world_init_def owned_def entry_def unregistered_def SockCtx_init_no_event)

text \<open>C32: the kernel's interest list after any sequence of additions and deletions of read and write events, with one scheduler. Whatever
  the kernel answers within the documented behaviour of \<open>epoll_ctl\<close>, failures of any call included, every event that a context asks for is in the
  list, as an entry of the three forms with the number of the descriptor or 0 as its data. If modifications and deletions of registered
  descriptors do not fail, contexts and entries are exactly those of a table per descriptor that follows the operations and the
  answers of the additions: read, write, and whether the entry carries the number of the descriptor. The deletion of one of two
  events keeps the other in the list but makes its data 0, so that its events are reported for descriptor 0, until the next successful
  addition.\<close>

theorem epoll_interest_refines:
  assumes "epoll_laws ctl interest" "ep_sim interest (sched_id e) st w" "\<forall>op \<in> set ops. co_id_ok op"
    and "run_ops (ep_step ctl e) ops w = (results, w')"
  shows "(\<exists>r. interest (kern w') fd = entry fd r \<and>
      (SockCtx_has_ev_read (socks w' fd) \<longrightarrow> for_in r) \<and> (SockCtx_has_ev_write (socks w' fd) \<longrightarrow> for_out r)) \<and>
    (keeps_up ctl interest \<longrightarrow>
      (let r = fold reg_step (zip ops results) st fd in
       interest (kern w') fd = entry fd r \<and>
       SockCtx_has_ev_read (socks w' fd) = for_in r \<and> SockCtx_has_ev_write (socks w' fd) = for_out r))"
proof -
  have "ep_covers interest (sched_id e) w" using assms(2) by (auto simp: ep_sim_def ep_covers_def)
  then have "ep_covers interest (sched_id e) w'" using epolls.invar_run [of ctl interest e w ops] assms by simp
  moreover have "ep_sim interest (sched_id e) (fold reg_step (zip ops results) st) w'" if "keeps_up ctl interest"
    by (rule ep_sim_run [OF assms(1) that assms(2-4)])
  ultimately show ?thesis by (simp add: ep_covers_def ep_sim_def Let_def)
qed

theorem epoll_interest_refines_witness:
  "\<exists>results w'. run_ops (ep_step ref_ctl epoll0) [AddEvRead 7 1, AddEvWrite 7 2, DelEvRead 7 1] ep_world_init =
     (results, w') \<and> kern w' 7 = Some \<lparr>events = EPOLLOUT OR EPOLLET, data_fd = 0\<rparr>"
proof -
  let ?ops = "[AddEvRead 7 1, AddEvWrite 7 2, DelEvRead 7 1]"
  obtain results w' where r: "run_ops (ep_step ref_ctl epoll0) ?ops ep_world_init = (results, w')"
    by (metis surj_pair)
  then have "results = [True, True, True]"
    by (auto simp: ep_world_init_def epoll0_def Epoll_AddEvRead_def Epoll_AddEvWrite_def Epoll_DelEvRead_def
        Let_def sock_ctx_defs SockCtx_init_def)
  with epoll_interest_refines [OF ref_ctl_laws(1) ep_world_init_ok _ r, of 7] ref_ctl_laws(2) r show ?thesis
    by (simp add: unregistered_def entry_def)
qed

text \<open>What adding an event answers, on every branch. It refuses a negative descriptor; it
  succeeds without any change when the context already has an event of that kind, even
  one of another coroutine, so that a second reader of a descriptor is told it is
  registered while events go to the first; otherwise it answers what the kernel answers and on
  success records the calling coroutine, for its scheduler, and nothing else.\<close>

theorem Epoll_AddEvRead_branches:
  assumes "co \<noteq> - 1" "Epoll_AddEvRead ctl e fd co w = (ok, w')"
  shows "(fd < 0 \<longrightarrow> \<not> ok \<and> w' = w) \<and>
    (fd \<ge> 0 \<longrightarrow> SockCtx_has_ev_read (socks w fd) \<longrightarrow> ok \<and> w' = w) \<and>
    (fd \<ge> 0 \<longrightarrow> \<not> SockCtx_has_ev_read (socks w fd) \<longrightarrow>
       (ok \<longleftrightarrow> fst (fst (if SockCtx_has_ev_write_by (sched_id e) (socks w fd)
          then ctl EPOLL_CTL_MOD fd (Some \<lparr>events = EPOLLIN OR EPOLLOUT OR EPOLLET, data_fd = fd\<rparr>) (kern w)
          else ctl EPOLL_CTL_ADD fd (Some \<lparr>events = EPOLLIN OR EPOLLET, data_fd = fd\<rparr>) (kern w))) = 0) \<and>
       (ok \<longrightarrow> SockCtx_get_read_co_id (sched_id e) (socks w' fd) = co) \<and> (\<not> ok \<longrightarrow> socks w' = socks w) \<and>
       write_ev (socks w' fd) = write_ev (socks w fd) \<and> (\<forall>fd'. fd' \<noteq> fd \<longrightarrow> socks w' fd' = socks w fd'))"
  using assms(2)
  by (auto simp: Epoll_AddEvRead_def Let_def get_sock_ctx_def SockCtx_AddEvRead_def
      SockCtx_get_read_co_id_def split: prod.splits if_splits)

theorem Epoll_AddEvRead_branches_witness:
  "\<exists>w'. Epoll_AddEvRead ref_ctl epoll0 7 1 ep_world_init = (True, w') \<and>
     SockCtx_get_read_co_id 0 (socks w' 7) = 1 \<and> Epoll_AddEvRead ref_ctl epoll0 7 2 w' = (True, w')"
proof -
  obtain ok w' where r: "Epoll_AddEvRead ref_ctl epoll0 7 1 ep_world_init = (ok, w')" by (metis surj_pair)
  then have ok: "ok" "SockCtx_has_ev_read (socks w' 7)"
    by (auto simp: ep_world_init_def epoll0_def Epoll_AddEvRead_def Let_def sock_ctx_defs SockCtx_init_def)
  obtain ok2 w2 where r2: "Epoll_AddEvRead ref_ctl epoll0 7 2 w' = (ok2, w2)" by (metis surj_pair)
  have "ok2 \<and> w2 = w'" using Epoll_AddEvRead_branches [OF _ r2] ok(2) by simp
  moreover have "SockCtx_get_read_co_id 0 (socks w' 7) = 1"
    using Epoll_AddEvRead_branches [OF _ r] ok(1)
    by (simp add: ep_world_init_def SockCtx_init_no_event epoll0_def)
  ultimately show ?thesis using r r2 ok(1) by simp
qed

text \<open>Deleting the read event of a descriptor that a coroutine also writes misroutes the
  write event. The kernel is left with an entry for the descriptor whose user data is 0,
  because the event of the modifying call carries no descriptor: the scheduler looks up descriptor
  0 when the write event arrives.\<close>

lemma DelEvRead_misroutes_write:
  assumes "epoll_laws ctl interest" "keeps_up ctl interest" "ep_sim interest (sched_id e) st w" "fd > 0"
    and "SockCtx_has_ev_read (socks w fd)" "SockCtx_has_ev_write (socks w fd)"
  shows "\<exists>ev. interest (kern (Epoll_DelEvRead ctl e fd co w)) fd = Some ev \<and>
    events ev = EPOLLOUT OR EPOLLET \<and> Epoll_user_data ev = 0"
proof -
  have "\<not> fd < 0" "interest (kern w) fd \<noteq> None" using assms(3-5) by (auto simp: ep_sim_def entry_def)
  with DelEvRead_effect [OF assms(1) this(1) assms(5), of e co] assms(2,6) show ?thesis
    by (simp add: del_effect_def entry_def Epoll_user_data_def)
qed

end
