(* ===== verification/Task_Manager.thy ===== *)
theory Task_Manager
  imports Fifo
begin

text \<open>
  The task queues of a scheduler: \<open>TaskManager\<close> of \<open>include/task_manager.h\<close> and
  \<open>src/task_manager.cc\<close>. Every operation takes the manager's mutex for its whole body, so
  the operations are atomic and an execution is a sequence of them. \<open>GetAllTasks\<close> swaps
  the manager's vectors with the caller's, each only when the manager's is not empty.

  Both queues of the manager satisfy the interface \<open>fifo\<close> (theory \<open>Fifo\<close>).
\<close>

section \<open>State and operations\<close>

record TaskManager =
  new_tasks :: "closure list"
  ready_tasks :: "co_ptr list"

definition TaskManager_init :: TaskManager where
  "TaskManager_init = \<lparr>new_tasks = [], ready_tasks = []\<rparr>"

definition TaskManager_AddNewTasks :: "closure \<Rightarrow> TaskManager \<Rightarrow> TaskManager" where
  [model_defs]: "TaskManager_AddNewTasks func tm = tm\<lparr>new_tasks := new_tasks tm @ [func]\<rparr>"

definition TaskManager_AddReadyTasks :: "co_ptr \<Rightarrow> TaskManager \<Rightarrow> TaskManager" where
  [model_defs]: "TaskManager_AddReadyTasks co tm = tm\<lparr>ready_tasks := ready_tasks tm @ [co]\<rparr>"

text \<open>The two vectors of the caller are passed in and returned, as the reference
  parameters of the source are.\<close>

definition TaskManager_GetAllTasks ::
  "closure list \<Rightarrow> co_ptr list \<Rightarrow> TaskManager \<Rightarrow> closure list \<times> co_ptr list \<times> TaskManager" where
  [model_defs]: "TaskManager_GetAllTasks news readies tm =
     (let (news', tm1) =
            (if new_tasks tm \<noteq> [] then (new_tasks tm, tm\<lparr>new_tasks := news\<rparr>) else (news, tm));
          (readies', tm2) =
            (if ready_tasks tm1 \<noteq> [] then (ready_tasks tm1, tm1\<lparr>ready_tasks := readies\<rparr>)
             else (readies, tm1))
      in (news', readies', tm2))"

text \<open>One call on the manager, by any thread, and what it does to the two queues. The
  scheduler loop calls \<open>GetAllTasks\<close> with its two vectors cleared.\<close>

datatype tm_op = AddNewTasks closure | AddReadyTasks co_ptr | GetAllTasks

datatype tm_event = AddedNew closure | AddedReady co_ptr | Got "closure list" "co_ptr list"

fun tm_step :: "tm_op \<Rightarrow> TaskManager \<Rightarrow> tm_event \<times> TaskManager" where
  "tm_step (AddNewTasks f) tm = (AddedNew f, TaskManager_AddNewTasks f tm)"
| "tm_step (AddReadyTasks co) tm = (AddedReady co, TaskManager_AddReadyTasks co tm)"
| "tm_step GetAllTasks tm =
     (case TaskManager_GetAllTasks [] [] tm of (ns, rs, tm') \<Rightarrow> (Got ns rs, tm'))"

fun new_in :: "tm_event \<Rightarrow> closure list" where
  "new_in (AddedNew f) = [f]"
| "new_in _ = []"

fun new_out :: "tm_event \<Rightarrow> closure list" where
  "new_out (Got ns rs) = ns"
| "new_out _ = []"

fun ready_in :: "tm_event \<Rightarrow> co_ptr list" where
  "ready_in (AddedReady co) = [co]"
| "ready_in _ = []"

fun ready_out :: "tm_event \<Rightarrow> co_ptr list" where
  "ready_out (Got ns rs) = rs"
| "ready_out _ = []"

section \<open>The queues are first-in first-out\<close>

lemma TaskManager_GetAllTasks_empty:
  "TaskManager_GetAllTasks [] [] tm = (new_tasks tm, ready_tasks tm, TaskManager_init)"
  by (cases tm) (simp add: TaskManager_GetAllTasks_def TaskManager_init_def)

interpretation newq: fifo tm_step "\<lambda>_. True" "\<lambda>_. True" new_tasks new_in new_out
  by unfold_locales
    (case_tac x; simp add: model_defs TaskManager_GetAllTasks_empty TaskManager_init_def)+

interpretation readyq: fifo tm_step "\<lambda>_. True" "\<lambda>_. True" ready_tasks ready_in ready_out
  by unfold_locales
    (case_tac x; simp add: model_defs TaskManager_GetAllTasks_empty TaskManager_init_def)+

text \<open>No task is lost, duplicated or reordered. For any interleaving of
  \<open>AddNewTasks\<close>, \<open>AddReadyTasks\<close> and \<open>GetAllTasks\<close> calls on a task manager, the new tasks
  handed to the scheduler loop followed by the ones still queued are the ones queued before followed by the ones
  added, in the order they were added; and the same holds of the ready coroutines.\<close>

theorem task_queues_fifo:
  "concat (map new_out (fst (run_ops tm_step ops tm))) @ new_tasks (snd (run_ops tm_step ops tm)) =
     new_tasks tm @ concat (map new_in (fst (run_ops tm_step ops tm))) \<and>
   concat (map ready_out (fst (run_ops tm_step ops tm))) @ ready_tasks (snd (run_ops tm_step ops tm)) =
     ready_tasks tm @ concat (map ready_in (fst (run_ops tm_step ops tm)))"
  using newq.run_fifo [of ops tm] readyq.run_fifo [of ops tm] by simp

text \<open>\<open>GetAllTasks\<close> only moves tasks between the manager and the caller's vectors,
  whatever these hold: together they hold the same new tasks and the same ready coroutines
  before and after.\<close>

lemma GetAllTasks_conserves:
  "case TaskManager_GetAllTasks news readies tm of (ns, rs, tm') \<Rightarrow>
     mset ns + mset (new_tasks tm') = mset news + mset (new_tasks tm) \<and>
     mset rs + mset (ready_tasks tm') = mset readies + mset (ready_tasks tm)"
  by (cases tm) (simp add: TaskManager_GetAllTasks_def)

end
