(* ===== verification/Wakeup.thy ===== *)
theory Wakeup
  imports Epoll Task_Manager
begin

text \<open>
  Handing a task to a scheduler from another thread: \<open>SchedulerImpl::AddNewTask\<close> and
  \<open>AddReadyTask\<close> (\<open>include/scheduler.h\<close>) push the task and call \<open>Epoll::Wakeup\<close>, while the
  scheduler thread runs \<open>Epoll::Wait\<close>, \<open>Epoll::HandleWakeUpEvent\<close> and \<open>GetAllTasks\<close> in
  its loop. The threads interleave at the granularity of the shared accesses: a push, the
  compare-and-swap on \<open>is_wakeup_\<close>, the \<open>write\<close> of the eventfd, \<open>epoll_wait\<close>, the
  \<open>read\<close>, the reset of the flag, the swap of the queues. The eventfd is registered edge-triggered:
  a \<open>write\<close> arms one notification, which \<open>epoll_wait\<close> delivers once.
\<close>

section \<open>The threads\<close>

text \<open>Where a producer is: about to push, about to compare-and-swap, about to write, done.\<close>

datatype work = NewTask closure | ReadyTask co_ptr

datatype producer_pc = Push work | Cas | WriteFd | Done

text \<open>Where the scheduler is: about to call \<open>epoll_wait\<close>, woken and about to read the eventfd,
  about to reset the flag, about to fetch the tasks.\<close>

datatype sched_pc = Waiting | ReadFd | ResetFlag | Fetch

fun add_work :: "work \<Rightarrow> TaskManager \<Rightarrow> TaskManager" where
  "add_work (NewTask f) tm = TaskManager_AddNewTasks f tm"
| "add_work (ReadyTask co) tm = TaskManager_AddReadyTasks co tm"

definition works :: "closure list \<Rightarrow> co_ptr list \<Rightarrow> work list" where
  "works news readies = map NewTask news @ map ReadyTask readies"

record wk_state =
  flag :: uint8 \<comment> \<open>\<open>is_wakeup_\<close>\<close>
  counter :: nat \<comment> \<open>the eventfd\<close>
  armed :: bool \<comment> \<open>a notification of the eventfd is pending\<close>
  tasks :: TaskManager
  sched :: sched_pc
  producers :: "producer_pc list"
  fetched :: "work list" \<comment> \<open>all tasks handed to the loop so far\<close>

inductive wk_step :: "wk_state \<Rightarrow> wk_state \<Rightarrow> bool" where
  push: "i < length (producers s) \<Longrightarrow> producers s ! i = Push f \<Longrightarrow>
    wk_step s (s\<lparr>tasks := add_work f (tasks s), producers := (producers s)[i := Cas]\<rparr>)"
| cas: "i < length (producers s) \<Longrightarrow> producers s ! i = Cas \<Longrightarrow>
    atomic_compare_swap 0 1 (flag s) = (old, new) \<Longrightarrow>
    wk_step s (s\<lparr>flag := new, producers := (producers s)[i := (if old = 0 then WriteFd else Done)]\<rparr>)"
| write_fd: "i < length (producers s) \<Longrightarrow> producers s ! i = WriteFd \<Longrightarrow>
    wk_step s (s\<lparr>counter := counter s + 1, armed := True, producers := (producers s)[i := Done]\<rparr>)"
| wait_wakeup: "sched s = Waiting \<Longrightarrow> armed s \<Longrightarrow> wk_step s (s\<lparr>armed := False, sched := ReadFd\<rparr>)"
| wait_other: "sched s = Waiting \<Longrightarrow> wk_step s (s\<lparr>sched := Fetch\<rparr>)"
| read_fd: "sched s = ReadFd \<Longrightarrow> wk_step s (s\<lparr>counter := 0, sched := ResetFlag\<rparr>)"
| reset_flag: "sched s = ResetFlag \<Longrightarrow>
    wk_step s (s\<lparr>flag := snd (atomic_swap 0 (flag s)), sched := Fetch\<rparr>)"
| fetch: "sched s = Fetch \<Longrightarrow> TaskManager_GetAllTasks [] [] (tasks s) = (news, readies, tm) \<Longrightarrow>
    wk_step s (s\<lparr>tasks := tm, sched := Waiting, fetched := fetched s @ works news readies\<rparr>)"

definition wk_init :: "work list \<Rightarrow> wk_state" where
  "wk_init fs = \<lparr>flag = 0, counter = 0, armed = False, tasks = TaskManager_init, sched = Waiting,
     producers = map Push fs, fetched = []\<rparr>"

abbreviation wk_reachable :: "work list \<Rightarrow> wk_state \<Rightarrow> bool" where
  "wk_reachable fs s \<equiv> wk_step\<^sup>*\<^sup>* (wk_init fs) s"

section \<open>The invariant\<close>

text \<open>The flag is set exactly while one wake-up is in flight: a producer is about to write, or
  the notification is pending, or the scheduler has it and has not reset the flag.
  \<open>in_flight\<close> counts these.\<close>

definition in_flight :: "wk_state \<Rightarrow> nat" where
  "in_flight s = count_list (producers s) WriteFd + (if armed s then 1 else 0) +
     (if sched s = ReadFd \<or> sched s = ResetFlag then 1 else 0)"

definition queued :: "TaskManager \<Rightarrow> work list" where
  "queued tm = works (new_tasks tm) (ready_tasks tm)"

fun pending :: "producer_pc \<Rightarrow> work list" where
  "pending (Push w) = [w]"
| "pending _ = []"

definition wk_inv :: "wk_state \<Rightarrow> bool" where
  [inv_defs]: "wk_inv s \<longleftrightarrow>
     flag s \<in> {0, 1} \<and> in_flight s = (if flag s = 1 then 1 else 0) \<and>
     (queued (tasks s) \<noteq> [] \<longrightarrow> Cas \<in> set (producers s) \<or> flag s = 1 \<or> sched s = Fetch)"

definition all_work :: "wk_state \<Rightarrow> work multiset" where
  "all_work s = mset (fetched s) + mset (queued (tasks s)) + mset (concat (map pending (producers s)))"

lemma queued_add_work: "mset (queued (add_work w tm)) = add_mset w (mset (queued tm))"
  by (cases w) (simp_all add: queued_def works_def model_defs)

lemma queued_init: "queued TaskManager_init = []"
  by (simp add: queued_def works_def TaskManager_init_def)

lemma pending_update:
  assumes "i < length ps"
  shows "mset (pending (ps ! i)) + mset (concat (map pending (ps[i := p]))) =
    mset (pending p) + mset (concat (map pending ps))"
  using assms
proof (induction ps arbitrary: i)
  case Nil
  then show ?case by simp
next
  case (Cons a ps)
  show ?case
  proof (cases i)
    case 0
    then show ?thesis by simp
  next
    case (Suc j)
    with Cons.IH [of j] Cons.prems show ?thesis by (simp add: ac_simps)
  qed
qed

lemma wk_init_producers: "concat (map pending (map Push fs)) = fs" "count_list (map Push fs) WriteFd = 0"
  by (induction fs) simp_all

lemma wk_inv_init: "wk_inv (wk_init fs)"
  by (simp add: wk_inv_def wk_init_def in_flight_def queued_init wk_init_producers del: map_map)

lemma wk_inv_step: "wk_step s s' \<Longrightarrow> wk_inv s \<Longrightarrow> wk_inv s'"
proof (induction rule: wk_step.induct)
  case (push i s f)
  have "Cas \<in> set ((producers s)[i := Cas])" using push by (simp add: set_update_memI)
  with push count_list_update [of i "producers s" Cas WriteFd]
  show ?case by (simp add: wk_inv_def in_flight_def)
next
  case (cas i s old new)
  show ?case
  proof (cases "flag s = 0")
    case True
    then have "old = 0" "new = 1" using cas(3) by (simp_all add: atomic_compare_swap_eq)
    with cas True count_list_update [of i "producers s" WriteFd WriteFd]
    show ?thesis by (simp add: wk_inv_def in_flight_def)
  next
    case False
    then have "old = 1" "new = 1" "flag s = 1" using cas(3,4) by (auto simp: atomic_compare_swap_eq wk_inv_def)
    with cas count_list_update [of i "producers s" Done WriteFd]
    show ?thesis by (simp add: wk_inv_def in_flight_def)
  qed
next
  case (write_fd i s)
  then have "count_list (producers s) WriteFd \<noteq> 0" by (metis count_list_0_iff nth_mem)
  with write_fd count_list_update [of i "producers s" Done WriteFd]
  show ?case by (auto simp: wk_inv_def in_flight_def split: if_splits)
next
  case (wait_wakeup s)
  then show ?case by (auto simp: wk_inv_def in_flight_def)
next
  case (wait_other s)
  then show ?case by (auto simp: wk_inv_def in_flight_def)
next
  case (read_fd s)
  then show ?case by (auto simp: wk_inv_def in_flight_def)
next
  case (reset_flag s)
  then show ?case by (auto simp: wk_inv_def in_flight_def split: if_splits)
next
  case (fetch s news readies tm)
  then show ?case
    by (auto simp: wk_inv_def in_flight_def TaskManager_GetAllTasks_empty queued_init)
qed

lemma all_work_step: "wk_step s s' \<Longrightarrow> all_work s' = all_work s"
proof (induction rule: wk_step.induct)
  case (push i s f)
  then show ?case using pending_update [of i "producers s" Cas]
    by (simp add: all_work_def queued_add_work)
next
  case (cas i s old new)
  then show ?case using pending_update [of i "producers s" "if old = 0 then WriteFd else Done"]
    by (simp add: all_work_def)
next
  case (write_fd i s)
  then show ?case using pending_update [of i "producers s" Done]
    by (simp add: all_work_def)
next
  case (fetch s news readies tm)
  then show ?case
    by (auto simp: all_work_def TaskManager_GetAllTasks_empty queued_init queued_def [symmetric])
qed (simp_all add: all_work_def)

lemma reachable_inv: "wk_reachable fs s \<Longrightarrow> wk_inv s \<and> all_work s = mset fs"
proof (induction rule: rtranclp_induct)
  case base
  have "all_work (wk_init fs) = mset fs"
    by (simp add: all_work_def wk_init_def queued_init wk_init_producers del: map_map)
  then show ?case by (simp add: wk_inv_init)
next
  case (step s s')
  then show ?case by (simp add: wk_inv_step all_work_step)
qed

section \<open>No wake-up is lost\<close>

text \<open>A step the scheduler makes on its own, without an event of another source: while it
  waits, only a pending notification of the eventfd lets it go on.\<close>

definition own_step :: "wk_state \<Rightarrow> wk_state \<Rightarrow> bool" where
  "own_step s s' \<longleftrightarrow> wk_step s s' \<and> producers s' = producers s \<and> (sched s = Waiting \<longrightarrow> armed s)"

lemma own_fetch:
  assumes "sched s = Fetch"
  shows "own_step s (s\<lparr>tasks := TaskManager_init, sched := Waiting, fetched := fetched s @ queued (tasks s)\<rparr>)"
  using wk_step.fetch [OF assms TaskManager_GetAllTasks_empty] assms
  by (simp add: own_step_def queued_def)

lemma own_reset: "sched s = ResetFlag \<Longrightarrow> own_step s (s\<lparr>flag := 0, sched := Fetch\<rparr>)"
  using wk_step.reset_flag [of s] by (simp add: own_step_def)

lemma own_read: "sched s = ReadFd \<Longrightarrow> own_step s (s\<lparr>counter := 0, sched := ResetFlag\<rparr>)"
  using wk_step.read_fd [of s] by (simp add: own_step_def)

lemma own_wait: "sched s = Waiting \<Longrightarrow> armed s \<Longrightarrow> own_step s (s\<lparr>armed := False, sched := ReadFd\<rparr>)"
  using wk_step.wait_wakeup [of s] by (simp add: own_step_def)

definition drained :: "wk_state \<Rightarrow> wk_state \<Rightarrow> bool" where
  "drained s s' \<longleftrightarrow> queued (tasks s') = [] \<and> fetched s' = fetched s @ queued (tasks s)"

lemma drain:
  assumes "sched s \<noteq> Waiting \<or> armed s"
  shows "\<exists>s'. own_step\<^sup>*\<^sup>* s s' \<and> drained s s'"
proof -
  have fetch: "\<exists>s'. own_step\<^sup>*\<^sup>* s s' \<and> drained s s'" if "sched s = Fetch" for s
    using own_fetch [OF that] by (intro exI conjI, rule r_into_rtranclp) (auto simp: drained_def queued_init)
  have reset: "\<exists>s'. own_step\<^sup>*\<^sup>* s s' \<and> drained s s'" if "sched s = ResetFlag" for s
    using fetch [of "s\<lparr>flag := 0, sched := Fetch\<rparr>"] own_reset [OF that]
    by (auto simp: drained_def intro: converse_rtranclp_into_rtranclp)
  have read: "\<exists>s'. own_step\<^sup>*\<^sup>* s s' \<and> drained s s'" if "sched s = ReadFd" for s
    using reset [of "s\<lparr>counter := 0, sched := ResetFlag\<rparr>"] own_read [OF that]
    by (auto simp: drained_def intro: converse_rtranclp_into_rtranclp)
  have wait: "\<exists>s'. own_step\<^sup>*\<^sup>* s s' \<and> drained s s'" if "sched s = Waiting" "armed s" for s
    using read [of "s\<lparr>armed := False, sched := ReadFd\<rparr>"] own_wait [OF that]
    by (auto simp: drained_def intro: converse_rtranclp_into_rtranclp)
  show ?thesis using assms fetch reset read wait by (cases "sched s") blast+
qed

text \<open>C1: a scheduler never sleeps on work. In every state the threads can reach, when the scheduler
  is about to block in \<open>epoll_wait\<close> while a task is queued, either the notification of the
  eventfd is pending, so that the call returns, or a thread that added a task is still on its way to
  write the eventfd.\<close>

theorem no_lost_wakeup:
  assumes "wk_reachable fs s" "sched s = Waiting"
    and "new_tasks (tasks s) \<noteq> [] \<or> ready_tasks (tasks s) \<noteq> []"
  shows "armed s \<or> Cas \<in> set (producers s) \<or> WriteFd \<in> set (producers s)"
proof -
  have inv: "wk_inv s" using reachable_inv [OF assms(1)] ..
  have "queued (tasks s) \<noteq> []" using assms(3) by (auto simp: queued_def works_def)
  with inv assms(2) have "Cas \<in> set (producers s) \<or> in_flight s = 1"
    by (auto simp: wk_inv_def)
  then show ?thesis
    using assms(2) by (auto simp: in_flight_def count_list_0_iff split: if_splits)
qed

text \<open>C2: every task is handed to the loop exactly once. In every reachable state nothing is lost or duplicated
  between the threads, the queues and the loop; and once all threads are through adding their tasks, the
  scheduler, with no event but its own wake-up, comes to a state in which the loop has
  received exactly the tasks that were added, each as often as it was added.\<close>

theorem all_tasks_delivered:
  assumes "wk_reachable fs s"
  shows "mset (fetched s) + mset (queued (tasks s)) + mset (concat (map pending (producers s))) = mset fs \<and>
    (set (producers s) \<subseteq> {Done} \<longrightarrow> (\<exists>s'. own_step\<^sup>*\<^sup>* s s' \<and> mset (fetched s') = mset fs))"
proof -
  have inv: "wk_inv s" and all: "all_work s = mset fs" using reachable_inv [OF assms] by simp_all
  have "\<exists>s'. own_step\<^sup>*\<^sup>* s s' \<and> mset (fetched s') = mset fs" if fin: "set (producers s) \<subseteq> {Done}"
  proof -
    have "concat (map pending (producers s)) = []" using fin by (induction "producers s") auto
    then have "mset (concat (map pending (producers s))) = {#}" by (simp only: mset.simps)
    then have f: "mset (fetched s @ queued (tasks s)) = mset fs"
      using all by (simp only: all_work_def mset_append) simp
    show ?thesis
    proof (cases "queued (tasks s) = []")
      case True
      with f show ?thesis by auto
    next
      case False
      have "Cas \<notin> set (producers s)" "WriteFd \<notin> set (producers s)" using fin by auto
      with False inv have "sched s \<noteq> Waiting \<or> armed s"
        by (auto simp: wk_inv_def in_flight_def split: if_splits)
      from drain [OF this] f show ?thesis by (auto simp: drained_def)
    qed
  qed
  with all show ?thesis by (simp add: all_work_def)
qed

section \<open>A run\<close>

text \<open>Two threads add a task while the scheduler waits; the second finds the flag set.\<close>

definition wk_two :: wk_state where
  "wk_two = \<lparr>flag = 1, counter = 1, armed = True,
     tasks = \<lparr>new_tasks = [10], ready_tasks = [3]\<rparr>, sched = Waiting, producers = [Done, Done], fetched = []\<rparr>"

lemma wk_two_reachable: "wk_reachable [NewTask 10, ReadyTask 3] wk_two"
proof -
  let ?s0 = "wk_init [NewTask 10, ReadyTask 3]"
  let ?s1 = "?s0\<lparr>tasks := \<lparr>new_tasks = [10], ready_tasks = []\<rparr>, producers := [Cas, Push (ReadyTask 3)]\<rparr>"
  let ?s2 = "?s1\<lparr>flag := 1, producers := [WriteFd, Push (ReadyTask 3)]\<rparr>"
  let ?s3 = "?s2\<lparr>tasks := \<lparr>new_tasks = [10], ready_tasks = [3]\<rparr>, producers := [WriteFd, Cas]\<rparr>"
  let ?s4 = "?s3\<lparr>producers := [WriteFd, Done]\<rparr>"
  have "wk_step ?s0 ?s1" using wk_step.push [of 0 ?s0 "NewTask 10"]
    by (simp add: wk_init_def TaskManager_init_def model_defs)
  moreover have "wk_step ?s1 ?s2" using wk_step.cas [of 0 ?s1 0 1]
    by (simp add: wk_init_def atomic_compare_swap_eq)
  moreover have "wk_step ?s2 ?s3" using wk_step.push [of 1 ?s2 "ReadyTask 3"]
    by (simp add: wk_init_def model_defs)
  moreover have "wk_step ?s3 ?s4" using wk_step.cas [of 1 ?s3 1 1]
    by (simp add: wk_init_def atomic_compare_swap_eq)
  moreover have "wk_step ?s4 wk_two" using wk_step.write_fd [of 0 ?s4]
    by (simp add: wk_init_def wk_two_def)
  ultimately show ?thesis by (meson rtranclp.rtrancl_refl rtranclp.rtrancl_into_rtrancl)
qed

theorem no_lost_wakeup_witness:
  "sched wk_two = Waiting \<and> new_tasks (tasks wk_two) = [10] \<and> armed wk_two"
  using no_lost_wakeup [OF wk_two_reachable] by (auto simp: wk_two_def)

theorem all_tasks_delivered_witness:
  "\<exists>s'. own_step\<^sup>*\<^sup>* wk_two s' \<and> mset (fetched s') = {#NewTask 10, ReadyTask 3#}"
  using all_tasks_delivered [OF wk_two_reachable] by (simp add: wk_two_def)

end
