(* ===== verification/Decimal.thy ===== *)
theory Decimal
  imports Prelude "HOL-Library.Signed_Division"
begin

text \<open>
  The conversion of integers to text, \<open>convert\<close> and \<open>convertHex\<close> of \<open>src/stream.cc\<close>, with what the texts
  are: decimal notation, of bounded length.
\<close>

section \<open>Number formatting\<close>

text \<open>\<open>digits\<close> and \<open>zero\<close>: \<open>zero\<close> points at the middle of the array, so that a
  remainder of a negative number, which C++ computes with the sign of the dividend, indexes it too.\<close>

definition digits :: string where
  "digits = ''9876543210123456789''"

definition zero :: "int \<Rightarrow> char" where
  "zero lsd = digits ! nat (9 + lsd)"

definition digitsHex :: string where
  "digitsHex = ''0123456789ABCDEF''"

text \<open>The \<open>do\<close> loop of \<open>convert\<close>: what it appends at \<open>p\<close>, least significant digit
  first. \<open>smod\<close> and \<open>sdiv\<close> truncate towards zero as \<open>%\<close> and \<open>/\<close> do.\<close>

function convert_loop :: "int \<Rightarrow> string" where
  "convert_loop i =
     (let lsd = i smod 10; i' = i sdiv 10
      in if i' \<noteq> 0 then zero lsd # convert_loop i' else [zero lsd])"
  by pat_completeness auto
termination
proof (relation "measure (\<lambda>i. nat \<bar>i\<bar>)", goal_cases)
  case 1
  show ?case by simp
next
  case (2 i x xa)
  then show ?case by (auto simp: signed_divide_int_def abs_mult abs_sgn_eq intro!: int_div_less_self)
qed

declare convert_loop.simps [simp del]

definition convert :: "int \<Rightarrow> string" where
  "convert value = rev (convert_loop value @ (if value < 0 then ''-'' else []))"

function convertHex_loop :: "nat \<Rightarrow> string" where
  "convertHex_loop i =
     (let lsd = i mod 16; i' = i div 16
      in if i' \<noteq> 0 then digitsHex ! lsd # convertHex_loop i' else [digitsHex ! lsd])"
  by pat_completeness auto
termination
  by (relation "measure id") auto

declare convertHex_loop.simps [simp del]

definition convertHex :: "uint64 \<Rightarrow> string" where
  "convertHex value = rev (convertHex_loop (unat value))"

section \<open>Number formatting is decimal notation\<close>

text \<open>The reference: reading a signed decimal numeral.\<close>

definition is_digit :: "char \<Rightarrow> bool" where
  "is_digit c \<longleftrightarrow> 48 \<le> (of_char c :: nat) \<and> (of_char c :: nat) \<le> 57"

definition digit_value :: "char \<Rightarrow> nat" where
  "digit_value c = of_char c - 48"

definition dec_value :: "string \<Rightarrow> nat" where
  "dec_value ds = foldl (\<lambda>a c. 10 * a + digit_value c) 0 ds"

definition parse_nat :: "string \<Rightarrow> nat option" where
  "parse_nat ds = (if ds \<noteq> [] \<and> list_all is_digit ds then Some (dec_value ds) else None)"

definition parse_dec :: "string \<Rightarrow> int option" where
  "parse_dec t =
     (if t \<noteq> [] \<and> hd t = CHR ''-'' then map_option (\<lambda>n. - int n) (parse_nat (tl t))
      else map_option int (parse_nat t))"

lemma dec_value_snoc: "dec_value (ds @ [c]) = 10 * dec_value ds + digit_value c"
  by (simp add: dec_value_def)

lemma zero_digit:
  assumes "\<bar>l\<bar> < 10"
  shows "is_digit (zero l)" "int (digit_value (zero l)) = \<bar>l\<bar>"
proof -
  have "l \<in> {-9, -8, -7, -6, -5, -4, -3, -2, -1, 0, 1, 2, 3, 4, 5, 6, 7, 8, 9}"
    using assms by (simp, arith)
  then show "is_digit (zero l)" "int (digit_value (zero l)) = \<bar>l\<bar>"
    by (auto simp: zero_def digits_def is_digit_def digit_value_def)
qed

lemma smod_ten_abs: "\<bar>i smod 10\<bar> = \<bar>i :: int\<bar> mod 10"
  by (simp add: signed_modulo_int_def abs_mult sgn_if)

lemma sdiv_ten_abs: "\<bar>i sdiv 10\<bar> = \<bar>i :: int\<bar> div 10"
  by (auto simp: signed_divide_int_def abs_mult abs_sgn_eq)

lemma convert_loop_spec:
  "convert_loop i \<noteq> [] \<and> list_all is_digit (convert_loop i) \<and>
   int (dec_value (rev (convert_loop i))) = \<bar>i\<bar>"
proof (induction i rule: convert_loop.induct)
  case (1 i)
  have lsd: "\<bar>i smod 10\<bar> < 10"
    by (simp add: smod_ten_abs)
  show ?case
  proof (cases "i sdiv 10 = 0")
    case True
    then have "\<bar>i\<bar> mod 10 = \<bar>i\<bar>"
      using sdiv_ten_abs [of i] by (simp add: div_eq_0_iff)
    with True lsd show ?thesis
      by (simp add: convert_loop.simps [of i] zero_digit dec_value_def smod_ten_abs)
  next
    case False
    with 1 have IH: "convert_loop (i sdiv 10) \<noteq> []" "list_all is_digit (convert_loop (i sdiv 10))"
      "int (dec_value (rev (convert_loop (i sdiv 10)))) = \<bar>i\<bar> div 10"
      by (simp_all add: sdiv_ten_abs)
    with False lsd show ?thesis
      by (simp add: convert_loop.simps [of i] Let_def dec_value_snoc zero_digit smod_ten_abs)
  qed
qed

lemma not_digit_minus: "\<not> is_digit CHR ''-''"
  by (simp add: is_digit_def)

lemma length_convert_loop: "\<bar>i\<bar> < 10 ^ Suc n \<Longrightarrow> length (convert_loop i) \<le> Suc n"
proof (induction i arbitrary: n rule: convert_loop.induct)
  case (1 i)
  show ?case
  proof (cases "i sdiv 10 = 0")
    case True
    then show ?thesis by (simp add: convert_loop.simps [of i])
  next
    case False
    then have "\<bar>i\<bar> div 10 \<noteq> 0" using sdiv_ten_abs [of i] by auto
    with "1.prems" obtain m where n: "n = Suc m"
      by (cases n) auto
    have "\<bar>i sdiv 10\<bar> < 10 ^ Suc m"
      using "1.prems" by (simp add: sdiv_ten_abs n)
    with "1.IH" [OF refl refl] False have "length (convert_loop (i sdiv 10)) \<le> Suc m"
      by blast
    with False show ?thesis by (simp add: convert_loop.simps [of i] Let_def n)
  qed
qed

lemma length_convert:
  assumes "- (2 ^ 63) \<le> v" "v < 2 ^ 64"
  shows "length (convert v) \<le> 20"
proof (cases "v < 0")
  case True
  with assms have "\<bar>v\<bar> < 10 ^ Suc 18" by simp
  then have "length (convert_loop v) \<le> Suc 18" by (rule length_convert_loop)
  with True show ?thesis by (simp add: convert_def)
next
  case False
  with assms have "\<bar>v\<bar> < 10 ^ Suc 19" by simp
  then have "length (convert_loop v) \<le> Suc 19" by (rule length_convert_loop)
  with False show ?thesis by (simp add: convert_def)
qed

lemma length_convertHex_loop: "i < 16 ^ Suc n \<Longrightarrow> length (convertHex_loop i) \<le> Suc n"
proof (induction i arbitrary: n rule: convertHex_loop.induct)
  case (1 i)
  show ?case
  proof (cases "i div 16 = 0")
    case True
    then show ?thesis by (simp add: convertHex_loop.simps [of i])
  next
    case False
    with "1.prems" obtain m where n: "n = Suc m"
      by (cases n) auto
    have "i div 16 < 16 ^ Suc m"
      using "1.prems" by (simp add: n less_mult_imp_div_less)
    with "1.IH" [OF refl refl] False have "length (convertHex_loop (i div 16)) \<le> Suc m"
      by blast
    with False show ?thesis by (simp add: convertHex_loop.simps [of i] Let_def n)
  qed
qed

lemma length_convertHex: "length (convertHex v) \<le> 16"
proof -
  have "unat v < 16 ^ Suc 15"
    using unat_lt2p [of v] by simp
  then show ?thesis
    by (simp add: convertHex_def) (use length_convertHex_loop [of "unat v" 15] in simp)
qed

lemma convert_parsed: "parse_dec (convert v) = Some v"
proof (cases "v < 0")
  case True
  then show ?thesis
    using convert_loop_spec [of v] by (simp add: convert_def parse_dec_def parse_nat_def)
next
  case False
  have "hd (rev (convert_loop v)) \<noteq> CHR ''-''"
    using convert_loop_spec [of v] not_digit_minus
    by (metis hd_in_set list_all_iff rev_is_Nil_conv set_rev)
  with False show ?thesis
    using convert_loop_spec [of v] by (simp add: convert_def parse_dec_def parse_nat_def)
qed

text \<open>\<open>convert\<close> prints every integer in signed decimal notation: reading the printed
  text gives the number back, the most negative one included.\<close>

theorem convert_roundtrip: "parse_dec (convert v) = Some v"
  by (rule convert_parsed)

end
