(* ===== verification/Float_Format.thy ===== *)
theory Float_Format
  imports Decimal
begin

text \<open>
  The printing of floating point numbers in \<open>src/stream.cc\<close>: the text of \<open>%.12g\<close>, which \<open>operator<<(double)\<close> prints. Numbers are in the
  binary formats of IEEE 754, and \<open>printf\<close> rounds the exact value of its argument to nearest, to even in a tie, as the C
  library does. A finite number is a fraction of natural numbers with a sign.
\<close>

unbundle bit_operations_syntax

section \<open>Floating point numbers\<close>

datatype fp = Fin bool nat nat | Infinite bool | NaN bool

text \<open>The number a word of 64 or 32 bits stands for: a sign, an exponent and a fraction. Every \<open>float\<close> is a \<open>double\<close>, so the cast
  keeps the number.\<close>

definition double_of_bits :: "uint64 \<Rightarrow> fp" where
  "double_of_bits w =
     (let neg = bit w 63; ex = unat (take_bit 11 (drop_bit 52 w)); fr = unat (take_bit 52 w)
      in if ex = 2047 then (if fr = 0 then Infinite neg else NaN neg)
         else if ex = 0 then Fin neg fr (2 ^ 1074)
         else if 1075 \<le> ex then Fin neg ((2 ^ 52 + fr) * 2 ^ (ex - 1075)) 1
         else Fin neg (2 ^ 52 + fr) (2 ^ (1075 - ex)))"

definition float_of_bits :: "uint32 \<Rightarrow> fp" where
  "float_of_bits w =
     (let neg = bit w 31; ex = unat (take_bit 8 (drop_bit 23 w)); fr = unat (take_bit 23 w)
      in if ex = 255 then (if fr = 0 then Infinite neg else NaN neg)
         else if ex = 0 then Fin neg fr (2 ^ 149)
         else if 150 \<le> ex then Fin neg ((2 ^ 23 + fr) * 2 ^ (ex - 150)) 1
         else Fin neg (2 ^ 23 + fr) (2 ^ (150 - ex)))"

text \<open>The integer nearest to a fraction, the even one in a tie.\<close>

definition round_div :: "nat \<Rightarrow> nat \<Rightarrow> nat" where
  "round_div a b =
     (let q = a div b; r = a mod b in if 2 * r < b \<or> 2 * r = b \<and> even q then q else q + 1)"

section \<open>Printing\<close>

text \<open>\<open>%.12g\<close>: twelve significant digits \<open>N\<close> with the decimal exponent \<open>X\<close> of the first; trailing zeros behind the point are
  dropped.\<close>

function dec_shift :: "nat \<Rightarrow> nat \<Rightarrow> nat" where
  "dec_shift a b = (if a = 0 \<or> b \<le> a then 0 else Suc (dec_shift (10 * a) b))"
  by pat_completeness auto
termination
  by (relation "measure (\<lambda>(a, b). b - a)") auto

declare dec_shift.simps [simp del]

definition dec_exp :: "nat \<Rightarrow> nat \<Rightarrow> int" where
  "dec_exp a b = (if b \<le> a then int (length (convert (int (a div b)))) - 1 else - int (dec_shift a b))"

definition sig12 :: "nat \<Rightarrow> nat \<Rightarrow> nat \<times> int" where
  "sig12 a b =
     (let d = dec_exp a b;
          n = (if d \<le> 11 then round_div (a * 10 ^ nat (11 - d)) b else round_div a (b * 10 ^ nat (d - 11)))
      in if n = 10 ^ 12 then (10 ^ 11, d + 1) else (n, d))"

definition fraction :: "string \<Rightarrow> string" where
  "fraction ds = (let s = rev (dropWhile (\<lambda>c. c = CHR ''0'') (rev ds)) in if s = [] then [] else CHR ''.'' # s)"

definition text_exp :: "int \<Rightarrow> string" where
  "text_exp x = (if x < 0 then ''e-'' else ''e+'') @ (if \<bar>x\<bar> < 10 then ''0'' else []) @ convert \<bar>x\<bar>"

definition text_12g :: "nat \<Rightarrow> nat \<Rightarrow> string" where
  "text_12g a b =
     (if a = 0 then ''0''
      else case sig12 a b of (n, x) \<Rightarrow>
        let ds = convert (int n)
        in if x < - 4 \<or> 12 \<le> x then take 1 ds @ fraction (drop 1 ds) @ text_exp x
           else if 0 \<le> x then take (nat x + 1) ds @ fraction (drop (nat x + 1) ds)
           else ''0'' @ fraction (replicate (nat (- x) - 1) CHR ''0'' @ ds))"

fun printf_12g :: "fp \<Rightarrow> string" where
  "printf_12g (Fin neg a b) = (if neg then ''-'' else []) @ text_12g a b"
| "printf_12g (Infinite neg) = (if neg then ''-inf'' else ''inf'')"
| "printf_12g (NaN neg) = (if neg then ''-nan'' else ''nan'')"

section \<open>Rounding\<close>

lemma round_div_nearest:
  assumes "0 < b"
  shows "\<bar>2 * (int (round_div a b) * int b - int a)\<bar> \<le> int b"
proof -
  define q r where "q = a div b" and "r = a mod b"
  have a: "int a = int q * int b + int r"
    unfolding q_def r_def by (simp flip: of_nat_mult of_nat_add)
  have r: "r < b" using assms by (simp add: r_def)
  show ?thesis
  proof (cases "2 * r < b \<or> 2 * r = b \<and> even q")
    case True
    then have "round_div a b = q" by (simp add: round_div_def Let_def q_def r_def)
    with a True show ?thesis by auto
  next
    case False
    then have "round_div a b = q + 1" unfolding round_div_def Let_def q_def r_def by simp
    moreover have "b \<le> 2 * r" using False by auto
    ultimately show ?thesis using a r by (simp add: algebra_simps)
  qed
qed

lemma round_div_le: "0 < b \<Longrightarrow> a \<le> c * b \<Longrightarrow> round_div a b \<le> c"
proof (rule ccontr)
  assume "0 < b" "a \<le> c * b" "\<not> round_div a b \<le> c"
  then have "int (c + 1) * int b \<le> int (round_div a b) * int b" by (intro mult_right_mono) auto
  moreover have "int a \<le> int c * int b" using \<open>a \<le> c * b\<close> by (simp flip: of_nat_mult)
  ultimately show False using round_div_nearest [OF \<open>0 < b\<close>, of a] \<open>0 < b\<close> by (simp add: algebra_simps)
qed

section \<open>The length of a printed number\<close>

lemma dec_value_less: "list_all is_digit ds \<Longrightarrow> dec_value ds < 10 ^ length ds"
proof (induction ds rule: rev_induct)
  case (snoc c ds)
  then have "digit_value c \<le> 9" by (auto simp: is_digit_def digit_value_def)
  with snoc show ?case by (simp add: dec_value_snoc)
qed (simp add: dec_value_def)

lemma convert_less: "n < 10 ^ length (convert (int n))"
proof -
  have "list_all is_digit (rev (convert_loop (int n)))" "int (dec_value (rev (convert_loop (int n)))) = int n"
    using convert_loop_spec [of "int n"] by (simp_all add: list_all_iff)
  with dec_value_less [of "rev (convert_loop (int n))"] show ?thesis by (simp add: convert_def)
qed

lemma length_convert_nat: "n < 10 ^ Suc k \<Longrightarrow> length (convert (int n)) \<le> Suc k"
proof -
  assume "n < 10 ^ Suc k"
  then have "int n < int (10 ^ Suc k)" by (simp only: of_nat_less_iff)
  then show ?thesis using length_convert_loop [of "int n" k] by (simp add: convert_def)
qed

lemma convert_not_empty: "convert (int n) \<noteq> []"
  using convert_loop_spec [of "int n"] by (simp add: convert_def)

lemma dec_shift_less: "0 < a \<Longrightarrow> a < b \<Longrightarrow> a * 10 ^ dec_shift a b < 10 * b"
proof (induction a b rule: dec_shift.induct)
  case (1 a b)
  show ?case
  proof (cases "b \<le> 10 * a")
    case True
    then have "dec_shift (10 * a) b = 0" by (subst dec_shift.simps) simp
    then have "dec_shift a b = 1" using 1 by (subst dec_shift.simps) simp
    with 1 show ?thesis by simp
  next
    case False
    have "dec_shift a b = Suc (dec_shift (10 * a) b)" using 1 by (subst dec_shift.simps) simp
    with 1 False show ?thesis by (simp add: ac_simps)
  qed
qed

lemma dec_shift_le: "b \<le> a * 10 ^ k \<Longrightarrow> dec_shift a b \<le> k"
proof (induction k arbitrary: a)
  case 0
  then show ?case by (subst dec_shift.simps) simp
next
  case (Suc k)
  then have "dec_shift (10 * a) b \<le> k" by (simp add: ac_simps)
  then show ?case by (subst dec_shift.simps) simp
qed

lemma dec_exp_less:
  assumes "0 < a" "0 < b"
  shows "if dec_exp a b < 0 then a * 10 ^ nat (- dec_exp a b) < 10 * b else a < b * 10 ^ Suc (nat (dec_exp a b))"
proof (cases "b \<le> a")
  case True
  define l where "l = length (convert (int (a div b)))"
  have l: "0 < l" using convert_not_empty [of "a div b"] by (simp add: l_def)
  have "a div b < 10 ^ l" using convert_less by (simp add: l_def)
  then have "a < b * 10 ^ l" using assms by (simp add: div_less_iff_less_mult mult.commute)
  moreover have "dec_exp a b = int l - 1" using True by (simp add: dec_exp_def l_def)
  moreover have "Suc (nat (int l - 1)) = l" using l by simp
  ultimately show ?thesis using l by simp
next
  case False
  then show ?thesis using dec_shift_less [of a b] assms by (auto simp: dec_exp_def)
qed

text \<open>There are at most twelve digits.\<close>

lemma sig12_less:
  assumes "0 < a" "0 < b"
  shows "fst (sig12 a b) < 10 ^ 12"
proof -
  define d where "d = dec_exp a b"
  define n where "n = (if d \<le> 11 then round_div (a * 10 ^ nat (11 - d)) b else round_div a (b * 10 ^ nat (d - 11)))"
  note less = dec_exp_less [OF assms, folded d_def]
  have "n \<le> 10 ^ 12"
  proof (cases "d < 0")
    case True
    then have "nat (11 - d) = 11 + nat (- d)" by simp
    then have "a * 10 ^ nat (11 - d) = a * 10 ^ nat (- d) * 10 ^ 11" by (simp add: power_add ac_simps)
    also have "\<dots> \<le> 10 ^ 12 * b" using less True by simp
    finally show ?thesis using assms True by (simp add: n_def round_div_le)
  next
    case False
    then have a: "a \<le> b * 10 ^ Suc (nat d)" using less by simp
    show ?thesis
    proof (cases "d \<le> 11")
      case True
      then have "Suc (nat d) + nat (11 - d) = 12" using False by simp
      then have "10 ^ Suc (nat d) * 10 ^ nat (11 - d) = (10 :: nat) ^ 12" by (metis power_add)
      then have "b * 10 ^ Suc (nat d) * 10 ^ nat (11 - d) = 10 ^ 12 * b"
        by (metis mult.assoc mult.commute)
      with mult_le_mono1 [OF a, of "10 ^ nat (11 - d)"] have "a * 10 ^ nat (11 - d) \<le> 10 ^ 12 * b" by (simp only:)
      then show ?thesis using assms True by (simp add: n_def round_div_le)
    next
      case False
      then have "Suc (nat d) = 12 + nat (d - 11)" by simp
      then have "a \<le> 10 ^ 12 * (b * 10 ^ nat (d - 11))" using a by (simp add: power_add ac_simps)
      then show ?thesis using assms False by (simp add: n_def round_div_le)
    qed
  qed
  then show ?thesis by (simp add: sig12_def Let_def d_def [symmetric] n_def [symmetric])
qed

lemma length_fraction: "length (fraction ds) \<le> Suc (length ds)" "fraction [] = []"
proof -
  have "length (dropWhile P (rev ds)) \<le> length ds" for P using length_dropWhile_le [of P "rev ds"] by simp
  then show "length (fraction ds) \<le> Suc (length ds)" by (simp add: fraction_def Let_def)
qed (simp add: fraction_def)

lemma length_text_exp:
  assumes "\<bar>x\<bar> < 1000"
  shows "length (text_exp x) \<le> 5"
proof -
  have "length (convert \<bar>x\<bar>) \<le> 3" using length_convert_nat [of "nat \<bar>x\<bar>" 2] assms by (simp add: nat_less_iff)
  moreover have "length (convert \<bar>x\<bar>) \<le> 1" if "\<bar>x\<bar> < 10"
    using length_convert_nat [of "nat \<bar>x\<bar>" 0] that by (simp add: nat_less_iff)
  ultimately show ?thesis by (auto simp: text_exp_def)
qed

text \<open>The numbers whose decimal exponent has at most three digits, which all \<open>double\<close>s are.\<close>

definition fp_bound :: nat where
  "fp_bound = 2 ^ 1101"

definition fp_range :: "nat \<Rightarrow> nat \<Rightarrow> bool" where
  "fp_range a b \<longleftrightarrow> 0 < b \<and> (a \<noteq> 0 \<longrightarrow> a < b * fp_bound \<and> b \<le> a * fp_bound)"

lemma fp_bound_power: "k \<le> 1101 \<Longrightarrow> 2 ^ k \<le> fp_bound"
  unfolding fp_bound_def by (rule power_increasing) simp_all

lemma fp_bound_ten: obtains k where "k \<le> 400" "0 < k" "fp_bound \<le> 10 ^ k"
proof (rule that [of 367])
  have "fp_bound = (2 ^ 3) ^ 367" unfolding fp_bound_def by (subst power_mult [symmetric]) (rule arg_cong [where f = "(^) 2"], simp)
  also have "\<dots> \<le> 10 ^ 367" by (rule power_mono) simp_all
  finally show "fp_bound \<le> 10 ^ 367" .
qed simp_all

lemma dec_exp_range:
  assumes "fp_range a b" "0 < a"
  shows "\<bar>dec_exp a b\<bar> \<le> 400"
proof -
  obtain k where k: "k \<le> 400" "0 < k" "fp_bound \<le> 10 ^ k" by (rule fp_bound_ten)
  have ab: "0 < b" "a < b * 10 ^ k" "b \<le> a * 10 ^ k"
    using assms order.strict_trans2 [OF _ mult_le_mono2 [OF k(3), of b]] order_trans [OF _ mult_le_mono2 [OF k(3), of a]]
    unfolding fp_range_def by blast+
  show ?thesis
  proof (cases "b \<le> a")
    case True
    have "a div b < 10 ^ Suc (k - 1)" using ab k(2) by (simp add: div_less_iff_less_mult mult.commute)
    then have "length (convert (int (a div b))) \<le> Suc (k - 1)" by (rule length_convert_nat)
    moreover have "0 < length (convert (int (a div b)))" using convert_not_empty by simp
    ultimately show ?thesis using True k by (simp add: dec_exp_def)
  next
    case False
    then show ?thesis using dec_shift_le [OF ab(3)] k(1) by (simp add: dec_exp_def)
  qed
qed

lemma length_text_12g:
  assumes "fp_range a b"
  shows "length (text_12g a b) \<le> 18"
proof (cases "a = 0")
  case False
  obtain n x where nx: "sig12 a b = (n, x)" by force
  have "\<bar>x\<bar> < 1000"
    using dec_exp_range [OF assms] False nx by (auto simp: sig12_def Let_def split: if_splits)
  note e = length_text_exp [OF this]
  have "n < 10 ^ Suc 11" using sig12_less [of a b] assms False nx by (simp add: fp_range_def)
  then have l: "length (convert (int n)) \<le> 12" using length_convert_nat [of n 11] by simp
  have f: "length (fraction (drop k (convert (int n)))) \<le> Suc (length (convert (int n)) - k)" for k
    using length_fraction(1) [of "drop k (convert (int n))"] by simp
  have "length (text_12g a b) \<le> 18" if "x < - 4 \<or> 12 \<le> x"
    using that False nx e l f [of 1] convert_not_empty [of n] by (simp add: text_12g_def Let_def)
  moreover have "length (text_12g a b) \<le> 18" if "\<not> (x < - 4 \<or> 12 \<le> x)" "0 \<le> x"
    using that False nx l f [of "nat x + 1"] by (auto simp: text_12g_def Let_def)
  moreover have "length (text_12g a b) \<le> 18" if "\<not> (x < - 4 \<or> 12 \<le> x)" "\<not> 0 \<le> x"
    using that False nx l length_fraction(1) [of "replicate (nat (- x) - 1) CHR ''0'' @ convert (int n)"]
    by (auto simp: text_12g_def Let_def)
  ultimately show ?thesis by blast
qed (simp add: text_12g_def)

lemma fp_range_binary:
  assumes "m < 2 ^ 53"
  shows "i \<le> 971 \<Longrightarrow> fp_range (m * 2 ^ i) 1" "j \<le> 1074 \<Longrightarrow> fp_range m (2 ^ j)"
proof -
  have pos: "0 < fp_bound" by (simp add: fp_bound_def)
  show "fp_range (m * 2 ^ i) 1" if "i \<le> 971"
  proof -
    have "m * 2 ^ i < 2 ^ (53 + i)" using assms by (simp add: power_add)
    also have "\<dots> \<le> fp_bound" using that by (intro fp_bound_power) simp
    finally show ?thesis using pos by (auto simp: fp_range_def Suc_le_eq)
  qed
  show "fp_range m (2 ^ j)" if "j \<le> 1074"
  proof -
    have "m < fp_bound" using assms fp_bound_power [of 53] by simp
    moreover have "2 ^ j \<le> fp_bound" using that by (intro fp_bound_power) simp
    ultimately show ?thesis by (auto simp: fp_range_def intro: order.strict_trans2 order_trans)
  qed
qed

lemma take_bit_less: "unat (take_bit n w) < 2 ^ n"
  by (metis take_bit_nat_less_exp unsigned_take_bit_eq)

lemma double_range: "double_of_bits w = Fin neg a b \<Longrightarrow> fp_range a b"
proof -
  assume w: "double_of_bits w = Fin neg a b"
  define ex fr where "ex = unat (take_bit 11 (drop_bit 52 w))" and "fr = unat (take_bit 52 w)"
  have fr: "fr < 2 ^ 53" "2 ^ 52 + fr < 2 ^ 53" using take_bit_less [of 52 w] by (simp_all add: fr_def)
  have "ex < 2 ^ 11" using take_bit_less [of 11 "drop_bit 52 w"] by (simp add: ex_def)
  then consider "a = fr" "b = 2 ^ 1074" | "a = (2 ^ 52 + fr) * 2 ^ (ex - 1075)" "b = 1" "ex - 1075 \<le> 971"
    | "a = 2 ^ 52 + fr" "b = 2 ^ (1075 - ex)" "1075 - ex \<le> 1074"
    using w by (auto simp: double_of_bits_def Let_def ex_def [symmetric] fr_def [symmetric] split: if_splits)
  then show ?thesis
    by cases (simp_all only: fp_range_binary [OF fr(1)] fp_range_binary [OF fr(2)])
qed

lemma float_range: "float_of_bits w = Fin neg a b \<Longrightarrow> fp_range a b"
proof -
  assume w: "float_of_bits w = Fin neg a b"
  define ex fr where "ex = unat (take_bit 8 (drop_bit 23 w))" and "fr = unat (take_bit 23 w)"
  have k: "(149 :: nat) \<le> 1074" by simp
  have fr: "fr < 2 ^ 53" "2 ^ 23 + fr < 2 ^ 53" using take_bit_less [of 23 w] by (simp_all add: fr_def)
  have "ex < 2 ^ 8" using take_bit_less [of 8 "drop_bit 23 w"] by (simp add: ex_def)
  then consider "a = fr" "b = 2 ^ 149" | "a = (2 ^ 23 + fr) * 2 ^ (ex - 150)" "b = 1" "ex - 150 \<le> 971"
    | "a = 2 ^ 23 + fr" "b = 2 ^ (150 - ex)" "150 - ex \<le> 1074"
    using w by (auto simp: float_of_bits_def Let_def ex_def [symmetric] fr_def [symmetric] split: if_splits)
  then show ?thesis
    by cases (simp_all only: fp_range_binary [OF fr(2)] k fp_range_binary(2) [OF fr(1) k])
qed

lemma length_printf_12g: "length (printf_12g (double_of_bits w)) \<le> 19" "length (printf_12g (float_of_bits v)) \<le> 19"
proof -
  have "length (printf_12g x) \<le> 19" if "\<And>neg a b. x = Fin neg a b \<Longrightarrow> fp_range a b" for x
    using that length_text_12g [THEN le_SucI] by (cases x) (auto dest: length_text_12g)
  then show "length (printf_12g (double_of_bits w)) \<le> 19" "length (printf_12g (float_of_bits v)) \<le> 19"
    using double_range float_range by blast+
qed

end
