(* ===== verification/Text_Sink.thy ===== *)
theory Text_Sink
  imports Prelude "HOL-Library.Sublist"
begin

text \<open>
  What a class with printing operators promises, whatever it prints to: an operator appends the text of its argument when the room
  that is left is enough for it, and nothing otherwise. The locale \<open>text_sink\<close> is interpreted on the stream of \<open>include/stream.h\<close> and on
  that of \<open>include/log/log_stream.h\<close>.
\<close>

text \<open>The arguments of a chain of operators that are printed, with \<open>r\<close> characters of room at the start: an argument that does not fit
  is left out, a later and shorter one may fit again.\<close>

fun printed :: "('a \<Rightarrow> nat) \<Rightarrow> ('a \<Rightarrow> string) \<Rightarrow> nat \<Rightarrow> 'a list \<Rightarrow> 'a list" where
  "printed need str r [] = []"
| "printed need str r (x # xs) =
     (if need x \<le> r then x # printed need str (r - length (str x)) xs else printed need str r xs)"

lemma printed_subseq: "subseq (printed need str r xs) xs"
  by (induction xs arbitrary: r) (auto intro: subseq_Cons')

lemma printed_all:
  "\<forall>x. length (str x) \<le> need x \<Longrightarrow> sum_list (map need xs) \<le> r \<Longrightarrow> printed need str r xs = xs"
proof (induction xs arbitrary: r)
  case (Cons x xs)
  from Cons.prems have "length (str x) \<le> need x" by blast
  with Cons.prems(2) have "sum_list (map need xs) \<le> r - length (str x)" by simp
  with Cons show ?case by simp
qed simp

lemma printed_length:
  "\<forall>x. length (str x) \<le> need x \<Longrightarrow> length (concat (map str (printed need str r xs))) \<le> r"
proof (induction xs arbitrary: r)
  case (Cons x xs)
  have "length (str x) \<le> need x" using Cons.prems by blast
  then show ?case using Cons.IH [OF Cons.prems, of r] Cons.IH [OF Cons.prems, of "r - length (str x)"] by auto
qed simp

locale text_sink =
  fixes put :: "'a \<Rightarrow> 's \<Rightarrow> 's" and str :: "'a \<Rightarrow> string" and need :: "'a \<Rightarrow> nat"
    and valid :: "'a \<Rightarrow> bool" and ok :: "'s \<Rightarrow> bool" and content :: "'s \<Rightarrow> string" and room :: "'s \<Rightarrow> nat"
  assumes put_ok: "ok s \<Longrightarrow> valid x \<Longrightarrow> ok (put x s)"
    and put_content: "ok s \<Longrightarrow> valid x \<Longrightarrow> content (put x s) = content s @ (if need x \<le> room s then str x else [])"
    and put_room: "ok s \<Longrightarrow> valid x \<Longrightarrow> room (put x s) = room s - (if need x \<le> room s then length (str x) else 0)"
begin

lemma puts_spec:
  "ok s \<Longrightarrow> list_all valid xs \<Longrightarrow>
   ok (fold put xs s) \<and> content (fold put xs s) = content s @ concat (map str (printed need str (room s) xs))"
proof (induction xs arbitrary: s)
  case (Cons x xs)
  then have "ok (put x s)" "valid x" "list_all valid xs" using put_ok by auto
  then show ?case using Cons.IH [of "put x s"] put_content [OF Cons.prems(1)] put_room [OF Cons.prems(1)] by auto
qed simp

end

end
