(* ===== verification/Stream_Buffer.thy ===== *)
theory Stream_Buffer
  imports Float_Format Text_Sink
begin

text \<open>
  The fixed size character buffer and the stream on top of it: \<open>FixedBuffer\<close> and \<open>Stream\<close>
  of \<open>include/stream.h\<close> and \<open>src/stream.cc\<close>. A stream holds the private stack of a
  coroutine and is the sink of text formatting. A \<open>char\<close> is a byte; the template parameter
  \<open>SIZE\<close> is the length of the data array; the position \<open>cur_\<close> is an offset into it.
\<close>

section \<open>The fixed buffer\<close>

datatype cookie = cookieStart | cookieEnd

record FixedBuffer =
  fb_data :: "char list"
  fb_cur :: nat
  fb_cookie :: cookie

abbreviation NUL :: char where
  "NUL \<equiv> CHR 0x00"

text \<open>The constructor leaves \<open>data_\<close> as it finds it.\<close>

definition FixedBuffer_init :: "char list \<Rightarrow> FixedBuffer" where
  "FixedBuffer_init mem = \<lparr>fb_data = mem, fb_cur = 0, fb_cookie = cookieStart\<rparr>"

definition FixedBuffer_destroy :: "FixedBuffer \<Rightarrow> FixedBuffer" where
  "FixedBuffer_destroy b = b\<lparr>fb_cookie := cookieEnd\<rparr>"

definition FixedBuffer_avail :: "FixedBuffer \<Rightarrow> int" where
  [model_defs]: "FixedBuffer_avail b = int (length (fb_data b)) - int (fb_cur b)"

text \<open>\<open>buf\<close> is the memory at the pointer, at least \<open>len\<close> bytes of it. The test compares
  as \<open>size_t\<close>.\<close>

definition FixedBuffer_append :: "char list \<Rightarrow> uint64 \<Rightarrow> FixedBuffer \<Rightarrow> FixedBuffer" where
  [model_defs]: "FixedBuffer_append buf len b =
     (if word_of_int (FixedBuffer_avail b) > len
      then b\<lparr>fb_data := blit (fb_cur b) (take (unat len) buf) (fb_data b),
             fb_cur := fb_cur b + unat len\<rparr>
      else b)"

definition FixedBuffer_length :: "FixedBuffer \<Rightarrow> nat" where
  [model_defs]: "FixedBuffer_length b = fb_cur b"

definition FixedBuffer_add :: "nat \<Rightarrow> FixedBuffer \<Rightarrow> FixedBuffer" where
  [model_defs]: "FixedBuffer_add len b = b\<lparr>fb_cur := fb_cur b + len\<rparr>"

definition FixedBuffer_reset :: "FixedBuffer \<Rightarrow> FixedBuffer" where
  [model_defs]: "FixedBuffer_reset b = b\<lparr>fb_cur := 0\<rparr>"

definition memZero :: "nat \<Rightarrow> byte list \<Rightarrow> byte list" where
  [model_defs, simp]: "memZero n p = replicate n NUL @ drop n p"

definition FixedBuffer_bzero :: "FixedBuffer \<Rightarrow> FixedBuffer" where
  [model_defs]: "FixedBuffer_bzero b = b\<lparr>fb_data := memZero (length (fb_data b)) (fb_data b)\<rparr>"

definition FixedBuffer_size :: "FixedBuffer \<Rightarrow> nat" where
  [model_defs]: "FixedBuffer_size b = length (fb_data b)"

definition FixedBuffer_toString :: "FixedBuffer \<Rightarrow> string" where
  [model_defs]: "FixedBuffer_toString b = take (FixedBuffer_length b) (fb_data b)"

text \<open>\<open>debugString\<close> writes a terminator at \<open>cur_\<close>, which must be inside the array.\<close>

definition FixedBuffer_debugString :: "FixedBuffer \<Rightarrow> FixedBuffer res" where
  [model_defs]: "FixedBuffer_debugString b =
     (if fb_cur b < length (fb_data b) then Inr (b\<lparr>fb_data := (fb_data b)[fb_cur b := NUL]\<rparr>)
      else Inl OutOfBounds)"

section \<open>The stream\<close>

definition kSmallBuffer :: nat where
  "kSmallBuffer = 4000"

definition kMaxNumericSize :: int where
  "kMaxNumericSize = 48"

record Stream =
  buffer :: FixedBuffer

definition Stream_append :: "char list \<Rightarrow> int \<Rightarrow> Stream \<Rightarrow> Stream" where
  [model_defs]: "Stream_append data len s = s\<lparr>buffer := FixedBuffer_append data (word_of_int len) (buffer s)\<rparr>"

definition Stream_reset :: "Stream \<Rightarrow> Stream" where
  [model_defs]: "Stream_reset s = s\<lparr>buffer := FixedBuffer_reset (buffer s)\<rparr>"

definition Stream_bzero :: "Stream \<Rightarrow> Stream" where
  [model_defs]: "Stream_bzero s = s\<lparr>buffer := FixedBuffer_bzero (buffer s)\<rparr>"

definition Stream_size :: "Stream \<Rightarrow> nat" where
  [model_defs]: "Stream_size s = FixedBuffer_size (buffer s)"

text \<open>Appending a whole string, as the callers with \<open>v.size()\<close>, \<open>strlen\<close> or a literal
  length do.\<close>

definition put_string :: "string \<Rightarrow> Stream \<Rightarrow> Stream" where
  [model_defs]: "put_string v s = s\<lparr>buffer := FixedBuffer_append v (of_nat (length v)) (buffer s)\<rparr>"

text \<open>\<open>convert\<close> writes the digits and a terminator at \<open>current()\<close>; \<open>add\<close> then moves
  past the digits.\<close>

definition put_raw :: "string \<Rightarrow> FixedBuffer \<Rightarrow> FixedBuffer" where
  [model_defs]: "put_raw t b =
     FixedBuffer_add (length t) (b\<lparr>fb_data := blit (fb_cur b) (t @ [NUL]) (fb_data b)\<rparr>)"

definition Stream_formatInteger :: "int \<Rightarrow> Stream \<Rightarrow> Stream" where
  [model_defs]: "Stream_formatInteger v s =
     (if FixedBuffer_avail (buffer s) \<ge> kMaxNumericSize
      then s\<lparr>buffer := put_raw (convert v) (buffer s)\<rparr> else s)"

definition Stream_put_bool :: "bool \<Rightarrow> Stream \<Rightarrow> Stream" where
  [model_defs]: "Stream_put_bool v = put_string (if v then ''1'' else ''0'')"

definition Stream_put_int :: "32 word \<Rightarrow> Stream \<Rightarrow> Stream" where
  [model_defs]: "Stream_put_int v = Stream_formatInteger (sint v)"

definition Stream_put_uint :: "32 word \<Rightarrow> Stream \<Rightarrow> Stream" where
  [model_defs]: "Stream_put_uint v = Stream_formatInteger (uint v)"

definition Stream_put_short :: "16 word \<Rightarrow> Stream \<Rightarrow> Stream" where
  [model_defs]: "Stream_put_short v = Stream_put_int (scast v)"

definition Stream_put_ushort :: "16 word \<Rightarrow> Stream \<Rightarrow> Stream" where
  [model_defs]: "Stream_put_ushort v = Stream_put_uint (ucast v)"

definition Stream_put_long :: "64 word \<Rightarrow> Stream \<Rightarrow> Stream" where
  [model_defs]: "Stream_put_long v = Stream_formatInteger (sint v)"

definition Stream_put_ulong :: "64 word \<Rightarrow> Stream \<Rightarrow> Stream" where
  [model_defs]: "Stream_put_ulong v = Stream_formatInteger (uint v)"

definition Stream_put_llong :: "64 word \<Rightarrow> Stream \<Rightarrow> Stream" where
  [model_defs]: "Stream_put_llong v = Stream_formatInteger (sint v)"

definition Stream_put_ullong :: "64 word \<Rightarrow> Stream \<Rightarrow> Stream" where
  [model_defs]: "Stream_put_ullong v = Stream_formatInteger (uint v)"

definition Stream_put_ptr :: "uint64 \<Rightarrow> Stream \<Rightarrow> Stream" where
  [model_defs]: "Stream_put_ptr v s =
     (if FixedBuffer_avail (buffer s) \<ge> kMaxNumericSize
      then s\<lparr>buffer := put_raw (''0x'' @ convertHex v) (buffer s)\<rparr> else s)"

text \<open>A \<open>double\<close> and a \<open>float\<close> are given by their bits. \<open>snprintf\<close> stores at most 47 characters and a
  terminator, and returns the length of the whole text.\<close>

definition put_snprintf :: "string \<Rightarrow> FixedBuffer \<Rightarrow> FixedBuffer" where
  [model_defs]: "put_snprintf t b =
     FixedBuffer_add (length t) (b\<lparr>fb_data := blit (fb_cur b) (take 47 t @ [NUL]) (fb_data b)\<rparr>)"

definition put_double :: "fp \<Rightarrow> Stream \<Rightarrow> Stream" where
  [model_defs]: "put_double x s =
     (if FixedBuffer_avail (buffer s) \<ge> kMaxNumericSize
      then s\<lparr>buffer := put_snprintf (printf_12g x) (buffer s)\<rparr> else s)"

definition Stream_put_double :: "uint64 \<Rightarrow> Stream \<Rightarrow> Stream" where
  [model_defs]: "Stream_put_double v = put_double (double_of_bits v)"

definition Stream_put_float :: "uint32 \<Rightarrow> Stream \<Rightarrow> Stream" where
  [model_defs]: "Stream_put_float v = put_double (float_of_bits v)"

definition Stream_put_char :: "char \<Rightarrow> Stream \<Rightarrow> Stream" where
  [model_defs]: "Stream_put_char v = put_string [v]"

definition Stream_put_string :: "string \<Rightarrow> Stream \<Rightarrow> Stream" where
  [model_defs]: "Stream_put_string v = put_string v"

definition Stream_put_buffer :: "FixedBuffer \<Rightarrow> Stream \<Rightarrow> Stream" where
  [model_defs]: "Stream_put_buffer v = Stream_put_string (FixedBuffer_toString v)"

text \<open>A \<open>const char*\<close>: \<open>None\<close> is the null pointer, \<open>Some m\<close> the memory it points to,
  which \<open>strlen\<close> reads up to the first terminator.\<close>

definition c_str :: "char list \<Rightarrow> string" where
  "c_str m = takeWhile (\<lambda>c. c \<noteq> NUL) m"

definition Stream_put_cstr :: "char list option \<Rightarrow> Stream \<Rightarrow> Stream" where
  [model_defs]: "Stream_put_cstr str =
     (case str of Some m \<Rightarrow> put_string (c_str m) | None \<Rightarrow> put_string ''(null)'')"

definition Stream_put_ucstr :: "char list option \<Rightarrow> Stream \<Rightarrow> Stream" where
  [model_defs]: "Stream_put_ucstr str = Stream_put_cstr str"

datatype arg =
    ArgBool bool | ArgShort "16 word" | ArgUShort "16 word" | ArgInt "32 word" | ArgUInt "32 word"
  | ArgLong "64 word" | ArgULong "64 word" | ArgLLong "64 word" | ArgULLong "64 word"
  | ArgPtr uint64 | ArgChar char | ArgUCStr "char list option" | ArgString string
  | ArgBuffer FixedBuffer | ArgCStr "char list option" | ArgFloat uint32 | ArgDouble uint64

fun Stream_put :: "arg \<Rightarrow> Stream \<Rightarrow> Stream" where
  "Stream_put (ArgBool v) = Stream_put_bool v"
| "Stream_put (ArgShort v) = Stream_put_short v"
| "Stream_put (ArgUShort v) = Stream_put_ushort v"
| "Stream_put (ArgInt v) = Stream_put_int v"
| "Stream_put (ArgUInt v) = Stream_put_uint v"
| "Stream_put (ArgLong v) = Stream_put_long v"
| "Stream_put (ArgULong v) = Stream_put_ulong v"
| "Stream_put (ArgLLong v) = Stream_put_llong v"
| "Stream_put (ArgULLong v) = Stream_put_ullong v"
| "Stream_put (ArgPtr v) = Stream_put_ptr v"
| "Stream_put (ArgChar v) = Stream_put_char v"
| "Stream_put (ArgUCStr v) = Stream_put_ucstr v"
| "Stream_put (ArgString v) = Stream_put_string v"
| "Stream_put (ArgBuffer v) = Stream_put_buffer v"
| "Stream_put (ArgCStr v) = Stream_put_cstr v"
| "Stream_put (ArgFloat v) = Stream_put_float v"
| "Stream_put (ArgDouble v) = Stream_put_double v"

section \<open>Writes stay in the buffer and are all or nothing\<close>

definition buffer_ok :: "FixedBuffer \<Rightarrow> bool" where
  [inv_defs]: "buffer_ok b \<longleftrightarrow> fb_cur b < length (fb_data b) \<and> length (fb_data b) < 2 ^ 31"

lemma FixedBuffer_append_eq:
  assumes "buffer_ok b" "length v < 2 ^ 64"
  shows "FixedBuffer_append v (of_nat (length v)) b =
    (if fb_cur b + length v < length (fb_data b)
     then b\<lparr>fb_data := blit (fb_cur b) v (fb_data b), fb_cur := fb_cur b + length v\<rparr> else b)"
proof -
  have "0 \<le> FixedBuffer_avail b" "FixedBuffer_avail b < 2 ^ 64"
    using assms by (simp_all add: FixedBuffer_avail_def buffer_ok_def)
  then have "unat (word_of_int (FixedBuffer_avail b) :: uint64) = length (fb_data b) - fb_cur b"
    by (subst unat_word_of_int_nonneg) (simp_all add: FixedBuffer_avail_def nat_diff_distrib)
  moreover have "unat (of_nat (length v) :: uint64) = length v"
    using assms by (simp add: unat_of_nat_lt)
  ultimately show ?thesis
    by (auto simp: FixedBuffer_append_def word_less_nat_alt)
qed

lemma put_raw_ok:
  assumes "buffer_ok b" "FixedBuffer_avail b \<ge> kMaxNumericSize" "length t \<le> 20"
  shows "buffer_ok (put_raw t b)"
    and "FixedBuffer_toString (put_raw t b) = FixedBuffer_toString b @ t"
    and "length (fb_data (put_raw t b)) = length (fb_data b)"
  using assms
  by (auto simp: put_raw_def buffer_ok_def FixedBuffer_avail_def FixedBuffer_add_def
      FixedBuffer_toString_def FixedBuffer_length_def kMaxNumericSize_def take_blit_prefix)

text \<open>The printed form of an argument, whether it is printed through the numeric path, and
  the condition under which it is printed at all.\<close>

fun arg_text :: "arg \<Rightarrow> string" where
  "arg_text (ArgBool v) = (if v then ''1'' else ''0'')"
| "arg_text (ArgShort v) = convert (sint v)"
| "arg_text (ArgUShort v) = convert (uint v)"
| "arg_text (ArgInt v) = convert (sint v)"
| "arg_text (ArgUInt v) = convert (uint v)"
| "arg_text (ArgLong v) = convert (sint v)"
| "arg_text (ArgULong v) = convert (uint v)"
| "arg_text (ArgLLong v) = convert (sint v)"
| "arg_text (ArgULLong v) = convert (uint v)"
| "arg_text (ArgPtr v) = ''0x'' @ convertHex v"
| "arg_text (ArgChar v) = [v]"
| "arg_text (ArgUCStr v) = (case v of Some m \<Rightarrow> c_str m | None \<Rightarrow> ''(null)'')"
| "arg_text (ArgString v) = v"
| "arg_text (ArgBuffer v) = FixedBuffer_toString v"
| "arg_text (ArgCStr v) = (case v of Some m \<Rightarrow> c_str m | None \<Rightarrow> ''(null)'')"
| "arg_text (ArgFloat v) = printf_12g (float_of_bits v)"
| "arg_text (ArgDouble v) = printf_12g (double_of_bits v)"

fun arg_numeric :: "arg \<Rightarrow> bool" where
  "arg_numeric (ArgBool v) = False"
| "arg_numeric (ArgChar v) = False"
| "arg_numeric (ArgUCStr v) = False"
| "arg_numeric (ArgString v) = False"
| "arg_numeric (ArgBuffer v) = False"
| "arg_numeric (ArgCStr v) = False"
| "arg_numeric _ = True"

definition arg_fits :: "arg \<Rightarrow> Stream \<Rightarrow> bool" where
  "arg_fits x s \<longleftrightarrow>
     (if arg_numeric x then 48 \<le> length (fb_data (buffer s)) - fb_cur (buffer s)
      else length (arg_text x) < length (fb_data (buffer s)) - fb_cur (buffer s))"

lemma put_string_spec:
  assumes "buffer_ok (buffer s)" "length v < 2 ^ 64"
  shows "buffer_ok (buffer (put_string v s)) \<and>
    FixedBuffer_toString (buffer (put_string v s)) = FixedBuffer_toString (buffer s) @
      (if length v < length (fb_data (buffer s)) - fb_cur (buffer s) then v else [])"
  using assms
  by (auto simp: put_string_def FixedBuffer_append_eq buffer_ok_def FixedBuffer_toString_def
      FixedBuffer_length_def take_blit)

lemma Stream_formatInteger_spec:
  assumes "buffer_ok (buffer s)" "- (2 ^ 63) \<le> v" "v < 2 ^ 64"
  shows "buffer_ok (buffer (Stream_formatInteger v s)) \<and>
    FixedBuffer_toString (buffer (Stream_formatInteger v s)) = FixedBuffer_toString (buffer s) @
      (if 48 \<le> length (fb_data (buffer s)) - fb_cur (buffer s) then convert v else [])"
  using assms put_raw_ok [OF assms(1), of "convert v"] length_convert [OF assms(2,3)]
  by (auto simp: Stream_formatInteger_def FixedBuffer_avail_def kMaxNumericSize_def)

lemma Stream_put_ptr_spec:
  assumes "buffer_ok (buffer s)"
  shows "buffer_ok (buffer (Stream_put_ptr v s)) \<and>
    FixedBuffer_toString (buffer (Stream_put_ptr v s)) = FixedBuffer_toString (buffer s) @
      (if 48 \<le> length (fb_data (buffer s)) - fb_cur (buffer s) then ''0x'' @ convertHex v else [])"
  using assms put_raw_ok [OF assms, of "''0x'' @ convertHex v"] length_convertHex [of v]
  by (auto simp: Stream_put_ptr_def FixedBuffer_avail_def kMaxNumericSize_def)

lemma put_double_spec:
  assumes "buffer_ok (buffer s)" "length (printf_12g x) \<le> 19"
  shows "buffer_ok (buffer (put_double x s)) \<and>
    FixedBuffer_toString (buffer (put_double x s)) = FixedBuffer_toString (buffer s) @
      (if 48 \<le> length (fb_data (buffer s)) - fb_cur (buffer s) then printf_12g x else [])"
proof -
  have "put_snprintf (printf_12g x) b = put_raw (printf_12g x) b" for b
    using assms(2) by (simp add: put_snprintf_def put_raw_def)
  then show ?thesis
    using assms put_raw_ok [OF assms(1), of "printf_12g x"]
    by (auto simp: put_double_def FixedBuffer_avail_def kMaxNumericSize_def)
qed

lemma sint_word_bounds:
  fixes v :: "'a::len word"
  assumes "LENGTH('a) \<le> 64"
  shows "- (2 ^ 63) \<le> sint v" "sint v < 2 ^ 64" "- (2 ^ 63) \<le> uint v" "uint v < 2 ^ 64"
proof -
  have "(2::int) ^ (LENGTH('a) - 1) \<le> 2 ^ 63"
    using assms by (intro power_increasing) auto
  then show "- (2 ^ 63) \<le> sint v" "sint v < 2 ^ 64"
    using sint_greater_eq [of v] sint_less [of v] by simp_all
  have "uint v < 2 ^ LENGTH('a)" by (rule unsigned_less)
  also have "\<dots> \<le> 2 ^ 64" using assms by (intro power_increasing) auto
  finally show "uint v < 2 ^ 64" .
  show "- (2 ^ 63) \<le> uint v" using uint_ge_0 [of v] by (rule order_trans [rotated]) simp
qed

lemma sint_scast_short: "sint (scast (v :: 16 word) :: 32 word) = sint v"
proof -
  have "- (2 ^ 31) \<le> sint v" "sint v < 2 ^ 31"
    using sint_greater_eq [of v] sint_less [of v] by simp_all
  then show ?thesis by (simp add: signed_scast_eq signed_take_bit_int_eq_self)
qed

lemma uint_ucast_ushort: "uint (ucast (v :: 16 word) :: 32 word) = uint v"
proof -
  have "uint v < 2 ^ LENGTH(16)" by (rule unsigned_less)
  then have "uint v < 2 ^ 32" by simp
  then show ?thesis by (simp add: unsigned_ucast_eq take_bit_int_eq_self)
qed

lemma Stream_formatInteger_word:
  fixes v :: "'a::len word"
  assumes "buffer_ok (buffer s)" "LENGTH('a) \<le> 64"
  shows "buffer_ok (buffer (Stream_formatInteger (sint v) s)) \<and>
      FixedBuffer_toString (buffer (Stream_formatInteger (sint v) s)) = FixedBuffer_toString (buffer s) @
        (if 48 \<le> length (fb_data (buffer s)) - fb_cur (buffer s) then convert (sint v) else [])"
    and "buffer_ok (buffer (Stream_formatInteger (uint v) s)) \<and>
      FixedBuffer_toString (buffer (Stream_formatInteger (uint v) s)) = FixedBuffer_toString (buffer s) @
        (if 48 \<le> length (fb_data (buffer s)) - fb_cur (buffer s) then convert (uint v) else [])"
  using Stream_formatInteger_spec [OF assms(1)] sint_word_bounds [OF assms(2)] by blast+

lemmas stream_ops =
  Stream_put_bool_def Stream_put_short_def Stream_put_ushort_def Stream_put_int_def Stream_put_uint_def Stream_put_long_def
  Stream_put_ulong_def Stream_put_llong_def Stream_put_ullong_def Stream_put_char_def Stream_put_ucstr_def Stream_put_string_def
  Stream_put_buffer_def Stream_put_cstr_def Stream_put_float_def Stream_put_double_def

text \<open>Every \<open>operator<<\<close> keeps the write position inside the buffer and is all or
  nothing: it appends exactly the printed form of its argument when there is room (at least
  48 bytes for a number or a pointer, more than its length for text), and changes nothing otherwise.\<close>

theorem Stream_put_all_or_nothing:
  assumes "buffer_ok (buffer s)" "length (arg_text x) < 2 ^ 64"
  shows "buffer_ok (buffer (Stream_put x s)) \<and>
    FixedBuffer_toString (buffer (Stream_put x s)) =
      FixedBuffer_toString (buffer s) @ (if arg_fits x s then arg_text x else [])"
  using assms
  by (cases x)
    (auto simp: arg_fits_def stream_ops put_string_spec Stream_formatInteger_word Stream_put_ptr_spec put_double_spec length_printf_12g
      sint_scast_short uint_ucast_ushort split: option.splits)

text \<open>The size of the buffer never changes.\<close>

lemma put_length:
  assumes "buffer_ok (buffer s)"
  shows "length v < 2 ^ 64 \<Longrightarrow> length (fb_data (buffer (put_string v s))) = length (fb_data (buffer s))"
    and "- (2 ^ 63) \<le> i \<Longrightarrow> i < 2 ^ 64 \<Longrightarrow> length (fb_data (buffer (Stream_formatInteger i s))) = length (fb_data (buffer s))"
    and "length (fb_data (buffer (Stream_put_ptr p s))) = length (fb_data (buffer s))"
    and "length (printf_12g x) \<le> 19 \<Longrightarrow> length (fb_data (buffer (put_double x s))) = length (fb_data (buffer s))"
  using assms put_raw_ok(3) [OF assms, of "convert i"] length_convert [of i]
    put_raw_ok(3) [OF assms, of "''0x'' @ convertHex p"] length_convertHex [of p]
  by (auto simp: put_string_def FixedBuffer_append_eq Stream_formatInteger_def Stream_put_ptr_def put_double_def put_snprintf_def
      FixedBuffer_add_def FixedBuffer_avail_def kMaxNumericSize_def buffer_ok_def)

lemma formatInteger_length:
  fixes v :: "'a::len word"
  assumes "buffer_ok (buffer s)" "LENGTH('a) \<le> 64"
  shows "length (fb_data (buffer (Stream_formatInteger (sint v) s))) = length (fb_data (buffer s))"
    and "length (fb_data (buffer (Stream_formatInteger (uint v) s))) = length (fb_data (buffer s))"
  using put_length(2) [OF assms(1)] sint_word_bounds [OF assms(2)] by blast+

lemma Stream_put_length:
  assumes "buffer_ok (buffer s)" "length (arg_text x) < 2 ^ 64"
  shows "length (fb_data (buffer (Stream_put x s))) = length (fb_data (buffer s))"
  using assms
  by (cases x)
    (simp_all add: stream_ops put_length formatInteger_length length_printf_12g split: option.splits)

lemma FixedBuffer_length_toString: "buffer_ok b \<Longrightarrow> length (FixedBuffer_toString b) = fb_cur b"
  by (simp add: buffer_ok_def FixedBuffer_toString_def FixedBuffer_length_def)

text \<open>A chain of operators. The room is the part of the buffer behind the text.\<close>

definition arg_need :: "arg \<Rightarrow> nat" where
  "arg_need x = (if arg_numeric x then 48 else Suc (length (arg_text x)))"

definition Stream_room :: "Stream \<Rightarrow> nat" where
  "Stream_room s = length (fb_data (buffer s)) - fb_cur (buffer s)"

lemma arg_fits_need: "arg_fits x s \<longleftrightarrow> arg_need x \<le> Stream_room s"
  by (auto simp: arg_fits_def arg_need_def Stream_room_def)

interpretation stream_sink: text_sink Stream_put arg_text arg_need "\<lambda>x. length (arg_text x) < 2 ^ 64" "\<lambda>s. buffer_ok (buffer s)"
  "\<lambda>s. FixedBuffer_toString (buffer s)" Stream_room
proof
  fix s :: Stream and x assume a: "buffer_ok (buffer s)" "length (arg_text x) < 2 ^ 64"
  note p = Stream_put_all_or_nothing [OF a]
  show "buffer_ok (buffer (Stream_put x s))"
    "FixedBuffer_toString (buffer (Stream_put x s)) = FixedBuffer_toString (buffer s) @ (if arg_need x \<le> Stream_room s then arg_text x else [])"
    using p by (simp_all add: arg_fits_need)
  have "fb_cur (buffer (Stream_put x s)) = fb_cur (buffer s) + (if arg_need x \<le> Stream_room s then length (arg_text x) else 0)"
    using FixedBuffer_length_toString [of "buffer (Stream_put x s)"] FixedBuffer_length_toString [OF a(1)] p
    by (auto simp: arg_fits_need split: if_splits)
  then show "Stream_room (Stream_put x s) = Stream_room s - (if arg_need x \<le> Stream_room s then length (arg_text x) else 0)"
    using Stream_put_length [OF a] by (simp add: Stream_room_def)
qed

lemma numeric_lengths:
  fixes v :: "'a::len word"
  shows "LENGTH('a) \<le> 64 \<Longrightarrow> length (convert (sint v)) \<le> 48" "LENGTH('a) \<le> 64 \<Longrightarrow> length (convert (uint v)) \<le> 48"
    "length (convertHex p) \<le> 46" "length (printf_12g (double_of_bits w)) \<le> 48" "length (printf_12g (float_of_bits u)) \<le> 48"
  using length_convert [of "sint v"] length_convert [of "uint v"] sint_word_bounds [of v] length_convertHex [of p]
    length_printf_12g(1) [of w] length_printf_12g(2) [of u] by simp_all

lemma arg_text_need: "length (arg_text x) \<le> arg_need x"
  by (cases x) (simp_all add: arg_need_def numeric_lengths)

text \<open>C35: a chain of \<open>operator<<\<close>, of any arguments and any length, keeps the write position inside the buffer, and what it adds is
  the texts of some of its arguments, complete and in their order: exactly those for which there was room when their turn came (48 bytes for a
  number or a pointer, one more than its length for text). So an argument that does not fit is left out, and shorter ones behind it may still be
  printed; nothing is cut short. If the room is enough for all of them together, all are printed.\<close>

theorem Stream_puts_all_or_nothing:
  assumes "buffer_ok (buffer s)" "list_all (\<lambda>x. length (arg_text x) < 2 ^ 64) xs"
  shows "\<exists>ys. subseq ys xs \<and> ys = printed arg_need arg_text (Stream_room s) xs \<and>
    buffer_ok (buffer (fold Stream_put xs s)) \<and>
    FixedBuffer_toString (buffer (fold Stream_put xs s)) = FixedBuffer_toString (buffer s) @ concat (map arg_text ys) \<and>
    length (concat (map arg_text ys)) \<le> Stream_room s \<and>
    (sum_list (map arg_need xs) \<le> Stream_room s \<longrightarrow> ys = xs)"
  using stream_sink.puts_spec [OF assms] printed_subseq printed_all [of arg_text arg_need] printed_length [of arg_text arg_need]
  by (simp add: arg_text_need)

text \<open>Sixty bytes: a number fits, a long text does not, a short one behind it does.\<close>

theorem Stream_puts_all_or_nothing_witness:
  "FixedBuffer_toString (buffer (fold Stream_put [ArgUInt 42, ArgString (replicate 70 CHR ''x''), ArgChar CHR ''y'']
     \<lparr>buffer = FixedBuffer_init (replicate 60 NUL)\<rparr>)) = ''42y''"
proof -
  let ?s = "\<lparr>buffer = FixedBuffer_init (replicate 60 NUL)\<rparr>"
  let ?xs = "[ArgUInt 42, ArgString (replicate 70 CHR ''x''), ArgChar CHR ''y'']"
  have c: "convert 42 = ''42''" by code_simp
  have "printed arg_need arg_text (Stream_room ?s) ?xs = [ArgUInt 42, ArgChar CHR ''y'']"
    by (simp add: Stream_room_def FixedBuffer_init_def arg_need_def c)
  with Stream_puts_all_or_nothing [of ?s ?xs] show ?thesis
    by (simp add: buffer_ok_def FixedBuffer_init_def FixedBuffer_toString_def FixedBuffer_length_def c)
qed

end
