(* ===== verification/Co_Pool.thy ===== *)
theory Co_Pool
  imports Stream_Buffer
begin

text \<open>
  Coroutines and their pool: \<open>Coroutine\<close> of \<open>include/coroutine.h\<close> and
  \<open>src/coroutine.cc\<close>, \<open>Copoll\<close> of \<open>include/co_poll.h\<close> and \<open>src/co_poll.cc\<close>.
  The pool is a vector of 256 coroutines that never grows; a coroutine is handed out either
  from the stack of idle ids or, when that is empty, as the next one never used. A
  \<open>Coroutine*\<close> is the index of its element.

  The interface \<open>resource_pool\<close> is what the scheduler relies on: a coroutine that is handed
  out was not in use, and only giving it back ends its use.
\<close>

unbundle bit_operations_syntax

section \<open>Coroutines\<close>

text \<open>\<open>enum co_state\<close>, with its numeric values.\<close>

definition kInit :: uint8 where "kInit = 0"
definition kWait :: uint8 where "kWait = 1"
definition kReady :: uint8 where "kReady = 2"
definition kTimeout :: uint8 where "kTimeout = 4"

lemmas co_state_defs = kInit_def kWait_def kReady_def kTimeout_def

text \<open>The union of a coroutine has no tag in the code; the model keeps the member that was written last. \<open>Yield\<close>, a lock or a channel that suspends write \<open>scheduler_\<close> over the
  \<open>std::function\<close> that is being executed, which is never destroyed. A member is read, called or assigned to as what it was last written as, or else
  the behaviour is undefined: the fault \<open>InactiveMember\<close>. Comparing \<open>scheduler_\<close> before it is overwritten has no effect of its own. That the
  variables a closure captured are overwritten too belongs to the code of coroutines, a parameter.\<close>

datatype co_union = Func closure | Sched nat

text \<open>\<open>wait_ctx_\<close> is a shared pointer into the store of wait contexts, \<open>ctx_\<close> the
  position of the stack bottom in the shared stack, \<open>timer_id_\<close> an iterator of the timer map.\<close>

record Coroutine =
  co_id :: uint32
  co_sched_id :: uint32
  co_stack_id :: uint8
  co_state :: uint8
  co_stack :: Stream
  co_wait_ctx :: "nat option"
  co_ctx :: "nat option"
  co_timer_id :: "nat option"
  co_union :: co_union

definition Coroutine_init :: Coroutine where
  "Coroutine_init = \<lparr>co_id = 0, co_sched_id = 0, co_stack_id = 0, co_state = kInit,
     co_stack = \<lparr>buffer = FixedBuffer_init (replicate kSmallBuffer NUL)\<rparr>,
     co_wait_ctx = None, co_ctx = None, co_timer_id = None, co_union = Func 0\<rparr>"

definition Coroutine_Init :: "Coroutine \<Rightarrow> Coroutine" where
  [model_defs]: "Coroutine_Init co =
     co\<lparr>co_state := kInit, co_ctx := None, co_stack := Stream_reset (co_stack co)\<rparr>"

section \<open>The pool\<close>

definition kPoolSize :: nat where
  "kPoolSize = 256"

record Copoll =
  cp_id :: uint32
  idle_co_ids :: "uint32 list"
  pool :: "Coroutine list"

definition Copoll_init :: Copoll where
  "Copoll_init = \<lparr>cp_id = 0, idle_co_ids = [], pool = replicate kPoolSize Coroutine_init\<rparr>"

definition Copoll_Pop :: "Copoll \<Rightarrow> (co_ptr \<times> Copoll) res" where
  [model_defs]: "Copoll_Pop cp =
     (if idle_co_ids cp = [] then
        (let i = unat (cp_id cp) in
         if i < length (pool cp) then
           Inr (i, cp\<lparr>cp_id := cp_id cp + 1,
                     pool := (pool cp)[i := (pool cp ! i)\<lparr>co_id := cp_id cp,
                       co_stack_id := ucast (cp_id cp AND 7)\<rparr>]\<rparr>)
         else Inl OutOfBounds)
      else
        (let i = unat (last (idle_co_ids cp)) in
         if i < length (pool cp) then
           Inr (i, cp\<lparr>idle_co_ids := butlast (idle_co_ids cp),
                     pool := (pool cp)[i := Coroutine_Init (pool cp ! i)]\<rparr>)
         else Inl OutOfBounds))"

definition Copoll_Push :: "co_ptr \<Rightarrow> Copoll \<Rightarrow> Copoll" where
  [model_defs]: "Copoll_Push co cp = cp\<lparr>idle_co_ids := idle_co_ids cp @ [co_id (pool cp ! co)]\<rparr>"

definition Copoll_index :: "nat \<Rightarrow> Copoll \<Rightarrow> co_ptr res" where
  [model_defs]: "Copoll_index i cp = (if i < length (pool cp) then Inr i else Inl OutOfBounds)"

section \<open>The interface of a pool\<close>

text \<open>\<open>n\<close> calls of \<open>pop\<close> in a row: the coroutines handed out and the pool after them.\<close>

primrec pops :: "('p \<Rightarrow> (nat \<times> 'p) res) \<Rightarrow> nat \<Rightarrow> 'p \<Rightarrow> (nat list \<times> 'p) res" where
  "pops pop 0 p = Inr ([], p)"
| "pops pop (Suc n) p =
     res_bind (pop p) (\<lambda>(i, p1). res_bind (pops pop n p1) (\<lambda>(is, p2). Inr (i # is, p2)))"

locale resource_pool =
  fixes invar :: "'p \<Rightarrow> bool"
    and in_use :: "'p \<Rightarrow> nat set"
    and fresh :: "'p \<Rightarrow> nat \<Rightarrow> bool"
    and pop :: "'p \<Rightarrow> (nat \<times> 'p) res"
    and push :: "nat \<Rightarrow> 'p \<Rightarrow> 'p"
    and capacity :: nat
  assumes pop_law: "invar p \<Longrightarrow> pop p = Inr (i, p') \<Longrightarrow>
      invar p' \<and> i \<notin> in_use p \<and> in_use p' = insert i (in_use p) \<and> fresh p' i"
    and pop_total: "invar p \<Longrightarrow> card (in_use p) < capacity \<Longrightarrow> \<exists>r. pop p = Inr r"
    and push_law: "invar p \<Longrightarrow> i \<in> in_use p \<Longrightarrow>
      invar (push i p) \<and> in_use (push i p) = in_use p - {i}"
    and finite_in_use: "invar p \<Longrightarrow> finite (in_use p)"
begin

lemma pops_distinct:
  "invar p \<Longrightarrow> pops pop n p = Inr (is, p') \<Longrightarrow>
   invar p' \<and> distinct is \<and> length is = n \<and> set is \<inter> in_use p = {} \<and>
   in_use p' = in_use p \<union> set is"
proof (induction n arbitrary: p "is")
  case 0
  then show ?case by simp
next
  case (Suc n)
  from Suc.prems(2) obtain i p1 js where s: "pop p = Inr (i, p1)" "pops pop n p1 = Inr (js, p')"
    "is = i # js"
    by (auto simp: res_bind_Inr_conv)
  from pop_law [OF Suc.prems(1) s(1)]
  have p1: "invar p1" "i \<notin> in_use p" "in_use p1 = insert i (in_use p)" by simp_all
  from Suc.IH [OF p1(1) s(2)] show ?case
    using p1 s(3) by auto
qed

lemma pops_total:
  "invar p \<Longrightarrow> card (in_use p) + n \<le> capacity \<Longrightarrow> \<exists>is p'. pops pop n p = Inr (is, p')"
proof (induction n arbitrary: p)
  case 0
  then show ?case by simp
next
  case (Suc n)
  then obtain i p1 where p1: "pop p = Inr (i, p1)"
    using pop_total [of p] by fastforce
  from pop_law [OF Suc.prems(1) p1] have "invar p1" "card (in_use p1) = Suc (card (in_use p))"
    using finite_in_use [OF Suc.prems(1)] by simp_all
  with Suc.IH [of p1] Suc.prems(2) p1 show ?case by auto
qed

end

section \<open>The pool satisfies it\<close>

definition pool_ok :: "Copoll \<Rightarrow> bool" where
  [inv_defs]: "pool_ok cp \<longleftrightarrow>
     length (pool cp) = kPoolSize \<and> unat (cp_id cp) \<le> kPoolSize \<and>
     distinct (idle_co_ids cp) \<and> (\<forall>i \<in> set (idle_co_ids cp). i < cp_id cp) \<and>
     (\<forall>i < unat (cp_id cp). co_id (pool cp ! i) = of_nat i \<and> co_stack_id (pool cp ! i) = of_nat (i mod 8)) \<and>
     (\<forall>i. unat (cp_id cp) \<le> i \<and> i < kPoolSize \<longrightarrow> pool cp ! i = Coroutine_init)"

definition in_use :: "Copoll \<Rightarrow> co_ptr set" where
  "in_use cp = {i. i < unat (cp_id cp) \<and> i \<notin> unat ` set (idle_co_ids cp)}"

text \<open>A coroutine that is handed out is in its initial state with no context and an empty
  private stack, and its shared stack is determined by its id.\<close>

definition co_fresh :: "Copoll \<Rightarrow> co_ptr \<Rightarrow> bool" where
  "co_fresh cp i \<longleftrightarrow> i < kPoolSize \<and> co_id (pool cp ! i) = of_nat i \<and>
     co_stack_id (pool cp ! i) = of_nat (i mod 8) \<and>
     co_state (pool cp ! i) = kInit \<and> co_ctx (pool cp ! i) = None \<and>
     FixedBuffer_length (buffer (co_stack (pool cp ! i))) = 0"

lemma kPoolSize_pos: "0 < kPoolSize"
  by (simp add: kPoolSize_def)

lemma unat_of_nat_small: "i \<le> kPoolSize \<Longrightarrow> unat (of_nat i :: uint32) = i"
  by (simp add: kPoolSize_def unat_of_nat_lt)

lemma of_nat_inj_small:
  "i \<le> kPoolSize \<Longrightarrow> j \<le> kPoolSize \<Longrightarrow> (of_nat i :: uint32) = of_nat j \<longleftrightarrow> i = j"
  using unat_of_nat_small [of i] unat_of_nat_small [of j] by metis

lemma stack_id_mod: "(ucast (w AND 7 :: uint32) :: uint8) = of_nat (unat w mod 8)"
proof -
  have "w AND 7 = take_bit 3 w"
    by (simp add: take_bit_eq_mask mask_numeral)
  then have "unat (w AND 7) = unat w mod 8"
    by (simp add: unsigned_take_bit_eq take_bit_nat_def)
  then have "ucast (w AND 7) = (of_nat (unat w mod 8) :: uint8)"
    by (metis of_nat_unat)
  then show ?thesis .
qed

lemma unat_Suc_id: "unat (w :: uint32) < kPoolSize \<Longrightarrow> unat (w + 1) = Suc (unat w)"
  by (simp add: unat_word_ariths kPoolSize_def)

lemma idle_of_nat:
  assumes "pool_ok cp" "x \<in> set (idle_co_ids cp)"
  shows "unat x < unat (cp_id cp)" "unat x < kPoolSize"
  using assms by (auto simp: pool_ok_def word_less_nat_alt)

lemma Copoll_Pop_new:
  assumes ok: "pool_ok cp" and idle: "idle_co_ids cp = []" and pop: "Copoll_Pop cp = Inr (i, cp')"
  shows "pool_ok cp' \<and> i \<notin> in_use cp \<and> in_use cp' = insert i (in_use cp) \<and> co_fresh cp' i"
proof -
  let ?co = "(pool cp ! i)\<lparr>co_id := cp_id cp, co_stack_id := ucast (cp_id cp AND 7)\<rparr>"
  have i: "i = unat (cp_id cp)" "i < kPoolSize"
    and cp': "cp' = cp\<lparr>cp_id := cp_id cp + 1, pool := (pool cp)[i := ?co]\<rparr>"
    using pop idle ok by (auto simp: Copoll_Pop_def Let_def pool_ok_def split: if_splits)
  have Suc: "unat (cp_id cp + 1) = Suc i"
    using i by (simp add: unat_Suc_id)
  have init: "pool cp ! i = Coroutine_init"
    using ok i by (simp add: pool_ok_def)
  have cid: "of_nat i = cp_id cp" by (simp add: i)
  have "pool_ok cp'"
    using ok idle i Suc
    by (auto simp: pool_ok_def cp' nth_list_update stack_id_mod less_Suc_eq)
  moreover have "in_use cp' = insert i (in_use cp)" "i \<notin> in_use cp"
    using idle i Suc by (auto simp: in_use_def cp')
  moreover have "co_fresh cp' i"
    using ok i(2) cid init stack_id_mod [of "cp_id cp", folded i(1)]
    by (simp add: co_fresh_def cp' pool_ok_def Coroutine_init_def FixedBuffer_init_def
        FixedBuffer_length_def)
  ultimately show ?thesis by blast
qed

lemma Copoll_Pop_idle:
  assumes ok: "pool_ok cp" and idle: "idle_co_ids cp \<noteq> []" and pop: "Copoll_Pop cp = Inr (i, cp')"
  shows "pool_ok cp' \<and> i \<notin> in_use cp \<and> in_use cp' = insert i (in_use cp) \<and> co_fresh cp' i"
proof -
  let ?l = "last (idle_co_ids cp)"
  have ids: "idle_co_ids cp = butlast (idle_co_ids cp) @ [?l]"
    using idle by simp
  then have l: "?l \<in> set (idle_co_ids cp)" "?l \<notin> set (butlast (idle_co_ids cp))"
    "distinct (butlast (idle_co_ids cp))"
    using ok idle by (auto simp: pool_ok_def distinct_butlast)
      (metis ids distinct_append disjoint_iff list.set_intros(1) pool_ok_def)
  have i: "i = unat ?l" "i < unat (cp_id cp)" "i < kPoolSize"
    and cp': "cp' = cp\<lparr>idle_co_ids := butlast (idle_co_ids cp),
        pool := (pool cp)[i := Coroutine_Init (pool cp ! i)]\<rparr>"
    using pop idle idle_of_nat [OF ok l(1)] by (auto simp: Copoll_Pop_def Let_def split: if_splits)
  have set_idle: "set (idle_co_ids cp) = insert ?l (set (butlast (idle_co_ids cp)))"
    using ids by (metis Un_insert_right list.simps(15) set_append sup_bot.right_neutral empty_set)
  have "pool_ok cp'"
    using ok i l
    by (auto simp: pool_ok_def cp' nth_list_update Coroutine_Init_def dest: in_set_butlastD)
  moreover have "i \<notin> in_use cp"
    using i l by (simp add: in_use_def)
  moreover have "unat ` set (idle_co_ids cp) = insert i (unat ` set (butlast (idle_co_ids cp)))"
    "i \<notin> unat ` set (butlast (idle_co_ids cp))"
    using i l by (auto simp: set_idle)
  then have "in_use cp' = insert i (in_use cp)"
    using i by (auto simp: in_use_def cp')
  moreover have "co_fresh cp' i"
    using ok i
    by (simp add: co_fresh_def cp' pool_ok_def Coroutine_Init_def Stream_reset_def
        FixedBuffer_reset_def FixedBuffer_length_def)
  ultimately show ?thesis by blast
qed

lemma Copoll_Push_law:
  assumes ok: "pool_ok cp" and use: "i \<in> in_use cp"
  shows "pool_ok (Copoll_Push i cp) \<and> in_use (Copoll_Push i cp) = in_use cp - {i}"
proof -
  have i: "i < unat (cp_id cp)" "i \<notin> unat ` set (idle_co_ids cp)"
    "co_id (pool cp ! i) = of_nat i" "i < kPoolSize"
    using ok use by (auto simp: in_use_def pool_ok_def)
  then have ui: "unat (of_nat i :: uint32) = i"
    by (simp add: unat_of_nat_small)
  then have "(of_nat i :: uint32) < cp_id cp"
    using i by (simp add: word_less_nat_alt)
  with ok i ui have "pool_ok (Copoll_Push i cp)"
    by (auto simp: pool_ok_def Copoll_Push_def) (metis image_eqI)
  moreover have "in_use (Copoll_Push i cp) = in_use cp - {i}"
    using i ui by (auto simp: in_use_def Copoll_Push_def)
  ultimately show ?thesis ..
qed

lemma finite_in_use_Copoll: "finite (in_use cp)"
  by (simp add: in_use_def)

lemma card_in_use:
  assumes "pool_ok cp"
  shows "card (in_use cp) + length (idle_co_ids cp) = unat (cp_id cp)"
proof -
  let ?idle = "unat ` set (idle_co_ids cp)"
  have "{..< unat (cp_id cp)} = in_use cp \<union> ?idle" "in_use cp \<inter> ?idle = {}"
    using assms idle_of_nat [OF assms]
    by (auto simp: in_use_def)
  moreover have "card ?idle = length (idle_co_ids cp)"
    using assms by (subst card_image) (auto simp: inj_on_def pool_ok_def distinct_card)
  ultimately show ?thesis
    using card_Un_disjoint [of "in_use cp" ?idle] card_lessThan [of "unat (cp_id cp)"]
    by (simp add: finite_in_use_Copoll)
qed

lemma Copoll_Pop_total:
  assumes ok: "pool_ok cp" and room: "card (in_use cp) < kPoolSize"
  shows "\<exists>r. Copoll_Pop cp = Inr r"
proof (cases "idle_co_ids cp")
  case Nil
  with card_in_use [OF ok] room ok show ?thesis
    by (simp add: Copoll_Pop_def Let_def pool_ok_def)
next
  case (Cons a list)
  then have "last (idle_co_ids cp) \<in> set (idle_co_ids cp)" by simp
  with idle_of_nat [OF ok this] ok Cons show ?thesis
    by (simp add: Copoll_Pop_def Let_def pool_ok_def)
qed

lemma Copoll_Pop_law:
  "pool_ok cp \<Longrightarrow> Copoll_Pop cp = Inr (i, cp') \<Longrightarrow>
   pool_ok cp' \<and> i \<notin> in_use cp \<and> in_use cp' = insert i (in_use cp) \<and> co_fresh cp' i"
  by (cases "idle_co_ids cp = []") (rule Copoll_Pop_new Copoll_Pop_idle; assumption)+

interpretation copool: resource_pool pool_ok in_use co_fresh Copoll_Pop Copoll_Push kPoolSize
  by unfold_locales
    (rule Copoll_Pop_law Copoll_Pop_total Copoll_Push_law finite_in_use_Copoll; assumption)+

lemma pool_ok_init: "pool_ok Copoll_init"
  by (simp add: pool_ok_def Copoll_init_def)

lemma in_use_init: "in_use Copoll_init = {}"
  by (simp add: in_use_def Copoll_init_def)

text \<open>A coroutine that is in use is never handed out again: any number of calls
  of \<open>Pop\<close> in a row hand out pairwise distinct coroutines none of which was in use, and after
  them exactly these are in use in addition.\<close>

theorem Copoll_pops_distinct:
  assumes "pool_ok cp" "pops Copoll_Pop n cp = Inr (cos, cp')"
  shows "pool_ok cp' \<and> distinct cos \<and> length cos = n \<and> set cos \<inter> in_use cp = {} \<and>
    in_use cp' = in_use cp \<union> set cos"
  using assms by (rule copool.pops_distinct)

theorem Copoll_pops_distinct_witness:
  "\<exists>cos cp'. pops Copoll_Pop 256 Copoll_init = Inr (cos, cp') \<and> distinct cos \<and> length cos = 256 \<and>
    in_use cp' = set cos"
proof -
  obtain cos cp' where r: "pops Copoll_Pop 256 Copoll_init = Inr (cos, cp')"
    using copool.pops_total [OF pool_ok_init, of 256] by (auto simp: in_use_init kPoolSize_def)
  from Copoll_pops_distinct [OF pool_ok_init r] r show ?thesis
    by (simp add: in_use_init)
qed

text \<open>What a popped coroutine starts from, and what giving one back does. \<open>Pop\<close> hands
  out a coroutine whose state is \<open>kInit\<close>, which has no context and an empty private stack, and
  whose shared stack is its id modulo 8; \<open>Push\<close> of a coroutine in use ends its use and
  no other's. Both keep the pool well formed.\<close>

theorem Copoll_Pop_Push_contract:
  assumes "pool_ok cp"
  shows "(\<forall>i cp'. Copoll_Pop cp = Inr (i, cp') \<longrightarrow> pool_ok cp' \<and> co_fresh cp' i) \<and>
    (\<forall>i \<in> in_use cp. pool_ok (Copoll_Push i cp) \<and> in_use (Copoll_Push i cp) = in_use cp - {i})"
  using copool.pop_law [OF assms] copool.push_law [OF assms] by blast

theorem Copoll_Pop_Push_contract_witness:
  "\<exists>cp'. Copoll_Pop Copoll_init = Inr (0, cp') \<and> co_fresh cp' 0"
proof -
  have "Copoll_Pop Copoll_init = Inr (0, Copoll_init\<lparr>cp_id := 1,
      pool := (pool Copoll_init)[0 := Coroutine_init\<lparr>co_id := 0, co_stack_id := 0\<rparr>]\<rparr>)"
    by (simp add: Copoll_Pop_def Copoll_init_def kPoolSize_pos)
  with Copoll_Pop_Push_contract [OF pool_ok_init] show ?thesis by blast
qed

text \<open>The pool never grows: \<open>Pop\<close> runs past the end of the vector exactly when all of its
  256 coroutines are in use.\<close>

theorem Copoll_Pop_exhausted:
  assumes "pool_ok cp"
  shows "Copoll_Pop cp = Inl OutOfBounds \<longleftrightarrow> card (in_use cp) = 256"
proof
  assume "Copoll_Pop cp = Inl OutOfBounds"
  with Copoll_Pop_total [OF assms] have "\<not> card (in_use cp) < kPoolSize"
    by auto
  with card_in_use [OF assms] assms show "card (in_use cp) = 256"
    by (simp add: pool_ok_def kPoolSize_def)
next
  assume "card (in_use cp) = 256"
  moreover have "unat (cp_id cp) \<le> 256"
    using assms by (simp add: pool_ok_def kPoolSize_def)
  ultimately have "length (idle_co_ids cp) = 0" "unat (cp_id cp) = 256"
    using card_in_use [OF assms] by arith+
  with assms show "Copoll_Pop cp = Inl OutOfBounds"
    by (simp add: Copoll_Pop_def pool_ok_def kPoolSize_def)
qed

theorem Copoll_Pop_exhausted_witness:
  "\<exists>cos cp'. pops Copoll_Pop 256 Copoll_init = Inr (cos, cp') \<and> Copoll_Pop cp' = Inl OutOfBounds"
proof -
  obtain cos cp' where r: "pops Copoll_Pop 256 Copoll_init = Inr (cos, cp')"
    using copool.pops_total [OF pool_ok_init, of 256] by (auto simp: in_use_init kPoolSize_def)
  from copool.pops_distinct [OF pool_ok_init r] have "pool_ok cp'" "card (in_use cp') = 256"
    by (auto simp: in_use_init distinct_card)
  with r Copoll_Pop_exhausted [of cp'] show ?thesis by blast
qed

end
