(* ===== verification/Co_Mutex.thy ===== *)
theory Co_Mutex
  imports Fifo Co_Pool
begin

text \<open>
  The coroutine mutex: \<open>Mutex\<close> of \<open>include/mutex.h\<close> and \<open>src/mutex.cc\<close>. The operations
  run under a thread mutex, so each is one atomic step up to the point where it releases that mutex;
  what follows (the \<open>Yield\<close> of a coroutine that has to wait, the \<open>AddReadyTask\<close> of
  the one that is handed the lock) interleaves with the operations of coroutines on other
  schedulers. A coroutine is a number, with the union that holds its function or its scheduler; that it is resumed by the loop of its scheduler only
  after it has yielded is how a scheduler thread works, and the step relation has it so.
\<close>

section \<open>Operations\<close>

record Mutex =
  wait_queue :: "co_ptr list"
  lock :: bool

definition Mutex_init :: Mutex where
  "Mutex_init = \<lparr>wait_queue = [], lock = False\<rparr>"

text \<open>\<open>Lock\<close> by the coroutine \<open>co\<close> of the scheduler with the given number: whether it has to yield afterwards. A
  coroutine that has to wait stores its scheduler in its union.\<close>

type_synonym unions_t = "co_ptr \<Rightarrow> co_union"

definition Mutex_Lock :: "nat \<Rightarrow> co_ptr \<Rightarrow> unions_t \<Rightarrow> Mutex \<Rightarrow> bool \<times> unions_t \<times> Mutex" where
  [model_defs]: "Mutex_Lock scheduler co u m =
     (if lock m then (True, u(co := Sched scheduler), m\<lparr>wait_queue := wait_queue m @ [co]\<rparr>)
      else (False, u, m\<lparr>lock := True\<rparr>))"

text \<open>Reading \<open>co->scheduler_\<close>.\<close>

fun co_scheduler :: "co_union \<Rightarrow> nat res" where
  "co_scheduler (Sched k) = Inr k"
| "co_scheduler (Func f) = Inl InactiveMember"

text \<open>\<open>UnLock\<close>: the coroutine that is made ready, if any, and the scheduler in which it is.\<close>

definition Mutex_UnLock :: "unions_t \<Rightarrow> Mutex \<Rightarrow> (co_ptr \<times> nat res) option \<times> Mutex" where
  [model_defs]: "Mutex_UnLock u m =
     (case wait_queue m of
        co # cos \<Rightarrow> (Some (co, co_scheduler (u co)), m\<lparr>wait_queue := cos\<rparr>)
      | [] \<Rightarrow> (None, m\<lparr>lock := False\<rparr>))"

definition Mutex_TryLock :: "Mutex \<Rightarrow> bool \<times> Mutex" where
  [model_defs]: "Mutex_TryLock m = (if lock m then (False, m) else (True, m\<lparr>lock := True\<rparr>))"

text \<open>\<open>MutexGuard\<close>: the constructor locks, the destructor unlocks.\<close>

definition MutexGuard_MutexGuard :: "nat \<Rightarrow> co_ptr \<Rightarrow> unions_t \<Rightarrow> Mutex \<Rightarrow> bool \<times> unions_t \<times> Mutex" where
  [model_defs]: "MutexGuard_MutexGuard = Mutex_Lock"

definition MutexGuard_destroy :: "unions_t \<Rightarrow> Mutex \<Rightarrow> (co_ptr \<times> nat res) option \<times> Mutex" where
  [model_defs]: "MutexGuard_destroy = Mutex_UnLock"

section \<open>Coroutines that use a mutex\<close>

text \<open>Where a coroutine is: outside, queued and about to yield, yielded, in the critical section. Every coroutine belongs to a
  scheduler; \<open>home\<close> does not change. \<open>Yield\<close> stores the scheduler once more.\<close>

datatype mx_pc = Outside | Yielding | Parked | Holding

record mx_sys =
  mtx :: Mutex
  pc :: "co_ptr \<Rightarrow> mx_pc"
  ready :: "co_ptr list" \<comment> \<open>handed the lock and queued in their schedulers\<close>
  scheds :: unions_t
  home :: "co_ptr \<Rightarrow> nat"

inductive mx_step :: "mx_sys \<Rightarrow> mx_sys \<Rightarrow> bool" where
  lock: "pc s c = Outside \<Longrightarrow> Mutex_Lock (home s c) c (scheds s) (mtx s) = (wait, u, m) \<Longrightarrow>
    mx_step s (s\<lparr>mtx := m, scheds := u, pc := (pc s)(c := (if wait then Yielding else Holding))\<rparr>)"
| yield: "pc s c = Yielding \<Longrightarrow>
    mx_step s (s\<lparr>pc := (pc s)(c := Parked), scheds := (scheds s)(c := Sched (home s c))\<rparr>)"
| trylock: "pc s c = Outside \<Longrightarrow> Mutex_TryLock (mtx s) = (ok, m) \<Longrightarrow>
    mx_step s (s\<lparr>mtx := m, pc := (pc s)(c := (if ok then Holding else Outside))\<rparr>)"
| unlock: "pc s c = Holding \<Longrightarrow> Mutex_UnLock (scheds s) (mtx s) = (next, m) \<Longrightarrow>
    mx_step s (s\<lparr>mtx := m, pc := (pc s)(c := Outside),
                 ready := ready s @ (case next of None \<Rightarrow> [] | Some (d, k) \<Rightarrow> [d])\<rparr>)"
| resume: "c \<in> set (ready s) \<Longrightarrow> pc s c = Parked \<Longrightarrow>
    mx_step s (s\<lparr>pc := (pc s)(c := Holding), ready := remove1 c (ready s)\<rparr>)"

inductive_cases mx_stepE: "mx_step s s'"

text \<open>Initially the unions hold anything.\<close>

definition mx_init :: "unions_t \<Rightarrow> (co_ptr \<Rightarrow> nat) \<Rightarrow> mx_sys" where
  "mx_init u h = \<lparr>mtx = Mutex_init, pc = (\<lambda>_. Outside), ready = [], scheds = u, home = h\<rparr>"

section \<open>The invariant\<close>

text \<open>A locked mutex has one owner: the coroutine in the critical section, or the one that was
  handed the lock and is not resumed yet. The waiting coroutines are exactly the
  queued ones and the one handed over.\<close>

definition owners :: "mx_sys \<Rightarrow> co_ptr set" where
  "owners s = {d. pc s d = Holding} \<union> set (ready s)"

definition waiting :: "mx_sys \<Rightarrow> co_ptr set" where
  "waiting s = {c. pc s c = Yielding \<or> pc s c = Parked}"

definition mx_inv :: "mx_sys \<Rightarrow> bool" where
  [inv_defs]: "mx_inv s \<longleftrightarrow>
     distinct (wait_queue (mtx s) @ ready s) \<and> waiting s = set (wait_queue (mtx s) @ ready s) \<and>
     (\<forall>c \<in> waiting s. scheds s c = Sched (home s c)) \<and>
     (if lock (mtx s) then \<exists>c. owners s = {c} else owners s = {} \<and> wait_queue (mtx s) = [])"

lemma mx_inv_init: "mx_inv (mx_init u h)"
  by (simp add: mx_inv_def mx_init_def owners_def waiting_def Mutex_init_def)

lemma mx_inv_owner:
  assumes "mx_inv s" "c \<in> owners s"
  shows "owners s = {c}" "lock (mtx s)"
  using assms by (auto simp: mx_inv_def split: if_splits)

lemma mx_inv_holding:
  assumes inv: "mx_inv s" and c: "pc s c = Holding"
  shows "ready s = []" "lock (mtx s)" "owners s = {c}"
proof -
  show o: "owners s = {c}" "lock (mtx s)"
    using mx_inv_owner [OF inv, of c] c by (auto simp: owners_def)
  have "c \<notin> set (ready s)" using inv c by (auto simp: mx_inv_def waiting_def)
  moreover have "set (ready s) \<subseteq> {c}" using o(1) by (auto simp: owners_def)
  ultimately show "ready s = []" by (cases "ready s") auto
qed

lemma mx_inv_handed:
  assumes inv: "mx_inv s" and c: "c \<in> set (ready s)"
  shows "ready s = [c]" "lock (mtx s)" "{d. pc s d = Holding} = {}"
proof -
  have o: "owners s = {c}" "lock (mtx s)"
    using mx_inv_owner [OF inv, of c] c by (auto simp: owners_def)
  then show "lock (mtx s)" by simp
  have "distinct (ready s)" "set (ready s) = {c}"
    using inv o c by (auto simp: mx_inv_def owners_def)
  then show "ready s = [c]" by (cases "ready s"; cases "tl (ready s)") auto
  have "pc s c \<noteq> Holding" using inv c by (auto simp: mx_inv_def waiting_def)
  then show "{d. pc s d = Holding} = {}" using o by (auto simp: owners_def)
qed

lemma mx_inv_queued:
  assumes "mx_inv s"
  shows "c \<in> set (wait_queue (mtx s) @ ready s) \<longleftrightarrow> pc s c = Yielding \<or> pc s c = Parked"
  using assms unfolding mx_inv_def waiting_def by blast

lemma mx_inv_lock:
  assumes inv: "mx_inv s" and c: "pc s c = Outside" and m: "Mutex_Lock (home s c) c (scheds s) (mtx s) = (wait, u, m)"
  shows "mx_inv (s\<lparr>mtx := m, scheds := u, pc := (pc s)(c := (if wait then Yielding else Holding))\<rparr>)"
proof -
  let ?s = "s\<lparr>mtx := m, scheds := u, pc := (pc s)(c := (if wait then Yielding else Holding))\<rparr>"
  have out: "c \<notin> set (wait_queue (mtx s) @ ready s)" using mx_inv_queued [OF inv, of c] c by simp
  show ?thesis
  proof (cases "lock (mtx s)")
    case True
    then have "wait" "u = (scheds s)(c := Sched (home s c))" "m = (mtx s)\<lparr>wait_queue := wait_queue (mtx s) @ [c]\<rparr>"
      using m by (auto simp: Mutex_Lock_def)
    moreover have "owners ?s = owners s" "waiting ?s = insert c (waiting s)"
      using c \<open>wait\<close> by (auto simp: owners_def waiting_def)
    ultimately show ?thesis using inv True out by (auto simp: mx_inv_def)
  next
    case False
    then have "\<not> wait" "u = scheds s" "m = (mtx s)\<lparr>lock := True\<rparr>" using m by (auto simp: Mutex_Lock_def)
    moreover have "owners ?s = insert c (owners s)" "waiting ?s = waiting s"
      using c \<open>\<not> wait\<close> by (auto simp: owners_def waiting_def)
    ultimately show ?thesis using inv False by (auto simp: mx_inv_def)
  qed
qed

lemma mx_inv_trylock:
  assumes inv: "mx_inv s" and c: "pc s c = Outside" and m: "Mutex_TryLock (mtx s) = (ok, m)"
  shows "mx_inv (s\<lparr>mtx := m, pc := (pc s)(c := (if ok then Holding else Outside))\<rparr>)"
proof (cases "lock (mtx s)")
  case True
  then have "\<not> ok" "m = mtx s" using m by (auto simp: Mutex_TryLock_def)
  moreover have "(pc s)(c := Outside) = pc s" using c by auto
  ultimately show ?thesis using inv by simp
next
  case False
  then have "Mutex_Lock (home s c) c (scheds s) (mtx s) = (\<not> ok, scheds s, m)" "ok"
    using m by (auto simp: Mutex_TryLock_def Mutex_Lock_def)
  with mx_inv_lock [OF inv c, of "\<not> ok" "scheds s" m] show ?thesis by simp
qed

lemma mx_inv_unlock:
  assumes inv: "mx_inv s" and c: "pc s c = Holding" and m: "Mutex_UnLock (scheds s) (mtx s) = (next, m)"
  shows "mx_inv (s\<lparr>mtx := m, pc := (pc s)(c := Outside),
    ready := ready s @ (case next of None \<Rightarrow> [] | Some (d, k) \<Rightarrow> [d])\<rparr>)"
proof -
  note h = mx_inv_holding [OF inv c]
  have hold: "{d. pc s d = Holding} = {c}" using h by (auto simp: owners_def)
  show ?thesis
  proof (cases "wait_queue (mtx s)")
    case Nil
    then have "next = None" "m = (mtx s)\<lparr>lock := False\<rparr>" using m by (auto simp: Mutex_UnLock_def)
    then show ?thesis using inv h hold Nil c
      by (auto simp: mx_inv_def owners_def waiting_def)
  next
    case (Cons d q)
    then have "next = Some (d, co_scheduler (scheds s d))" "m = (mtx s)\<lparr>wait_queue := q\<rparr>" using m by (auto simp: Mutex_UnLock_def)
    moreover have "d \<noteq> c" using mx_inv_queued [OF inv, of d] Cons c by auto
    ultimately show ?thesis using inv h hold Cons c
      by (auto simp: mx_inv_def owners_def waiting_def)
  qed
qed

lemma mx_inv_resume:
  assumes inv: "mx_inv s" and c: "c \<in> set (ready s)" "pc s c = Parked"
  shows "mx_inv (s\<lparr>pc := (pc s)(c := Holding), ready := remove1 c (ready s)\<rparr>)"
  using inv mx_inv_handed [OF inv c(1)] c
  by (auto simp: mx_inv_def owners_def waiting_def)

lemma mx_inv_step: "mx_step s s' \<Longrightarrow> mx_inv s \<Longrightarrow> mx_inv s'"
proof (induction rule: mx_step.induct)
  case (yield s c)
  let ?s = "s\<lparr>pc := (pc s)(c := Parked), scheds := (scheds s)(c := Sched (home s c))\<rparr>"
  have "owners ?s = owners s" "waiting ?s = waiting s" using yield by (auto simp: owners_def waiting_def)
  with yield show ?case by (simp add: mx_inv_def)
qed (simp_all add: mx_inv_lock mx_inv_trylock mx_inv_unlock mx_inv_resume)

lemma mx_reachable_inv: "mx_step\<^sup>*\<^sup>* (mx_init u h) s \<Longrightarrow> mx_inv s"
  by (induction rule: rtranclp_induct) (auto intro: mx_inv_init mx_inv_step)

lemma mx_reachable_home: "mx_step\<^sup>*\<^sup>* (mx_init u h) s \<Longrightarrow> home s = h"
  by (induction rule: rtranclp_induct) (auto simp: mx_init_def elim!: mx_stepE)

section \<open>What the mutex guarantees\<close>

text \<open>C6: mutual exclusion. However the coroutines of any number of schedulers interleave their
  \<open>Lock\<close>, \<open>TryLock\<close> and \<open>UnLock\<close> calls, at most one of them is in the critical section, and
  while one is, no other has been handed the lock.\<close>

theorem Mutex_mutual_exclusion:
  assumes "mx_step\<^sup>*\<^sup>* (mx_init u h) s" "pc s c = Holding"
  shows "(\<forall>d. pc s d = Holding \<longrightarrow> d = c) \<and> ready s = [] \<and> lock (mtx s)"
  using mx_inv_holding [OF mx_reachable_inv [OF assms(1)] assms(2)] by (auto simp: owners_def)

text \<open>C7: a coroutine that waits is never forgotten. In every reachable state, if a coroutine is waiting
  then the mutex is locked and has an owner that will release it: another coroutine in the critical section, or a
  waiting coroutine that has been handed the lock (possibly this one); so the mutex is never free while
  coroutines wait for it. The next call of \<open>UnLock\<close> makes the first one in the queue ready, in the scheduler it belongs to, which it
  finds in the union of that coroutine.\<close>

theorem Mutex_no_forgotten_waiter:
  assumes "mx_step\<^sup>*\<^sup>* (mx_init u h) s" "pc s c = Yielding \<or> pc s c = Parked"
  shows "(c \<in> set (wait_queue (mtx s)) \<or> ready s = [c]) \<and> lock (mtx s) \<and>
    (\<exists>d. pc s d = Holding \<or> ready s = [d]) \<and>
    (case wait_queue (mtx s) of
       [] \<Rightarrow> ready s = [c]
     | d # q \<Rightarrow> fst (Mutex_UnLock (scheds s) (mtx s)) = Some (d, Inr (h d)))"
proof -
  have inv: "mx_inv s" using mx_reachable_inv [OF assms(1)] .
  have c: "c \<in> set (wait_queue (mtx s)) \<or> c \<in> set (ready s)"
    using mx_inv_queued [OF inv, of c] assms(2) by simp
  moreover have l: "lock (mtx s)"
    using c inv by (auto simp: mx_inv_def owners_def split: if_splits)
  then obtain d where "owners s = {d}" using inv by (auto simp: mx_inv_def)
  then have "pc s d = Holding \<or> d \<in> set (ready s)" by (auto simp: owners_def)
  moreover have "fst (Mutex_UnLock (scheds s) (mtx s)) = Some (d, Inr (h d))" if "wait_queue (mtx s) = d # q" for d q
  proof -
    have "scheds s d = Sched (home s d)" using inv that by (auto simp: mx_inv_def)
    then show ?thesis using that mx_reachable_home [OF assms(1)] by (simp add: Mutex_UnLock_def)
  qed
  ultimately show ?thesis using mx_inv_handed(1) [OF inv] c l by (auto split: list.split)
qed

text \<open>The calls on one mutex as a sequence, and what each does to the queue of waiters.\<close>

datatype mx_op = Lock nat co_ptr | TryLock | UnLock

datatype mx_event = Waits co_ptr | Wakes co_ptr | Plain

fun mx_call :: "mx_op \<Rightarrow> unions_t \<times> Mutex \<Rightarrow> mx_event \<times> unions_t \<times> Mutex" where
  "mx_call (Lock k c) (u, m) = (case Mutex_Lock k c u m of (wait, u', m') \<Rightarrow> (if wait then Waits c else Plain, u', m'))"
| "mx_call TryLock (u, m) = (Plain, u, snd (Mutex_TryLock m))"
| "mx_call UnLock (u, m) =
     (case Mutex_UnLock u m of (next, m') \<Rightarrow> (case next of None \<Rightarrow> Plain | Some (d, k) \<Rightarrow> Wakes d, u, m'))"

fun waits_of :: "mx_event \<Rightarrow> co_ptr list" where
  "waits_of (Waits c) = [c]"
| "waits_of _ = []"

fun wakes_of :: "mx_event \<Rightarrow> co_ptr list" where
  "wakes_of (Wakes c) = [c]"
| "wakes_of _ = []"

interpretation mutexq: fifo mx_call "\<lambda>_. True" "\<lambda>_. True" "\<lambda>um. wait_queue (snd um)" waits_of wakes_of
proof unfold_locales
  fix x :: mx_op and q :: "unions_t \<times> Mutex"
  obtain u m where "q = (u, m)" by force
  then show "wakes_of (fst (mx_call x q)) @ wait_queue (snd (snd (mx_call x q))) = wait_queue (snd q) @ waits_of (fst (mx_call x q))"
    by (cases x) (simp_all add: model_defs split: list.split)
qed simp

text \<open>C8: the lock is handed over in the order of arrival. For any sequence of calls on a mutex, the
  coroutines that \<open>UnLock\<close> makes ready, followed by the ones still waiting, are the ones that
  were waiting before followed by the ones that came to wait, in order.\<close>

theorem Mutex_handover_fifo:
  "concat (map wakes_of (fst (run_ops mx_call calls (u, m)))) @ wait_queue (snd (snd (run_ops mx_call calls (u, m)))) =
     wait_queue m @ concat (map waits_of (fst (run_ops mx_call calls (u, m))))"
  using mutexq.run_fifo [of calls "(u, m)"] by simp

section \<open>A run\<close>

definition mx_two :: mx_sys where
  "mx_two = \<lparr>mtx = \<lparr>wait_queue = [2], lock = True\<rparr>,
     pc = (\<lambda>_. Outside)(1 := Holding, 2 := Yielding), ready = [], scheds = (\<lambda>_. Func 0)(2 := Sched 7), home = (\<lambda>_. 7)\<rparr>"

lemma mx_two_reachable: "mx_step\<^sup>*\<^sup>* (mx_init (\<lambda>_. Func 0) (\<lambda>_. 7)) mx_two"
proof -
  let ?i = "mx_init (\<lambda>_. Func 0) (\<lambda>_. 7)"
  let ?s = "?i\<lparr>mtx := \<lparr>wait_queue = [], lock = True\<rparr>, pc := (\<lambda>_. Outside)(1 := Holding)\<rparr>"
  have "mx_step ?i ?s" using mx_step.lock [of ?i 1 False "\<lambda>_. Func 0" "\<lparr>wait_queue = [], lock = True\<rparr>"]
    by (simp add: mx_init_def Mutex_init_def Mutex_Lock_def)
  moreover have "mx_step ?s mx_two"
    using mx_step.lock [of ?s 2 True "(\<lambda>_. Func 0)(2 := Sched 7)" "\<lparr>wait_queue = [2], lock = True\<rparr>"]
    by (simp add: mx_init_def mx_two_def Mutex_Lock_def)
  ultimately show ?thesis by (meson rtranclp.rtrancl_refl rtranclp.rtrancl_into_rtrancl)
qed

theorem Mutex_mutual_exclusion_witness: "pc mx_two 1 = Holding \<and> {d. pc mx_two d = Holding} = {1} \<and> lock (mtx mx_two)"
proof -
  have "pc mx_two 1 = Holding" by (simp add: mx_two_def)
  with Mutex_mutual_exclusion [OF mx_two_reachable this] show ?thesis by blast
qed

theorem Mutex_no_forgotten_waiter_witness:
  "pc mx_two 2 = Yielding \<and> (\<exists>d. pc mx_two d = Holding \<or> ready mx_two = [d]) \<and>
   fst (Mutex_UnLock (scheds mx_two) (mtx mx_two)) = Some (2, Inr 7)"
  using Mutex_no_forgotten_waiter [OF mx_two_reachable, of 2] by (simp add: mx_two_def)

end
