(* ===== verification/Wait_Ctx.thy ===== *)
theory Wait_Ctx
  imports Co_Pool Atomic
begin

text \<open>
  Memory objects and wait contexts. Memory is a collection of allocated objects (shared stacks,
  variables of coroutines, heap blocks); a pointer is an object and an offset in it, so that
  pointer arithmetic stays in its object and an access outside of it is a fault. A wait context
  (\<open>WaitCtx\<close> of \<open>include/channel.h\<close>) records a coroutine that waits on a channel, the
  buffer its data goes to or comes from, and a state byte that the channel and the timers race
  for; contexts are reached through shared pointers, so they live in a store that only grows.
\<close>

section \<open>Memory\<close>

datatype ptr = Ptr (obj: nat) (off: int)

type_synonym memory = "byte list list"

definition valid_range :: "memory \<Rightarrow> ptr \<Rightarrow> nat \<Rightarrow> bool" where
  "valid_range m p n \<longleftrightarrow> obj p < length m \<and> 0 \<le> off p \<and> off p + int n \<le> int (length (m ! obj p))"

definition mem_load :: "memory \<Rightarrow> ptr \<Rightarrow> nat \<Rightarrow> byte list res" where
  "mem_load m p n = (if valid_range m p n then Inr (slice (nat (off p)) n (m ! obj p)) else Inl OutOfBounds)"

definition mem_store :: "memory \<Rightarrow> ptr \<Rightarrow> byte list \<Rightarrow> memory res" where
  "mem_store m p bs =
     (if valid_range m p (length bs) then Inr (m[obj p := blit (nat (off p)) bs (m ! obj p)])
      else Inl OutOfBounds)"

definition memcpy :: "ptr \<Rightarrow> ptr \<Rightarrow> nat \<Rightarrow> memory \<Rightarrow> memory res" where
  "memcpy dst src n m = res_bind (mem_load m src n) (mem_store m dst)"

lemma length_mem_load: "mem_load m p n = Inr bs \<Longrightarrow> length bs = n"
  by (auto simp: mem_load_def valid_range_def split: if_splits)

lemma mem_load_store_same:
  "mem_store m p bs = Inr m' \<Longrightarrow> mem_load m' p (length bs) = Inr bs"
  by (auto simp: mem_store_def mem_load_def valid_range_def nth_list_update split: if_splits)

lemma mem_load_store_other:
  "mem_store m p bs = Inr m' \<Longrightarrow> obj q \<noteq> obj p \<Longrightarrow> mem_load m' q n = mem_load m q n"
  by (auto simp: mem_store_def mem_load_def valid_range_def nth_list_update split: if_splits)

lemma mem_store_valid:
  "valid_range m p (length bs) \<Longrightarrow> \<exists>m'. mem_store m p bs = Inr m' \<and> length m' = length m \<and>
     (\<forall>q n. valid_range m' q n \<longleftrightarrow> valid_range m q n)"
  by (auto simp: mem_store_def valid_range_def nth_list_update)

lemma mem_load_append:
  "obj p < length m \<Longrightarrow> mem_load (m @ ms) p n = mem_load m p n"
  by (simp add: mem_load_def valid_range_def nth_append)

section \<open>Wait contexts\<close>

text \<open>A \<open>Coroutine*\<close> that crosses schedulers: the scheduler whose pool it points into, and the
  index there.\<close>

type_synonym co_ref = "nat \<times> co_ptr"

record WaitCtx =
  wc_co :: co_ref
  wc_state :: uint8
  wc_buf :: ptr

text \<open>\<open>sizeof(WaitCtx)\<close> on a 64 bit machine (a pointer, a byte padded to eight, a pointer),
  and the offset of \<open>state_\<close>.\<close>

definition sizeof_WaitCtx :: nat where
  "sizeof_WaitCtx = 24"

definition state_offset :: nat where
  "state_offset = 8"

text \<open>\<open>CreateWaitCtx(WaitCtx*)\<close>: a new context behind a shared pointer, copied from the
  given one. The pointer is the index in the store.\<close>

definition CreateWaitCtx :: "WaitCtx \<Rightarrow> WaitCtx list \<Rightarrow> nat \<times> WaitCtx list" where
  [model_defs]: "CreateWaitCtx ctx cs = (length cs, cs @ [ctx])"

end
