(* ===== verification/Timer_Manager.thy ===== *)
theory Timer_Manager
  imports Wait_Ctx
begin

text \<open>
  The timers of a scheduler: \<open>TimerManager\<close> of \<open>include/timer_manager.h\<close> and
  \<open>src/timer_manager.cc\<close>. The \<open>std::multimap\<close> from due times to coroutines is a list of
  nodes in key order; a node has an identity, which is what an iterator denotes and what becomes
  dangling when the node is erased. \<open>it_\<close> is the hint for the next insertion.

  The clock is a function from the number of the call of \<open>now::ms()\<close> to its result, and the
  functions thread the number of calls made so far. Times are \<open>int64\<close> in the code and integers here: the sum of a time and a
  32 bit number of milliseconds is representable unless the clock is within \<open>2 ^ 32\<close> milliseconds of its end (\<open>due_int64\<close>).
\<close>

section \<open>State\<close>

datatype timer_iter = End | Node nat

record timer_node =
  node_id :: nat
  due :: int
  node_co :: co_ptr

record TimerManager =
  timer :: "timer_node list"
  it :: timer_iter
  next_node :: nat \<comment> \<open>identity of the next node that is allocated\<close>

definition TimerManager_init :: TimerManager where
  "TimerManager_init = \<lparr>timer = [], it = End, next_node = 0\<rparr>"

text \<open>The position an iterator denotes, if its node is in the map.\<close>

primrec find_node :: "nat \<Rightarrow> timer_node list \<Rightarrow> nat option" where
  "find_node n [] = None"
| "find_node n (x # xs) = (if node_id x = n then Some 0 else map_option Suc (find_node n xs))"

fun iter_pos :: "timer_iter \<Rightarrow> timer_node list \<Rightarrow> nat option" where
  "iter_pos End ns = Some (length ns)"
| "iter_pos (Node n) ns = find_node n ns"

definition iter_at :: "nat \<Rightarrow> timer_node list \<Rightarrow> timer_iter" where
  "iter_at i ns = (if i < length ns then Node (node_id (ns ! i)) else End)"

section \<open>Operations\<close>

text \<open>\<open>multimap::insert\<close> with a hint: among the positions that keep the key order, the one
  closest to just before the hint.\<close>

definition lower_bound :: "int \<Rightarrow> timer_node list \<Rightarrow> nat" where
  "lower_bound k ns = length (takeWhile (\<lambda>n. due n < k) ns)"

definition upper_bound :: "int \<Rightarrow> timer_node list \<Rightarrow> nat" where
  "upper_bound k ns = length (takeWhile (\<lambda>n. due n \<le> k) ns)"

definition insert_pos :: "nat \<Rightarrow> int \<Rightarrow> timer_node list \<Rightarrow> nat" where
  "insert_pos hint k ns = max (lower_bound k ns) (min hint (upper_bound k ns))"

definition TimerManager_AddTimer :: "int \<Rightarrow> uint32 \<Rightarrow> co_ptr \<Rightarrow> TimerManager \<Rightarrow> (nat \<times> TimerManager) res" where
  [model_defs]: "TimerManager_AddTimer now ms co tm =
     (case iter_pos (it tm) (timer tm) of
        None \<Rightarrow> Inl DanglingIterator
      | Some h \<Rightarrow>
          (let k = now + uint ms; p = insert_pos h k (timer tm);
               x = \<lparr>node_id = next_node tm, due = k, node_co = co\<rparr>
           in Inr (next_node tm,
                tm\<lparr>timer := take p (timer tm) @ x # drop p (timer tm),
                   it := Node (next_node tm), next_node := Suc (next_node tm)\<rparr>)))"

definition TimerManager_DelTimer :: "nat \<Rightarrow> TimerManager \<Rightarrow> TimerManager res" where
  [model_defs]: "TimerManager_DelTimer n tm =
     (case find_node n (timer tm) of
        None \<Rightarrow> Inl DanglingIterator
      | Some p \<Rightarrow>
          Inr (tm\<lparr>it := (if it tm = Node n then iter_at (Suc p) (timer tm) else it tm),
                  timer := take p (timer tm) @ drop (Suc p) (timer tm)\<rparr>))"

definition TimerManager_is_end :: "timer_iter \<Rightarrow> bool" where
  [model_defs]: "TimerManager_is_end i \<longleftrightarrow> i = End"

text \<open>What the loop of \<open>CollectTimeoutTasks\<close> works on besides the map: the coroutines, the wait
  contexts and the vector of tasks.\<close>

record collect_state =
  cs_cos :: "Coroutine list"
  cs_ctxs :: "WaitCtx list"
  cs_tasks :: "co_ptr list"

text \<open>The body of the loop for one expired node. The \<open>else\<close> belongs to the inner
  \<open>if\<close>: a coroutine without a wait context is passed over.\<close>

definition expire :: "co_ptr \<Rightarrow> collect_state \<Rightarrow> collect_state" where
  [model_defs]: "expire co s =
     (case co_wait_ctx (cs_cos s ! co) of
        None \<Rightarrow> s
      | Some c \<Rightarrow>
          (let (old, st) = atomic_compare_swap kInit kTimeout (wc_state (cs_ctxs s ! c));
               s1 = s\<lparr>cs_ctxs := (cs_ctxs s)[c := (cs_ctxs s ! c)\<lparr>wc_state := st\<rparr>]\<rparr>
           in if old = kInit then s1\<lparr>cs_tasks := cs_tasks s1 @ [co]\<rparr>
              else if co_state (cs_cos s1 ! co) = kInit then s1\<lparr>cs_tasks := cs_tasks s1 @ [co]\<rparr>
              else
                (let (old_co, st_co) = atomic_swap kInit (co_state (cs_cos s1 ! co));
                     s2 = s1\<lparr>cs_cos := (cs_cos s1)[co := (cs_cos s1 ! co)\<lparr>co_state := st_co\<rparr>]\<rparr>
                 in if old_co = kWait then s2\<lparr>cs_tasks := cs_tasks s2 @ [co]\<rparr> else s2)))"

text \<open>The loop: the nodes it passes, the nodes from \<open>it\<close> on, and the number of clock
  readings made.\<close>

primrec collect_loop ::
  "(nat \<Rightarrow> int) \<Rightarrow> nat \<Rightarrow> timer_node list \<Rightarrow> collect_state \<Rightarrow>
   timer_node list \<times> timer_node list \<times> nat \<times> collect_state" where
  "collect_loop clk t [] s = ([], [], t, s)"
| "collect_loop clk t (n # ns) s =
     (if due n > clk t then ([], n # ns, Suc t, s)
      else case collect_loop clk (Suc t) ns (expire (node_co n) s) of
             (passed, rest, t', s') \<Rightarrow> (n # passed, rest, t', s'))"

definition TimerManager_CollectTimeoutTasks ::
  "(nat \<Rightarrow> int) \<Rightarrow> nat \<Rightarrow> TimerManager \<Rightarrow> collect_state \<Rightarrow> uint32 \<times> nat \<times> TimerManager \<times> collect_state" where
  [model_defs]: "TimerManager_CollectTimeoutTasks clk t tm s =
     (case collect_loop clk t (timer tm) s of
        (passed, rest, t1, s1) \<Rightarrow>
          (let (tm1, t2) =
                 (if passed \<noteq> [] then
                    (if rest \<noteq> [] then
                       (tm\<lparr>it := (if due (hd rest) \<le> clk t1 then Node (node_id (hd rest)) else it tm),
                           timer := rest\<rparr>, Suc t1)
                     else (tm\<lparr>timer := rest\<rparr>, t1))
                  else (tm, t1))
           in if timer tm1 = [] then (- 1, t2, tm1, s1)
              else (word_of_int (due (hd (timer tm1)) - clk t2), Suc t2, tm1, s1)))"

section \<open>The map stays sorted\<close>

definition timer_ok :: "TimerManager \<Rightarrow> bool" where
  [inv_defs]: "timer_ok tm \<longleftrightarrow> sorted (map due (timer tm)) \<and> distinct (map node_id (timer tm)) \<and>
     (\<forall>n \<in> set (timer tm). node_id n < next_node tm)"

lemma timer_ok_init: "timer_ok TimerManager_init"
  by (simp add: timer_ok_def TimerManager_init_def)

lemma lower_le_upper: "lower_bound k ns \<le> upper_bound k ns"
  by (induction ns) (auto simp: lower_bound_def upper_bound_def)

lemma upper_bound_le: "upper_bound k ns \<le> length ns"
  by (simp add: upper_bound_def length_takeWhile_le)

lemma take_upper_bound: "n \<in> set (take p ns) \<Longrightarrow> p \<le> upper_bound k ns \<Longrightarrow> due n \<le> k"
proof -
  assume n: "n \<in> set (take p ns)" "p \<le> upper_bound k ns"
  have "take p ns = take p (takeWhile (\<lambda>n. due n \<le> k) ns)"
    using n(2) by (metis upper_bound_def takeWhile_eq_take take_take min.absorb1)
  with n(1) show ?thesis by (metis in_set_takeD set_takeWhileD)
qed

lemma drop_lower_bound:
  assumes "sorted (map due ns)" "lower_bound k ns \<le> p" "n \<in> set (drop p ns)"
  shows "k \<le> due n"
proof -
  have d: "drop (lower_bound k ns) ns = dropWhile (\<lambda>n. due n < k) ns"
    by (simp add: lower_bound_def dropWhile_eq_drop)
  have "n \<in> set (dropWhile (\<lambda>n. due n < k) ns)"
    using assms(2,3) set_drop_subset_set_drop [of "lower_bound k ns" p ns] d by auto
  moreover have "\<forall>x \<in> set (dropWhile (\<lambda>n. due n < k) ns). k \<le> due x"
    using assms(1)
  proof (induction ns)
    case Nil
    then show ?case by simp
  next
    case (Cons a ns)
    then show ?case by (auto simp: not_less)
  qed
  ultimately show ?thesis by blast
qed

lemma insert_pos_bounds:
  "lower_bound k ns \<le> insert_pos h k ns" "insert_pos h k ns \<le> upper_bound k ns"
  using lower_le_upper [of k ns] by (auto simp: insert_pos_def)

lemma timer_ok_insert:
  assumes "timer_ok tm" "node_id x = next_node tm"
    and "lower_bound (due x) (timer tm) \<le> p" "p \<le> upper_bound (due x) (timer tm)"
  shows "sorted (map due (take p (timer tm) @ x # drop p (timer tm)))"
    and "distinct (map node_id (take p (timer tm) @ x # drop p (timer tm)))"
proof -
  have "sorted (map due (take p (timer tm) @ drop p (timer tm)))"
    using assms(1) by (simp add: timer_ok_def)
  then show "sorted (map due (take p (timer tm) @ x # drop p (timer tm)))"
    using assms take_upper_bound [of _ p "timer tm" "due x"] drop_lower_bound [of "timer tm" "due x" p]
    by (intro sorted_map_insort_append) (auto simp: timer_ok_def)
  have "distinct (map node_id (take p (timer tm) @ drop p (timer tm)))"
    "node_id x \<notin> node_id ` set (take p (timer tm) @ drop p (timer tm))"
    using assms(1,2) by (auto simp: timer_ok_def)
  then show "distinct (map node_id (take p (timer tm) @ x # drop p (timer tm)))"
    by (rule distinct_map_insert_append)
qed

lemma AddTimer_ok:
  assumes ok: "timer_ok tm" and add: "TimerManager_AddTimer now ms co tm = Inr (n, tm')"
  shows "timer_ok tm'" "n = next_node tm" "it tm' = Node n"
    and "mset (timer tm') = add_mset \<lparr>node_id = n, due = now + uint ms, node_co = co\<rparr> (mset (timer tm))"
proof -
  let ?x = "\<lparr>node_id = next_node tm, due = now + uint ms, node_co = co\<rparr>"
  obtain h where h: "iter_pos (it tm) (timer tm) = Some h"
    using add by (auto simp: TimerManager_AddTimer_def split: option.splits)
  let ?p = "insert_pos h (now + uint ms) (timer tm)"
  have tm': "tm' = tm\<lparr>timer := take ?p (timer tm) @ ?x # drop ?p (timer tm),
      it := Node (next_node tm), next_node := Suc (next_node tm)\<rparr>" and n: "n = next_node tm"
    using add h by (auto simp: TimerManager_AddTimer_def Let_def)
  show "n = next_node tm" "it tm' = Node n" using n tm' by simp_all
  show "timer_ok tm'"
    using timer_ok_insert [OF ok, of ?x ?p] insert_pos_bounds [where h = h and k = "now + uint ms" and ns = "timer tm"] ok
    by (auto simp: timer_ok_def tm' less_Suc_eq dest: in_set_takeD in_set_dropD)
  have "mset (take ?p (timer tm)) + mset (drop ?p (timer tm)) = mset (timer tm)"
    by (metis append_take_drop_id mset_append)
  then show "mset (timer tm') = add_mset \<lparr>node_id = n, due = now + uint ms, node_co = co\<rparr> (mset (timer tm))"
    by (simp add: tm' n)
qed

lemma find_node_Some:
  "find_node n ns = Some p \<Longrightarrow> p < length ns \<and> node_id (ns ! p) = n"
  by (induction ns arbitrary: p) (auto split: if_splits)

lemma find_node_None: "find_node n ns = None \<longleftrightarrow> n \<notin> node_id ` set ns"
  by (induction ns) auto

lemma DelTimer_ok:
  assumes ok: "timer_ok tm" and del: "TimerManager_DelTimer n tm = Inr tm'"
  shows "timer_ok tm'" "n \<notin> node_id ` set (timer tm')"
    and "\<exists>x. node_id x = n \<and> mset (timer tm) = add_mset x (mset (timer tm'))"
proof -
  obtain p where p: "find_node n (timer tm) = Some p"
    using del by (auto simp: TimerManager_DelTimer_def split: option.splits)
  note pn = find_node_Some [OF p]
  have t': "timer tm' = take p (timer tm) @ drop (Suc p) (timer tm)" "next_node tm' = next_node tm"
    using del p by (auto simp: TimerManager_DelTimer_def)
  have split: "timer tm = take p (timer tm) @ timer tm ! p # drop (Suc p) (timer tm)"
    using pn by (simp add: id_take_nth_drop)
  have "sorted (map due (take p (timer tm) @ timer tm ! p # drop (Suc p) (timer tm)))"
    "distinct (map node_id (take p (timer tm) @ timer tm ! p # drop (Suc p) (timer tm)))"
    using ok split by (simp_all add: timer_ok_def)
  then show "timer_ok tm'" "n \<notin> node_id ` set (timer tm')"
    using ok pn by (auto simp: timer_ok_def t' sorted_append dest: in_set_takeD in_set_dropD)
  show "\<exists>x. node_id x = n \<and> mset (timer tm) = add_mset x (mset (timer tm'))"
    using pn arg_cong [OF split, of mset] by (intro exI [of _ "timer tm ! p"]) (simp add: t')
qed

lemma due_int64:
  fixes ms :: uint32
  assumes "- (2 ^ 63) \<le> now" "now < 2 ^ 63 - 2 ^ 32"
  shows "sint (word_of_int (now + uint ms) :: 64 word) = now + uint ms"
proof -
  have "0 \<le> uint ms" "uint ms < 2 ^ 32" using uint_bounded [of ms] by simp_all
  with assms have "- (2 ^ 63) \<le> now + uint ms" "now + uint ms < 2 ^ 63" by linarith+
  then show ?thesis
    by (subst signed_of_int) (simp add: signed_take_bit_int_eq_self del: of_int_add)
qed

section \<open>Collecting the expired timers\<close>

lemma collect_loop_split:
  "collect_loop clk t ns s = (passed, rest, t', s') \<Longrightarrow>
     ns = passed @ rest \<and> s' = fold expire (map node_co passed) s \<and>
     (\<forall>i < length passed. due (passed ! i) \<le> clk (t + i)) \<and>
     (rest \<noteq> [] \<longrightarrow> clk (t + length passed) < due (hd rest)) \<and>
     t' = t + length passed + (if rest = [] then 0 else 1)"
proof (induction ns arbitrary: t s passed)
  case Nil
  then show ?case by simp
next
  case (Cons n ns)
  show ?case
  proof (cases "due n > clk t")
    case True
    with Cons.prems show ?thesis by auto
  next
    case False
    with Cons.prems obtain ps where
      ps: "collect_loop clk (Suc t) ns (expire (node_co n) s) = (ps, rest, t', s')" "passed = n # ps"
      by (auto split: prod.splits)
    have "due ((n # ps) ! i) \<le> clk (t + i)" if "i < length (n # ps)" for i
      using that Cons.IH [OF ps(1)] False by (cases i) auto
    with Cons.IH [OF ps(1)] ps(2) show ?thesis by auto
  qed
qed

lemma CollectTimeoutTasks_prefix:
  assumes "TimerManager_CollectTimeoutTasks clk t tm s = (r, t', tm', s')"
  obtains k where "k \<le> length (timer tm)" "timer tm' = drop k (timer tm)"
    and "s' = fold expire (map node_co (take k (timer tm))) s" "next_node tm' = next_node tm"
    and "\<forall>i < k. due (timer tm ! i) \<le> clk (t + i)" "k < length (timer tm) \<longrightarrow> clk (t + k) < due (timer tm ! k)"
proof -
  obtain passed rest t1 s1 where
    l: "collect_loop clk t (timer tm) s = (passed, rest, t1, s1)"
    by (metis prod_cases4)
  note sp = collect_loop_split [OF l]
  have "timer tm' = rest" "s' = s1" "next_node tm' = next_node tm"
    using assms l sp by (auto simp: TimerManager_CollectTimeoutTasks_def Let_def split: if_splits)
  with sp that [of "length passed"] show ?thesis by (simp add: nth_append hd_conv_nth)
qed

lemma timer_ok_drop:
  assumes "timer_ok tm" "timer tm' = drop k (timer tm)" "next_node tm' = next_node tm"
  shows "timer_ok tm'"
  using assms by (auto simp: timer_ok_def drop_map [symmetric] sorted_wrt_drop dest: in_set_dropD)

text \<open>Where the loop stopped, nothing behind was due at the call.\<close>

lemma due_removed:
  assumes "timer_ok tm" "mono clk" "k < length (timer tm) \<longrightarrow> clk (t + k) < due (timer tm ! k)"
    and "n \<in> set (timer tm)" "due n \<le> clk t"
  shows "n \<in> set (take k (timer tm))"
proof (rule ccontr)
  assume n: "n \<notin> set (take k (timer tm))"
  obtain j where j: "j < length (timer tm)" "n = timer tm ! j" using assms(4) by (auto simp: in_set_conv_nth)
  have "k \<le> j"
  proof (rule ccontr)
    assume "\<not> k \<le> j"
    then have "take k (timer tm) ! j \<in> set (take k (timer tm))" using j(1) by (intro nth_mem) simp
    with n j \<open>\<not> k \<le> j\<close> show False by simp
  qed
  with j(1) have "due (timer tm ! k) \<le> due n"
    using assms(1) j(2) sorted_nth_mono [of "map due (timer tm)" k j] by (simp add: timer_ok_def)
  moreover have "clk t \<le> clk (t + k)" by (rule monoD [OF assms(2)]) simp
  ultimately show False using assms(3,5) \<open>k \<le> j\<close> j(1) by simp
qed

text \<open>\<open>Collect tm clk t tm'\<close> removes the nodes due at the moment \<open>T\<close> of the last
  comparison.\<close>

lemma CollectTimeoutTasks_split:
  assumes ok: "timer_ok tm" and mono: "mono clk"
    and col: "TimerManager_CollectTimeoutTasks clk t tm s = (r, t', tm', s')"
  obtains T where "clk t \<le> T"
    and "timer tm' = filter (\<lambda>n. T < due n) (timer tm)"
    and "s' = fold expire (map node_co (filter (\<lambda>n. due n \<le> T) (timer tm))) s"
    and "next_node tm' = next_node tm"
proof -
  obtain passed rest t1 s1 where
    l: "collect_loop clk t (timer tm) s = (passed, rest, t1, s1)"
    by (metis prod_cases4)
  note sp = collect_loop_split [OF l]
  let ?T = "clk (t + length passed)"
  have early: "due n \<le> ?T" if "n \<in> set passed" for n
  proof -
    from that obtain i where i: "i < length passed" "n = passed ! i" by (auto simp: in_set_conv_nth)
    with sp have "due n \<le> clk (t + i)" by simp
    also have "\<dots> \<le> ?T" using i by (intro monoD [OF mono]) simp
    finally show ?thesis .
  qed
  have late: "?T < due n" if "n \<in> set rest" for n
  proof -
    have "sorted (map due rest)" "rest \<noteq> []"
      using ok sp that by (auto simp: timer_ok_def sorted_append)
    then have "due (hd rest) \<le> due n" using that by (cases rest) auto
    with sp \<open>rest \<noteq> []\<close> show ?thesis by auto
  qed
  have f: "filter (\<lambda>n. ?T < due n) (timer tm) = rest" "filter (\<lambda>n. due n \<le> ?T) (timer tm) = passed"
    using sp early late by (auto simp: filter_empty_conv filter_id_conv not_less [symmetric])
  have col': "timer tm' = rest" "s' = s1" "next_node tm' = next_node tm"
    using col l sp by (auto simp: TimerManager_CollectTimeoutTasks_def Let_def split: if_splits)
  show ?thesis
  proof (rule that [of ?T])
    show "clk t \<le> ?T" by (rule monoD [OF mono]) simp
    show "timer tm' = filter (\<lambda>n. ?T < due n) (timer tm)" by (simp only: f col')
    show "s' = fold expire (map node_co (filter (\<lambda>n. due n \<le> ?T) (timer tm))) s"
      by (simp only: f col' conjunct1 [OF conjunct2 [OF sp]])
    show "next_node tm' = next_node tm" by (rule col')
  qed
qed

lemma expire_length_ctxs: "length (cs_ctxs (expire co s)) = length (cs_ctxs s)"
  by (auto simp: expire_def Let_def split: option.splits)

lemma expire_length_cos: "length (cs_cos (expire co s)) = length (cs_cos s)"
  by (auto simp: expire_def Let_def split: option.splits)

lemma wait_ctx_list_update:
  "co_wait_ctx (cs[co := (cs ! co)\<lparr>co_state := x\<rparr>] ! i) = co_wait_ctx (cs ! i)"
  by (cases "co < length cs"; cases "i = co") (simp_all add: list_update_beyond)

lemma expire_wait_ctx: "co_wait_ctx (cs_cos (expire co s) ! i) = co_wait_ctx (cs_cos s ! i)"
  by (auto simp: expire_def Let_def wait_ctx_list_update split: option.splits)

lemmas expire_frame = expire_wait_ctx expire_length_ctxs expire_length_cos

lemma expire_tasks: "co_wait_ctx (cs_cos s ! co) = None \<Longrightarrow> expire co s = s"
  by (simp add: expire_def)

lemma expire_tasks_mono: "\<exists>xs. set xs \<subseteq> {co} \<and> cs_tasks (expire co s) = cs_tasks s @ xs"
  by (auto simp: expire_def Let_def split: option.splits)

lemma fold_expire_frame:
  "co_wait_ctx (cs_cos (fold expire cos s) ! i) = co_wait_ctx (cs_cos s ! i)"
  "length (cs_ctxs (fold expire cos s)) = length (cs_ctxs s)"
  "length (cs_cos (fold expire cos s)) = length (cs_cos s)"
  by (induction cos arbitrary: s) (simp_all add: expire_frame)

lemma fold_expire_no_ctx:
  assumes "co_wait_ctx (cs_cos s ! co) = None"
  shows "co \<in> set (cs_tasks (fold expire cos s)) \<longleftrightarrow> co \<in> set (cs_tasks s)"
  using assms
proof (induction cos arbitrary: s)
  case Nil
  then show ?case by simp
next
  case (Cons a cos)
  have "co_wait_ctx (cs_cos (expire a s) ! co) = None"
    using Cons.prems by (simp add: expire_frame)
  moreover have "co \<in> set (cs_tasks (expire a s)) \<longleftrightarrow> co \<in> set (cs_tasks s)"
    using Cons.prems expire_tasks_mono [of a s] expire_tasks [of s co] by (cases "a = co") auto
  ultimately show ?case using Cons.IH [of "expire a s"] by simp
qed

lemma fold_expire_tasks_subset:
  "set (cs_tasks (fold expire cos s)) \<subseteq> set (cs_tasks s) \<union> set cos"
proof (induction cos arbitrary: s)
  case Nil
  then show ?case by simp
next
  case (Cons a cos)
  from expire_tasks_mono [of a s] obtain xs where "set xs \<subseteq> {a}" "cs_tasks (expire a s) = cs_tasks s @ xs"
    by blast
  with Cons.IH [of "expire a s"] show ?case by auto
qed

text \<open>A wait context that is no longer \<open>kInit\<close> keeps its state, and one that is
  \<open>kInit\<close> when the timer of its coroutine expires becomes \<open>kTimeout\<close>.\<close>

lemma ctx_state_list_update:
  "c < length cs \<Longrightarrow> wc_state (cs[c := (cs ! c)\<lparr>wc_state := x\<rparr>] ! i) =
     (if i = c then x else wc_state (cs ! i))"
  by simp

lemma expire_settled:
  assumes "wc_state (cs_ctxs s ! c) \<noteq> kInit" "c < length (cs_ctxs s)"
  shows "wc_state (cs_ctxs (expire co s) ! c) = wc_state (cs_ctxs s ! c)"
  using assms
  by (auto simp: expire_def Let_def atomic_compare_swap_def nth_list_update split: option.splits if_splits)
    (metis nth_list_update_neq)

lemma expire_timeout:
  assumes "co_wait_ctx (cs_cos s ! co) = Some c" "c < length (cs_ctxs s)"
    and "wc_state (cs_ctxs s ! c) = kInit"
  shows "wc_state (cs_ctxs (expire co s) ! c) = kTimeout" "cs_tasks (expire co s) = cs_tasks s @ [co]"
  using assms by (simp_all add: expire_def Let_def atomic_compare_swap_def)

lemma fold_expire_settled:
  "wc_state (cs_ctxs s ! c) \<noteq> kInit \<Longrightarrow> c < length (cs_ctxs s) \<Longrightarrow>
   wc_state (cs_ctxs (fold expire cos s) ! c) = wc_state (cs_ctxs s ! c)"
  by (induction cos arbitrary: s) (simp_all add: expire_settled expire_frame)

lemma fold_expire_keeps: "set (cs_tasks s) \<subseteq> set (cs_tasks (fold expire cos s))"
proof (induction cos arbitrary: s)
  case Nil
  then show ?case by simp
next
  case (Cons a cos)
  from expire_tasks_mono [of a s] have "set (cs_tasks s) \<subseteq> set (cs_tasks (expire a s))" by auto
  with Cons.IH [of "expire a s"] show ?case by simp
qed

lemma expire_other_ctx:
  "co_wait_ctx (cs_cos s ! a) \<noteq> Some c \<Longrightarrow> cs_ctxs (expire a s) ! c = cs_ctxs s ! c"
  by (auto simp: expire_def Let_def split: option.splits)

lemma fold_expire_wakes:
  assumes "co \<in> set cos" "co_wait_ctx (cs_cos s ! co) = Some c" "c < length (cs_ctxs s)"
    and "wc_state (cs_ctxs s ! c) = kInit"
    and "\<forall>i \<in> set cos. co_wait_ctx (cs_cos s ! i) = Some c \<longrightarrow> i = co"
  shows "co \<in> set (cs_tasks (fold expire cos s))"
    and "wc_state (cs_ctxs (fold expire cos s) ! c) = kTimeout"
proof -
  have "co \<in> set (cs_tasks (fold expire cos s)) \<and> wc_state (cs_ctxs (fold expire cos s) ! c) = kTimeout"
    using assms
  proof (induction cos arbitrary: s)
    case Nil
    then show ?case by simp
  next
    case (Cons a cos)
    show ?case
    proof (cases "a = co")
      case True
      note e = expire_timeout [OF Cons.prems(2-4)]
      have "co \<in> set (cs_tasks (fold expire cos (expire co s)))"
        using fold_expire_keeps [of "expire co s" cos] e(2) by auto
      moreover have "wc_state (cs_ctxs (fold expire cos (expire co s)) ! c) = kTimeout"
        using fold_expire_settled [of "expire co s" c cos] e(1) Cons.prems(3)
        by (simp add: expire_frame co_state_defs)
      ultimately show ?thesis using True by simp
    next
      case False
      then have "co_wait_ctx (cs_cos s ! a) \<noteq> Some c" using Cons.prems(5) by auto
      then have c: "cs_ctxs (expire a s) ! c = cs_ctxs s ! c" by (rule expire_other_ctx)
      have "co \<in> set (cs_tasks (fold expire cos (expire a s))) \<and>
          wc_state (cs_ctxs (fold expire cos (expire a s)) ! c) = kTimeout"
      proof (rule Cons.IH)
        show "co \<in> set cos" using Cons.prems(1) False by simp
        show "co_wait_ctx (cs_cos (expire a s) ! co) = Some c"
          by (simp only: expire_frame Cons.prems(2))
        show "c < length (cs_ctxs (expire a s))" by (simp only: expire_frame Cons.prems(3))
        show "wc_state (cs_ctxs (expire a s) ! c) = kInit" by (simp only: c Cons.prems(4))
        show "\<forall>i\<in>set cos. co_wait_ctx (cs_cos (expire a s) ! i) = Some c \<longrightarrow> i = co"
          using Cons.prems(5) by (simp only: expire_frame) simp
      qed
      then show ?thesis by simp
    qed
  qed
  then show "co \<in> set (cs_tasks (fold expire cos s))"
    "wc_state (cs_ctxs (fold expire cos s) ! c) = kTimeout" by simp_all
qed

lemma timer_ok_filter:
  assumes "timer_ok tm" "timer tm' = filter P (timer tm)" "next_node tm' = next_node tm"
  shows "timer_ok tm'"
  using assms by (auto simp: timer_ok_def sorted_filter distinct_map_filter)

lemma CollectTimeoutTasks_wait:
  assumes col: "TimerManager_CollectTimeoutTasks clk t tm s = (r, t', tm', s')"
  shows "r = (if timer tm' = [] then - 1
              else word_of_int (due (hd (timer tm')) - clk (t' - 1)))"
  using col by (auto simp: TimerManager_CollectTimeoutTasks_def Let_def split: prod.splits if_splits)

lemma CollectTimeoutTasks_it:
  assumes col: "TimerManager_CollectTimeoutTasks (\<lambda>_. now) t tm s = (r, t', tm', s')"
  shows "it tm' = it tm"
proof -
  obtain passed rest t1 s1 where
    l: "collect_loop (\<lambda>_. now) t (timer tm) s = (passed, rest, t1, s1)"
    by (metis prod_cases4)
  with col collect_loop_split [OF l] show ?thesis
    by (auto simp: TimerManager_CollectTimeoutTasks_def Let_def split: if_splits)
qed

section \<open>What the timers guarantee\<close>

text \<open>Adding and deleting timers. On a well-formed timer map, \<open>AddTimer(ms, co)\<close> (when its
  hint is usable) adds exactly one entry, for \<open>co\<close>, due \<open>ms\<close> after the clock reading, and
  keeps the map ordered by due time; \<open>DelTimer\<close> of the returned iterator then removes that
  entry and leaves the entries that were there before.\<close>

theorem AddTimer_DelTimer_roundtrip:
  assumes "timer_ok tm" "TimerManager_AddTimer now ms co tm = Inr (n, tm')"
  shows "timer_ok tm' \<and>
    mset (timer tm') = add_mset \<lparr>node_id = n, due = now + uint ms, node_co = co\<rparr> (mset (timer tm)) \<and>
    (\<exists>tm''. TimerManager_DelTimer n tm' = Inr tm'' \<and> timer_ok tm'' \<and> mset (timer tm'') = mset (timer tm))"
proof -
  note add = AddTimer_ok [OF assms]
  let ?x = "\<lparr>node_id = n, due = now + uint ms, node_co = co\<rparr>"
  have x: "?x \<in> set (timer tm')"
    using add(4) by (metis set_mset_mset union_single_eq_member)
  then have "n \<in> node_id ` set (timer tm')" by force
  then obtain tm'' where del: "TimerManager_DelTimer n tm' = Inr tm''"
    using find_node_None [of n "timer tm'"] by (auto simp: TimerManager_DelTimer_def)
  from DelTimer_ok(3) [OF add(1) del] obtain y where
    y: "node_id y = n" "mset (timer tm') = add_mset y (mset (timer tm''))" by blast
  have "y \<in> set (timer tm')" using y(2) by (metis set_mset_mset union_single_eq_member)
  moreover have "distinct (map node_id (timer tm'))" using add(1) by (simp add: timer_ok_def)
  ultimately have "y = ?x" using x y(1) by (auto simp: distinct_map inj_on_def)
  with y(2) add(4) have "mset (timer tm'') = mset (timer tm)" by simp
  with add del DelTimer_ok(1) [OF add(1) del] show ?thesis by blast
qed

theorem AddTimer_DelTimer_roundtrip_witness:
  "\<exists>tm'. TimerManager_AddTimer 1000 20 3 TimerManager_init = Inr (0, tm') \<and> timer_ok tm' \<and>
     (\<exists>tm''. TimerManager_DelTimer 0 tm' = Inr tm'' \<and> mset (timer tm'') = {#})"
proof -
  have add: "TimerManager_AddTimer 1000 20 3 TimerManager_init =
      Inr (0, \<lparr>timer = [\<lparr>node_id = 0, due = 1020, node_co = 3\<rparr>], it = Node 0, next_node = 1\<rparr>)"
    by (simp add: TimerManager_AddTimer_def TimerManager_init_def insert_pos_def)
  from AddTimer_DelTimer_roundtrip [OF timer_ok_init add] add show ?thesis
    by (auto simp: TimerManager_init_def)
qed

text \<open>C30: what a collection does, for any clock that does not run backwards. It removes from the front of the map as many entries,
  \<open>k\<close> of them, as the loop finds due, and leaves the others in order: the entry at position \<open>i\<close> is removed only if it is due at the
  \<open>i\<close>-th reading of the clock since the call, and the loop stops only at the end of the map or at an entry that is not due at the
  reading made for it. So no entry is removed before it is due, and every entry that was due at the call is removed. The removed
  entries are processed in the order of their due times, and only their coroutines are scheduled; one that still
  waits (its wait context is \<open>kInit\<close>, and is the context of no other coroutine with a timer) is scheduled and its
  context becomes \<open>kTimeout\<close>.\<close>

theorem CollectTimeoutTasks_correct:
  assumes ok: "timer_ok tm" and mono: "mono clk"
    and col: "TimerManager_CollectTimeoutTasks clk t tm s = (r, t', tm', s')"
  shows "timer_ok tm' \<and>
    (\<exists>k \<le> length (timer tm). timer tm' = drop k (timer tm) \<and> s' = fold expire (map node_co (take k (timer tm))) s \<and>
       (\<forall>i < k. due (timer tm ! i) \<le> clk (t + i)) \<and>
       (k < length (timer tm) \<longrightarrow> clk (t + k) < due (timer tm ! k)) \<and>
       (\<forall>n \<in> set (timer tm). due n \<le> clk t \<longrightarrow> n \<in> set (take k (timer tm))) \<and>
       set (cs_tasks s') \<subseteq> set (cs_tasks s) \<union> node_co ` set (take k (timer tm)) \<and>
       (\<forall>n \<in> set (take k (timer tm)). \<forall>c. co_wait_ctx (cs_cos s ! node_co n) = Some c \<longrightarrow>
          c < length (cs_ctxs s) \<longrightarrow> wc_state (cs_ctxs s ! c) = kInit \<longrightarrow>
          (\<forall>m \<in> set (timer tm). co_wait_ctx (cs_cos s ! node_co m) = Some c \<longrightarrow> node_co m = node_co n) \<longrightarrow>
          node_co n \<in> set (cs_tasks s') \<and> wc_state (cs_ctxs s' ! c) = kTimeout))"
proof -
  obtain k where k: "k \<le> length (timer tm)" "timer tm' = drop k (timer tm)"
    "s' = fold expire (map node_co (take k (timer tm))) s" "next_node tm' = next_node tm"
    "\<forall>i < k. due (timer tm ! i) \<le> clk (t + i)" "k < length (timer tm) \<longrightarrow> clk (t + k) < due (timer tm ! k)"
    using CollectTimeoutTasks_prefix [OF col] by blast
  let ?cos = "map node_co (take k (timer tm))"
  have "timer_ok tm'" by (rule timer_ok_drop [OF ok k(2,4)])
  moreover have "\<forall>n \<in> set (timer tm). due n \<le> clk t \<longrightarrow> n \<in> set (take k (timer tm))"
    using due_removed [OF ok mono k(6)] by blast
  moreover have "set (cs_tasks s') \<subseteq> set (cs_tasks s) \<union> node_co ` set (take k (timer tm))"
    using fold_expire_tasks_subset [of ?cos s] by (simp add: k(3))
  moreover have "node_co n \<in> set (cs_tasks s') \<and> wc_state (cs_ctxs s' ! c) = kTimeout"
    if "n \<in> set (take k (timer tm))" "co_wait_ctx (cs_cos s ! node_co n) = Some c"
      "c < length (cs_ctxs s)" "wc_state (cs_ctxs s ! c) = kInit"
      "\<forall>m \<in> set (timer tm). co_wait_ctx (cs_cos s ! node_co m) = Some c \<longrightarrow> node_co m = node_co n"
    for n c
  proof -
    have "node_co n \<in> set ?cos" using that(1) by simp
    moreover have "\<forall>i \<in> set ?cos. co_wait_ctx (cs_cos s ! i) = Some c \<longrightarrow> i = node_co n"
      using that(5) in_set_takeD by fastforce
    ultimately show ?thesis
      unfolding k(3) using fold_expire_wakes [OF _ that(2-4)] by blast
  qed
  ultimately show ?thesis using k by blast
qed

definition one_timer :: TimerManager where
  "one_timer = \<lparr>timer = [\<lparr>node_id = 0, due = 50, node_co = 0\<rparr>], it = Node 0, next_node = 1\<rparr>"

definition one_waiter :: "nat option \<Rightarrow> uint8 \<Rightarrow> collect_state" where
  "one_waiter c st = \<lparr>cs_cos = [Coroutine_init\<lparr>co_wait_ctx := c\<rparr>],
     cs_ctxs = [\<lparr>wc_co = (0, 0), wc_state = st, wc_buf = Ptr 0 0\<rparr>], cs_tasks = []\<rparr>"

lemma one_timer_ok: "timer_ok one_timer"
  by (simp add: timer_ok_def one_timer_def)

theorem CollectTimeoutTasks_correct_witness:
  "\<exists>r t' tm' s'. TimerManager_CollectTimeoutTasks (\<lambda>i. 100 + int i) 0 one_timer (one_waiter (Some 0) kInit) =
     (r, t', tm', s') \<and> timer tm' = [] \<and> 0 \<in> set (cs_tasks s') \<and> wc_state (cs_ctxs s' ! 0) = kTimeout"
proof -
  have m: "mono (\<lambda>i. 100 + int i)" by (simp add: mono_def)
  obtain r t' tm' s' where
    c: "TimerManager_CollectTimeoutTasks (\<lambda>i. 100 + int i) 0 one_timer (one_waiter (Some 0) kInit) = (r, t', tm', s')"
    by (metis prod_cases4)
  let ?n = "\<lparr>node_id = 0, due = 50, node_co = 0\<rparr>"
  have one: "timer one_timer = [?n]" by (simp add: one_timer_def)
  from CollectTimeoutTasks_correct [OF one_timer_ok m c] obtain k where
    k: "timer tm' = drop k [?n]" "?n \<in> set (take k [?n])"
      "\<forall>n \<in> set (take k [?n]). \<forall>c. co_wait_ctx (cs_cos (one_waiter (Some 0) kInit) ! node_co n) = Some c \<longrightarrow>
          c < length (cs_ctxs (one_waiter (Some 0) kInit)) \<longrightarrow> wc_state (cs_ctxs (one_waiter (Some 0) kInit) ! c) = kInit \<longrightarrow>
          (\<forall>m \<in> set [?n]. co_wait_ctx (cs_cos (one_waiter (Some 0) kInit) ! node_co m) = Some c \<longrightarrow> node_co m = node_co n) \<longrightarrow>
          node_co n \<in> set (cs_tasks s') \<and> wc_state (cs_ctxs s' ! c) = kTimeout"
    unfolding one by auto
  have "k \<noteq> 0" using k(2) by (intro notI) simp
  with c k(1) bspec [OF k(3) k(2)] show ?thesis by (auto simp: one_waiter_def)
qed

text \<open>The time to wait that a collection returns. It is the 32 bit image of \<open>-1\<close> when no timer is
  left, and otherwise of the difference between the earliest remaining due time and a
  last reading of the clock. Read back as the \<open>int\<close> that \<open>epoll_wait\<close> takes, it is negative (which
  means waiting without limit) whenever the clock passed that due time between the two
  readings, though an expired timer is in the map.\<close>

theorem CollectTimeoutTasks_wait_time:
  assumes "timer_ok tm" "mono clk"
    and "TimerManager_CollectTimeoutTasks clk t tm s = (r, t', tm', s')"
    and "timer tm' \<noteq> [] \<Longrightarrow> \<bar>due (hd (timer tm')) - clk (t' - 1)\<bar> < 2 ^ 31"
  shows "(timer tm' = [] \<longrightarrow> sint r = - 1) \<and>
    (timer tm' \<noteq> [] \<longrightarrow> sint r = Min (due ` set (timer tm')) - clk (t' - 1)) \<and>
    (timer tm' \<noteq> [] \<longrightarrow> (sint r < 0 \<longleftrightarrow> (\<exists>n \<in> set (timer tm'). due n < clk (t' - 1))))"
proof (cases "timer tm' = []")
  case True
  then show ?thesis using CollectTimeoutTasks_wait [OF assms(3)] by simp
next
  case False
  let ?d = "due (hd (timer tm')) - clk (t' - 1)"
  obtain T where "timer tm' = filter (\<lambda>n. T < due n) (timer tm)"
    using CollectTimeoutTasks_split [OF assms(1-3)] by blast
  then have "sorted (map due (timer tm'))"
    using assms(1) by (simp add: timer_ok_def sorted_filter)
  then have min: "\<forall>n \<in> set (timer tm'). due (hd (timer tm')) \<le> due n"
    using False by (cases "timer tm'") auto
  then have "Min (due ` set (timer tm')) = due (hd (timer tm'))"
    using False by (intro Min_eqI) auto
  moreover have "sint r = ?d"
    by (simp only: CollectTimeoutTasks_wait [OF assms(3)] False if_False
        sint_word_of_int_small [OF assms(4) [OF False]])
  moreover have "?d < 0 \<longleftrightarrow> (\<exists>n \<in> set (timer tm'). due n < clk (t' - 1))"
  proof
    assume "?d < 0"
    then show "\<exists>n \<in> set (timer tm'). due n < clk (t' - 1)"
      using False by (intro bexI [of _ "hd (timer tm')"]) auto
  next
    assume "\<exists>n \<in> set (timer tm'). due n < clk (t' - 1)"
    then show "?d < 0" using min by force
  qed
  ultimately show ?thesis using False by simp
qed

theorem CollectTimeoutTasks_wait_time_witness:
  "\<exists>r t' tm' s'. TimerManager_CollectTimeoutTasks (\<lambda>i. 49 + 2 * int i) 0 one_timer (one_waiter (Some 0) kInit) =
     (r, t', tm', s') \<and> timer tm' = timer one_timer \<and> sint r < 0"
proof -
  have m: "mono (\<lambda>i. 49 + 2 * int i)" by (simp add: mono_def)
  have c: "TimerManager_CollectTimeoutTasks (\<lambda>i. 49 + 2 * int i) 0 one_timer (one_waiter (Some 0) kInit) =
      (word_of_int (- 1), 2, one_timer, one_waiter (Some 0) kInit)"
    by (simp add: TimerManager_CollectTimeoutTasks_def one_timer_def)
  from CollectTimeoutTasks_wait_time [OF one_timer_ok m c] c show ?thesis
    by (simp add: one_timer_def)
qed

text \<open>A sleeping coroutine is never woken by its timer. When a collection processes the timer of a
  coroutine that has no wait context (which is how \<open>Sleep\<close> and \<open>IOEvent::wait\<close> set
  one), the entry is gone from the map and the coroutine is not scheduled, because the
  branch that would do so hangs off the inner condition.\<close>

theorem timer_without_ctx_lost:
  assumes "timer_ok tm" "mono clk" "n \<in> set (timer tm)" "due n \<le> clk t"
    and "co_wait_ctx (cs_cos s ! node_co n) = None" "node_co n \<notin> set (cs_tasks s)"
    and "TimerManager_CollectTimeoutTasks clk t tm s = (r, t', tm', s')"
  shows "n \<notin> set (timer tm') \<and> node_co n \<notin> set (cs_tasks s')"
proof -
  obtain T where "clk t \<le> T" "timer tm' = filter (\<lambda>n. T < due n) (timer tm)"
    "s' = fold expire (map node_co (filter (\<lambda>n. due n \<le> T) (timer tm))) s"
    using CollectTimeoutTasks_split [OF assms(1,2,7)] by blast
  with assms fold_expire_no_ctx [OF assms(5)] show ?thesis by auto
qed

theorem timer_without_ctx_lost_witness:
  "\<exists>r t' tm' s'. TimerManager_CollectTimeoutTasks (\<lambda>_. 60) 0 one_timer (one_waiter None kInit) =
     (r, t', tm', s') \<and> \<lparr>node_id = 0, due = 50, node_co = 0\<rparr> \<notin> set (timer tm') \<and> 0 \<notin> set (cs_tasks s')"
proof -
  obtain r t' tm' s' where
    c: "TimerManager_CollectTimeoutTasks (\<lambda>_. 60) 0 one_timer (one_waiter None kInit) = (r, t', tm', s')"
    by (metis prod_cases4)
  have "mono (\<lambda>_::nat. 60 :: int)" by (simp add: mono_def)
  from timer_without_ctx_lost [OF one_timer_ok this _ _ _ _ c, of "\<lparr>node_id = 0, due = 50, node_co = 0\<rparr>"] c
  show ?thesis by (simp add: one_timer_def one_waiter_def)
qed

text \<open>The insertion hint outlives its element. When the clock shows the same millisecond throughout a
  collection and the element the hint denotes is among the expired ones, the hint is left on the
  erased element, and the next \<open>AddTimer\<close> inserts with a dangling iterator; when the hint's element is not
  expired, the next \<open>AddTimer\<close> succeeds.\<close>

theorem AddTimer_after_collect:
  assumes ok: "timer_ok tm" and n: "n \<in> set (timer tm)" and hint: "it tm = Node (node_id n)"
    and col: "TimerManager_CollectTimeoutTasks (\<lambda>_. now) t tm s = (r, t', tm', s')"
  shows "if due n \<le> now then TimerManager_AddTimer now ms co tm' = Inl DanglingIterator
         else \<exists>tm''. TimerManager_AddTimer now ms co tm' = Inr (next_node tm, tm'')"
proof -
  have m: "mono (\<lambda>_::nat. now)" by (simp add: mono_def)
  obtain passed rest t1 s1 where
    l: "collect_loop (\<lambda>_. now) t (timer tm) s = (passed, rest, t1, s1)"
    by (metis prod_cases4)
  note sp = collect_loop_split [OF l]
  have tm': "timer tm' = rest" "next_node tm' = next_node tm"
    using col l sp by (auto simp: TimerManager_CollectTimeoutTasks_def Let_def split: if_splits)
  have it': "it tm' = Node (node_id n)" using CollectTimeoutTasks_it [OF col] hint by simp
  have late: "now < due x" if "x \<in> set rest" for x
  proof -
    have "sorted (map due rest)" "rest \<noteq> []"
      using ok sp that by (auto simp: timer_ok_def sorted_append)
    then have "due (hd rest) \<le> due x" using that by (cases rest) auto
    with sp \<open>rest \<noteq> []\<close> show ?thesis by auto
  qed
  have dist: "inj_on node_id (set (timer tm))" using ok by (simp add: timer_ok_def distinct_map)
  have mem: "n \<in> set rest \<longleftrightarrow> now < due n"
    using n sp late by (auto simp: in_set_conv_nth)
  have "node_id n \<in> node_id ` set rest \<longleftrightarrow> n \<in> set rest"
    using dist n sp by (auto simp: inj_on_def)
  with mem have "find_node (node_id n) rest = None \<longleftrightarrow> due n \<le> now"
    by (simp add: find_node_None not_less)
  then show ?thesis
    by (auto simp: TimerManager_AddTimer_def it' tm' Let_def split: option.splits)
qed

theorem AddTimer_after_collect_witness:
  "\<exists>r t' tm' s'. TimerManager_CollectTimeoutTasks (\<lambda>_. 60) 0 one_timer (one_waiter (Some 0) kInit) =
     (r, t', tm', s') \<and> TimerManager_AddTimer 60 5 1 tm' = Inl DanglingIterator"
proof -
  let ?n = "\<lparr>node_id = 0, due = 50, node_co = 0\<rparr>"
  obtain r t' tm' s' where
    c: "TimerManager_CollectTimeoutTasks (\<lambda>_. 60) 0 one_timer (one_waiter (Some 0) kInit) = (r, t', tm', s')"
    by (metis prod_cases4)
  have "?n \<in> set (timer one_timer)" "it one_timer = Node (node_id ?n)" by (simp_all add: one_timer_def)
  from AddTimer_after_collect [OF one_timer_ok this c, of 5 1] c show ?thesis by simp
qed

lemma ctx_state_same: "wc_state (cs ! c) = x \<Longrightarrow> cs[c := (cs ! c)\<lparr>wc_state := x\<rparr>] = cs"
  by (metis WaitCtx.surjective WaitCtx.update_convs(2) list_update_id)

text \<open>A waiter that was already woken is woken a second time. When the timer of a coroutine
  expires whose wait context another party has moved to \<open>kReady\<close> and has scheduled, the
  coroutine is scheduled again: its own \<open>state_\<close> is still \<open>kInit\<close>, which lets
  the second condition through. The context keeps its state.\<close>

theorem expire_ready_waiter_again:
  assumes "co_wait_ctx (cs_cos s ! co) = Some c" "c < length (cs_ctxs s)"
    and "wc_state (cs_ctxs s ! c) = kReady" "co_state (cs_cos s ! co) = kInit"
  shows "cs_tasks (expire co s) = cs_tasks s @ [co] \<and> cs_ctxs (expire co s) = cs_ctxs s"
  using assms ctx_state_same [of "cs_ctxs s" c kReady]
  by (simp add: expire_def Let_def atomic_compare_swap_def compare_exchange_def co_state_defs)

theorem expire_ready_waiter_again_witness:
  "cs_tasks (expire 0 ((one_waiter (Some 0) kReady)\<lparr>cs_tasks := [0]\<rparr>)) = [0, 0]"
  using expire_ready_waiter_again [of "(one_waiter (Some 0) kReady)\<lparr>cs_tasks := [0]\<rparr>" 0 0]
  by (simp add: one_waiter_def Coroutine_init_def)

end
