(* ===== verification/Scheduler.thy ===== *)
theory Scheduler
  imports Timer_Manager Epoll Task_Manager
begin

text \<open>
  The scheduler: \<open>SchedulerImpl\<close> and \<open>SchedulerManager\<close> of \<open>include/scheduler.h\<close> and
  \<open>src/scheduler.cc\<close>. A scheduler runs its coroutines on eight shared stacks; the frame of a
  coroutine whose stack another one needs is copied to its private buffer and back.

  What the code hands over to is a parameter (the record \<open>env\<close>): the kernel's
  \<open>epoll_ctl\<close>, the clock, the contents of fresh memory, \<open>tb_context_make\<close> (where a new context starts in
  its stack), and what a coroutine does between being switched to and switching back (its function when it starts,
  its continuation afterwards), which can be any change of the state. Switching back yields a
  \<open>from_t\<close>: the private pointer (the coroutine that yields, or null when it ended) and the
  context to continue it from.
\<close>

section \<open>State\<close>

record Stack =
  st_p :: "nat option" \<comment> \<open>the memory object, once allocated\<close>
  st_top :: nat
  st_co :: "co_ptr option"

text \<open>The thread object, which \<open>Stop\<close> deletes without resetting the pointer.\<close>

datatype thread_ptr = NoThread | Running | Deleted

definition kShareStackSize :: nat where
  "kShareStackSize = 8"

record SchedulerImpl =
  s_id :: uint32
  s_sched_num :: uint32
  stack_size :: uint32
  wait_ms :: uint32
  thread :: thread_ptr
  epoll :: Epoll
  main_co :: co_ptr
  running_co :: "co_ptr option"
  stacks :: "Stack list"
  co_pool :: Copoll
  task_mgr :: TaskManager
  timer_mgr :: TimerManager
  timeout_flag :: bool
  stop :: bool

text \<open>A scheduler with what it shares with the rest of the program: memory, wait contexts, socket contexts
  and kernel, the number of clock readings, and the answers the kernel will give to reads and
  writes of the eventfd.\<close>

record 'k sys =
  sch :: SchedulerImpl
  mem :: memory
  ctxs :: "WaitCtx list"
  epw :: "'k ep_world"
  ticks :: nat
  answers :: "answer list"

record from_t =
  priv :: "co_ptr option"
  from_ctx :: nat

record 'k env =
  e_ctl :: "'k ctl"
  e_clk :: "nat \<Rightarrow> int"
  e_junk :: "nat \<Rightarrow> byte list"
  e_make :: "nat \<Rightarrow> nat"
  e_body :: "closure \<Rightarrow> 'k sys \<Rightarrow> (from_t \<times> 'k sys) res"
  e_cont :: "co_ptr \<Rightarrow> 'k sys \<Rightarrow> (from_t \<times> 'k sys) res"

abbreviation co_at :: "co_ptr \<Rightarrow> 'k sys \<Rightarrow> Coroutine" where
  "co_at co s \<equiv> pool (co_pool (sch s)) ! co"

definition upd_sch :: "(SchedulerImpl \<Rightarrow> SchedulerImpl) \<Rightarrow> 'k sys \<Rightarrow> 'k sys" where
  "upd_sch f s = s\<lparr>sch := f (sch s)\<rparr>"

definition upd_co :: "co_ptr \<Rightarrow> (Coroutine \<Rightarrow> Coroutine) \<Rightarrow> 'k sys \<Rightarrow> 'k sys" where
  "upd_co co f = upd_sch (\<lambda>sc. sc\<lparr>co_pool := (co_pool sc)\<lparr>pool := (pool (co_pool sc))[co := f (pool (co_pool sc) ! co)]\<rparr>\<rparr>)"

definition upd_stack :: "nat \<Rightarrow> (Stack \<Rightarrow> Stack) \<Rightarrow> 'k sys \<Rightarrow> 'k sys" where
  "upd_stack i f = upd_sch (\<lambda>sc. sc\<lparr>stacks := (stacks sc)[i := f (stacks sc ! i)]\<rparr>)"

definition stack_of :: "co_ptr \<Rightarrow> 'k sys \<Rightarrow> nat" where
  "stack_of co s = unat (co_stack_id (co_at co s))"

section \<open>Construction\<close>

definition SchedulerImpl_SchedulerImpl :: "Epoll \<Rightarrow> uint32 \<Rightarrow> uint32 \<Rightarrow> uint32 \<Rightarrow> SchedulerImpl res" where
  [model_defs]: "SchedulerImpl_SchedulerImpl e sid num sz =
     res_bind (Copoll_Pop Copoll_init) (\<lambda>(main, cp). Inr
       \<lparr>s_id = sid, s_sched_num = num, stack_size = sz, wait_ms = - 1, thread = NoThread, epoll = e, main_co = main,
        running_co = None, stacks = replicate kShareStackSize \<lparr>st_p = None, st_top = 0, st_co = None\<rparr>,
        co_pool = cp, task_mgr = TaskManager_init, timer_mgr = TimerManager_init,
        timeout_flag = False, stop = False\<rparr>)"

definition SchedulerImpl_Stop :: "SchedulerImpl \<Rightarrow> SchedulerImpl res" where
  [model_defs]: "SchedulerImpl_Stop sc =
     (if stop sc then Inl AssertFail
      else if thread sc = Deleted then Inl WildPointer
      else Inr (sc\<lparr>thread := (if thread sc = NoThread then NoThread else Deleted), stop := True\<rparr>))"

text \<open>\<open>Start\<close> forms a name from the tail of a string literal, which it does not use, and starts the
  thread that runs the loop.\<close>

definition SchedulerImpl_Start :: "SchedulerImpl \<Rightarrow> SchedulerImpl res" where
  [model_defs]: "SchedulerImpl_Start sc =
     (if stop sc then Inl AssertFail
      else if unat (s_id sc) \<le> length ''Scheduler-'' then Inr (sc\<lparr>thread := Running\<rparr>)
      else Inl OutOfBounds)"

definition SchedulerImpl_destroy :: "SchedulerImpl \<Rightarrow> SchedulerImpl res" where
  [model_defs]: "SchedulerImpl_destroy sc = (if \<not> stop sc then SchedulerImpl_Stop sc else Inr sc)"

text \<open>\<open>co->func_ = func\<close> assigns to the \<open>std::function\<close> in the union, which has to be one.\<close>

definition SchedulerImpl_NewCoroutine :: "closure \<Rightarrow> 'k sys \<Rightarrow> (co_ptr \<times> 'k sys) res" where
  [model_defs]: "SchedulerImpl_NewCoroutine func s =
     res_bind (Copoll_Pop (co_pool (sch s))) (\<lambda>(co, cp).
       case co_union (pool cp ! co) of
         Func _ \<Rightarrow> Inr (co, upd_co co (\<lambda>c. c\<lparr>co_union := Func func\<rparr>) (upd_sch (\<lambda>sc. sc\<lparr>co_pool := cp\<rparr>) s))
       | Sched _ \<Rightarrow> Inl InactiveMember)"

section \<open>Switching\<close>

text \<open>The frame of a coroutine: from its context to the top of its stack. The private buffer takes it only if it
  is shorter than the buffer (\<open>FixedBuffer::append\<close>).\<close>

definition SchedulerImpl_SaveStack :: "co_ptr option \<Rightarrow> 'k sys \<Rightarrow> 'k sys res" where
  [model_defs]: "SchedulerImpl_SaveStack oco s =
     (case oco of
        None \<Rightarrow> Inr s
      | Some co \<Rightarrow>
          (let st = stacks (sch s) ! stack_of co s in
           case (st_p st, co_ctx (co_at co s)) of
             (Some p, Some bottom) \<Rightarrow>
               res_bind (mem_load (mem s) (Ptr p (int bottom)) (st_top st - bottom)) (\<lambda>bytes.
                 Inr (upd_co co (\<lambda>c. c\<lparr>co_stack :=
                   Stream_append bytes (int (st_top st) - int bottom) (Stream_reset (co_stack c))\<rparr>) s))
           | _ \<Rightarrow> Inl NullDeref))"

text \<open>\<open>Resume\<close> up to the jump: the stack is allocated on first use, its owner saved when it is
  another coroutine, and the frame of a coroutine that ran before copied back.\<close>

definition resume_enter :: "'k env \<Rightarrow> co_ptr \<Rightarrow> 'k sys \<Rightarrow> 'k sys res" where
  [model_defs]: "resume_enter env co s =
     (let i = stack_of co s; s1 = upd_sch (\<lambda>sc. sc\<lparr>running_co := Some co\<rparr>) s in
      if i < length (stacks (sch s)) then
        (let sz = unat (stack_size (sch s));
             s2 = (if st_p (stacks (sch s1) ! i) = None
                   then upd_stack i (\<lambda>_. \<lparr>st_p = Some (length (mem s1)), st_top = sz, st_co = Some co\<rparr>)
                          (s1\<lparr>mem := mem s1 @ [e_junk env sz]\<rparr>)
                   else s1);
             st = stacks (sch s2) ! i
         in case co_ctx (co_at co s2) of
              None \<Rightarrow>
                res_bind (if st_co st \<noteq> Some co
                          then res_bind (SchedulerImpl_SaveStack (st_co st) s2)
                                 (\<lambda>s3. Inr (upd_stack i (\<lambda>x. x\<lparr>st_co := Some co\<rparr>) s3))
                          else Inr s2)
                  (\<lambda>s4. Inr (upd_co co (\<lambda>c. c\<lparr>co_ctx := Some (e_make env sz)\<rparr>) s4))
            | Some ctx \<Rightarrow>
                if st_co st \<noteq> Some co
                then res_bind (SchedulerImpl_SaveStack (st_co st) s2) (\<lambda>s3.
                       case st_p st of
                         None \<Rightarrow> Inl NullDeref
                       | Some p \<Rightarrow>
                           res_bind (mem_store (mem s3) (Ptr p (int ctx))
                               (take (Stream_size (co_stack (co_at co s3))) (fb_data (buffer (co_stack (co_at co s3))))))
                             (\<lambda>m. Inr (upd_stack i (\<lambda>x. x\<lparr>st_co := Some co\<rparr>) (s3\<lparr>mem := m\<rparr>))))
                else Inr s2)
      else Inl OutOfBounds)"

text \<open>\<open>MainFunc\<close>: the first thing that runs on the stack of a new coroutine.\<close>

definition SchedulerImpl_MainFunc :: "'k env \<Rightarrow> co_ptr \<Rightarrow> nat \<Rightarrow> 'k sys \<Rightarrow> (from_t \<times> 'k sys) res" where
  [model_defs]: "SchedulerImpl_MainFunc env from_priv ctx s =
     (let s1 = upd_co from_priv (\<lambda>c. c\<lparr>co_ctx := Some ctx\<rparr>) s in
      case running_co (sch s1) of
        None \<Rightarrow> Inl NullDeref
      | Some co \<Rightarrow> (case co_union (co_at co s1) of Func f \<Rightarrow> e_body env f s1 | Sched _ \<Rightarrow> Inl InactiveMember))"

definition SchedulerImpl_Recycle :: "'k sys \<Rightarrow> 'k sys res" where
  [model_defs]: "SchedulerImpl_Recycle s =
     (case running_co (sch s) of
        None \<Rightarrow> Inl NullDeref
      | Some co \<Rightarrow>
          if co \<noteq> main_co (sch s)
          then Inr (upd_sch (\<lambda>sc. sc\<lparr>co_pool := Copoll_Push co (co_pool sc)\<rparr>)
                     (upd_stack (stack_of co s) (\<lambda>x. x\<lparr>st_co := None\<rparr>) s))
          else Inr s)"

text \<open>\<open>Resume\<close> after the jump.\<close>

definition resume_leave :: "from_t \<Rightarrow> 'k sys \<Rightarrow> 'k sys res" where
  [model_defs]: "resume_leave from s =
     (case priv from of
        Some p \<Rightarrow> if running_co (sch s) = Some p
                  then Inr (upd_co p (\<lambda>c. c\<lparr>co_ctx := Some (from_ctx from)\<rparr>) s)
                  else Inl AssertFail
      | None \<Rightarrow> SchedulerImpl_Recycle s)"

text \<open>The jump starts a new coroutine in \<open>MainFunc\<close>, with the main coroutine as the private pointer
  and the context of the loop (which the model does not look into: 0), and continues one that ran
  before.\<close>

definition SchedulerImpl_Resume :: "'k env \<Rightarrow> co_ptr \<Rightarrow> 'k sys \<Rightarrow> 'k sys res" where
  [model_defs]: "SchedulerImpl_Resume env co s =
     res_bind (resume_enter env co s) (\<lambda>s1.
       res_bind (if co_ctx (co_at co s) = None
                 then SchedulerImpl_MainFunc env (main_co (sch s1)) 0 s1
                 else e_cont env co s1)
         (\<lambda>(from, s2). resume_leave from s2))"

section \<open>What a running coroutine calls\<close>

definition SchedulerImpl_AddNewTask :: "closure \<Rightarrow> 'k sys \<Rightarrow> 'k sys res" where
  [model_defs]: "SchedulerImpl_AddNewTask func s =
     (case Epoll_Wakeup (answers s) (epoll (sch s)) of
        None \<Rightarrow> Inl OutOfAnswers
      | Some (e, as) \<Rightarrow>
          Inr ((upd_sch (\<lambda>sc. sc\<lparr>task_mgr := TaskManager_AddNewTasks func (task_mgr sc), epoll := e\<rparr>) s)\<lparr>answers := as\<rparr>))"

definition SchedulerImpl_AddReadyTask :: "co_ptr \<Rightarrow> 'k sys \<Rightarrow> 'k sys res" where
  [model_defs]: "SchedulerImpl_AddReadyTask co s =
     (case Epoll_Wakeup (answers s) (epoll (sch s)) of
        None \<Rightarrow> Inl OutOfAnswers
      | Some (e, as) \<Rightarrow>
          Inr ((upd_sch (\<lambda>sc. sc\<lparr>task_mgr := TaskManager_AddReadyTasks co (task_mgr sc), epoll := e\<rparr>) s)\<lparr>answers := as\<rparr>))"

definition SchedulerImpl_AddIoEvent :: "'k env \<Rightarrow> int \<Rightarrow> io_event_t \<Rightarrow> 'k sys \<Rightarrow> (bool \<times> 'k sys) res" where
  [model_defs]: "SchedulerImpl_AddIoEvent env fd event s =
     (case running_co (sch s) of
        None \<Rightarrow> Inl NullDeref
      | Some co \<Rightarrow>
          (let cid = co_id (co_at co s);
               (ok, w) = (if event = kEvRead
                  then Epoll_AddEvRead (e_ctl env) (epoll (sch s)) fd cid (epw s)
                  else Epoll_AddEvWrite (e_ctl env) (epoll (sch s)) fd cid (epw s))
           in Inr (ok, s\<lparr>epw := w\<rparr>)))"

text \<open>The deletion of a read event goes on to delete the write event.\<close>

definition SchedulerImpl_DelIoEvent :: "'k env \<Rightarrow> int \<Rightarrow> io_event_t \<Rightarrow> 'k sys \<Rightarrow> 'k sys res" where
  [model_defs]: "SchedulerImpl_DelIoEvent env fd event s =
     (case running_co (sch s) of
        None \<Rightarrow> Inl NullDeref
      | Some co \<Rightarrow>
          (let cid = co_id (co_at co s);
               w = (if event = kEvRead then Epoll_DelEvRead (e_ctl env) (epoll (sch s)) fd cid (epw s) else epw s)
           in Inr (s\<lparr>epw := Epoll_DelEvWrite (e_ctl env) (epoll (sch s)) fd cid w\<rparr>)))"

definition SchedulerImpl_DelIoEvent_all :: "'k env \<Rightarrow> int \<Rightarrow> 'k sys \<Rightarrow> 'k sys" where
  [model_defs]: "SchedulerImpl_DelIoEvent_all env fd s =
     s\<lparr>epw := Epoll_DelEvent (e_ctl env) (epoll (sch s)) fd (epw s)\<rparr>"

text \<open>Pointers of different objects never compare as inside.\<close>

definition SchedulerImpl_on_stack :: "ptr \<Rightarrow> 'k sys \<Rightarrow> bool res" where
  [model_defs]: "SchedulerImpl_on_stack p s =
     (case running_co (sch s) of
        None \<Rightarrow> Inl NullDeref
      | Some co \<Rightarrow>
          (let st = stacks (sch s) ! stack_of co s
           in Inr (st_p st = Some (obj p) \<and> 0 \<le> off p \<and> off p < int (st_top st))))"

text \<open>\<open>Yield\<close> up to the jump, which needs the context of the main coroutine.\<close>

definition SchedulerImpl_Yield :: "'k sys \<Rightarrow> 'k sys res" where
  [model_defs]: "SchedulerImpl_Yield s =
     (case running_co (sch s) of
        None \<Rightarrow> Inl NullDeref
      | Some co \<Rightarrow>
          (let s1 = upd_co co (\<lambda>c. c\<lparr>co_union := Sched (unat (s_id (sch s)))\<rparr>) s
           in if co_ctx (co_at (main_co (sch s1)) s1) = None then Inl NullDeref else Inr s1))"

definition SchedulerImpl_AddTimer :: "'k env \<Rightarrow> uint32 \<Rightarrow> 'k sys \<Rightarrow> 'k sys res" where
  [model_defs]: "SchedulerImpl_AddTimer env ms s =
     (let s1 = (if wait_ms (sch s) > ms then upd_sch (\<lambda>sc. sc\<lparr>wait_ms := ms\<rparr>) s else s) in
      case running_co (sch s1) of
        None \<Rightarrow> Inl NullDeref
      | Some co \<Rightarrow>
          res_bind (TimerManager_AddTimer (e_clk env (ticks s1)) ms co (timer_mgr (sch s1))) (\<lambda>(n, tm).
            Inr (upd_co co (\<lambda>c. c\<lparr>co_timer_id := Some n\<rparr>)
                  (upd_sch (\<lambda>sc. sc\<lparr>timer_mgr := tm\<rparr>) s1)\<lparr>ticks := Suc (ticks s1)\<rparr>)))"

text \<open>\<open>Sleep\<close> up to the jump. Inserting a timer does not look at the coroutine, which is null when
  none runs; \<open>Yield\<close> does.\<close>

definition SchedulerImpl_Sleep :: "'k env \<Rightarrow> uint32 \<Rightarrow> 'k sys \<Rightarrow> 'k sys res" where
  [model_defs]: "SchedulerImpl_Sleep env ms s =
     (let s1 = (if wait_ms (sch s) > ms then upd_sch (\<lambda>sc. sc\<lparr>wait_ms := ms\<rparr>) s else s) in
      case running_co (sch s1) of
        None \<Rightarrow> Inl NullDeref
      | Some co \<Rightarrow>
          res_bind (TimerManager_AddTimer (e_clk env (ticks s1)) ms co (timer_mgr (sch s1))) (\<lambda>(n, tm).
            SchedulerImpl_Yield ((upd_sch (\<lambda>sc. sc\<lparr>timer_mgr := tm\<rparr>) s1)\<lparr>ticks := Suc (ticks s1)\<rparr>)))"

text \<open>The free functions \<open>timeout\<close> and \<open>sleep\<close>, with the scheduler of the thread if it has one.\<close>

definition co_timeout :: "'k sys option \<Rightarrow> bool" where
  [model_defs]: "co_timeout tls = (case tls of None \<Rightarrow> False | Some s \<Rightarrow> timeout_flag (sch s))"

definition co_sleep :: "'k env \<Rightarrow> uint32 \<Rightarrow> 'k sys option \<Rightarrow> 'k sys option res" where
  [model_defs]: "co_sleep env ms tls =
     (case tls of None \<Rightarrow> Inr None | Some s \<Rightarrow> res_bind (SchedulerImpl_Sleep env ms s) (\<lambda>s'. Inr (Some s')))"

section \<open>The loop\<close>

primrec resume_all :: "'k env \<Rightarrow> co_ptr list \<Rightarrow> 'k sys \<Rightarrow> 'k sys res" where
  "resume_all env [] s = Inr s"
| "resume_all env (co # cos) s = res_bind (SchedulerImpl_Resume env co s) (resume_all env cos)"

primrec resume_new :: "'k env \<Rightarrow> closure list \<Rightarrow> 'k sys \<Rightarrow> 'k sys res" where
  "resume_new env [] s = Inr s"
| "resume_new env (f # fs) s =
     res_bind (SchedulerImpl_NewCoroutine f s) (\<lambda>(co, s1).
       res_bind (SchedulerImpl_Resume env co s1) (resume_new env fs))"

text \<open>\<open>read_co != -1\<close> with the indexing of the pool.\<close>

definition resume_id :: "'k env \<Rightarrow> uint32 \<Rightarrow> 'k sys \<Rightarrow> 'k sys res" where
  [model_defs]: "resume_id env cid s =
     (if cid \<noteq> - 1
      then res_bind (Copoll_index (unat cid) (co_pool (sch s))) (\<lambda>co. SchedulerImpl_Resume env co s)
      else Inr s)"

definition handle_event :: "'k env \<Rightarrow> epoll_event \<Rightarrow> 'k sys \<Rightarrow> 'k sys res" where
  [model_defs]: "handle_event env ev s =
     (if Epoll_is_wakeup_fd (epoll (sch s)) ev then
        (case Epoll_HandleWakeUpEvent (answers s) (epoll (sch s)) of
           None \<Rightarrow> Inl OutOfAnswers
         | Some (e, as) \<Rightarrow> Inr ((upd_sch (\<lambda>sc. sc\<lparr>epoll := e\<rparr>) s)\<lparr>answers := as\<rparr>))
      else
        (let ctx = get_sock_ctx (socks (epw s)) (Epoll_user_data ev);
             read_co = (if (events ev OR EPOLLIN) \<noteq> 0 then SockCtx_get_read_co_id (s_id (sch s)) ctx else 0);
             write_co = (if (events ev OR EPOLLOUT) \<noteq> 0 then SockCtx_get_write_co_id (s_id (sch s)) ctx else 0)
         in res_bind (resume_id env read_co s) (resume_id env write_co)))"

text \<open>\<open>for (i = 0; i < events; ++i)\<close>: the first \<open>n\<close> events of the array, from \<open>i\<close> on.\<close>

primrec handle_events :: "'k env \<Rightarrow> epoll_event list \<Rightarrow> nat \<Rightarrow> nat \<Rightarrow> 'k sys \<Rightarrow> 'k sys res" where
  "handle_events env arr i 0 s = Inr s"
| "handle_events env arr i (Suc n) s =
     res_bind (Epoll_index arr i) (\<lambda>ev.
       res_bind (handle_event env ev s) (handle_events env arr (Suc i) n))"

text \<open>The two inner blocks of an iteration: the queued tasks, then the timers.\<close>

definition run_tasks :: "'k env \<Rightarrow> 'k sys \<Rightarrow> 'k sys res" where
  [model_defs]: "run_tasks env s =
     (case TaskManager_GetAllTasks [] [] (task_mgr (sch s)) of (news, readies, tm) \<Rightarrow>
        res_bind (resume_new env news (upd_sch (\<lambda>sc. sc\<lparr>task_mgr := tm\<rparr>) s)) (resume_all env readies))"

definition run_timers :: "'k env \<Rightarrow> 'k sys \<Rightarrow> 'k sys res" where
  [model_defs]: "run_timers env s =
     (case TimerManager_CollectTimeoutTasks (e_clk env) (ticks s) (timer_mgr (sch s))
             \<lparr>cs_cos = pool (co_pool (sch s)), cs_ctxs = ctxs s, cs_tasks = []\<rparr> of
        (ms, t, tm, c) \<Rightarrow>
          (let s1 = (upd_sch (\<lambda>sc. sc\<lparr>wait_ms := ms, timer_mgr := tm,
                       co_pool := (co_pool sc)\<lparr>pool := cs_cos c\<rparr>\<rparr>) s)\<lparr>ctxs := cs_ctxs c, ticks := t\<rparr>
           in if cs_tasks c \<noteq> []
              then res_bind (resume_all env (cs_tasks c) (upd_sch (\<lambda>sc. sc\<lparr>timeout_flag := True\<rparr>) s1))
                     (\<lambda>s2. Inr (upd_sch (\<lambda>sc. sc\<lparr>timeout_flag := False\<rparr>) s2))
              else Inr s1))"

text \<open>What \<open>epoll_wait\<close> answers, what the array of events holds after it, and whether another thread
  stopped the scheduler meanwhile. A \<open>waiter\<close> is one call of \<open>epoll_wait\<close>: its answer may depend on
  its arguments.\<close>

record wait_answer =
  wa_events :: int
  wa_array :: "epoll_event list"
  wa_stopped :: bool

type_synonym waiter = "int \<Rightarrow> ev_ptr \<Rightarrow> nat \<Rightarrow> int \<Rightarrow> wait_answer"

definition loop_body :: "'k env \<Rightarrow> wait_answer \<Rightarrow> 'k sys \<Rightarrow> 'k sys res" where
  [model_defs]: "loop_body env a s =
     (if wa_events a = - 1 then Inr s
      else
        res_bind (handle_events env (wa_array a) 0 (nat (wa_events a)) s) (\<lambda>s1.
        res_bind (run_tasks env s1) (\<lambda>s2.
        res_bind (run_timers env s2) (\<lambda>s3.
          Inr (upd_sch (\<lambda>sc. sc\<lparr>running_co := None\<rparr>) s3)))))"

text \<open>The loop on a list of calls; it also ends, in the model, when the list is used up. The time to wait is
  passed as an \<open>int\<close>.\<close>

fun SchedulerImpl_Loop :: "'k env \<Rightarrow> waiter list \<Rightarrow> 'k sys \<Rightarrow> 'k sys res" where
  "SchedulerImpl_Loop env [] s = Inr s"
| "SchedulerImpl_Loop env (wait # ws) s =
     (if stop (sch s) then Inr s
      else let a = Epoll_Wait wait (epoll (sch s)) (sint (wait_ms (sch s)));
               s1 = (if wa_stopped a then upd_sch (\<lambda>sc. sc\<lparr>stop := True\<rparr>) s else s)
           in if stop (sch s1) then Inr s1
              else res_bind (loop_body env a s1) (SchedulerImpl_Loop env ws))"

section \<open>The manager\<close>

record SchedulerManager =
  index :: uint32
  sched_num :: uint32
  scheds :: "nat list" \<comment> \<open>pointers to the schedulers\<close>

text \<open>The constructor creates and starts the schedulers in a loop; \<open>eps\<close> gives the \<open>Epoll\<close> object
  of each. A pointer to a scheduler is its position in the list of those created.\<close>

primrec create_scheds :: "(nat \<Rightarrow> Epoll) \<Rightarrow> uint32 \<Rightarrow> uint32 \<Rightarrow> nat \<Rightarrow> nat \<Rightarrow> SchedulerImpl list res" where
  "create_scheds eps num sz i 0 = Inr []"
| "create_scheds eps num sz i (Suc n) =
     res_bind (SchedulerImpl_SchedulerImpl (eps i) (of_nat i) num sz) (\<lambda>sc.
     res_bind (SchedulerImpl_Start sc) (\<lambda>sc.
     res_bind (create_scheds eps num sz (Suc i) n) (\<lambda>scs. Inr (sc # scs))))"

definition SchedulerManager_SchedulerManager ::
    "(nat \<Rightarrow> Epoll) \<Rightarrow> uint32 \<Rightarrow> uint32 \<Rightarrow> (SchedulerManager \<times> SchedulerImpl list) res" where
  [model_defs]: "SchedulerManager_SchedulerManager eps num sz =
     res_bind (create_scheds eps num sz 0 (unat num)) (\<lambda>scs.
       Inr (\<lparr>index = 0, sched_num = num, scheds = [0..<length scs]\<rparr>, scs))"

text \<open>The only manager of the program: one scheduler with stacks of a megabyte.\<close>

definition schedulerManager :: "(nat \<Rightarrow> Epoll) \<Rightarrow> (SchedulerManager \<times> SchedulerImpl list) res" where
  [model_defs]: "schedulerManager eps = SchedulerManager_SchedulerManager eps 1 (1024 * 1024)"

definition SchedulerManager_NextScheduler :: "SchedulerManager \<Rightarrow> (nat \<times> SchedulerManager) res" where
  [model_defs]: "SchedulerManager_NextScheduler m =
     (let m1 = m\<lparr>index := snd (atomic_inc (index m))\<rparr>; i = unat (index m1 mod sched_num m1)
      in if i < length (scheds m1) then Inr (scheds m1 ! i, m1) else Inl OutOfBounds)"

text \<open>\<open>go\<close>: the new task goes to the next scheduler; the result says to which.\<close>

definition co_go :: "closure \<Rightarrow> SchedulerManager \<Rightarrow> (nat \<Rightarrow> 'k sys) \<Rightarrow> (nat \<times> SchedulerManager \<times> (nat \<Rightarrow> 'k sys)) res" where
  [model_defs]: "co_go func m scs =
     res_bind (SchedulerManager_NextScheduler m) (\<lambda>(i, m1).
       res_bind (SchedulerImpl_AddNewTask func (scs i)) (\<lambda>s. Inr (i, m1, scs(i := s))))"

section \<open>Choosing a scheduler\<close>

lemma NextScheduler_eq:
  assumes "sched_num m \<noteq> 0" "scheds m = [0..<unat (sched_num m)]" "unat (index m) + 1 < 2 ^ 32"
  shows "SchedulerManager_NextScheduler m =
    Inr ((unat (index m) + 1) mod unat (sched_num m), m\<lparr>index := index m + 1\<rparr>)"
proof -
  have "unat (index m + 1) = unat (index m) + 1"
    using assms(3) by (simp add: unat_word_ariths)
  moreover have "0 < unat (sched_num m)" using assms(1) by (simp add: unat_gt_0)
  ultimately show ?thesis
    using assms(2) by (simp add: SchedulerManager_NextScheduler_def Let_def unat_mod atomic_inc_def op_fetch_def)
qed

text \<open>The tasks are spread round-robin. With \<open>n\<close> schedulers, as long as the 32 bit counter does
  not wrap, the \<open>k\<close>-th next call of \<open>NextScheduler\<close> answers scheduler \<open>(index + k) mod n\<close>, so
  every \<open>n\<close> consecutive calls name each scheduler once; no call runs out of the vector.\<close>

theorem NextScheduler_round_robin:
  assumes "sched_num m \<noteq> 0" "scheds m = [0..<unat (sched_num m)]" "unat (index m) + k < 2 ^ 32"
  shows "pops SchedulerManager_NextScheduler k m =
    Inr (map (\<lambda>j. (unat (index m) + Suc j) mod unat (sched_num m)) [0..<k], m\<lparr>index := index m + of_nat k\<rparr>)"
  using assms
proof (induction k arbitrary: m)
  case 0
  then show ?case by simp
next
  case (Suc k)
  let ?m = "m\<lparr>index := index m + 1\<rparr>"
  have i: "unat (index ?m) = Suc (unat (index m))"
    using Suc.prems(3) by (simp add: unat_word_ariths)
  have "pops SchedulerManager_NextScheduler k ?m =
    Inr (map (\<lambda>j. (unat (index ?m) + Suc j) mod unat (sched_num ?m)) [0..<k], ?m\<lparr>index := index ?m + of_nat k\<rparr>)"
    using Suc.prems i by (intro Suc.IH) simp_all
  then show ?case
    using NextScheduler_eq [OF Suc.prems(1,2)] Suc.prems(3) i
    by (simp add: upt_conv_Cons map_Suc_upt [symmetric] add.assoc del: upt_Suc)
qed

lemma SchedulerImpl_constructed:
  "\<exists>sc. SchedulerImpl_SchedulerImpl e sid num sz = Inr sc \<and> s_id sc = sid \<and> s_sched_num sc = num \<and>
     stack_size sc = sz \<and> wait_ms sc = - 1 \<and> thread sc = NoThread \<and> epoll sc = e \<and> main_co sc = 0 \<and>
     running_co sc = None \<and> stacks sc = replicate 8 \<lparr>st_p = None, st_top = 0, st_co = None\<rparr> \<and>
     pool_ok (co_pool sc) \<and> in_use (co_pool sc) = {0} \<and> co_fresh (co_pool sc) 0 \<and>
     task_mgr sc = TaskManager_init \<and> timer_mgr sc = TimerManager_init \<and> \<not> timeout_flag sc \<and> \<not> stop sc"
proof -
  obtain cp where pop: "Copoll_Pop Copoll_init = Inr (0, cp)"
    by (simp add: Copoll_Pop_def Copoll_init_def kPoolSize_pos Let_def)
  from copool.pop_law [OF pool_ok_init pop] pop show ?thesis
    by (simp add: SchedulerImpl_SchedulerImpl_def in_use_init kShareStackSize_def)
qed

text \<open>What \<open>Create\<close> and \<open>Start\<close> make of one scheduler.\<close>

definition started :: "Epoll \<Rightarrow> nat \<Rightarrow> SchedulerImpl \<Rightarrow> bool" where
  "started e i sc \<longleftrightarrow> unat (s_id sc) = i \<and> thread sc = Running \<and> epoll sc = e \<and> \<not> stop sc \<and>
     pool_ok (co_pool sc) \<and> in_use (co_pool sc) = {main_co sc}"

lemma create_one:
  assumes "i < 2 ^ 32"
  shows "res_bind (SchedulerImpl_SchedulerImpl e (of_nat i) num sz) SchedulerImpl_Start = Inl OutOfBounds \<and> 10 < i \<or>
    (\<exists>sc. res_bind (SchedulerImpl_SchedulerImpl e (of_nat i) num sz) SchedulerImpl_Start = Inr sc \<and>
       started e i sc \<and> i \<le> 10)"
proof -
  have i: "unat (of_nat i :: uint32) = i" using assms by (simp add: unat_of_nat_lt)
  from SchedulerImpl_constructed [of e "of_nat i" num sz] i show ?thesis
    by (auto simp: SchedulerImpl_Start_def started_def)
qed

lemma create_scheds_spec:
  assumes "i + n < 2 ^ 32"
  shows "if n = 0 \<or> i + n \<le> 11
    then \<exists>scs. create_scheds eps num sz i n = Inr scs \<and> length scs = n \<and>
      (\<forall>j < n. started (eps (i + j)) (i + j) (scs ! j))
    else create_scheds eps num sz i n = Inl OutOfBounds"
  using assms
proof (induction n arbitrary: i)
  case 0
  then show ?case by simp
next
  case (Suc n)
  have b: "create_scheds eps num sz i (Suc n) =
      res_bind (res_bind (SchedulerImpl_SchedulerImpl (eps i) (of_nat i) num sz) SchedulerImpl_Start)
        (\<lambda>sc. res_bind (create_scheds eps num sz (Suc i) n) (\<lambda>scs. Inr (sc # scs)))"
    by (simp add: res_bind_assoc)
  have i: "i < 2 ^ 32" using Suc.prems by simp
  show ?case
  proof (cases "i \<le> 10")
    case False
    then have "res_bind (SchedulerImpl_SchedulerImpl (eps i) (of_nat i) num sz) SchedulerImpl_Start = Inl OutOfBounds"
      using create_one [OF i, of "eps i" num sz] by auto
    with False show ?thesis by (simp only: b res_bind_simps) simp
  next
    case True
    then obtain sc where sc: "started (eps i) i sc"
      "res_bind (SchedulerImpl_SchedulerImpl (eps i) (of_nat i) num sz) SchedulerImpl_Start = Inr sc"
      using create_one [OF i, of "eps i" num sz] by auto
    have step: "create_scheds eps num sz i (Suc n) = res_bind (create_scheds eps num sz (Suc i) n) (\<lambda>scs. Inr (sc # scs))"
      by (simp only: b sc(2) res_bind_simps)
    show ?thesis
    proof (cases "n = 0 \<or> i + Suc n \<le> 11")
      case True
      then obtain scs where "create_scheds eps num sz (Suc i) n = Inr scs" "length scs = n"
        "\<forall>j < n. started (eps (Suc i + j)) (Suc i + j) (scs ! j)"
        using Suc.IH [of "Suc i"] Suc.prems by (auto split: if_splits)
      with sc(1) \<open>i \<le> 10\<close> True show ?thesis
        by (auto simp only: step res_bind_simps) (auto simp: nth_Cons split: nat.splits)
    next
      case False
      then have "create_scheds eps num sz (Suc i) n = Inl OutOfBounds"
        using Suc.IH [of "Suc i"] Suc.prems by auto
      with False show ?thesis by (simp only: step res_bind_simps) simp
    qed
  qed
qed

text \<open>The manager starts up to eleven schedulers. With at most eleven schedulers, each is created with its
  own number, its \<open>Epoll\<close> object and a pool in which only the main coroutine is in use, and its thread is running; with
  more, the name of the twelfth is read past the end of a string literal.\<close>

theorem SchedulerManager_starts:
  "if unat num \<le> 11
   then \<exists>m scs. SchedulerManager_SchedulerManager eps num sz = Inr (m, scs) \<and> length scs = unat num \<and>
     index m = 0 \<and> sched_num m = num \<and> scheds m = [0..<unat num] \<and> (\<forall>i < unat num. started (eps i) i (scs ! i))
   else SchedulerManager_SchedulerManager eps num sz = Inl OutOfBounds"
proof (cases "unat num \<le> 11")
  case True
  then obtain scs where "create_scheds eps num sz 0 (unat num) = Inr scs" "length scs = unat num"
    "\<forall>j < unat num. started (eps j) j (scs ! j)"
    using create_scheds_spec [of 0 "unat num" eps num sz] by auto
  with True show ?thesis by (simp add: SchedulerManager_SchedulerManager_def)
next
  case False
  then have "create_scheds eps num sz 0 (unat num) = Inl OutOfBounds"
    using create_scheds_spec [of 0 "unat num" eps num sz] unat_lt2p [of num] by (auto split: if_splits)
  with False show ?thesis by (simp add: SchedulerManager_SchedulerManager_def)
qed

text \<open>A scheduler deletes its thread object once, whether it was stopped before it is destroyed or not.\<close>

lemma destroy_deletes_once:
  assumes "started e i sc"
  shows "\<exists>sc'. SchedulerImpl_Stop sc = Inr sc' \<and> thread sc' = Deleted \<and> SchedulerImpl_destroy sc' = Inr sc' \<and>
      SchedulerImpl_Stop sc' = Inl AssertFail"
    and "\<exists>sc'. SchedulerImpl_destroy sc = Inr sc' \<and> thread sc' = Deleted"
  using assms by (auto simp: started_def SchedulerImpl_Stop_def SchedulerImpl_destroy_def)

theorem NextScheduler_round_robin_witness:
  "\<exists>m scs m'. SchedulerManager_SchedulerManager (\<lambda>_. epoll0) 3 (1024 * 1024) = Inr (m, scs) \<and>
     pops SchedulerManager_NextScheduler 4 m = Inr ([1, 2, 0, 1], m')"
proof -
  obtain m scs where m: "SchedulerManager_SchedulerManager (\<lambda>_. epoll0) 3 (1024 * 1024) = Inr (m, scs)"
    "index m = 0" "sched_num m = 3" "scheds m = [0..<3]"
    using SchedulerManager_starts [of 3 "\<lambda>_. epoll0" "1024 * 1024"] by auto
  with NextScheduler_round_robin [of m 4] show ?thesis
    by (auto simp: upt_rec)
qed

section \<open>Shared stacks\<close>

lemma upd_simps [simp]:
  "sch (upd_sch f s) = f (sch s)" "mem (upd_sch f s) = mem s" "ctxs (upd_sch f s) = ctxs s"
  "epw (upd_sch f s) = epw s" "ticks (upd_sch f s) = ticks s" "answers (upd_sch f s) = answers s"
  "stacks (sch (upd_co co g s)) = stacks (sch s)" "mem (upd_co co g s) = mem s"
  "co_pool (sch (upd_stack i h s)) = co_pool (sch s)" "mem (upd_stack i h s) = mem s"
  "running_co (sch (upd_co co g s)) = running_co (sch s)" "running_co (sch (upd_stack i h s)) = running_co (sch s)"
  "pool (co_pool (sch (upd_co co g s))) = (pool (co_pool (sch s)))[co := g (co_at co s)]"
  "stacks (sch (upd_stack i h s)) = (stacks (sch s))[i := h (stacks (sch s) ! i)]"
  by (simp_all add: upd_sch_def upd_co_def upd_stack_def)

text \<open>\<open>frame s c p b\<close>: the coroutine \<open>c\<close> was suspended with its context at offset \<open>b\<close> of its
  shared stack, the allocated object \<open>p\<close>.\<close>

definition frame :: "'k sys \<Rightarrow> co_ptr \<Rightarrow> nat \<Rightarrow> nat \<Rightarrow> bool" where
  "frame s c p b \<longleftrightarrow>
     c < length (pool (co_pool (sch s))) \<and> stack_of c s < length (stacks (sch s)) \<and>
     length (fb_data (buffer (co_stack (co_at c s)))) = kSmallBuffer \<and>
     co_ctx (co_at c s) = Some b \<and> st_p (stacks (sch s) ! stack_of c s) = Some p \<and>
     p < length (mem s) \<and> length (mem s ! p) = st_top (stacks (sch s) ! stack_of c s) \<and>
     b \<le> st_top (stacks (sch s) ! stack_of c s) \<and> st_top (stacks (sch s) ! stack_of c s) < 2 ^ 31"

lemma frame_load:
  assumes "frame s c p b"
  shows "mem_load (mem s) (Ptr p (int b)) (length (mem s ! p) - b) = Inr (drop b (mem s ! p))"
  using assms by (simp add: frame_def mem_load_def valid_range_def slice_def)

text \<open>The private stack after saving: the frame if it is shorter than the buffer, nothing otherwise.\<close>

lemma save_append:
  assumes "length (fb_data (buffer st)) = kSmallBuffer" "length bytes < 2 ^ 31"
  shows "FixedBuffer_toString (buffer (Stream_append bytes (int (length bytes)) (Stream_reset st))) =
    (if length bytes < kSmallBuffer then bytes else [])"
proof -
  have "buffer_ok (FixedBuffer_reset (buffer st))" using assms(1)
    by (simp add: buffer_ok_def FixedBuffer_reset_def kSmallBuffer_def)
  from FixedBuffer_append_eq [OF this, of bytes] assms show ?thesis
    by (simp add: Stream_append_def Stream_reset_def FixedBuffer_reset_def FixedBuffer_toString_def
        FixedBuffer_length_def take_blit [of 0, simplified])
qed

lemma save_append_data:
  assumes "length (fb_data (buffer st)) = kSmallBuffer" "length bytes < 2 ^ 31"
  shows "length (fb_data (buffer (Stream_append bytes (int (length bytes)) (Stream_reset st)))) = kSmallBuffer"
proof -
  have "buffer_ok (FixedBuffer_reset (buffer st))" using assms(1)
    by (simp add: buffer_ok_def FixedBuffer_reset_def kSmallBuffer_def)
  from FixedBuffer_append_eq [OF this, of bytes] assms show ?thesis
    by (simp add: Stream_append_def Stream_reset_def FixedBuffer_reset_def)
qed

lemma SaveStack_frame:
  assumes f: "frame s c p b"
  shows "\<exists>st. SchedulerImpl_SaveStack (Some c) s = Inr (upd_co c (\<lambda>x. x\<lparr>co_stack := st\<rparr>) s) \<and>
    length (fb_data (buffer st)) = kSmallBuffer \<and>
    FixedBuffer_toString (buffer st) =
      (if length (mem s ! p) - b < kSmallBuffer then drop b (mem s ! p) else [])"
proof -
  let ?bytes = "drop b (mem s ! p)"
  let ?st = "Stream_append ?bytes (int (length ?bytes)) (Stream_reset (co_stack (co_at c s)))"
  have "upd_co c (\<lambda>x. x\<lparr>co_stack := Stream_append ?bytes (int (length ?bytes)) (Stream_reset (co_stack x))\<rparr>) s =
      upd_co c (\<lambda>x. x\<lparr>co_stack := ?st\<rparr>) s"
    by (simp add: upd_co_def upd_sch_def)
  then have "SchedulerImpl_SaveStack (Some c) s = Inr (upd_co c (\<lambda>x. x\<lparr>co_stack := ?st\<rparr>) s)"
    using f frame_load [OF f]
    by (simp add: SchedulerImpl_SaveStack_def Let_def frame_def of_nat_diff)
  moreover have "length (fb_data (buffer (co_stack (co_at c s)))) = kSmallBuffer" "length ?bytes < 2 ^ 31"
    using f by (auto simp: frame_def)
  ultimately show ?thesis using save_append save_append_data by fastforce
qed

text \<open>Entering a coroutine whose stack is in another's hands, or in nobody's.\<close>

lemma stack_of_sch:
  "stack_of c (upd_sch (\<lambda>sc. sc\<lparr>running_co := r\<rparr>) s) = stack_of c s"
  by (simp add: stack_of_def)

lemma frame_running: "frame (upd_sch (\<lambda>sc. sc\<lparr>running_co := r\<rparr>) s) c p b \<longleftrightarrow> frame s c p b"
  by (simp add: frame_def stack_of_def)

text \<open>C31: a coroutine that starts on a shared stack does not destroy the coroutine it finds there, up to the
  size of a private stack. When the stack of a new coroutine belongs to a suspended coroutine \<open>c\<close>,
  entering the new one makes it the owner of the stack and leaves in the private buffer of the other
  exactly its frame (from its context to the top of the stack) if that is shorter than 4000 bytes; of a
  longer frame nothing is kept.\<close>

theorem resume_new_saves_owner:
  assumes "frame s c p b" "c \<noteq> co" "stack_of co s = stack_of c s"
    and "st_co (stacks (sch s) ! stack_of c s) = Some c" "co_ctx (co_at co s) = None"
    and "co < length (pool (co_pool (sch s)))"
  shows "\<exists>s'. resume_enter env co s = Inr s' \<and> running_co (sch s') = Some co \<and>
    st_co (stacks (sch s') ! stack_of co s) = Some co \<and> mem s' = mem s \<and>
    co_ctx (co_at co s') = Some (e_make env (unat (stack_size (sch s)))) \<and>
    FixedBuffer_toString (buffer (co_stack (co_at c s'))) =
      (if length (mem s ! p) - b < 4000 then drop b (mem s ! p) else [])"
proof -
  let ?s = "upd_sch (\<lambda>sc. sc\<lparr>running_co := Some co\<rparr>) s"
  have f: "frame ?s c p b" using assms(1) by (simp add: frame_running)
  obtain st where st: "SchedulerImpl_SaveStack (Some c) ?s = Inr (upd_co c (\<lambda>x. x\<lparr>co_stack := st\<rparr>) ?s)"
    "FixedBuffer_toString (buffer st) = (if length (mem s ! p) - b < 4000 then drop b (mem s ! p) else [])"
    using SaveStack_frame [OF f] by (auto simp: kSmallBuffer_def)
  have "stack_of c s < length (stacks (sch s))" "st_p (stacks (sch s) ! stack_of c s) = Some p"
    "c < length (pool (co_pool (sch s)))"
    using assms(1) by (simp_all add: frame_def)
  with st assms(2-6) show ?thesis
    by (simp add: resume_enter_def Let_def)
qed

text \<open>C38: a coroutine cannot come back to a stack that was used in between. When a suspended coroutine is resumed and its
  shared stack no longer belongs to it (another coroutine owns it, or ran on it and ended), the capacity of its private buffer, 4000 bytes, is
  copied to its context, and not the bytes that were saved. If its frame is shorter than 4000 bytes, so that it was saved, this runs
  past the top of the shared stack. Otherwise the copy stays inside and overwrites the lowest 4000 bytes of the frame with whatever the private
  buffer holds.\<close>

theorem resume_switched_out_overruns:
  assumes "frame s co p b"
    and "st_co (stacks (sch s) ! stack_of co s) = oc" "oc \<noteq> Some co"
    and "\<And>c. oc = Some c \<Longrightarrow> stack_of c s = stack_of co s \<and> (\<exists>b'. frame s c p b')"
  shows "if length (mem s ! p) - b < 4000 then resume_enter env co s = Inl OutOfBounds
    else \<exists>s'. resume_enter env co s = Inr s' \<and>
      mem_store (mem s) (Ptr p (int b)) (fb_data (buffer (co_stack (co_at co s)))) = Inr (mem s')"
proof -
  let ?s = "upd_sch (\<lambda>sc. sc\<lparr>running_co := Some co\<rparr>) s"
  have fr: "stack_of co s < length (stacks (sch s))" "st_p (stacks (sch s) ! stack_of co s) = Some p"
    "co_ctx (co_at co s) = Some b" "length (fb_data (buffer (co_stack (co_at co s)))) = 4000"
    using assms(1) by (simp_all add: frame_def kSmallBuffer_def)
  have "\<exists>s3. SchedulerImpl_SaveStack oc ?s = Inr s3 \<and> mem s3 = mem s \<and>
      co_stack (co_at co s3) = co_stack (co_at co s)"
  proof (cases oc)
    case None
    then show ?thesis by (simp add: SchedulerImpl_SaveStack_def)
  next
    case (Some c)
    with assms(4) obtain b' where "frame ?s c p b'" by (auto simp: frame_running)
    from SaveStack_frame [OF this] Some assms(3) show ?thesis by auto
  qed
  then obtain s3 where s3: "SchedulerImpl_SaveStack oc ?s = Inr s3" "mem s3 = mem s"
    "co_stack (co_at co s3) = co_stack (co_at co s)" by blast
  let ?bytes = "fb_data (buffer (co_stack (co_at co s)))"
  have "valid_range (mem s) (Ptr p (int b)) 4000 \<longleftrightarrow> \<not> length (mem s ! p) - b < 4000"
    using assms(1) by (auto simp: valid_range_def frame_def)
  then have "if length (mem s ! p) - b < 4000 then mem_store (mem s) (Ptr p (int b)) ?bytes = Inl OutOfBounds
      else \<exists>m. mem_store (mem s) (Ptr p (int b)) ?bytes = Inr m"
    using fr(4) by (simp add: mem_store_def)
  with s3 fr assms(2,3) show ?thesis
    by (auto simp: resume_enter_def Let_def Stream_size_def FixedBuffer_size_def split: if_splits)
qed

text \<open>A small scheduler to try these on: two coroutines that share a stack of ten bytes.\<close>

definition two_cos :: "co_ptr option \<Rightarrow> nat option \<Rightarrow> (int \<Rightarrow> epoll_event option) sys" where
  "two_cos owner ctx1 =
     \<lparr>sch = \<lparr>s_id = 0, s_sched_num = 1, stack_size = 10, wait_ms = - 1, thread = NoThread, epoll = epoll0, main_co = 2,
        running_co = None, stacks = [\<lparr>st_p = Some 0, st_top = 10, st_co = owner\<rparr>],
        co_pool = \<lparr>cp_id = 3, idle_co_ids = [], pool =
          [Coroutine_init\<lparr>co_ctx := Some 7\<rparr>, Coroutine_init\<lparr>co_id := 1, co_ctx := ctx1\<rparr>,
           Coroutine_init\<lparr>co_id := 2, co_ctx := Some 0\<rparr>]\<rparr>,
        task_mgr = TaskManager_init, timer_mgr = TimerManager_init, timeout_flag = False, stop = False\<rparr>,
      mem = [''0123456xyz''], ctxs = [], epw = ep_world_init, ticks = 0, answers = []\<rparr>"

definition env0 :: "(int \<Rightarrow> epoll_event option) env" where
  "env0 = \<lparr>e_ctl = ref_ctl, e_clk = int, e_junk = (\<lambda>n. replicate n NUL), e_make = (\<lambda>n. n - 4),
     e_body = (\<lambda>f s. Inr (\<lparr>priv = None, from_ctx = 0\<rparr>, s)),
     e_cont = (\<lambda>co s. Inr (\<lparr>priv = None, from_ctx = 0\<rparr>, s))\<rparr>"

lemma two_cos_frame: "frame (two_cos owner ctx1) 0 0 7"
  by (simp add: frame_def two_cos_def stack_of_def Coroutine_init_def FixedBuffer_init_def)

theorem resume_new_saves_owner_witness:
  "\<exists>s'. resume_enter env0 1 (two_cos (Some 0) None) = Inr s' \<and>
     FixedBuffer_toString (buffer (co_stack (co_at 0 s'))) = ''xyz''"
  using resume_new_saves_owner [OF two_cos_frame [of "Some 0" None], where co = 1 and env = env0]
  by (simp add: two_cos_def stack_of_def Coroutine_init_def) auto

theorem resume_switched_out_overruns_witness:
  "resume_enter env0 0 (two_cos None None) = Inl OutOfBounds"
  using resume_switched_out_overruns [OF two_cos_frame [of None None], where oc = None and env = env0]
  by (simp add: two_cos_def stack_of_def Coroutine_init_def)

section \<open>What becomes of a coroutine\<close>

text \<open>What \<open>Resume\<close> leaves behind when the coroutine comes back to the loop, if the coroutine itself kept
  the pool well formed. A coroutine that yields keeps its place in the pool and the context it will be
  continued from is recorded; one that ended is back in the pool and no longer owns a stack, and no other
  coroutine is affected.\<close>

theorem Resume_outcome:
  assumes "resume_enter env co s = Inr s1"
    and "(if co_ctx (co_at co s) = None then SchedulerImpl_MainFunc env (main_co (sch s1)) 0 s1
          else e_cont env co s1) = Inr (from, s2)"
    and "running_co (sch s2) = Some co" "co \<noteq> main_co (sch s2)"
    and "pool_ok (co_pool (sch s2))" "co \<in> in_use (co_pool (sch s2))"
    and "priv from = None \<or> priv from = Some co" "stack_of co s2 < length (stacks (sch s2))"
  shows "\<exists>s3. SchedulerImpl_Resume env co s = Inr s3 \<and>
    (priv from = Some co \<longrightarrow> co_ctx (co_at co s3) = Some (from_ctx from) \<and>
       in_use (co_pool (sch s3)) = in_use (co_pool (sch s2)) \<and> stacks (sch s3) = stacks (sch s2)) \<and>
    (priv from = None \<longrightarrow> in_use (co_pool (sch s3)) = in_use (co_pool (sch s2)) - {co} \<and>
       pool_ok (co_pool (sch s3)) \<and> st_co (stacks (sch s3) ! stack_of co s2) = None \<and>
       (\<forall>i. i \<noteq> stack_of co s2 \<longrightarrow> stacks (sch s3) ! i = stacks (sch s2) ! i))"
proof -
  have R: "SchedulerImpl_Resume env co s = resume_leave from s2"
    using assms(1,2) by (simp add: SchedulerImpl_Resume_def)
  have len: "co < length (pool (co_pool (sch s2)))"
    using assms(5,6) by (auto simp: pool_ok_def in_use_def)
  show ?thesis
  proof (cases "priv from")
    case None
    then have "SchedulerImpl_Resume env co s =
        Inr (upd_sch (\<lambda>sc. sc\<lparr>co_pool := Copoll_Push co (co_pool sc)\<rparr>)
          (upd_stack (stack_of co s2) (\<lambda>x. x\<lparr>st_co := None\<rparr>) s2))"
      using assms(3,4) by (simp add: R resume_leave_def SchedulerImpl_Recycle_def)
    with None copool.push_law [OF assms(5,6)] assms(8) show ?thesis by auto
  next
    case (Some p)
    then have "SchedulerImpl_Resume env co s = Inr (upd_co co (\<lambda>c. c\<lparr>co_ctx := Some (from_ctx from)\<rparr>) s2)"
      using assms(3,7) by (simp add: R resume_leave_def)
    moreover have "in_use (co_pool (sch (upd_co co g s2))) = in_use (co_pool (sch s2))" for g
      by (simp add: in_use_def upd_co_def upd_sch_def)
    ultimately show ?thesis using Some assms(7) len by auto
  qed
qed

text \<open>A scheduler that was just constructed, with one new coroutine.\<close>

lemma pool_ok_upd:
  assumes "pool_ok cp" "i < unat (cp_id cp)" "co_id c = co_id (pool cp ! i)" "co_stack_id c = co_stack_id (pool cp ! i)"
  shows "pool_ok (cp\<lparr>pool := (pool cp)[i := c]\<rparr>)" "in_use (cp\<lparr>pool := p\<rparr>) = in_use cp"
  using assms by (auto simp: pool_ok_def in_use_def nth_list_update)

definition boot :: "Copoll \<Rightarrow> (int \<Rightarrow> epoll_event option) sys" where
  "boot cp = two_cos None None
     \<lparr>sch := (sch (two_cos None None))\<lparr>co_pool := cp\<lparr>pool := (pool cp)[1 := (pool cp ! 1)\<lparr>co_union := Func 5\<rparr>]\<rparr>,
        main_co := 0, stacks := replicate 8 \<lparr>st_p = None, st_top = 0, st_co = None\<rparr>\<rparr>\<rparr>"

lemma two_pops:
  "\<exists>cp. pops Copoll_Pop 2 Copoll_init = Inr ([0, 1], cp) \<and> pool_ok cp \<and> in_use cp = {0, 1} \<and> co_fresh cp 1"
proof -
  have p1: "Copoll_Pop Copoll_init = Inr (0, Copoll_init\<lparr>cp_id := 1,
      pool := (pool Copoll_init)[0 := Coroutine_init\<lparr>co_id := 0, co_stack_id := 0\<rparr>]\<rparr>)" (is "_ = Inr (0, ?cp1)")
    by (simp add: Copoll_Pop_def Copoll_init_def kPoolSize_pos)
  obtain cp where p2: "Copoll_Pop ?cp1 = Inr (1, cp)"
    by (simp add: Copoll_Pop_def Copoll_init_def kPoolSize_def Let_def)
  note l1 = copool.pop_law [OF pool_ok_init p1]
  note l2 = copool.pop_law [OF conjunct1 [OF l1] p2]
  have "pops Copoll_Pop 2 Copoll_init = Inr ([0, 1], cp)"
    by (simp add: numeral_2_eq_2 p1 p2)
  with l1 l2 show ?thesis by (auto simp: in_use_init)
qed

lemma boot_enter:
  assumes "pool_ok cp" "in_use cp = {0, 1}" "co_fresh cp 1"
  shows "\<exists>s1 c. resume_enter env0 1 (boot cp) = Inr s1 \<and> running_co (sch s1) = Some 1 \<and> main_co (sch s1) = 0 \<and>
    length (stacks (sch s1)) = 8 \<and> co_pool (sch s1) = cp\<lparr>pool := (pool cp)[1 := c]\<rparr> \<and> co_union c = Func 5 \<and>
    co_id c = co_id (pool cp ! 1) \<and> co_stack_id c = co_stack_id (pool cp ! 1)"
proof -
  have "co_ctx (pool cp ! 1) = None" "co_stack_id (pool cp ! 1) = 1" "1 < length (pool cp)"
    using assms(1,3) by (simp_all add: co_fresh_def pool_ok_def kPoolSize_def)
  then show ?thesis
    by (simp add: resume_enter_def boot_def two_cos_def stack_of_def Let_def upd_stack_def upd_sch_def upd_co_def)
      (intro exI conjI, rule refl, simp_all)
qed

theorem Resume_outcome_witness:
  "\<exists>cp s3. pops Copoll_Pop 2 Copoll_init = Inr ([0, 1], cp) \<and>
     SchedulerImpl_Resume env0 1 (boot cp) = Inr s3 \<and> in_use (co_pool (sch s3)) = {0}"
proof -
  obtain cp where cp: "pops Copoll_Pop 2 Copoll_init = Inr ([0, 1], cp)" "pool_ok cp" "in_use cp = {0, 1}"
    "co_fresh cp 1"
    using two_pops by blast
  then obtain s1 c where s1: "resume_enter env0 1 (boot cp) = Inr s1" "running_co (sch s1) = Some 1"
    "main_co (sch s1) = 0" "length (stacks (sch s1)) = 8" "co_pool (sch s1) = cp\<lparr>pool := (pool cp)[1 := c]\<rparr>"
    "co_union c = Func 5" "co_id c = co_id (pool cp ! 1)" "co_stack_id c = co_stack_id (pool cp ! 1)"
    using boot_enter by blast
  have len: "1 < unat (cp_id cp)" "1 < length (pool cp)" "0 < unat (cp_id cp)"
    using cp(2,3) by (auto simp: in_use_def pool_ok_def kPoolSize_def set_eq_iff)
  have ctx: "co_ctx (co_at 1 (boot cp)) = None" "co_stack_id (pool cp ! 1) = 1"
    using cp(4) len by (simp_all add: boot_def two_cos_def co_fresh_def)
  let ?s2 = "upd_co 0 (\<lambda>c. c\<lparr>co_ctx := Some 0\<rparr>) s1"
  have main: "SchedulerImpl_MainFunc env0 (main_co (sch s1)) 0 s1 = Inr (\<lparr>priv = None, from_ctx = 0\<rparr>, ?s2)"
    using s1 len by (simp add: SchedulerImpl_MainFunc_def env0_def)
  have p: "co_pool (sch ?s2) = (co_pool (sch s1))\<lparr>pool := (pool (co_pool (sch s1)))[0 := (co_at 0 s1)\<lparr>co_ctx := Some 0\<rparr>]\<rparr>"
    by (simp add: upd_co_def upd_sch_def)
  have ok1: "pool_ok (co_pool (sch s1))" "in_use (co_pool (sch s1)) = {0, 1}"
    using pool_ok_upd [OF cp(2) len(1) s1(7,8)] cp(3) by (simp_all add: s1(5))
  have ok2: "pool_ok (co_pool (sch ?s2))" "in_use (co_pool (sch ?s2)) = {0, 1}"
    using pool_ok_upd [OF ok1(1), of 0 "(co_at 0 s1)\<lparr>co_ctx := Some 0\<rparr>"] ok1(2) len(3)
    by (simp_all only: p) (simp_all add: s1(5))
  have "stack_of 1 ?s2 < length (stacks (sch ?s2))"
    using s1 len ctx by (simp add: stack_of_def)
  moreover have "main_co (sch ?s2) = 0" using s1(3) by (simp add: upd_co_def upd_sch_def)
  ultimately show ?thesis
    using Resume_outcome [OF s1(1), of "\<lparr>priv = None, from_ctx = 0\<rparr>" ?s2] ctx(1) main s1(2) ok2 cp(1) by auto
qed

section \<open>Events\<close>

lemma or_nonzero: "(x OR EPOLLIN) \<noteq> 0" "(x OR EPOLLOUT) \<noteq> 0"
proof -
  have "bit (x OR EPOLLIN) 0" "bit (x OR EPOLLOUT) 2"
    by (simp_all add: EPOLLIN_def EPOLLOUT_def bit_or_iff bit_simps)
  then show "(x OR EPOLLIN) \<noteq> 0" "(x OR EPOLLOUT) \<noteq> 0" by auto
qed

text \<open>The loop does not look at which event it got. The kinds of events the kernel reports for a descriptor
  make no difference: the coroutine that waits to read and the one that waits to write are both
  resumed, whichever of them is registered with this scheduler, on any event.\<close>

theorem handle_event_ignores_kind:
  "handle_event env (ev\<lparr>events := e1\<rparr>) s = handle_event env (ev\<lparr>events := e2\<rparr>) s \<and>
   (data_fd ev \<noteq> wake_up_fd (epoll (sch s)) \<longrightarrow>
      handle_event env ev s =
        res_bind (resume_id env (SockCtx_get_read_co_id (s_id (sch s)) (socks (epw s) (data_fd ev))) s)
          (resume_id env (SockCtx_get_write_co_id (s_id (sch s)) (socks (epw s) (data_fd ev)))))"
  by (simp add: handle_event_def Epoll_is_wakeup_fd_def Epoll_user_data_def or_nonzero get_sock_ctx_def Let_def)

theorem handle_event_ignores_kind_witness:
  "handle_event env0 \<lparr>events = EPOLLOUT, data_fd = 9\<rparr> (two_cos None None) =
     res_bind (resume_id env0 (- 1) (two_cos None None)) (resume_id env0 (- 1))"
  using handle_event_ignores_kind [where env = env0 and ev = "\<lparr>events = EPOLLOUT, data_fd = 9\<rparr>" and s = "two_cos None None"]
  by (simp add: two_cos_def epoll0_def ep_world_init_def SockCtx_init_def sock_ctx_defs
      SockCtx_get_read_co_id_def SockCtx_get_write_co_id_def)

text \<open>Deleting the read event of a descriptor deletes its write event too. After
  \<open>DelIoEvent(fd, kEvRead)\<close>, which the destructor of an \<open>IOEvent\<close> for reading calls, the
  context of the descriptor has no event at all, also when another coroutine was waiting to write.\<close>

theorem DelIoEvent_read_drops_write:
  assumes "0 \<le> fd" "SchedulerImpl_DelIoEvent env fd kEvRead s = Inr s'"
  shows "\<not> SockCtx_has_event (socks (epw s') fd)"
  using assms
  by (auto simp: SchedulerImpl_DelIoEvent_def Let_def Epoll_DelEvRead_def Epoll_DelEvWrite_def get_sock_ctx_def
      SockCtx_has_event_def split: option.splits prod.splits if_splits)

theorem DelIoEvent_read_drops_write_witness:
  "\<exists>s'. SchedulerImpl_DelIoEvent env0 7 kEvRead
      (upd_sch (\<lambda>sc. sc\<lparr>running_co := Some 0\<rparr>) (two_cos None None)
        \<lparr>epw := snd (Epoll_AddEvWrite ref_ctl epoll0 7 1 ep_world_init)\<rparr>) = Inr s' \<and>
     \<not> SockCtx_has_event (socks (epw s') 7)"
proof -
  let ?s = "upd_sch (\<lambda>sc. sc\<lparr>running_co := Some 0\<rparr>) (two_cos None None)
        \<lparr>epw := snd (Epoll_AddEvWrite ref_ctl epoll0 7 1 ep_world_init)\<rparr>"
  obtain s' where "SchedulerImpl_DelIoEvent env0 7 kEvRead ?s = Inr s'"
    by (simp add: SchedulerImpl_DelIoEvent_def Let_def)
  with DelIoEvent_read_drops_write [OF _ this] show ?thesis by auto
qed

end
