(* ===== verification/Ring.thy ===== *)
theory Ring
  imports Fifo
begin

text \<open>
  The ring buffer of a channel (\<open>ChannelImpl\<close> of \<open>include/channel.h\<close> and \<open>src/channel.cc\<close>): the
  state of a channel, the pieces of code that move a block out of and into the ring, and the proof
  that the ring is a bounded first-in first-out queue of blocks. The operations of the channel are in
  theory \<open>Channel\<close>.
\<close>

section \<open>State\<close>

record ChannelImpl =
  ch_buf :: "byte list"
  buf_size :: uint32
  blk_size :: uint32
  rx :: uint32
  wx :: uint32
  ch_ms :: uint32
  full :: bool
  ch_queue :: "nat list" \<comment> \<open>pointers to wait contexts\<close>

definition ChannelImpl_Create :: "(nat \<Rightarrow> byte list) \<Rightarrow> uint32 \<Rightarrow> uint32 \<Rightarrow> uint32 \<Rightarrow> ChannelImpl" where
  [model_defs]: "ChannelImpl_Create junk bufsz blksz ms =
     \<lparr>ch_buf = junk (unat bufsz), buf_size = bufsz, blk_size = blksz, rx = 0, wx = 0, ch_ms = ms,
      full = False, ch_queue = []\<rparr>"

text \<open>\<open>Channel<T>(cap, ms)\<close>, where \<open>tsize\<close> is \<open>sizeof(T)\<close>.\<close>

definition Channel_Channel :: "(nat \<Rightarrow> byte list) \<Rightarrow> nat \<Rightarrow> int \<Rightarrow> uint32 \<Rightarrow> ChannelImpl" where
  [model_defs]: "Channel_Channel junk tsize cap ms =
     ChannelImpl_Create junk (word_of_int (cap * int tsize)) (of_nat tsize) ms"

section \<open>Moving blocks\<close>

text \<open>The pieces the operations are written with: copying the block at \<open>rx_\<close> out and advancing,
  copying a block in at \<open>wx_\<close> and advancing.\<close>

definition take_block :: "ChannelImpl \<Rightarrow> (byte list \<times> ChannelImpl) res" where
  [model_defs]: "take_block ch =
     (if unat (rx ch) + unat (blk_size ch) \<le> length (ch_buf ch)
      then let r = rx ch + blk_size ch
           in Inr (slice (unat (rx ch)) (unat (blk_size ch)) (ch_buf ch),
                   ch\<lparr>rx := (if r = buf_size ch then 0 else r)\<rparr>)
      else Inl OutOfBounds)"

definition put_block :: "byte list \<Rightarrow> ChannelImpl \<Rightarrow> ChannelImpl res" where
  [model_defs]: "put_block v ch =
     (if unat (wx ch) + length v \<le> length (ch_buf ch)
      then let w = wx ch + blk_size ch
           in Inr (ch\<lparr>ch_buf := blit (unat (wx ch)) v (ch_buf ch), wx := (if w = buf_size ch then 0 else w)\<rparr>)
      else Inl OutOfBounds)"

text \<open>\<open>if (wx_ == rx_) full_ = true\<close>\<close>

definition mark_full :: "ChannelImpl \<Rightarrow> ChannelImpl" where
  [model_defs]: "mark_full ch = (if wx ch = rx ch then ch\<lparr>full := True\<rparr> else ch)"

section \<open>The ring is a bounded queue\<close>

text \<open>The ring in blocks: its capacity, the positions of the next block to read and to write, how many blocks it
  holds, and which.\<close>

definition cap :: "ChannelImpl \<Rightarrow> nat" where
  "cap ch = unat (buf_size ch) div unat (blk_size ch)"

definition rpos :: "ChannelImpl \<Rightarrow> nat" where
  "rpos ch = unat (rx ch) div unat (blk_size ch)"

definition wpos :: "ChannelImpl \<Rightarrow> nat" where
  "wpos ch = unat (wx ch) div unat (blk_size ch)"

definition ch_count :: "ChannelImpl \<Rightarrow> nat" where
  "ch_count ch = (if full ch then cap ch else (wpos ch + cap ch - rpos ch) mod cap ch)"

definition block :: "ChannelImpl \<Rightarrow> nat \<Rightarrow> byte list" where
  "block ch i = slice (i * unat (blk_size ch)) (unat (blk_size ch)) (ch_buf ch)"

definition contents :: "ChannelImpl \<Rightarrow> byte list list" where
  "contents ch = map (\<lambda>j. block ch ((rpos ch + j) mod cap ch)) [0..<ch_count ch]"

definition ch_shape :: "ChannelImpl \<Rightarrow> bool" where
  "ch_shape ch \<longleftrightarrow> 0 < unat (blk_size ch) \<and> unat (buf_size ch) = cap ch * unat (blk_size ch) \<and>
     length (ch_buf ch) = unat (buf_size ch) \<and>
     unat (rx ch) = rpos ch * unat (blk_size ch) \<and> unat (wx ch) = wpos ch * unat (blk_size ch) \<and>
     rpos ch < cap ch \<and> wpos ch < cap ch"

definition ch_ok :: "ChannelImpl \<Rightarrow> bool" where
  [inv_defs]: "ch_ok ch \<longleftrightarrow> ch_shape ch \<and> (full ch \<longrightarrow> rx ch = wx ch) \<and> (ch_queue ch \<noteq> [] \<longrightarrow> rx ch = wx ch)"

lemma mod_wrap_eq:
  assumes "r < c" "m \<le> c" "0 < m"
  shows "(r + m) mod c = r \<longleftrightarrow> m = (c::nat)"
proof (cases "r + m < c")
  case True
  with assms show ?thesis by auto
next
  case False
  then have "(r + m) mod c = r + m - c" using assms by (simp add: mod_if)
  with assms False show ?thesis by auto
qed

lemma mod_diff_back: "r < c \<Longrightarrow> n < c \<Longrightarrow> ((r + n) mod c + c - r) mod c = (n::nat)"
  by (cases "r + n < c") (simp_all add: mod_if)

lemma pos_eq_iff:
  assumes "ch_shape ch"
  shows "rx ch = wx ch \<longleftrightarrow> rpos ch = wpos ch"
proof -
  have "rx ch = wx ch \<longleftrightarrow> unat (rx ch) = unat (wx ch)" by simp
  also have "\<dots> \<longleftrightarrow> rpos ch = wpos ch" using assms by (simp only: ch_shape_def) simp
  finally show ?thesis .
qed

lemma ch_count_le: "ch_shape ch \<Longrightarrow> ch_count ch \<le> cap ch"
  by (auto simp: ch_count_def ch_shape_def intro: less_imp_le)

lemma ch_count_full: "ch_shape ch \<Longrightarrow> full ch \<longleftrightarrow> ch_count ch = cap ch"
  by (auto simp: ch_count_def ch_shape_def)
    (metis gr_zeroI less_nat_zero_code mod_less_divisor nat_neq_iff)

lemma wpos_count:
  assumes "ch_ok ch"
  shows "wpos ch = (rpos ch + ch_count ch) mod cap ch"
proof (cases "full ch")
  case True
  then have "rpos ch = wpos ch" using assms pos_eq_iff [of ch] by (simp add: ch_ok_def)
  with True assms show ?thesis by (simp add: ch_count_def ch_ok_def ch_shape_def)
next
  case False
  have "rpos ch < cap ch" "wpos ch < cap ch" using assms by (simp_all add: ch_ok_def ch_shape_def)
  with False show ?thesis by (simp add: ch_count_def mod_simps)
qed

lemma ch_count_0: "ch_ok ch \<Longrightarrow> ch_count ch = 0 \<longleftrightarrow> rx ch = wx ch \<and> \<not> full ch"
  using pos_eq_iff [of ch] mod_wrap_eq [of "rpos ch" "cap ch" "ch_count ch"] wpos_count [of ch] ch_count_le [of ch]
    ch_count_full [of ch]
  unfolding ch_ok_def ch_shape_def
  by (metis add.right_neutral gr_zeroI mod_less less_nat_zero_code)

text \<open>Moving a position to the next block.\<close>

lemma advance:
  fixes x :: uint32
  assumes "0 < unat b" "unat n = c * unat b" "unat x = i * unat b" "i < c"
  shows "unat (if x + b = n then 0 else x + b) = (Suc i mod c) * unat b"
    and "unat (if x + b = n then 0 else x + b) div unat b = Suc i mod c"
proof -
  have "Suc i * unat b \<le> c * unat b" using assms(4) by (intro mult_right_mono) simp_all
  then have le: "unat x + unat b \<le> unat n" using assms(2,3) by simp
  then have "unat x + unat b < 2 ^ 32" using unat_lt2p [of n] by simp
  then have sum: "unat (x + b) = Suc i * unat b" using assms(3) by (simp add: unat_word_ariths)
  have "x + b = n \<longleftrightarrow> unat (x + b) = unat n" by simp
  also have "\<dots> \<longleftrightarrow> Suc i * unat b = c * unat b" by (simp only: sum assms(2))
  finally have eq: "x + b = n \<longleftrightarrow> Suc i = c" using assms(1) by (metis mult_cancel2 not_gr_zero)
  show "unat (if x + b = n then 0 else x + b) = (Suc i mod c) * unat b"
    using eq sum assms(4) by (cases "Suc i = c") auto
  then show "unat (if x + b = n then 0 else x + b) div unat b = Suc i mod c"
    using assms(1) by simp
qed

lemma block_fits: "ch_shape ch \<Longrightarrow> i < cap ch \<Longrightarrow> i * unat (blk_size ch) + unat (blk_size ch) \<le> length (ch_buf ch)"
proof -
  assume "ch_shape ch" "i < cap ch"
  then have "Suc i * unat (blk_size ch) \<le> cap ch * unat (blk_size ch)" by (intro mult_right_mono) simp_all
  with \<open>ch_shape ch\<close> show ?thesis by (simp add: ch_shape_def)
qed

lemma mod_Suc_add: "(Suc r mod c + j) mod c = (r + Suc j) mod (c::nat)"
  by (simp add: mod_simps)

lemma take_block_eq:
  assumes "ch_shape ch"
  shows "take_block ch = Inr (block ch (rpos ch),
    ch\<lparr>rx := (if rx ch + blk_size ch = buf_size ch then 0 else rx ch + blk_size ch)\<rparr>)"
  using assms block_fits [OF assms, of "rpos ch"]
  by (simp add: take_block_def Let_def block_def ch_shape_def)

lemma take_rest:
  assumes ok: "ch_ok ch" and n: "0 < ch_count ch"
    and ch': "ch' = ch\<lparr>rx := (if rx ch + blk_size ch = buf_size ch then 0 else rx ch + blk_size ch), full := False\<rparr>"
  shows "ch_shape ch'" "ch_count ch' = ch_count ch - 1" "contents ch = block ch (rpos ch) # contents ch'"
    and "rpos ch' = Suc (rpos ch) mod cap ch" "wpos ch' = wpos ch" "cap ch' = cap ch"
proof -
  have sh: "ch_shape ch" using ok by (simp add: ch_ok_def)
  have adv: "unat (rx ch') = (Suc (rpos ch) mod cap ch) * unat (blk_size ch)"
      "unat (rx ch') div unat (blk_size ch) = Suc (rpos ch) mod cap ch"
    using advance [of "blk_size ch" "buf_size ch" "cap ch" "rx ch" "rpos ch"] sh
    by (simp_all only: ch_shape_def) (simp_all add: ch')
  have f: "blk_size ch' = blk_size ch" "buf_size ch' = buf_size ch" "ch_buf ch' = ch_buf ch" "wx ch' = wx ch"
    by (simp_all add: ch')
  have r: "rpos ch' = Suc (rpos ch) mod cap ch" using adv(2) by (simp only: rpos_def [of ch'] f)
  have w: "wpos ch' = wpos ch" "cap ch' = cap ch" by (simp_all add: ch' wpos_def cap_def)
  have b: "block ch' i = block ch i" for i by (simp add: block_def ch')
  show "rpos ch' = Suc (rpos ch) mod cap ch" "wpos ch' = wpos ch" "cap ch' = cap ch" using r w by simp_all
  have cap: "0 < cap ch" using sh by (auto simp: ch_shape_def)
  show sh': "ch_shape ch'"
    using sh adv(1) r w cap by (simp add: ch_shape_def f)
  have le: "ch_count ch - 1 < cap ch" using n ch_count_le [OF sh] by simp
  have "(Suc (rpos ch) mod cap ch + (ch_count ch - 1)) mod cap ch = (rpos ch + ch_count ch) mod cap ch"
    using n mod_Suc_add [of "rpos ch" "cap ch" "ch_count ch - 1"] by (simp only: Suc_pred' [symmetric] Suc_diff_1)
  then have "wpos ch = (rpos ch' + (ch_count ch - 1)) mod cap ch" using wpos_count [OF ok] r by simp
  moreover have "\<not> full ch'" by (simp add: ch')
  ultimately show c': "ch_count ch' = ch_count ch - 1"
    using mod_diff_back [of "rpos ch'" "cap ch" "ch_count ch - 1"] le r w cap
    by (simp add: ch_count_def [of ch'])
  have "[0..<ch_count ch] = 0 # map Suc [0..<ch_count ch - 1]"
    using n by (simp add: map_Suc_upt upt_conv_Cons)
  moreover have "rpos ch mod cap ch = rpos ch" using sh by (simp add: ch_shape_def)
  ultimately show "contents ch = block ch (rpos ch) # contents ch'"
    by (simp add: contents_def c' r w b mod_Suc_add o_def)
qed

lemma mod_add_neq: "j < n \<Longrightarrow> n < c \<Longrightarrow> (r + j) mod c \<noteq> (r + n) mod (c::nat)"
proof
  assume a: "j < n" "n < c" "(r + j) mod c = (r + n) mod c"
  then have "(n - j) mod c = 0" by (metis add_diff_cancel_left mod_eq_dvd_iff_nat nat_add_left_cancel_le
        order_less_imp_le dvd_imp_mod_0)
  with a show False by simp
qed

lemma block_blit_other:
  assumes "ch_shape ch" "i < cap ch" "j < cap ch" "i \<noteq> j" "length v = unat (blk_size ch)"
  shows "slice (i * unat (blk_size ch)) (unat (blk_size ch)) (blit (j * unat (blk_size ch)) v (ch_buf ch)) =
    slice (i * unat (blk_size ch)) (unat (blk_size ch)) (ch_buf ch)"
proof -
  let ?b = "unat (blk_size ch)"
  have "i * ?b + ?b \<le> j * ?b \<or> j * ?b + ?b \<le> i * ?b"
  proof (cases "i < j")
    case True
    then have "Suc i * ?b \<le> j * ?b" by (intro mult_right_mono) simp_all
    then show ?thesis by simp
  next
    case False
    then have "Suc j * ?b \<le> i * ?b" using assms(4) by (intro mult_right_mono) simp_all
    then show ?thesis by simp
  qed
  then show ?thesis
    using assms block_fits [OF assms(1)] by (intro slice_blit_disjoint) auto
qed

lemma put_block_eq:
  assumes "ch_shape ch" "length v = unat (blk_size ch)"
  shows "put_block v ch = Inr (ch\<lparr>ch_buf := blit (unat (wx ch)) v (ch_buf ch),
    wx := (if wx ch + blk_size ch = buf_size ch then 0 else wx ch + blk_size ch)\<rparr>)"
  using assms block_fits [OF assms(1), of "wpos ch"]
  by (simp add: put_block_def Let_def ch_shape_def)

lemma put_rest:
  assumes ok: "ch_ok ch" and n: "\<not> full ch" and v: "length v = unat (blk_size ch)"
    and ch': "ch' = ch\<lparr>ch_buf := blit (unat (wx ch)) v (ch_buf ch),
      wx := (if wx ch + blk_size ch = buf_size ch then 0 else wx ch + blk_size ch), full := (Suc (ch_count ch) = cap ch)\<rparr>"
  shows "ch_shape ch'" "ch_count ch' = Suc (ch_count ch)" "contents ch' = contents ch @ [v]"
    and "rpos ch' = rpos ch" "wpos ch' = Suc (wpos ch) mod cap ch" "cap ch' = cap ch"
    and "wx ch' = rx ch' \<longleftrightarrow> Suc (ch_count ch) = cap ch"
proof -
  have sh: "ch_shape ch" using ok by (simp add: ch_ok_def)
  have adv: "unat (wx ch') = (Suc (wpos ch) mod cap ch) * unat (blk_size ch)"
      "unat (wx ch') div unat (blk_size ch) = Suc (wpos ch) mod cap ch"
    using advance [of "blk_size ch" "buf_size ch" "cap ch" "wx ch" "wpos ch"] sh
    by (simp_all only: ch_shape_def) (simp_all add: ch')
  have f: "blk_size ch' = blk_size ch" "buf_size ch' = buf_size ch" "rx ch' = rx ch"
    "ch_buf ch' = blit (unat (wx ch)) v (ch_buf ch)" "full ch' \<longleftrightarrow> Suc (ch_count ch) = cap ch"
    by (simp_all add: ch')
  have w: "wpos ch' = Suc (wpos ch) mod cap ch" using adv(2) by (simp only: wpos_def [of ch'] f)
  have r: "rpos ch' = rpos ch" "cap ch' = cap ch" by (simp_all add: ch' rpos_def cap_def)
  show "rpos ch' = rpos ch" "wpos ch' = Suc (wpos ch) mod cap ch" "cap ch' = cap ch" using r w by simp_all
  have cap: "0 < cap ch" using sh by (auto simp: ch_shape_def)
  have fit: "unat (wx ch) + length v \<le> length (ch_buf ch)"
    using block_fits [OF sh, of "wpos ch"] sh v by (simp add: ch_shape_def)
  show sh': "ch_shape ch'"
    using sh adv(1) r w cap fit by (simp add: ch_shape_def f)
  have lt: "ch_count ch < cap ch" using n ch_count_le [OF sh] ch_count_full [OF sh] by simp
  have w': "wpos ch' = (rpos ch + Suc (ch_count ch)) mod cap ch"
    using wpos_count [OF ok] w by (simp add: mod_simps)
  show "wx ch' = rx ch' \<longleftrightarrow> Suc (ch_count ch) = cap ch"
    using pos_eq_iff [OF sh'] w' r mod_wrap_eq [of "rpos ch" "cap ch" "Suc (ch_count ch)"] lt sh
    by (auto simp: ch_shape_def)
  show c': "ch_count ch' = Suc (ch_count ch)"
  proof (cases "full ch'")
    case True
    then show ?thesis by (simp add: ch_count_def [of ch'] r f)
  next
    case False
    then have "Suc (ch_count ch) < cap ch" using lt by (simp add: f)
    with False show ?thesis
      using mod_diff_back [of "rpos ch" "cap ch" "Suc (ch_count ch)"] sh
      by (simp add: ch_count_def [of ch'] r w' ch_shape_def)
  qed
  have same: "block ch' ((rpos ch + j) mod cap ch) = block ch ((rpos ch + j) mod cap ch)" if "j < ch_count ch" for j
  proof -
    have "(rpos ch + j) mod cap ch \<noteq> wpos ch"
      using mod_add_neq [of j "ch_count ch" "cap ch" "rpos ch"] that lt wpos_count [OF ok] by simp
    then show ?thesis
      using block_blit_other [OF sh, of "(rpos ch + j) mod cap ch" "wpos ch" v] sh v cap
      by (simp add: block_def f ch_shape_def)
  qed
  have new: "block ch' ((rpos ch + ch_count ch) mod cap ch) = v"
    using fit sh v slice_blit_same [of "unat (wx ch)" v "ch_buf ch"] wpos_count [OF ok]
    by (simp add: block_def f ch_shape_def)
  show "contents ch' = contents ch @ [v]"
    using same new by (simp add: contents_def c' r)
qed

lemma contents_length: "length (contents ch) = ch_count ch"
  by (simp add: contents_def)

lemma contents_queue [simp]: "contents (ch\<lparr>ch_queue := q\<rparr>) = contents ch"
  by (simp add: contents_def ch_count_def block_def cap_def rpos_def wpos_def)

lemma shape_queue [simp]: "ch_shape (ch\<lparr>ch_queue := q\<rparr>) = ch_shape ch"
  by (simp add: ch_shape_def cap_def rpos_def wpos_def)

text \<open>Taking a block from a channel that has one, and putting one into a channel that has room.\<close>

lemma ring_take:
  assumes ok: "ch_ok ch" and ne: "contents ch \<noteq> []" and q: "ch_queue ch = []"
  obtains ch' where "take_block ch = Inr (hd (contents ch), ch')" "ch_ok (ch'\<lparr>full := False\<rparr>)"
    and "contents (ch'\<lparr>full := False\<rparr>) = tl (contents ch)" "full ch' = full ch" "ch_queue ch' = []"
    and "blk_size ch' = blk_size ch"
proof -
  let ?ch = "ch\<lparr>rx := (if rx ch + blk_size ch = buf_size ch then 0 else rx ch + blk_size ch)\<rparr>"
  have "0 < ch_count ch" using ne contents_length [of ch] by (metis length_0_conv neq0_conv)
  note r = take_rest [OF ok this, of "?ch\<lparr>full := False\<rparr>"]
  have sh: "ch_shape ch" using ok by (simp add: ch_ok_def)
  show ?thesis
    using r(1,3) q by (intro that [of ?ch]) (simp_all add: take_block_eq [OF sh] ch_ok_def)
qed

lemma ring_put:
  assumes ok: "ch_ok ch" and n: "\<not> full ch" and v: "length v = unat (blk_size ch)" and q: "ch_queue ch = []"
  obtains ch' where "put_block v ch = Inr ch'" "ch_ok (mark_full ch')" "contents (mark_full ch') = contents ch @ [v]"
    and "full (mark_full ch') \<longleftrightarrow> Suc (ch_count ch) = cap ch" "ch_queue (mark_full ch') = []"
    and "blk_size (mark_full ch') = blk_size ch"
proof -
  let ?ch = "ch\<lparr>ch_buf := blit (unat (wx ch)) v (ch_buf ch),
      wx := (if wx ch + blk_size ch = buf_size ch then 0 else wx ch + blk_size ch)\<rparr>"
  have sh: "ch_shape ch" using ok by (simp add: ch_ok_def)
  let ?ch' = "?ch\<lparr>full := (Suc (ch_count ch) = cap ch)\<rparr>"
  note r = put_rest [OF ok n v, of ?ch']
  have "wx ?ch = rx ?ch \<longleftrightarrow> Suc (ch_count ch) = cap ch" using r(7) by simp
  then have m: "mark_full ?ch = ?ch'" using n by (auto simp: mark_full_def)
  have "rx ?ch' = wx ?ch' \<longleftrightarrow> full ?ch'"
    using r(7) by (simp add: eq_commute [of "rx ch"] split del: if_split)
  then have ok': "ch_ok ?ch'" using r(1) q by (simp only: ch_ok_def) (simp split del: if_split)
  show ?thesis
    by (rule that [of ?ch])
      (simp_all only: put_block_eq [OF sh v] m ok' r(3), simp_all add: q)
qed

text \<open>The non-blocking paths of \<open>Write\<close> and \<open>Read\<close> as steps on the ring.\<close>

datatype ring_op = Put "byte list" | Take

datatype ring_event = Accepted "byte list" | Delivered "byte list" | Refused

fun ring_step :: "ring_op \<Rightarrow> ChannelImpl \<Rightarrow> ring_event \<times> ChannelImpl" where
  "ring_step (Put v) ch =
     (if full ch then (Refused, ch)
      else case put_block v ch of Inl _ \<Rightarrow> (Refused, ch) | Inr ch' \<Rightarrow> (Accepted v, mark_full ch'))"
| "ring_step Take ch =
     (if rx ch = wx ch \<and> \<not> full ch then (Refused, ch)
      else case take_block ch of Inl _ \<Rightarrow> (Refused, ch) | Inr (v, ch') \<Rightarrow> (Delivered v, ch'\<lparr>full := False\<rparr>))"

fun accepted_of :: "ring_event \<Rightarrow> byte list list" where
  "accepted_of (Accepted v) = [v]"
| "accepted_of _ = []"

fun delivered_of :: "ring_event \<Rightarrow> byte list list" where
  "delivered_of (Delivered v) = [v]"
| "delivered_of _ = []"

definition ring_ok :: "uint32 \<Rightarrow> ChannelImpl \<Rightarrow> bool" where
  [inv_defs]: "ring_ok b ch \<longleftrightarrow> ch_ok ch \<and> ch_queue ch = [] \<and> blk_size ch = b"

fun block_op :: "uint32 \<Rightarrow> ring_op \<Rightarrow> bool" where
  "block_op b (Put v) = (length v = unat b)"
| "block_op b Take = True"

lemma ring_step_law:
  assumes "ring_ok b ch" "block_op b x"
  shows "ring_ok b (snd (ring_step x ch))"
    and "delivered_of (fst (ring_step x ch)) @ contents (snd (ring_step x ch)) =
      contents ch @ accepted_of (fst (ring_step x ch))"
proof -
  have ok: "ch_ok ch" "ch_queue ch = []" "blk_size ch = b" using assms(1) by (simp_all add: ring_ok_def)
  have "ring_ok b (snd (ring_step x ch)) \<and>
    delivered_of (fst (ring_step x ch)) @ contents (snd (ring_step x ch)) =
      contents ch @ accepted_of (fst (ring_step x ch))"
  proof (cases x)
    case (Put v)
    show ?thesis
    proof (cases "full ch")
      case True
      then show ?thesis using assms(1) Put by simp
    next
      case False
      with ring_put [OF ok(1) False _ ok(2)] assms(2) ok(3) Put obtain ch' where
        "put_block v ch = Inr ch'" "ch_ok (mark_full ch')" "contents (mark_full ch') = contents ch @ [v]"
        "ch_queue (mark_full ch') = []" "blk_size (mark_full ch') = b" by auto
      with False Put show ?thesis by (simp add: ring_ok_def)
    qed
  next
    case Take
    show ?thesis
    proof (cases "rx ch = wx ch \<and> \<not> full ch")
      case True
      then show ?thesis using assms(1) Take by simp
    next
      case False
      then have ne: "contents ch \<noteq> []"
        using ch_count_0 [OF ok(1)] contents_length [of ch] by (metis length_0_conv)
      from ring_take [OF ok(1) ne ok(2)] obtain ch' where
        "take_block ch = Inr (hd (contents ch), ch')" "ch_ok (ch'\<lparr>full := False\<rparr>)"
        "contents (ch'\<lparr>full := False\<rparr>) = tl (contents ch)" "ch_queue ch' = []" "blk_size ch' = blk_size ch"
        by metis
      with False Take ne ok(3) show ?thesis by (auto simp: ring_ok_def)
    qed
  qed
  then show "ring_ok b (snd (ring_step x ch))"
    "delivered_of (fst (ring_step x ch)) @ contents (snd (ring_step x ch)) =
      contents ch @ accepted_of (fst (ring_step x ch))" by simp_all
qed

interpretation ringq: fifo ring_step "block_op b" "ring_ok b" contents accepted_of delivered_of for b
  by unfold_locales (simp_all add: ring_step_law)

text \<open>C5: the buffer of a channel is a bounded first-in first-out queue. For any sequence of the non-blocking
  paths of \<open>Write\<close> and \<open>Read\<close> with blocks of the channel's size, the blocks read followed
  by the ones still in the ring are the ones that were in it followed by the ones written, in
  order and unchanged; the ring never holds more than its capacity, the full flag is set exactly when it
  holds that many, and reading is refused exactly when it holds none.\<close>

theorem Channel_ring_fifo:
  assumes "ch_ok ch" "ch_queue ch = []" "\<forall>x \<in> set ops. block_op (blk_size ch) x"
    and "run_ops ring_step ops ch = (es, ch')"
  shows "concat (map delivered_of es) @ contents ch' = contents ch @ concat (map accepted_of es) \<and>
    length (contents ch') \<le> cap ch' \<and> (full ch' \<longleftrightarrow> length (contents ch') = cap ch') \<and>
    (fst (ring_step Take ch') = Refused \<longleftrightarrow> contents ch' = [])"
proof -
  have inv: "ring_ok (blk_size ch) ch" using assms(1,2) by (simp add: ring_ok_def)
  have "ring_ok (blk_size ch) ch'" using ringq.invar_run [OF inv assms(3)] assms(4) by simp
  then have ok: "ch_ok ch'" and sh: "ch_shape ch'" by (simp_all add: ring_ok_def ch_ok_def)
  have "concat (map delivered_of es) @ contents ch' = contents ch @ concat (map accepted_of es)"
    using ringq.run_fifo [OF inv assms(3)] assms(4) by simp
  moreover have "fst (ring_step Take ch') = Refused \<longleftrightarrow> contents ch' = []"
    using ch_count_0 [OF ok] contents_length [of ch'] by (auto simp: take_block_eq [OF sh])
  ultimately show ?thesis
    using ch_count_le [OF sh] ch_count_full [OF sh] by (simp add: contents_length)
qed

text \<open>A new channel is empty and well formed.\<close>

lemma Channel_Channel_ok:
  assumes "0 < tsize" "0 < n" "n * tsize < 2 ^ 32" "\<And>k. length (junk k) = k"
  shows "ch_ok (Channel_Channel junk tsize (int n) ms)" "contents (Channel_Channel junk tsize (int n) ms) = []"
    and "cap (Channel_Channel junk tsize (int n) ms) = n"
proof -
  let ?ch = "Channel_Channel junk tsize (int n) ms"
  have "tsize < 2 ^ 32" using assms(2,3) by (metis One_nat_def Suc_leI le_less_trans mult_le_mono1 nat_mult_1)
  then have b: "unat (of_nat tsize :: uint32) = tsize" by (intro unat_of_nat_lt) simp
  have "unat (word_of_int (int n * int tsize) :: uint32) = nat (int n * int tsize)"
    using assms(3) by (intro unat_word_of_int_nonneg) (simp_all add: of_nat_mult [symmetric] del: of_nat_mult)
  then have s: "unat (word_of_int (int n * int tsize) :: uint32) = n * tsize" by (simp add: nat_mult_distrib)
  show c: "cap ?ch = n" using assms(1)
    by (simp add: cap_def Channel_Channel_def ChannelImpl_Create_def b s del: of_int_mult)
  have r: "rpos ?ch = 0" "wpos ?ch = 0" by (simp_all add: rpos_def wpos_def Channel_Channel_def ChannelImpl_Create_def)
  have sh: "ch_shape ?ch" using assms(1,2,4) c r
    by (simp add: ch_shape_def)
      (simp add: Channel_Channel_def ChannelImpl_Create_def b s del: of_int_mult)
  then show ok: "ch_ok ?ch" by (simp add: ch_ok_def) (simp add: Channel_Channel_def ChannelImpl_Create_def)
  have "ch_count ?ch = 0" using ch_count_0 [OF ok] by (simp add: Channel_Channel_def ChannelImpl_Create_def)
  then show "contents ?ch = []" using contents_length [of ?ch] by simp
qed

definition int_channel :: ChannelImpl where
  "int_channel = Channel_Channel (\<lambda>n. replicate n CHR 0x00) 4 2 (- 1)"

lemma int_channel_ok: "ch_ok int_channel" "contents int_channel = []" "ch_queue int_channel = []"
    "blk_size int_channel = 4" "full int_channel = False" "cap int_channel = 2"
  using Channel_Channel_ok [of 4 2 "\<lambda>n. replicate n CHR 0x00" "- 1"]
  by (simp_all add: int_channel_def) (simp_all add: Channel_Channel_def ChannelImpl_Create_def)

theorem Channel_ring_fifo_witness:
  "\<exists>es ch'. run_ops ring_step [Put ''abcd'', Take, Put ''efgh'', Put ''ijkl'', Take] int_channel = (es, ch') \<and>
     concat (map delivered_of es) @ contents ch' = concat (map accepted_of es)"
proof -
  obtain es ch' where r: "run_ops ring_step [Put ''abcd'', Take, Put ''efgh'', Put ''ijkl'', Take] int_channel = (es, ch')"
    by (metis surj_pair)
  from Channel_ring_fifo [OF int_channel_ok(1,3) _ r] r show ?thesis
    by (simp add: int_channel_ok del: ring_step.simps run_ops.simps)
qed

text \<open>A full ring from which a block is taken and into which one is put stays full.\<close>

lemma take_block_queue:
  "take_block (ch\<lparr>ch_queue := q\<rparr>) = (case take_block ch of Inl e \<Rightarrow> Inl e | Inr (v, c) \<Rightarrow> Inr (v, c\<lparr>ch_queue := q\<rparr>))"
  by (simp add: take_block_def Let_def)

lemma take_block_sizes: "take_block ch = Inr (v, c) \<Longrightarrow> buf_size c = buf_size ch \<and> blk_size c = blk_size ch"
  by (auto simp: take_block_def Let_def split: if_splits)

lemma put_block_full:
  "put_block v (ch\<lparr>full := f, ch_queue := q\<rparr>) =
     (case put_block v ch of Inl e \<Rightarrow> Inl e | Inr c \<Rightarrow> Inr (c\<lparr>full := f, ch_queue := q\<rparr>))"
  by (simp add: put_block_def Let_def)

lemma put_block_shape: "put_block v ch = Inr c \<Longrightarrow> rx c = rx ch \<and> full c = full ch \<and> ch_queue c = ch_queue ch"
  by (auto simp: put_block_def Let_def split: if_splits)

lemma ring_take_put:
  assumes ok: "ch_ok ch" and full: "full ch" and v: "length v = unat (blk_size ch)"
  obtains ch1 ch3 where "take_block ch = Inr (hd (contents ch), ch1)"
    and "put_block v (ch1\<lparr>ch_queue := q\<rparr>) = Inr ch3" "ch_ok ch3" "full ch3" "ch_queue ch3 = q"
    and "contents ch3 = tl (contents ch) @ [v]"
proof -
  let ?c0 = "ch\<lparr>ch_queue := []\<rparr>"
  have sh: "ch_shape ch" using ok by (simp add: ch_ok_def)
  have cap: "0 < cap ch" using sh by (auto simp: ch_shape_def)
  have cnt: "ch_count ch = cap ch" using ch_count_full [OF sh] full by simp
  have ok0: "ch_ok ?c0" "contents ?c0 \<noteq> []" "ch_queue ?c0 = []"
    using ok cnt cap contents_length [of ch] by (auto simp: ch_ok_def)
  from ring_take [OF ok0] obtain c1 where
    c1: "take_block ?c0 = Inr (hd (contents ch), c1)" "ch_ok (c1\<lparr>full := False\<rparr>)"
      "contents (c1\<lparr>full := False\<rparr>) = tl (contents ch)" "full c1 = full ch" "ch_queue c1 = []"
      "blk_size c1 = blk_size ch" by auto
  have t: "take_block ch = Inr (hd (contents ch), c1\<lparr>ch_queue := ch_queue ch\<rparr>)"
    using c1(1,5) take_block_queue [of "ch_queue ch" ?c0] by simp
  have capc: "cap c1 = cap ch"
    using take_block_sizes [OF c1(1)] by (simp add: cap_def)
  from ring_put [OF c1(2) _ _ _] v c1(5,6) obtain c3 where
    c3: "put_block v (c1\<lparr>full := False\<rparr>) = Inr c3" "ch_ok (mark_full c3)"
      "contents (mark_full c3) = contents (c1\<lparr>full := False\<rparr>) @ [v]"
      "full (mark_full c3) \<longleftrightarrow> Suc (ch_count (c1\<lparr>full := False\<rparr>)) = cap (c1\<lparr>full := False\<rparr>)"
      "ch_queue (mark_full c3) = []" by auto
  have "ch_count (c1\<lparr>full := False\<rparr>) = cap ch - 1"
    using c1(3) contents_length [of "c1\<lparr>full := False\<rparr>"] contents_length [of ch] cnt by simp
  then have fl: "full (mark_full c3)" using c3(4) capc cap by (simp add: cap_def)
  then have m: "mark_full c3 = c3\<lparr>full := True\<rparr>" "wx c3 = rx c3"
    using put_block_shape [OF c3(1)] by (auto simp: mark_full_def split: if_splits)
  have "c1\<lparr>full := True\<rparr> = c1" using c1(4) full by (cases c1) simp
  then have e: "c1\<lparr>full := True, ch_queue := q\<rparr> = c1\<lparr>ch_queue := q\<rparr>" by (simp only:)
  have p: "put_block v (c1\<lparr>ch_queue := ch_queue ch, ch_queue := q\<rparr>) = Inr (c3\<lparr>full := True, ch_queue := q\<rparr>)"
    using put_block_full [where v = v and ch = "c1\<lparr>full := False\<rparr>" and f = True and q = q] c3(1) e by simp
  show ?thesis
  proof (rule that [OF t p])
    show "ch_ok (c3\<lparr>full := True, ch_queue := q\<rparr>)"
      using c3(2) m by (simp add: ch_ok_def)
    show "contents (c3\<lparr>full := True, ch_queue := q\<rparr>) = tl (contents ch) @ [v]"
      using c3(3) c1(3) m by simp
  qed simp_all
qed

lemma contents_blocks:
  assumes sh: "ch_shape ch" and v: "v \<in> set (contents ch)"
  shows "length v = unat (blk_size ch)"
proof -
  have "0 < cap ch" using sh by (auto simp: ch_shape_def)
  moreover from v obtain j where j: "v = block ch ((rpos ch + j) mod cap ch)" by (auto simp: contents_def)
  ultimately have "(rpos ch + j) mod cap ch * unat (blk_size ch) + unat (blk_size ch) \<le> length (ch_buf ch)"
    by (intro block_fits [OF sh]) simp
  then show ?thesis by (simp add: j block_def)
qed

lemma full_head:
  assumes sh: "ch_shape ch" and full: "full ch"
  shows "contents ch \<noteq> []" "length (hd (contents ch)) = unat (blk_size ch)"
proof -
  have "length (contents ch) = cap ch" "0 < cap ch"
    using ch_count_full [OF sh] full sh by (auto simp: contents_length ch_shape_def)
  then show ne: "contents ch \<noteq> []" by auto
  show "length (hd (contents ch)) = unat (blk_size ch)" using contents_blocks [OF sh] ne by simp
qed

lemma ch_ok_clear: "ch_ok ch \<Longrightarrow> ch_ok (ch\<lparr>ch_queue := []\<rparr>)"
  by (simp add: ch_ok_def)

lemma ch_queue_same: "ch_queue ch = [] \<Longrightarrow> ch\<lparr>ch_queue := []\<rparr> = ch"
  by (cases ch) simp

lemma full_same: "\<not> full ch \<Longrightarrow> ch\<lparr>full := False\<rparr> = ch"
  by (cases ch) simp

end
