(* ===== verification/Channel.thy ===== *)
theory Channel
  imports Scheduler Ring
begin

text \<open>
  Channels: \<open>ChannelImpl\<close> and \<open>Channel<T>\<close> of \<open>include/channel.h\<close> and \<open>src/channel.cc\<close>. A
  channel is a ring of blocks with a queue of wait contexts, which are readers while the channel is empty and
  writers while it is full. The operations run under a thread mutex up to the point where they
  release it. The model runs a channel with the coroutines of one scheduler, which is the
  configuration \<open>schedulerManager()\<close> creates.

  An operation that blocks ends with the jump of \<open>Yield\<close>; what it does when the coroutine is
  resumed is a definition of its own (\<open>ChannelImpl_Read_resumed\<close>).
\<close>

section \<open>Operations\<close>

text \<open>The pointer \<open>wait_ctx + sizeof(WaitCtx)\<close> is one of \<open>WaitCtx*\<close>: it is advanced by that
  many contexts.\<close>

definition ChannelImpl_CreateWaitCtxInfo ::
  "'k env \<Rightarrow> ChannelImpl \<Rightarrow> co_ptr \<Rightarrow> ptr \<Rightarrow> 'k sys \<Rightarrow> (nat \<times> 'k sys) res" where
  [model_defs]: "ChannelImpl_CreateWaitCtxInfo env ch co buf s =
     res_bind (SchedulerImpl_on_stack buf s) (\<lambda>on_stack.
       let n = (if on_stack then sizeof_WaitCtx + unat (blk_size ch) else sizeof_WaitCtx);
           block = e_junk env n;
           b = (if on_stack then Ptr (length (mem s)) (int (sizeof_WaitCtx * sizeof_WaitCtx)) else buf);
           (c, cs) = CreateWaitCtx \<lparr>wc_co = (unat (s_id (sch s)), co),
               wc_state = of_char (block ! state_offset), wc_buf = b\<rparr> (ctxs s)
       in Inr (c, s\<lparr>mem := mem s @ [block], ctxs := cs\<rparr>))"

text \<open>The loops over the wait queue: contexts are popped until one is still \<open>kInit\<close>, which becomes
  \<open>kReady\<close>.\<close>

fun pop_waiter :: "nat list \<Rightarrow> WaitCtx list \<Rightarrow> nat option \<times> nat list \<times> WaitCtx list" where
  "pop_waiter [] cs = (None, [], cs)"
| "pop_waiter (c # q) cs =
     (let (old, st) = atomic_compare_swap kInit kReady (wc_state (cs ! c));
          cs' = cs[c := (cs ! c)\<lparr>wc_state := st\<rparr>]
      in if old = kInit then (Some c, q, cs') else pop_waiter q cs')"

text \<open>What a blocking operation does between releasing the mutex and the jump.\<close>

definition park :: "'k env \<Rightarrow> ChannelImpl \<Rightarrow> co_ptr \<Rightarrow> nat \<Rightarrow> 'k sys \<Rightarrow> 'k sys res" where
  [model_defs]: "park env ch co c s =
     (let s1 = upd_co co (\<lambda>x. x\<lparr>co_wait_ctx := Some c, co_union := Sched (unat (s_id (sch s)))\<rparr>) s
      in res_bind (if ch_ms ch \<noteq> - 1 then SchedulerImpl_AddTimer env (ch_ms ch) s1 else Inr s1)
           SchedulerImpl_Yield)"

text \<open>\<open>wait_co->scheduler_->AddReadyTask(wait_co)\<close>: the union of the waiting coroutine has to hold its scheduler.\<close>

definition ready_waiter :: "co_ptr \<Rightarrow> 'k sys \<Rightarrow> 'k sys res" where
  [model_defs]: "ready_waiter wait_co s =
     (case co_union (co_at wait_co s) of Sched _ \<Rightarrow> SchedulerImpl_AddReadyTask wait_co s | Func _ \<Rightarrow> Inl InactiveMember)"

datatype outcome = Returned | Suspended nat

definition ChannelImpl_Read ::
  "'k env \<Rightarrow> ptr \<Rightarrow> ChannelImpl \<Rightarrow> 'k sys \<Rightarrow> (outcome \<times> ChannelImpl \<times> 'k sys) res" where
  [model_defs]: "ChannelImpl_Read env p ch s =
     (if rx ch \<noteq> wx ch then
        res_bind (take_block ch) (\<lambda>(v, ch1).
        res_bind (mem_store (mem s) p v) (\<lambda>m. Inr (Returned, ch1, s\<lparr>mem := m\<rparr>)))
      else if \<not> full ch then
        (case running_co (sch s) of
           None \<Rightarrow> Inl NullDeref
         | Some co \<Rightarrow>
             res_bind (ChannelImpl_CreateWaitCtxInfo env ch co p s) (\<lambda>(c, s1).
             let ch1 = ch\<lparr>ch_queue := ch_queue ch @ [c]\<rparr> in
             res_bind (park env ch1 co c s1) (\<lambda>s2. Inr (Suspended c, ch1, s2))))
      else
        res_bind (take_block ch) (\<lambda>(v, ch1).
        res_bind (mem_store (mem s) p v) (\<lambda>m.
        case pop_waiter (ch_queue ch1) (ctxs s) of (w, q, cs) \<Rightarrow>
          let ch2 = ch1\<lparr>ch_queue := q\<rparr>; s1 = s\<lparr>mem := m, ctxs := cs\<rparr> in
          case w of
            None \<Rightarrow> Inr (Returned, ch2\<lparr>full := False\<rparr>, s1)
          | Some c \<Rightarrow>
              res_bind (mem_load (mem s1) (wc_buf (cs ! c)) (unat (blk_size ch2))) (\<lambda>v2.
              res_bind (put_block v2 ch2) (\<lambda>ch3.
              res_bind (ready_waiter (snd (wc_co (cs ! c))) s1) (\<lambda>s2.
                Inr (Returned, ch3, s2)))))))"

text \<open>The end of \<open>Read\<close> for a coroutine that was suspended with the context \<open>c\<close>.\<close>

definition ChannelImpl_Read_resumed :: "ptr \<Rightarrow> nat \<Rightarrow> ChannelImpl \<Rightarrow> 'k sys \<Rightarrow> 'k sys res" where
  [model_defs]: "ChannelImpl_Read_resumed p c ch s =
     (if \<not> timeout_flag (sch s) \<and> wc_buf (ctxs s ! c) \<noteq> p
      then res_bind (memcpy p (wc_buf (ctxs s ! c)) (unat (blk_size ch)) (mem s)) (\<lambda>m. Inr (s\<lparr>mem := m\<rparr>))
      else Inr s)"

definition ChannelImpl_Write ::
  "'k env \<Rightarrow> ptr \<Rightarrow> ChannelImpl \<Rightarrow> 'k sys \<Rightarrow> (outcome \<times> ChannelImpl \<times> 'k sys) res" where
  [model_defs]: "ChannelImpl_Write env p ch s =
     (if wx ch \<noteq> rx ch then
        res_bind (mem_load (mem s) p (unat (blk_size ch))) (\<lambda>v.
        res_bind (put_block v ch) (\<lambda>ch1. Inr (Returned, mark_full ch1, s)))
      else if \<not> full ch then
        (case pop_waiter (ch_queue ch) (ctxs s) of (w, q, cs) \<Rightarrow>
          let ch1 = ch\<lparr>ch_queue := q\<rparr>; s1 = s\<lparr>ctxs := cs\<rparr> in
          case w of
            Some c \<Rightarrow>
              res_bind (memcpy (wc_buf (cs ! c)) p (unat (blk_size ch)) (mem s1)) (\<lambda>m.
              res_bind (ready_waiter (snd (wc_co (cs ! c))) (s1\<lparr>mem := m\<rparr>)) (\<lambda>s2.
                Inr (Returned, ch1, s2)))
          | None \<Rightarrow>
              res_bind (mem_load (mem s1) p (unat (blk_size ch1))) (\<lambda>v.
              res_bind (put_block v ch1) (\<lambda>ch2. Inr (Returned, mark_full ch2, s1))))
      else
        (case running_co (sch s) of
           None \<Rightarrow> Inl NullDeref
         | Some co \<Rightarrow>
             res_bind (ChannelImpl_CreateWaitCtxInfo env ch co p s) (\<lambda>(c, s1).
             res_bind (if wc_buf (ctxs s1 ! c) \<noteq> p
                       then res_bind (memcpy (wc_buf (ctxs s1 ! c)) p (unat (blk_size ch)) (mem s1))
                              (\<lambda>m. Inr (s1\<lparr>mem := m\<rparr>))
                       else Inr s1) (\<lambda>s2.
             let ch1 = ch\<lparr>ch_queue := ch_queue ch @ [c]\<rparr> in
             res_bind (park env ch1 co c s2) (\<lambda>s3. Inr (Suspended c, ch1, s3))))))"

definition Channel_get :: "'k env \<Rightarrow> ptr \<Rightarrow> ChannelImpl \<Rightarrow> 'k sys \<Rightarrow> (outcome \<times> ChannelImpl \<times> 'k sys) res" where
  [model_defs]: "Channel_get = ChannelImpl_Read"

definition Channel_put :: "'k env \<Rightarrow> ptr \<Rightarrow> ChannelImpl \<Rightarrow> 'k sys \<Rightarrow> (outcome \<times> ChannelImpl \<times> 'k sys) res" where
  [model_defs]: "Channel_put = ChannelImpl_Write"

section \<open>Waiters\<close>

lemma pop_waiter_split:
  "pop_waiter q cs = (w, q', cs') \<Longrightarrow>
   case w of
     None \<Rightarrow> q' = [] \<and> cs' = cs \<and> (\<forall>c \<in> set q. wc_state (cs ! c) \<noteq> kInit)
   | Some c \<Rightarrow> \<exists>skipped. q = skipped @ c # q' \<and> (\<forall>d \<in> set skipped. wc_state (cs ! d) \<noteq> kInit) \<and>
       wc_state (cs ! c) = kInit \<and> cs' = cs[c := (cs ! c)\<lparr>wc_state := kReady\<rparr>]"
proof (induction q arbitrary: cs)
  case Nil
  then show ?case by auto
next
  case (Cons c q)
  show ?case
  proof (cases "wc_state (cs ! c) = kInit")
    case True
    with Cons.prems show ?thesis by (auto simp: atomic_compare_swap_eq)
  next
    case False
    with Cons.prems have "pop_waiter q cs = (w, q', cs')"
      by (simp add: atomic_compare_swap_eq ctx_state_same)
    from Cons.IH [OF this] False show ?thesis
    proof (cases w)
      case (Some d)
      with Cons.IH [OF \<open>pop_waiter q cs = (w, q', cs')\<close>] obtain sk where
        "q = sk @ d # q'" "\<forall>e \<in> set sk. wc_state (cs ! e) \<noteq> kInit" "wc_state (cs ! d) = kInit"
        "cs' = cs[d := (cs ! d)\<lparr>wc_state := kReady\<rparr>]" by auto
      with False Some show ?thesis by (auto intro: exI [of _ "c # sk"])
    qed auto
  qed
qed

lemma ready_waiter_ready:
  assumes "ready_waiter co s = Inr s'"
  shows "ready_tasks (task_mgr (sch s')) = ready_tasks (task_mgr (sch s)) @ [co]"
    and "mem s' = mem s" "ctxs s' = ctxs s"
  using assms by (auto simp: ready_waiter_def SchedulerImpl_AddReadyTask_def TaskManager_AddReadyTasks_def split: option.splits co_union.splits)

section \<open>Transfers\<close>

lemma pop_waiter_none:
  assumes "\<forall>c \<in> set q. wc_state (cs ! c) \<noteq> kInit"
  shows "pop_waiter q cs = (None, [], cs)"
proof -
  obtain w q' cs' where r: "pop_waiter q cs = (w, q', cs')" by (metis prod_cases3)
  from pop_waiter_split [OF r] assms show ?thesis by (cases w) (auto simp: r)
qed

lemma ctxs_same: "s\<lparr>ctxs := ctxs s\<rparr> = s"
  by (cases s) simp

lemma Write_room:
  assumes ok: "ch_ok ch" and none: "\<forall>c \<in> set (ch_queue ch). wc_state (ctxs s ! c) \<noteq> kInit"
    and p: "mem_load (mem s) p (unat (blk_size ch)) = Inr v" and room: "\<not> full ch"
  shows "\<exists>ch'. ChannelImpl_Write env p ch s = Inr (Returned, ch', s) \<and> ch_ok ch' \<and>
    contents ch' = contents ch @ [v] \<and> ch_queue ch' = []"
proof -
  let ?c = "ch\<lparr>ch_queue := []\<rparr>"
  have v: "length v = unat (blk_size ?c)" using length_mem_load [OF p] by simp
  from ring_put [OF ch_ok_clear [OF ok] _ v] room obtain ch' where
    ch': "put_block v ?c = Inr ch'" "ch_ok (mark_full ch')" "contents (mark_full ch') = contents ch @ [v]"
      "ch_queue (mark_full ch') = []" by auto
  show ?thesis
  proof (cases "wx ch = rx ch")
    case True
    then show ?thesis
      using room p ch' by (simp add: ChannelImpl_Write_def pop_waiter_none [OF none] ctxs_same)
  next
    case False
    then have "?c = ch" using ok by (intro ch_queue_same) (auto simp: ch_ok_def)
    then show ?thesis using False p ch' by (simp add: ChannelImpl_Write_def)
  qed
qed

lemma Read_nonempty:
  assumes ok: "ch_ok ch" and none: "\<forall>c \<in> set (ch_queue ch). wc_state (ctxs s ! c) \<noteq> kInit"
    and p: "valid_range (mem s) p (unat (blk_size ch))" and ne: "contents ch \<noteq> []"
  shows "\<exists>ch' s'. ChannelImpl_Read env p ch s = Inr (Returned, ch', s') \<and> ch_ok ch' \<and> contents ch' = tl (contents ch) \<and>
    mem_store (mem s) p (hd (contents ch)) = Inr (mem s')"
proof -
  let ?c = "ch\<lparr>ch_queue := []\<rparr>"
  have sh: "ch_shape ch" using ok by (simp add: ch_ok_def)
  have "length (hd (contents ch)) = unat (blk_size ch)" using contents_blocks [OF sh] ne by simp
  with p mem_store_valid [of "mem s" p "hd (contents ch)"] obtain m where
    m: "mem_store (mem s) p (hd (contents ch)) = Inr m" by auto
  from ring_take [OF ch_ok_clear [OF ok]] ne obtain c1 where
    c1: "take_block ?c = Inr (hd (contents ch), c1)" "ch_ok (c1\<lparr>full := False\<rparr>)"
      "contents (c1\<lparr>full := False\<rparr>) = tl (contents ch)" "full c1 = full ch" "ch_queue c1 = []" by auto
  show ?thesis
  proof (cases "rx ch = wx ch")
    case True
    have "full ch" using ch_count_0 [OF ok] True ne contents_length [of ch] by auto
    moreover have "take_block ch = Inr (hd (contents ch), c1\<lparr>ch_queue := ch_queue ch\<rparr>)"
      using c1(1) take_block_queue [of "ch_queue ch" ?c] by simp
    ultimately show ?thesis
      using True m c1 by (simp add: ChannelImpl_Read_def pop_waiter_none [OF none] ch_queue_same)
  next
    case False
    then have "?c = ch" "\<not> full ch" using ok by (auto simp: ch_ok_def intro: ch_queue_same)
    with c1(4) full_same [of c1] have "c1\<lparr>full := False\<rparr> = c1" by simp
    with False c1 m \<open>?c = ch\<close> show ?thesis by (simp add: ChannelImpl_Read_def)
  qed
qed

text \<open>C10: reading and writing a channel that does not block and has no waiting partner. \<open>Write\<close> on a
  channel that is not full appends the block at its argument to the contents of the channel;
  \<open>Read\<close> on a channel that is not empty stores the first block at its argument, touches no other
  object, and removes the block. Both return and keep the channel well formed.\<close>

theorem Channel_buffered_transfer:
  assumes ok: "ch_ok ch" and none: "\<forall>c \<in> set (ch_queue ch). wc_state (ctxs s ! c) \<noteq> kInit"
    and p: "valid_range (mem s) p (unat (blk_size ch))"
  shows "(\<not> full ch \<longrightarrow> (\<exists>v ch'. mem_load (mem s) p (unat (blk_size ch)) = Inr v \<and>
       ChannelImpl_Write env p ch s = Inr (Returned, ch', s) \<and> ch_ok ch' \<and> contents ch' = contents ch @ [v])) \<and>
    (contents ch \<noteq> [] \<longrightarrow> (\<exists>ch' s'. ChannelImpl_Read env p ch s = Inr (Returned, ch', s') \<and> ch_ok ch' \<and>
       contents ch = hd (contents ch) # contents ch' \<and> mem_load (mem s') p (unat (blk_size ch)) = Inr (hd (contents ch)) \<and>
       (\<forall>q n. obj q \<noteq> obj p \<longrightarrow> mem_load (mem s') q n = mem_load (mem s) q n)))"
proof (intro conjI impI)
  assume "\<not> full ch"
  moreover obtain v where "mem_load (mem s) p (unat (blk_size ch)) = Inr v"
    using p by (auto simp: mem_load_def)
  ultimately show "\<exists>v ch'. mem_load (mem s) p (unat (blk_size ch)) = Inr v \<and>
       ChannelImpl_Write env p ch s = Inr (Returned, ch', s) \<and> ch_ok ch' \<and> contents ch' = contents ch @ [v]"
    using Write_room [OF ok none] by blast
next
  assume ne: "contents ch \<noteq> []"
  from Read_nonempty [OF ok none p ne] obtain ch' s' where
    r: "ChannelImpl_Read env p ch s = Inr (Returned, ch', s')" "ch_ok ch'" "contents ch' = tl (contents ch)"
      "mem_store (mem s) p (hd (contents ch)) = Inr (mem s')" by blast
  have "length (hd (contents ch)) = unat (blk_size ch)"
    using contents_blocks [of ch] ok ne by (simp add: ch_ok_def)
  with mem_load_store_same [OF r(4)] mem_load_store_other [OF r(4)] r ne
  show "\<exists>ch' s'. ChannelImpl_Read env p ch s = Inr (Returned, ch', s') \<and> ch_ok ch' \<and>
       contents ch = hd (contents ch) # contents ch' \<and> mem_load (mem s') p (unat (blk_size ch)) = Inr (hd (contents ch)) \<and>
       (\<forall>q n. obj q \<noteq> obj p \<longrightarrow> mem_load (mem s') q n = mem_load (mem s) q n)"
    by auto
qed

lemma pop_waiter_some:
  assumes "\<forall>d \<in> set skipped. wc_state (cs ! d) \<noteq> kInit" "wc_state (cs ! c) = kInit"
  shows "pop_waiter (skipped @ c # q') cs = (Some c, q', cs[c := (cs ! c)\<lparr>wc_state := kReady\<rparr>])"
  using assms by (induction skipped) (simp_all add: atomic_compare_swap_eq ctx_state_same)

lemma ready_waiter_total:
  assumes "eventfd_loop (answers s) \<noteq> None" "co_union (co_at co s) = Sched k"
  shows "\<exists>s'. ready_waiter co s = Inr s'"
  using assms by (auto simp: ready_waiter_def SchedulerImpl_AddReadyTask_def Epoll_Wakeup_def Let_def split: option.splits prod.splits if_splits)

text \<open>The two situations of a waiting partner share their assumptions.\<close>

lemma Read_handover:
  assumes ok: "ch_ok ch" and q: "ch_queue ch = skipped @ c # q'" "wc_state (ctxs s ! c) = kInit"
    and sk: "\<forall>d \<in> set skipped. wc_state (ctxs s ! d) \<noteq> kInit" and c: "c < length (ctxs s)"
    and p: "valid_range (mem s) p (unat (blk_size ch))"
    and b: "mem_load (mem s) (wc_buf (ctxs s ! c)) (unat (blk_size ch)) = Inr v" "obj (wc_buf (ctxs s ! c)) \<noteq> obj p"
    and wake: "eventfd_loop (answers s) \<noteq> None" "co_union (co_at (snd (wc_co (ctxs s ! c))) s) = Sched k" and full: "full ch"
  shows "\<exists>ch' s'. ChannelImpl_Read env p ch s = Inr (Returned, ch', s') \<and>
    ch_ok ch' \<and> full ch' \<and> ch_queue ch' = q' \<and> contents ch' = tl (contents ch) @ [v] \<and>
    mem_store (mem s) p (hd (contents ch)) = Inr (mem s') \<and>
    ctxs s' = (ctxs s)[c := (ctxs s ! c)\<lparr>wc_state := kReady\<rparr>] \<and>
    ready_tasks (task_mgr (sch s')) = ready_tasks (task_mgr (sch s)) @ [snd (wc_co (ctxs s ! c))]"
proof -
  have sh: "ch_shape ch" and rw: "rx ch = wx ch" using ok q(1) by (simp_all add: ch_ok_def)
  have "length (hd (contents ch)) = unat (blk_size ch)" by (rule full_head [OF sh full])
  with p mem_store_valid [of "mem s" p "hd (contents ch)"] obtain m where
    m: "mem_store (mem s) p (hd (contents ch)) = Inr m" by auto
  have v: "length v = unat (blk_size ch)" using length_mem_load [OF b(1)] .
  from ring_take_put [OF ok full v, of q'] obtain ch1 ch3 where
    ch: "take_block ch = Inr (hd (contents ch), ch1)" "put_block v (ch1\<lparr>ch_queue := q'\<rparr>) = Inr ch3" "ch_ok ch3"
      "full ch3" "ch_queue ch3 = q'" "contents ch3 = tl (contents ch) @ [v]" by blast
  have ch1: "ch_queue ch1 = ch_queue ch" "blk_size ch1 = blk_size ch"
    using ch(1) by (auto simp: take_block_eq [OF sh])
  let ?cs = "(ctxs s)[c := (ctxs s ! c)\<lparr>wc_state := kReady\<rparr>]"
  let ?s1 = "s\<lparr>mem := m, ctxs := ?cs\<rparr>"
  obtain s2 where s2: "ready_waiter (snd (wc_co (ctxs s ! c))) ?s1 = Inr s2"
    using ready_waiter_total [of ?s1] wake by auto
  have "mem_load m (wc_buf (ctxs s ! c)) (unat (blk_size ch)) = Inr v"
    using mem_load_store_other [OF m b(2)] b(1) by simp
  then have "ChannelImpl_Read env p ch s = Inr (Returned, ch3, s2)"
    using rw full m ch ch1 c s2 by (simp add: ChannelImpl_Read_def q pop_waiter_some [OF sk q(2)])
  with ch m ready_waiter_ready [OF s2] show ?thesis by auto
qed

lemma Write_handover:
  assumes ok: "ch_ok ch" and q: "ch_queue ch = skipped @ c # q'" "wc_state (ctxs s ! c) = kInit"
    and sk: "\<forall>d \<in> set skipped. wc_state (ctxs s ! d) \<noteq> kInit" and c: "c < length (ctxs s)"
    and p: "mem_load (mem s) p (unat (blk_size ch)) = Inr v"
    and b: "valid_range (mem s) (wc_buf (ctxs s ! c)) (unat (blk_size ch))"
    and wake: "eventfd_loop (answers s) \<noteq> None" "co_union (co_at (snd (wc_co (ctxs s ! c))) s) = Sched k" and full: "\<not> full ch"
  shows "\<exists>ch' s'. ChannelImpl_Write env p ch s = Inr (Returned, ch', s') \<and>
    ch_ok ch' \<and> \<not> full ch' \<and> ch_queue ch' = q' \<and> contents ch' = contents ch \<and>
    mem_store (mem s) (wc_buf (ctxs s ! c)) v = Inr (mem s') \<and>
    ctxs s' = (ctxs s)[c := (ctxs s ! c)\<lparr>wc_state := kReady\<rparr>] \<and>
    ready_tasks (task_mgr (sch s')) = ready_tasks (task_mgr (sch s)) @ [snd (wc_co (ctxs s ! c))]"
proof -
  have rw: "rx ch = wx ch" using ok q(1) by (simp add: ch_ok_def)
  obtain m where m: "mem_store (mem s) (wc_buf (ctxs s ! c)) v = Inr m"
    using mem_store_valid [of "mem s" _ v] b length_mem_load [OF p] by metis
  let ?cs = "(ctxs s)[c := (ctxs s ! c)\<lparr>wc_state := kReady\<rparr>]"
  let ?s1 = "s\<lparr>ctxs := ?cs, mem := m\<rparr>"
  obtain s2 where s2: "ready_waiter (snd (wc_co (ctxs s ! c))) ?s1 = Inr s2"
    using ready_waiter_total [of ?s1] wake by auto
  have "ChannelImpl_Write env p ch s = Inr (Returned, ch\<lparr>ch_queue := q'\<rparr>, s2)"
    using rw full p m c s2 by (simp add: ChannelImpl_Write_def memcpy_def q pop_waiter_some [OF sk q(2)])
  moreover have "ch_ok (ch\<lparr>ch_queue := q'\<rparr>)" using ok rw by (simp add: ch_ok_def)
  ultimately show ?thesis using full m ready_waiter_ready [OF s2] by auto
qed

text \<open>C9: handing a block to a partner that waits. On a full channel whose queue has a writer that still
  waits, \<open>Read\<close> returns the oldest block, moves the writer's block to the end of the
  channel, which stays full, and makes exactly that writer ready; on an empty channel whose queue has a reader that
  still waits, \<open>Write\<close> stores its block directly in the reader's buffer, leaves the channel empty, and makes
  exactly that reader ready. The partner is the first in the queue whose context is still
  \<open>kInit\<close>; its context becomes \<open>kReady\<close>. This needs a partner that has been suspended, so that its union holds its
  scheduler, and whose buffer is valid memory of another object than \<open>p\<close>: a variable that is not on a coroutine stack, since
  for one on the stack the buffer lies outside of its block (see the last section). The kernel answers the calls on the eventfd.\<close>

theorem Channel_handover:
  assumes ok: "ch_ok ch" and q: "ch_queue ch = skipped @ c # q'" "wc_state (ctxs s ! c) = kInit"
    and sk: "\<forall>d \<in> set skipped. wc_state (ctxs s ! d) \<noteq> kInit" and c: "c < length (ctxs s)"
    and p: "valid_range (mem s) p (unat (blk_size ch))"
    and b: "valid_range (mem s) (wc_buf (ctxs s ! c)) (unat (blk_size ch))" "obj (wc_buf (ctxs s ! c)) \<noteq> obj p"
    and wake: "eventfd_loop (answers s) \<noteq> None" "co_union (pool (co_pool (sch s)) ! snd (wc_co (ctxs s ! c))) = Sched k"
  shows "\<exists>ch' s' v. (if full ch then ChannelImpl_Read env p ch s else ChannelImpl_Write env p ch s) = Inr (Returned, ch', s') \<and>
    ch_ok ch' \<and> full ch' = full ch \<and> ch_queue ch' = q' \<and>
    wc_state (ctxs s' ! c) = kReady \<and> (\<forall>d. d \<noteq> c \<longrightarrow> ctxs s' ! d = ctxs s ! d) \<and>
    ready_tasks (task_mgr (sch s')) = ready_tasks (task_mgr (sch s)) @ [snd (wc_co (ctxs s ! c))] \<and>
    (if full ch
     then mem_load (mem s) (wc_buf (ctxs s ! c)) (unat (blk_size ch)) = Inr v \<and>
          contents ch' = tl (contents ch) @ [v] \<and> mem_load (mem s') p (unat (blk_size ch)) = Inr (hd (contents ch))
     else mem_load (mem s) p (unat (blk_size ch)) = Inr v \<and> contents ch' = contents ch \<and>
          mem_load (mem s') (wc_buf (ctxs s ! c)) (unat (blk_size ch)) = Inr v)"
proof -
  obtain v where pv: "mem_load (mem s) p (unat (blk_size ch)) = Inr v" using p by (auto simp: mem_load_def)
  obtain v' where bv: "mem_load (mem s) (wc_buf (ctxs s ! c)) (unat (blk_size ch)) = Inr v'"
    using b(1) by (auto simp: mem_load_def)
  show ?thesis
  proof (cases "full ch")
    case True
    have "length (hd (contents ch)) = unat (blk_size ch)"
      using full_head [of ch] True ok by (simp add: ch_ok_def)
    with Read_handover [OF ok q sk c p bv b(2) wake True, of env] True bv c show ?thesis
      using mem_load_store_same [of "mem s" p "hd (contents ch)"] by auto
  next
    case False
    with Write_handover [OF ok q sk c pv b(1) wake False, of env] pv c length_mem_load [OF pv] show ?thesis
      using mem_load_store_same [of "mem s" "wc_buf (ctxs s ! c)" v] by auto
  qed
qed

text \<open>A scheduler with two coroutines, two variables outside of any stack, and a reader of
  \<open>int_channel\<close> that waits.\<close>

definition wait_sys :: "(int \<Rightarrow> epoll_event option) sys" where
  "wait_sys = (two_cos None None)\<lparr>mem := [''0123456xyz'', ''abcd'', ''wxyz''],
     ctxs := [\<lparr>wc_co = (0, 1), wc_state = kInit, wc_buf = Ptr 1 0\<rparr>], answers := [(8, 0)],
     sch := (sch (two_cos None None))\<lparr>co_pool := \<lparr>cp_id = 2, idle_co_ids = [], pool = replicate 2 (Coroutine_init\<lparr>co_union := Sched 0\<rparr>)\<rparr>\<rparr>\<rparr>"

theorem Channel_buffered_transfer_witness:
  "\<exists>ch'. ChannelImpl_Write env0 (Ptr 2 0) int_channel wait_sys = Inr (Returned, ch', wait_sys) \<and>
     contents ch' = [''wxyz'']"
proof -
  have "valid_range (mem wait_sys) (Ptr 2 0) (unat (blk_size int_channel))"
    "mem_load (mem wait_sys) (Ptr 2 0) (unat (blk_size int_channel)) = Inr ''wxyz''"
    by (simp_all add: wait_sys_def mem_load_def valid_range_def slice_def int_channel_ok(4))
  then show ?thesis
    using Channel_buffered_transfer [OF int_channel_ok(1), of wait_sys "Ptr 2 0" env0]
    by (auto simp: int_channel_ok)
qed

theorem Channel_handover_witness:
  "\<exists>ch' s'. ChannelImpl_Write env0 (Ptr 2 0) (int_channel\<lparr>ch_queue := [0]\<rparr>) wait_sys = Inr (Returned, ch', s') \<and>
     mem_load (mem s') (Ptr 1 0) 4 = Inr ''wxyz'' \<and> ready_tasks (task_mgr (sch s')) = [1]"
proof -
  let ?ch = "int_channel\<lparr>ch_queue := [0]\<rparr>"
  have ok: "ch_ok ?ch" using int_channel_ok(1)
    by (simp add: ch_ok_def) (simp add: int_channel_def Channel_Channel_def ChannelImpl_Create_def)
  have "mem_load (mem wait_sys) (Ptr 2 0) (unat (blk_size ?ch)) = Inr ''wxyz''"
    by (simp add: wait_sys_def mem_load_def valid_range_def slice_def int_channel_ok(4))
  moreover have "\<exists>ch' s' v. (if full ?ch then ChannelImpl_Read env0 (Ptr 2 0) ?ch wait_sys
        else ChannelImpl_Write env0 (Ptr 2 0) ?ch wait_sys) = Inr (Returned, ch', s') \<and>
      ch_ok ch' \<and> full ch' = full ?ch \<and> ch_queue ch' = [] \<and>
      wc_state (ctxs s' ! 0) = kReady \<and> (\<forall>d. d \<noteq> 0 \<longrightarrow> ctxs s' ! d = ctxs wait_sys ! d) \<and>
      ready_tasks (task_mgr (sch s')) = ready_tasks (task_mgr (sch wait_sys)) @ [snd (wc_co (ctxs wait_sys ! 0))] \<and>
      (if full ?ch
       then mem_load (mem wait_sys) (wc_buf (ctxs wait_sys ! 0)) (unat (blk_size ?ch)) = Inr v \<and>
            contents ch' = tl (contents ?ch) @ [v] \<and> mem_load (mem s') (Ptr 2 0) (unat (blk_size ?ch)) = Inr (hd (contents ?ch))
       else mem_load (mem wait_sys) (Ptr 2 0) (unat (blk_size ?ch)) = Inr v \<and> contents ch' = contents ?ch \<and>
            mem_load (mem s') (wc_buf (ctxs wait_sys ! 0)) (unat (blk_size ?ch)) = Inr v)"
    by (rule Channel_handover [OF ok, where skipped = "[]"])
      (simp_all add: wait_sys_def valid_range_def int_channel_ok(4))
  ultimately show ?thesis
    by (auto simp: int_channel_ok wait_sys_def two_cos_def TaskManager_init_def)
qed

section \<open>What goes wrong for a waiting coroutine\<close>

lemma park_frame:
  assumes "park env ch co c s = Inr s'"
  shows "mem s' = mem s" "ctxs s' = ctxs s" "answers s' = answers s" "task_mgr (sch s') = task_mgr (sch s)"
  using assms
  by (auto simp: park_def Let_def SchedulerImpl_AddTimer_def SchedulerImpl_Yield_def upd_co_def upd_sch_def
      res_bind_Inr_conv split: if_splits option.splits)

text \<open>The context that a reader of an empty channel leaves in the queue.\<close>

lemma Read_suspended:
  assumes "rx ch = wx ch" "\<not> full ch" and read: "ChannelImpl_Read env p ch s = Inr (Suspended c, ch', s')"
  obtains ons where "SchedulerImpl_on_stack p s = Inr ons" "c = length (ctxs s)" "ch' = ch\<lparr>ch_queue := ch_queue ch @ [c]\<rparr>"
    and "mem s' = mem s @ [e_junk env (if ons then 24 + unat (blk_size ch) else 24)]" "length (ctxs s') = Suc c"
    and "wc_state (ctxs s' ! c) = of_char (e_junk env (if ons then 24 + unat (blk_size ch) else 24) ! 8)"
    and "wc_buf (ctxs s' ! c) = (if ons then Ptr (length (mem s)) 576 else p)"
    and "answers s' = answers s" "task_mgr (sch s') = task_mgr (sch s)" "\<forall>d < c. ctxs s' ! d = ctxs s ! d"
proof -
  obtain co s1 where co: "running_co (sch s) = Some co"
    and c: "ChannelImpl_CreateWaitCtxInfo env ch co p s = Inr (c, s1)"
    and pk: "park env (ch\<lparr>ch_queue := ch_queue ch @ [c]\<rparr>) co c s1 = Inr s'"
    and ch': "ch' = ch\<lparr>ch_queue := ch_queue ch @ [c]\<rparr>"
    using assms by (auto simp: ChannelImpl_Read_def Let_def res_bind_Inr_conv split: option.splits)
  from c obtain ons where ons: "SchedulerImpl_on_stack p s = Inr ons"
    by (auto simp: ChannelImpl_CreateWaitCtxInfo_def res_bind_Inr_conv)
  show ?thesis
    using c ons
    by (intro that [OF ons _ ch'])
      (auto simp: ChannelImpl_CreateWaitCtxInfo_def CreateWaitCtx_def Let_def park_frame [OF pk] sizeof_WaitCtx_def
        state_offset_def nth_append)
qed

text \<open>C39: a coroutine that waits to read into a variable on its own stack cannot be served. The buffer set aside for
  it is placed 24 contexts, and not one context, behind the start of the block allocated for both, which
  is past its end for every block size. If the state byte of the new context, memory that is never initialised, happens to be
  \<open>kInit\<close>, that is 0, the next \<open>Write\<close> of a valid block writes there; if it is not, the loop over the queue drops the waiter,
  as in \<open>Read_uninitialised_state_forgotten\<close>. The channel is empty with no other waiter.\<close>

theorem Read_on_stack_overruns:
  assumes "ch_ok ch" "contents ch = []" "ch_queue ch = []"
    and "SchedulerImpl_on_stack p s = Inr True" "ChannelImpl_Read env p ch s = Inr (Suspended c, ch', s')"
    and "\<And>n. length (e_junk env n) = n" "e_junk env (24 + unat (blk_size ch)) ! 8 = CHR 0x00"
    and "valid_range (mem s') p2 (unat (blk_size ch))"
  shows "ChannelImpl_Write env2 p2 ch' s' = Inl OutOfBounds"
proof -
  have e: "rx ch = wx ch" "\<not> full ch" using ch_count_0 [OF assms(1)] assms(2) contents_length [of ch] by auto
  from Read_suspended [OF e assms(5)] obtain
    c: "c = length (ctxs s)" "ch' = ch\<lparr>ch_queue := [c]\<rparr>" "mem s' = mem s @ [e_junk env (24 + unat (blk_size ch))]"
      "length (ctxs s') = Suc c" "wc_state (ctxs s' ! c) = kInit" "wc_buf (ctxs s' ! c) = Ptr (length (mem s)) 576"
    using assms(3,4,7) by (auto simp: kInit_def)
  obtain v where v: "mem_load (mem s') p2 (unat (blk_size ch)) = Inr v" using assms(8) by (auto simp: mem_load_def)
  have "mem_store (mem s') (Ptr (length (mem s)) 576) v = Inl OutOfBounds"
    using length_mem_load [OF v] assms(6) by (simp add: mem_store_def valid_range_def c(3) nth_append)
  then show ?thesis
    using e c v pop_waiter_some [of "[]" "ctxs s'" c "[]"] by (simp add: ChannelImpl_Write_def memcpy_def)
qed

text \<open>A coroutine that waits can be forgotten. The state of a new wait context is whatever the allocated
  memory held: when that byte is not \<open>kInit\<close>, the next \<open>Write\<close> drops the waiting reader from the
  queue without waking it and keeps its block in the channel.\<close>

theorem Read_uninitialised_state_forgotten:
  assumes "ch_ok ch" "contents ch = []" "ch_queue ch = []"
    and "SchedulerImpl_on_stack p s = Inr False" "ChannelImpl_Read env p ch s = Inr (Suspended c, ch', s')"
    and "e_junk env 24 ! 8 \<noteq> CHR 0x00"
    and "mem_load (mem s') p2 (unat (blk_size ch)) = Inr v"
  shows "\<exists>ch2. ChannelImpl_Write env2 p2 ch' s' = Inr (Returned, ch2, s') \<and> contents ch2 = [v] \<and> ch_queue ch2 = [] \<and>
    ready_tasks (task_mgr (sch s')) = ready_tasks (task_mgr (sch s))"
proof -
  have e: "rx ch = wx ch" "\<not> full ch" using ch_count_0 [OF assms(1)] assms(2) contents_length [of ch] by auto
  have "of_char (e_junk env 24 ! 8) \<noteq> (0 :: uint8)"
    using assms(6) by (simp add: of_char_eq_0_iff)
  moreover obtain ons where ons: "SchedulerImpl_on_stack p s = Inr ons" "ch' = ch\<lparr>ch_queue := ch_queue ch @ [c]\<rparr>"
      "wc_state (ctxs s' ! c) = of_char (e_junk env (if ons then 24 + unat (blk_size ch) else 24) ! 8)"
      "task_mgr (sch s') = task_mgr (sch s)"
    using Read_suspended [OF e assms(5)] by metis
  ultimately have c: "ch' = ch\<lparr>ch_queue := [c]\<rparr>" "wc_state (ctxs s' ! c) \<noteq> kInit" "task_mgr (sch s') = task_mgr (sch s)"
    using assms(3,4) by (simp_all add: kInit_def)
  have "ch_ok ch'" using assms(1) e by (simp add: c ch_ok_def)
  moreover have "\<forall>d \<in> set (ch_queue ch'). wc_state (ctxs s' ! d) \<noteq> kInit" using c by simp
  moreover have "mem_load (mem s') p2 (unat (blk_size ch')) = Inr v" "\<not> full ch'" "contents ch' = []"
    using assms(2,7) e(2) by (simp_all add: c(1))
  ultimately obtain ch2 where "ChannelImpl_Write env2 p2 ch' s' = Inr (Returned, ch2, s')" "contents ch2 = [v]" "ch_queue ch2 = []"
    using Write_room [of ch' s' p2 v env2] by auto
  then show ?thesis using c(3) by simp
qed

text \<open>A coroutine that reads from the empty \<open>int_channel\<close>, into its stack and into a variable elsewhere.\<close>

definition reading :: "(int \<Rightarrow> epoll_event option) sys" where
  "reading = upd_sch (\<lambda>sc. sc\<lparr>running_co := Some 1\<rparr>)
     ((two_cos (Some 1) (Some 7))\<lparr>mem := [''0123456xyz'', ''abcd'', ''wxyz'']\<rparr>)"

definition env_junk :: "char \<Rightarrow> (int \<Rightarrow> epoll_event option) env" where
  "env_junk b = env0\<lparr>e_junk := (\<lambda>n. replicate n b)\<rparr>"

lemma reading_on_stack: "SchedulerImpl_on_stack (Ptr 0 2) reading = Inr True"
    "SchedulerImpl_on_stack (Ptr 1 0) reading = Inr False"
  by (simp_all add: reading_def two_cos_def upd_sch_def SchedulerImpl_on_stack_def stack_of_def Coroutine_init_def)

lemma reading_facts: "running_co (sch reading) = Some 1" "ctxs reading = []" "main_co (sch reading) = 2"
    "co_ctx (co_at 2 reading) = Some 0" "length (pool (co_pool (sch reading))) = 3"
    "mem reading = [''0123456xyz'', ''abcd'', ''wxyz'']" "ready_tasks (task_mgr (sch reading)) = []"
  by (simp_all add: reading_def two_cos_def upd_sch_def TaskManager_init_def)

lemma park_untimed:
  assumes "ch_ms ch = - 1" "running_co (sch s) = Some co" "co \<noteq> main_co (sch s)" "co_ctx (co_at (main_co (sch s)) s) \<noteq> None"
  shows "\<exists>s'. park env ch co c s = Inr s'"
  using assms by (simp add: park_def Let_def SchedulerImpl_Yield_def)
    (simp add: upd_co_def upd_sch_def)

lemma reading_suspends:
  assumes "SchedulerImpl_on_stack p reading = Inr ons"
  obtains ch' s' where "ChannelImpl_Read (env_junk b) p int_channel reading = Inr (Suspended 0, ch', s')"
    and "mem s' = mem reading @ [replicate (if ons then 28 else 24) b]"
proof -
  let ?ch = "int_channel\<lparr>ch_queue := [0]\<rparr>"
  have ch: "rx int_channel = wx int_channel" "ch_ms int_channel = - 1"
    by (simp_all add: int_channel_def Channel_Channel_def ChannelImpl_Create_def)
  let ?block = "replicate (if ons then 28 else 24) b"
  obtain s1 where s1: "ChannelImpl_CreateWaitCtxInfo (env_junk b) int_channel 1 p reading = Inr (0, s1)"
    "mem s1 = mem reading @ [?block]" "sch s1 = sch reading"
    using assms by (simp add: ChannelImpl_CreateWaitCtxInfo_def CreateWaitCtx_def Let_def reading_facts env_junk_def
        sizeof_WaitCtx_def int_channel_ok(4))
  obtain s2 where s2: "park (env_junk b) ?ch 1 0 s1 = Inr s2"
    using park_untimed [of ?ch s1 1 "env_junk b" 0] ch s1(3) reading_facts by auto
  have "ChannelImpl_Read (env_junk b) p int_channel reading = Inr (Suspended 0, ?ch, s2)"
    using ch s1(1) s2 by (simp add: ChannelImpl_Read_def int_channel_ok reading_facts Let_def)
  with that park_frame(1) [OF s2] s1(2) show ?thesis by auto
qed

theorem Read_on_stack_overruns_witness:
  "\<exists>ch' s'. ChannelImpl_Read (env_junk CHR 0x00) (Ptr 0 2) int_channel reading = Inr (Suspended 0, ch', s') \<and>
     ChannelImpl_Write env0 (Ptr 2 0) ch' s' = Inl OutOfBounds"
proof -
  obtain ch' s' where r: "ChannelImpl_Read (env_junk CHR 0x00) (Ptr 0 2) int_channel reading = Inr (Suspended 0, ch', s')"
    "mem s' = mem reading @ [replicate 28 CHR 0x00]"
    by (rule reading_suspends [OF reading_on_stack(1), of "CHR 0x00"]) simp
  have "valid_range (mem s') (Ptr 2 0) (unat (blk_size int_channel))"
    by (simp add: r(2) reading_facts valid_range_def int_channel_ok(4))
  with Read_on_stack_overruns [OF int_channel_ok(1,2,3) reading_on_stack(1) r(1)] r(1) show ?thesis
    by (simp add: env_junk_def int_channel_ok(4))
qed

theorem Read_uninitialised_state_forgotten_witness:
  "\<exists>ch' s' ch2. ChannelImpl_Read (env_junk CHR ''x'') (Ptr 1 0) int_channel reading = Inr (Suspended 0, ch', s') \<and>
     ChannelImpl_Write env0 (Ptr 2 0) ch' s' = Inr (Returned, ch2, s') \<and> ch_queue ch2 = [] \<and>
     ready_tasks (task_mgr (sch s')) = []"
proof -
  obtain ch' s' where r: "ChannelImpl_Read (env_junk CHR ''x'') (Ptr 1 0) int_channel reading = Inr (Suspended 0, ch', s')"
    "mem s' = mem reading @ [replicate 24 CHR ''x'']"
    by (rule reading_suspends [OF reading_on_stack(2), of "CHR ''x''"]) simp
  have "mem_load (mem s') (Ptr 2 0) (unat (blk_size int_channel)) = Inr ''wxyz''"
    by (simp add: r(2) reading_facts mem_load_def valid_range_def slice_def int_channel_ok(4))
  then show ?thesis
    using Read_uninitialised_state_forgotten [OF int_channel_ok(1,2,3) reading_on_stack(2) r(1), of "Ptr 2 0" "''wxyz''" env0] r(1)
    by (auto simp: env_junk_def reading_facts)
qed

end
