(* ===== verification/Channel_Handle.thy ===== *)
theory Channel_Handle
  imports Channel
begin

text \<open>
  Channels as programs hold them: \<open>Channel<T>\<close> of \<open>include/channel.h\<close>, an object with a shared pointer to a \<open>ChannelImpl\<close>. Channels are copied into
  the closures of coroutines, moved and assigned; the last one destroys what they share. The state has the control blocks of the
  shared pointers, each with the channel and the number of its owners until the channel is destroyed, and the objects that exist, by their
  addresses, with their pointers. \<open>ChannelImpl\<close> has no destructor of its own: when the last owner is gone, its members are
  destroyed, but the block that \<open>buf_\<close> points to is not freed.

  The specification knows no counts: objects are plain references to channels that are never destroyed (\<open>ref_do\<close>).
\<close>

section \<open>Shared pointers\<close>

record channels =
  cells :: "(ChannelImpl \<times> nat) option list"
  vars :: "nat \<rightharpoonup> nat option"

definition no_channels :: channels where
  "no_channels = \<lparr>cells = [], vars = Map.empty\<rparr>"

definition cell_at :: "nat \<Rightarrow> channels \<Rightarrow> (ChannelImpl \<times> nat) res" where
  "cell_at i st = (if i < length (cells st) then case cells st ! i of None \<Rightarrow> Inl WildPointer | Some c \<Rightarrow> Inr c else Inl WildPointer)"

definition set_cell :: "nat \<Rightarrow> (ChannelImpl \<times> nat) option \<Rightarrow> channels \<Rightarrow> channels" where
  "set_cell i c st = st\<lparr>cells := (cells st)[i := c]\<rparr>"

definition set_var :: "nat \<Rightarrow> nat option \<Rightarrow> channels \<Rightarrow> channels" where
  "set_var h p st = st\<lparr>vars := (vars st)(h \<mapsto> p)\<rparr>"

definition var_at :: "nat \<Rightarrow> channels \<Rightarrow> (nat option) res" where
  "var_at h st = (case vars st h of None \<Rightarrow> Inl WildPointer | Some p \<Rightarrow> Inr p)"

definition retain :: "nat option \<Rightarrow> channels \<Rightarrow> channels res" where
  "retain p st = (case p of None \<Rightarrow> Inr st | Some i \<Rightarrow> res_bind (cell_at i st) (\<lambda>(ch, n). Inr (set_cell i (Some (ch, Suc n)) st)))"

text \<open>The last owner destroys the channel.\<close>

definition release :: "nat option \<Rightarrow> channels \<Rightarrow> channels res" where
  "release p st = (case p of None \<Rightarrow> Inr st
     | Some i \<Rightarrow> res_bind (cell_at i st) (\<lambda>(ch, n). Inr (set_cell i (if n = 1 then None else Some (ch, n - 1)) st)))"

section \<open>The operations\<close>

definition Channel_construct :: "(nat \<Rightarrow> byte list) \<Rightarrow> nat \<Rightarrow> int \<Rightarrow> uint32 \<Rightarrow> nat \<Rightarrow> channels \<Rightarrow> channels" where
  "Channel_construct junk tsize blocks ms h st =
     set_var h (Some (length (cells st))) (st\<lparr>cells := cells st @ [Some (Channel_Channel junk tsize blocks ms, 1)]\<rparr>)"

definition Channel_destroy :: "nat \<Rightarrow> channels \<Rightarrow> channels res" where
  "Channel_destroy h st = res_bind (var_at h st) (\<lambda>p. release p (st\<lparr>vars := (vars st)(h := None)\<rparr>))"

definition Channel_move :: "nat \<Rightarrow> nat \<Rightarrow> channels \<Rightarrow> channels res" where
  "Channel_move h c st = res_bind (var_at c st) (\<lambda>p. Inr (set_var h p (set_var c None st)))"

definition Channel_assign :: "nat \<Rightarrow> nat \<Rightarrow> channels \<Rightarrow> channels res" where
  "Channel_assign h c st =
     res_bind (var_at c st) (\<lambda>p. res_bind (var_at h st) (\<lambda>old. res_bind (retain p st) (\<lambda>st1. release old (set_var h p st1))))"

text \<open>The pointer starts as null and is then assigned to.\<close>

definition Channel_copy :: "nat \<Rightarrow> nat \<Rightarrow> channels \<Rightarrow> channels res" where
  "Channel_copy h c st = Channel_assign h c (set_var h None st)"

text \<open>The assignment of a shared pointer takes the pointer out of its source first, and releases the old one last.\<close>

definition Channel_assign_move :: "nat \<Rightarrow> nat \<Rightarrow> channels \<Rightarrow> channels res" where
  "Channel_assign_move h c st =
     res_bind (var_at c st) (\<lambda>p. res_bind (var_at h (set_var c None st)) (\<lambda>old. release old (set_var h p (set_var c None st))))"

text \<open>\<open>impl_->Read\<close> and \<open>impl_->Write\<close>.\<close>

definition deref :: "nat \<Rightarrow> channels \<Rightarrow> (nat \<times> ChannelImpl \<times> nat) res" where
  "deref h st = res_bind (var_at h st) (\<lambda>p. case p of None \<Rightarrow> Inl NullDeref | Some i \<Rightarrow> res_bind (cell_at i st) (\<lambda>c. Inr (i, c)))"

definition Channel_op_get :: "'k env \<Rightarrow> nat \<Rightarrow> ptr \<Rightarrow> channels \<times> 'k sys \<Rightarrow> (outcome \<times> channels \<times> 'k sys) res" where
  "Channel_op_get env h p = (\<lambda>(st, s). res_bind (deref h st) (\<lambda>(i, ch, n).
     res_bind (Channel_get env p ch s) (\<lambda>(out, ch', s'). Inr (out, set_cell i (Some (ch', n)) st, s'))))"

definition Channel_op_put :: "'k env \<Rightarrow> nat \<Rightarrow> ptr \<Rightarrow> channels \<times> 'k sys \<Rightarrow> (outcome \<times> channels \<times> 'k sys) res" where
  "Channel_op_put env h p = (\<lambda>(st, s). res_bind (deref h st) (\<lambda>(i, ch, n).
     res_bind (Channel_put env p ch s) (\<lambda>(out, ch', s'). Inr (out, set_cell i (Some (ch', n)) st, s'))))"

section \<open>Programs\<close>

text \<open>What a program does with its channels. An object is constructed at an address where there is none; the other operations are on
  objects that exist. \<open>Use\<close> stands for both operators: they replace the channel by what they make of it.\<close>

datatype channel_op = New nat nat int uint32 | Copy nat nat | Move nat nat | Assign nat nat | AssignMove nat nat | Destroy nat
  | Use nat "ChannelImpl \<Rightarrow> ChannelImpl"

fun legal :: "channel_op \<Rightarrow> channels \<Rightarrow> bool" where
  "legal (New h _ _ _) st \<longleftrightarrow> vars st h = None"
| "legal (Copy h c) st \<longleftrightarrow> vars st h = None \<and> vars st c \<noteq> None"
| "legal (Move h c) st \<longleftrightarrow> vars st h = None \<and> vars st c \<noteq> None"
| "legal (Assign h c) st \<longleftrightarrow> vars st h \<noteq> None \<and> vars st c \<noteq> None"
| "legal (AssignMove h c) st \<longleftrightarrow> vars st h \<noteq> None \<and> vars st c \<noteq> None"
| "legal (Destroy h) st \<longleftrightarrow> vars st h \<noteq> None"
| "legal (Use h _) st \<longleftrightarrow> vars st h \<noteq> None"

fun channel_do :: "(nat \<Rightarrow> byte list) \<Rightarrow> channel_op \<Rightarrow> channels \<Rightarrow> channels res" where
  "channel_do junk (New h tsize blocks ms) st = Inr (Channel_construct junk tsize blocks ms h st)"
| "channel_do junk (Copy h c) st = Channel_copy h c st"
| "channel_do junk (Move h c) st = Channel_move h c st"
| "channel_do junk (Assign h c) st = Channel_assign h c st"
| "channel_do junk (AssignMove h c) st = Channel_assign_move h c st"
| "channel_do junk (Destroy h) st = Channel_destroy h st"
| "channel_do junk (Use h f) st = res_bind (deref h st) (\<lambda>(i, ch, n). Inr (set_cell i (Some (f ch, n)) st))"

primrec channel_run :: "(nat \<Rightarrow> byte list) \<Rightarrow> channel_op list \<Rightarrow> channels \<Rightarrow> channels res" where
  "channel_run junk [] st = Inr st"
| "channel_run junk (x # xs) st = res_bind (channel_do junk x st) (channel_run junk xs)"

text \<open>What the program means: references, and a heap of channels that only grows. A program that constructs an object
  where there is one, or uses one that does not exist, means nothing (\<open>WildPointer\<close>).\<close>

type_synonym refs = "(nat \<rightharpoonup> nat option) \<times> ChannelImpl list"

fun ref_do :: "(nat \<Rightarrow> byte list) \<Rightarrow> channel_op \<Rightarrow> refs \<Rightarrow> refs res" where
  "ref_do junk (New h tsize blocks ms) (v, heap) =
     (if v h = None then Inr (v(h \<mapsto> Some (length heap)), heap @ [Channel_Channel junk tsize blocks ms]) else Inl WildPointer)"
| "ref_do junk (Copy h c) (v, heap) =
     (case (v h, v c) of (None, Some p) \<Rightarrow> Inr (v(h \<mapsto> p), heap) | _ \<Rightarrow> Inl WildPointer)"
| "ref_do junk (Move h c) (v, heap) =
     (case (v h, v c) of (None, Some p) \<Rightarrow> Inr (v(c \<mapsto> None, h \<mapsto> p), heap) | _ \<Rightarrow> Inl WildPointer)"
| "ref_do junk (Assign h c) (v, heap) =
     (case (v h, v c) of (Some _, Some p) \<Rightarrow> Inr (v(h \<mapsto> p), heap) | _ \<Rightarrow> Inl WildPointer)"
| "ref_do junk (AssignMove h c) (v, heap) =
     (case (v h, v c) of (Some _, Some p) \<Rightarrow> Inr (v(c \<mapsto> None, h \<mapsto> p), heap) | _ \<Rightarrow> Inl WildPointer)"
| "ref_do junk (Destroy h) (v, heap) = (if v h = None then Inl WildPointer else Inr (v(h := None), heap))"
| "ref_do junk (Use h f) (v, heap) =
     (case v h of
        None \<Rightarrow> Inl WildPointer
      | Some None \<Rightarrow> Inl NullDeref
      | Some (Some i) \<Rightarrow> Inr (v, heap[i := f (heap ! i)]))"

primrec ref_run :: "(nat \<Rightarrow> byte list) \<Rightarrow> channel_op list \<Rightarrow> refs \<Rightarrow> refs res" where
  "ref_run junk [] r = Inr r"
| "ref_run junk (x # xs) r = res_bind (ref_do junk x r) (ref_run junk xs)"

section \<open>Ownership\<close>

definition owners :: "channels \<Rightarrow> nat \<Rightarrow> nat set" where
  "owners st i = {h. vars st h = Some (Some i)}"

definition count_of :: "channels \<Rightarrow> nat \<Rightarrow> nat" where
  "count_of st i = (if i < length (cells st) then case cells st ! i of None \<Rightarrow> 0 | Some (_, n) \<Rightarrow> n else 0)"

text \<open>Every channel counts its owners, the objects and the pointers that are held by an operation in between, and it is alive as long as
  there are any.\<close>

definition held :: "nat multiset \<Rightarrow> channels \<Rightarrow> bool" where
  "held T st \<longleftrightarrow> finite (dom (vars st)) \<and> (\<forall>i. count_of st i = card (owners st i) + count T i) \<and>
     (\<forall>ch. Some (ch, 0) \<notin> set (cells st))"

definition temp :: "nat option \<Rightarrow> nat multiset" where
  "temp p = (case p of None \<Rightarrow> {#} | Some i \<Rightarrow> {#i#})"

lemma temp_simps [simp]: "temp None = {#}" "temp (Some i) = {#i#}"
  by (simp_all add: temp_def)

lemma count_of_set_cell: "i < length (cells st) \<Longrightarrow>
  count_of (set_cell i c st) j = (if j = i then case c of None \<Rightarrow> 0 | Some (_, n) \<Rightarrow> n else count_of st j)"
  by (simp add: count_of_def set_cell_def)

lemma set_cell_other [simp]: "length (cells (set_cell i c st)) = length (cells st)" "vars (set_cell i c st) = vars st" "owners (set_cell i c st) = owners st"
  by (simp_all add: set_cell_def owners_def fun_eq_iff)

lemma set_var_other [simp]: "cells (set_var h p st) = cells st"
    "count_of (set_var h p st) = count_of st" "vars (set_var h p st) = (vars st)(h \<mapsto> p)"
  by (simp_all add: set_var_def count_of_def fun_eq_iff)

lemma finite_owners: "finite (dom (vars st)) \<Longrightarrow> finite (owners st i)"
  by (erule finite_subset [rotated]) (auto simp: owners_def)

lemma cell_alive:
  assumes "0 < count_of st i"
  shows "\<exists>ch. i < length (cells st) \<and> cells st ! i = Some (ch, count_of st i) \<and> cell_at i st = Inr (ch, count_of st i)"
  using assms by (auto simp: count_of_def cell_at_def split: if_splits option.splits)

lemma held_set_cell:
  assumes "held T st" "i < length (cells st)" "case c of None \<Rightarrow> True | Some (_, n) \<Rightarrow> 0 < n"
    and "\<forall>j. card (owners st j) + count T' j = (if j = i then case c of None \<Rightarrow> 0 | Some (_, n) \<Rightarrow> n else count_of st j)"
  shows "held T' (set_cell i c st)"
proof -
  have "Some (ch, 0) \<notin> set (cells (set_cell i c st))" for ch
    using assms(1,3) set_update_subset_insert [of "cells st" i c] by (auto simp: held_def set_cell_def)
  with assms(1,2,4) show ?thesis by (simp add: held_def count_of_set_cell)
qed

lemma retain_held:
  assumes "held T st" "\<And>i. p = Some i \<Longrightarrow> 0 < count_of st i"
  shows "\<exists>st'. retain p st = Inr st' \<and> held (temp p + T) st' \<and> vars st' = vars st"
proof (cases p)
  case (Some i)
  then obtain ch where c: "i < length (cells st)" "cell_at i st = Inr (ch, count_of st i)" using cell_alive assms(2) by blast
  have "held (temp p + T) (set_cell i (Some (ch, Suc (count_of st i))) st)"
    using assms(1) Some by (intro held_set_cell [OF assms(1) c(1)]) (auto simp: held_def)
  with Some c show ?thesis by (simp add: retain_def)
qed (simp add: retain_def assms)

lemma release_held:
  assumes "held (temp p + T) st"
  shows "\<exists>st'. release p st = Inr st' \<and> held T st' \<and> vars st' = vars st"
proof (cases p)
  case (Some i)
  then have n: "count_of st i = Suc (card (owners st i) + count T i)" using assms by (simp add: held_def)
  then obtain ch where c: "i < length (cells st)" "cell_at i st = Inr (ch, count_of st i)" using cell_alive [of st i] by auto
  let ?n = "count_of st i"
  have "held T (set_cell i (if ?n = 1 then None else Some (ch, ?n - 1)) st)"
    using assms Some n by (intro held_set_cell [OF assms c(1)]) (auto simp: held_def)
  with Some c show ?thesis by (simp add: release_def)
qed (use assms in \<open>simp add: release_def\<close>)

text \<open>What changes when a pointer is stored in an object, or an object goes: the pointer in hand becomes the one that was there.\<close>

lemma held_vars:
  assumes "held T st" "finite (dom (vars st'))" "cells st' = cells st"
    and "\<And>i. card (owners st' i) + count T' i = card (owners st i) + count T i"
  shows "held T' st'"
proof -
  have "count_of st' = count_of st" using assms(3) by (simp add: fun_eq_iff count_of_def)
  with assms show ?thesis by (simp add: held_def)
qed

lemma card_owners_minus:
  assumes "finite (dom (vars st))" "vars st h = Some old"
  shows "card (owners st i - {h}) + count (temp old) i = card (owners st i)"
proof -
  have h: "h \<in> owners st i \<longleftrightarrow> old = Some i" using assms(2) by (simp add: owners_def)
  show ?thesis
  proof (cases "old = Some i")
    case True
    with h show ?thesis using card.remove [OF finite_owners [OF assms(1)], of h i] by simp
  next
    case False
    with h show ?thesis by (cases old) simp_all
  qed
qed

lemma card_owners_set_var:
  assumes "finite (dom (vars st))"
  shows "card (owners (set_var h p st) i) = card (owners st i - {h}) + count (temp p) i"
proof -
  have "owners (set_var h p st) i = (if p = Some i then insert h (owners st i - {h}) else owners st i - {h})" by (auto simp: owners_def)
  with finite_owners [OF assms, of i] show ?thesis by (cases p) (simp_all add: card.insert_remove)
qed

lemma held_finite: "held T st \<Longrightarrow> finite (dom (vars st))"
  by (simp add: held_def)

lemma set_var_new_held:
  assumes "held (temp p + T) st" "vars st h = None"
  shows "held T (set_var h p st)"
proof (rule held_vars [OF assms(1)])
  have "h \<notin> owners st i" for i using assms(2) by (simp add: owners_def)
  then show "card (owners (set_var h p st) i) + count T i = card (owners st i) + count (temp p + T) i" for i
    by (simp add: card_owners_set_var [OF held_finite [OF assms(1)]])
qed (simp_all add: held_finite [OF assms(1)])

lemma set_var_held:
  assumes "held (temp p + T) st" "vars st h = Some old"
  shows "held (temp old + T) (set_var h p st)"
proof (rule held_vars [OF assms(1)])
  show "card (owners (set_var h p st) i) + count (temp old + T) i = card (owners st i) + count (temp p + T) i" for i
    using card_owners_minus [OF held_finite [OF assms(1)] assms(2), of i]
    by (simp add: card_owners_set_var [OF held_finite [OF assms(1)]])
qed (simp_all add: held_finite [OF assms(1)])

lemma unset_var_held:
  assumes "held T st" "vars st h = Some p"
  shows "held (temp p + T) (st\<lparr>vars := (vars st)(h := None)\<rparr>)"
proof (rule held_vars [OF assms(1)])
  have "owners (st\<lparr>vars := (vars st)(h := None)\<rparr>) i = owners st i - {h}" for i by (auto simp: owners_def)
  then show "card (owners (st\<lparr>vars := (vars st)(h := None)\<rparr>) i) + count (temp p + T) i = card (owners st i) + count T i" for i
    using card_owners_minus [OF held_finite [OF assms(1)] assms(2), of i] by simp
qed (simp_all add: held_finite [OF assms(1)])

lemma owned_alive:
  assumes "held T st" "vars st h = Some (Some i)"
  shows "0 < count_of st i"
proof -
  have "h \<in> owners st i" using assms(2) by (simp add: owners_def)
  then have "0 < card (owners st i)" using finite_owners [OF held_finite [OF assms(1)]] card_gt_0_iff by blast
  with assms(1) show ?thesis by (simp add: held_def)
qed

section \<open>The operations keep the counts\<close>

lemma construct_held:
  assumes "held {#} st" "vars st h = None"
  shows "held {#} (Channel_construct junk tsize blocks ms h st)"
proof -
  let ?st = "st\<lparr>cells := cells st @ [Some (Channel_Channel junk tsize blocks ms, Suc 0)]\<rparr>"
  have c: "count_of ?st i = (if i = length (cells st) then 1 else count_of st i)" for i
    by (auto simp: count_of_def nth_append)
  have "card (owners ?st i) = card (owners st i)" for i by (simp add: owners_def)
  moreover have "card (owners st (length (cells st))) = 0" using assms(1) by (simp add: held_def count_of_def) (metis less_irrefl)
  ultimately have "held (temp (Some (length (cells st))) + {#}) ?st"
    using assms(1) by (simp add: held_def c)
  then show ?thesis using set_var_new_held [of _ _ ?st h] assms(2) by (simp add: Channel_construct_def)
qed

lemma destroy_held:
  assumes "held {#} st" "vars st h \<noteq> None"
  shows "\<exists>st'. Channel_destroy h st = Inr st' \<and> held {#} st'"
proof -
  obtain p where p: "vars st h = Some p" using assms(2) by blast
  from release_held [OF unset_var_held [OF assms(1) p]] p show ?thesis by (auto simp: Channel_destroy_def var_at_def)
qed

lemma take_held:
  assumes "held {#} st" "vars st c = Some p"
  shows "held (temp p) (set_var c None st)"
  using set_var_held [of None "{#}" st c p] assms by simp

lemma move_held:
  assumes "held {#} st" "vars st h = None" "vars st c \<noteq> None"
  shows "\<exists>st'. Channel_move h c st = Inr st' \<and> held {#} st'"
proof -
  obtain p where p: "vars st c = Some p" using assms(3) by blast
  have "h \<noteq> c" using assms(2,3) by auto
  with set_var_new_held [of p "{#}" "set_var c None st" h] take_held [OF assms(1) p] assms(2) p show ?thesis
    by (simp add: Channel_move_def var_at_def)
qed

lemma assign_held:
  assumes "held {#} st" "vars st h \<noteq> None" "vars st c \<noteq> None"
  shows "\<exists>st'. Channel_assign h c st = Inr st' \<and> held {#} st'"
proof -
  obtain p old where p: "vars st c = Some p" "vars st h = Some old" using assms(2,3) by blast
  obtain st1 where st1: "retain p st = Inr st1" "held (temp p + {#}) st1" "vars st1 = vars st"
    using retain_held [OF assms(1), of p] owned_alive [OF assms(1), of c] p by auto
  from release_held [OF set_var_held [OF st1(2), of h old]] p st1 show ?thesis by (auto simp: Channel_assign_def var_at_def)
qed

lemma copy_held:
  assumes "held {#} st" "vars st h = None" "vars st c \<noteq> None"
  shows "\<exists>st'. Channel_copy h c st = Inr st' \<and> held {#} st'"
  using assign_held [OF set_var_new_held [of None "{#}" st h], of h c] assms by (auto simp: Channel_copy_def)

lemma assign_move_held:
  assumes "held {#} st" "vars st h \<noteq> None" "vars st c \<noteq> None"
  shows "\<exists>st'. Channel_assign_move h c st = Inr st' \<and> held {#} st'"
proof -
  obtain p where p: "vars st c = Some p" using assms(3) by blast
  obtain old where old: "vars (set_var c None st) h = Some old" using assms(2) by (cases "h = c") auto
  from release_held [OF set_var_held [of p "{#}" "set_var c None st" h old]] take_held [OF assms(1) p] p old show ?thesis
    by (auto simp: Channel_assign_move_def var_at_def)
qed

lemma deref_held:
  assumes "held {#} st" "vars st h = Some (Some i)"
  shows "\<exists>ch. i < length (cells st) \<and> cells st ! i = Some (ch, card (owners st i)) \<and> deref h st = Inr (i, ch, card (owners st i))"
proof -
  have "count_of st i = card (owners st i)" using assms(1) by (simp add: held_def)
  with cell_alive [OF owned_alive [OF assms]] assms(2) show ?thesis by (auto simp: deref_def var_at_def)
qed

lemma use_held:
  assumes "held {#} st" "vars st h = Some p"
  shows "case p of None \<Rightarrow> channel_do junk (Use h f) st = Inl NullDeref | Some i \<Rightarrow> \<exists>st'. channel_do junk (Use h f) st = Inr st' \<and> held {#} st'"
proof (cases p)
  case None
  with assms(2) show ?thesis by (simp add: deref_def var_at_def)
next
  case (Some i)
  with assms(2) have v: "vars st h = Some (Some i)" by simp
  from deref_held [OF assms(1) v] obtain ch where ch: "i < length (cells st)" "deref h st = Inr (i, ch, card (owners st i))" by blast
  have c: "\<forall>j. count_of st j = card (owners st j)" using assms(1) by (simp add: held_def)
  then have "held {#} (set_cell i (Some (f ch, card (owners st i))) st)"
    using owned_alive [OF assms(1) v] by (intro held_set_cell [OF assms(1) ch(1)]) simp_all
  with Some ch show ?thesis by simp
qed

lemma channel_do_held:
  assumes "held {#} st" "legal x st"
  shows "(\<exists>st'. channel_do junk x st = Inr st' \<and> held {#} st') \<or> (\<exists>h f. x = Use h f \<and> vars st h = Some None \<and> channel_do junk x st = Inl NullDeref)"
proof (cases x)
  case (Use h f)
  then obtain p where "vars st h = Some p" using assms(2) by auto
  with use_held [OF assms(1) this, of junk f] Use show ?thesis by (cases p) (auto simp del: channel_do.simps)
qed (use assms in \<open>simp_all add: construct_held copy_held move_held assign_held assign_move_held destroy_held\<close>)

lemma no_channels_held: "held {#} no_channels"
  by (simp add: no_channels_def held_def count_of_def owners_def)

section \<open>The channels behind the objects\<close>

text \<open>Every channel that is alive is the one of the heap.\<close>

definition sees :: "ChannelImpl list \<Rightarrow> channels \<Rightarrow> bool" where
  "sees heap st \<longleftrightarrow> length (cells st) = length heap \<and> (\<forall>i ch n. i < length heap \<longrightarrow> cells st ! i = Some (ch, n) \<longrightarrow> ch = heap ! i)"

lemma nth_update_at: "j < length xs \<Longrightarrow> xs[i := x] ! j = (if j = i then x else xs ! j)"
  by (cases "j = i") simp_all

lemma cell_at_Inr: "cell_at i st = Inr (ch, n) \<longleftrightarrow> i < length (cells st) \<and> cells st ! i = Some (ch, n)"
  by (auto simp: cell_at_def split: option.splits)

lemma sees_cell: "sees heap st \<Longrightarrow> cell_at i st = Inr (ch, n) \<Longrightarrow> i < length heap \<and> ch = heap ! i"
  by (auto simp: sees_def cell_at_Inr)

lemma sees_set_cell: "sees heap st \<Longrightarrow> (\<And>ch n. c = Some (ch, n) \<Longrightarrow> ch = heap ! i) \<Longrightarrow> sees heap (set_cell i c st)"
  by (auto simp: sees_def set_cell_def nth_update_at split: if_splits)

lemma sees_vars [simp]: "sees heap (st\<lparr>vars := v\<rparr>) = sees heap st" "sees heap (set_var h p st) = sees heap st"
  by (simp_all add: sees_def set_var_def)

lemma retain_sees: "sees heap st \<Longrightarrow> retain p st = Inr st' \<Longrightarrow> sees heap st' \<and> vars st' = vars st"
  by (auto simp: retain_def res_bind_Inr_conv split: option.splits dest: sees_cell intro!: sees_set_cell)

lemma release_sees: "sees heap st \<Longrightarrow> release p st = Inr st' \<Longrightarrow> sees heap st' \<and> vars st' = vars st"
  by (auto simp: release_def res_bind_Inr_conv split: option.splits if_splits dest: sees_cell intro!: sees_set_cell)

lemma assign_sees:
  assumes "sees heap st" "Channel_assign h c st = Inr st'"
  shows "\<exists>p. vars st c = Some p \<and> vars st' = (vars st)(h \<mapsto> p) \<and> sees heap st'"
proof -
  obtain p old st1 where s: "vars st c = Some p" "retain p st = Inr st1" "release old (set_var h p st1) = Inr st'"
    using assms(2) by (auto simp: Channel_assign_def var_at_def res_bind_Inr_conv split: option.splits)
  from retain_sees [OF assms(1) s(2)] release_sees [OF _ s(3), of heap] s(1) show ?thesis by simp
qed

lemma assign_move_sees:
  assumes "sees heap st" "Channel_assign_move h c st = Inr st'"
  shows "\<exists>p. vars st c = Some p \<and> vars st' = (vars st)(c \<mapsto> None, h \<mapsto> p) \<and> sees heap st'"
proof -
  obtain p old where s: "vars st c = Some p" "release old (set_var h p (set_var c None st)) = Inr st'"
    using assms(2) by (auto simp: Channel_assign_move_def var_at_def res_bind_Inr_conv split: option.splits)
  from release_sees [OF _ s(2), of heap] assms(1) s(1) show ?thesis by simp
qed

lemma use_sees:
  assumes "sees heap st" "deref h st = Inr (i, ch, n)"
  shows "vars st h = Some (Some i) \<and> ch = heap ! i \<and> sees (heap[i := f ch]) (set_cell i (Some (f ch, n)) st)"
proof -
  have d: "vars st h = Some (Some i)" "cell_at i st = Inr (ch, n)"
    using assms(2) by (auto simp: deref_def var_at_def res_bind_Inr_conv split: option.splits)
  moreover have "sees (heap[i := f ch]) (set_cell i (Some (f ch, n)) st)"
    using assms(1) by (auto simp: sees_def set_cell_def nth_update_at split: if_splits)
  ultimately show ?thesis using sees_cell [OF assms(1)] by blast
qed

lemma channel_do_refs:
  assumes "sees heap st" "legal x st" "channel_do junk x st = Inr st'"
  shows "\<exists>heap'. ref_do junk x (vars st, heap) = Inr (vars st', heap') \<and> sees heap' st'"
proof (cases x)
  case (New h tsize blocks ms)
  then show ?thesis using assms by (auto simp: Channel_construct_def sees_def nth_append less_Suc_eq)
next
  case (Copy h c)
  then have "vars st h = None" "Channel_assign h c (set_var h None st) = Inr st'" "c \<noteq> h"
    using assms(2,3) by (auto simp: Channel_copy_def)
  with assign_sees [of heap "set_var h None st" h c st'] assms(1) Copy show ?thesis by auto
next
  case (Move h c)
  then show ?thesis using assms by (auto simp: Channel_move_def var_at_def)
next
  case (Assign h c)
  with assign_sees [OF assms(1)] assms(2,3) show ?thesis by fastforce
next
  case (AssignMove h c)
  with assign_move_sees [OF assms(1)] assms(2,3) show ?thesis by fastforce
next
  case (Destroy h)
  then obtain p where "release p (st\<lparr>vars := (vars st)(h := None)\<rparr>) = Inr st'"
    using assms(3) by (auto simp: Channel_destroy_def res_bind_Inr_conv)
  from release_sees [OF _ this, of heap] assms(1,2) Destroy show ?thesis by simp
next
  case (Use h f)
  then obtain i ch n where "deref h st = Inr (i, ch, n)" "st' = set_cell i (Some (f ch, n)) st"
    using assms(3) by (auto simp: res_bind_Inr_conv)
  with use_sees [OF assms(1)] Use show ?thesis by auto
qed

lemma legal_iff: "legal x st \<longleftrightarrow> ref_do junk x (vars st, heap) \<noteq> Inl WildPointer"
  by (cases x) (auto split: option.splits)

text \<open>One operation, and a program.\<close>

lemma channel_do_refines:
  assumes "held {#} st" "sees heap st" "ref_do junk x (vars st, heap) \<noteq> Inl WildPointer"
  shows "case ref_do junk x (vars st, heap) of
      Inl e \<Rightarrow> channel_do junk x st = Inl e
    | Inr (v', heap') \<Rightarrow> \<exists>st'. channel_do junk x st = Inr st' \<and> held {#} st' \<and> vars st' = v' \<and> sees heap' st'"
proof -
  have l: "legal x st" using legal_iff assms(3) by blast
  from channel_do_held [OF assms(1) l, of junk] show ?thesis
  proof
    assume "\<exists>st'. channel_do junk x st = Inr st' \<and> held {#} st'"
    then obtain st' where st': "channel_do junk x st = Inr st'" "held {#} st'" by blast
    from channel_do_refs [OF assms(2) l st'(1)] st' show ?thesis by auto
  qed auto
qed

lemma channel_run_refines:
  "held {#} st \<Longrightarrow> sees heap st \<Longrightarrow> ref_run junk xs (vars st, heap) \<noteq> Inl WildPointer \<Longrightarrow>
   case ref_run junk xs (vars st, heap) of
      Inl e \<Rightarrow> channel_run junk xs st = Inl e
    | Inr (v', heap') \<Rightarrow> \<exists>st'. channel_run junk xs st = Inr st' \<and> held {#} st' \<and> vars st' = v' \<and> sees heap' st'"
proof (induction xs arbitrary: st heap)
  case (Cons x xs)
  have "ref_do junk x (vars st, heap) \<noteq> Inl WildPointer" using Cons.prems(3) by auto
  note step = channel_do_refines [OF Cons.prems(1,2) this]
  show ?case
  proof (cases "ref_do junk x (vars st, heap)")
    case (Inl e)
    with step show ?thesis by simp
  next
    case (Inr r)
    obtain v' heap' where r: "r = (v', heap')" by force
    with step Inr obtain st1 where st1: "channel_do junk x st = Inr st1" "held {#} st1" "vars st1 = v'" "sees heap' st1" by auto
    have same: "channel_run junk (x # xs) st = channel_run junk xs st1" "ref_run junk (x # xs) (vars st, heap) = ref_run junk xs (vars st1, heap')"
      using st1(1,3) Inr r by simp_all
    show ?thesis unfolding same by (rule Cons.IH [OF st1(2,4) Cons.prems(3) [unfolded same(2)]])
  qed
qed simp

lemma cell_dead:
  assumes "held {#} st" "i < length (cells st)"
  shows "cells st ! i = None \<longleftrightarrow> owners st i = {}"
proof -
  have "card (owners st i) = 0 \<longleftrightarrow> owners st i = {}" using finite_owners [OF held_finite [OF assms(1)]] by simp
  moreover have "count_of st i = card (owners st i)" "\<forall>ch. Some (ch, 0) \<notin> set (cells st)" using assms(1) by (simp_all add: held_def)
  ultimately show ?thesis using assms(2) nth_mem [OF assms(2)] by (cases "cells st ! i") (auto simp: count_of_def)
qed

text \<open>C33: \<open>Channel\<close> objects behave as references to channels that live for ever. Take any program that constructs, copies, moves, assigns (also to
  itself), uses and destroys \<open>Channel\<close> objects, constructing them where there is none and using only those that exist. If as references it
  uses a null one, the objects fail in the same way, and in no other. Otherwise no operation fails: the objects that exist point to the channels
  the references point to, so that a copy is the same channel and an object that was moved from has none; behind every object is
  that channel with exactly the contents the uses through all objects gave it, which counts the objects that
  share it; and a channel has been destroyed exactly if no object refers to it any more.\<close>

theorem channels_as_references:
  assumes "ref_run junk xs (Map.empty, []) = r" "r \<noteq> Inl WildPointer"
  shows "case r of
      Inl e \<Rightarrow> channel_run junk xs no_channels = Inl e
    | Inr (v, heap) \<Rightarrow> \<exists>st. channel_run junk xs no_channels = Inr st \<and> vars st = v \<and>
        (\<forall>h i. v h = Some (Some i) \<longrightarrow> deref h st = Inr (i, heap ! i, card {h'. v h' = Some (Some i)})) \<and>
        (\<forall>i < length heap. cells st ! i = None \<longleftrightarrow> (\<forall>h. v h \<noteq> Some (Some i)))"
proof -
  have "sees [] no_channels" "vars no_channels = Map.empty" by (simp_all add: no_channels_def sees_def)
  with channel_run_refines [OF no_channels_held this(1), of junk xs] assms have
    run: "case r of Inl e \<Rightarrow> channel_run junk xs no_channels = Inl e
      | Inr (v', heap') \<Rightarrow> \<exists>st'. channel_run junk xs no_channels = Inr st' \<and> held {#} st' \<and> vars st' = v' \<and> sees heap' st'"
    by simp
  show ?thesis
  proof (cases r)
    case (Inl e)
    with run show ?thesis by simp
  next
    case (Inr q)
    obtain v heap where q: "q = (v, heap)" by force
    with run Inr obtain st where st: "channel_run junk xs no_channels = Inr st" "held {#} st" "vars st = v" "sees heap st" by auto
    have o: "owners st i = {h. v h = Some (Some i)}" for i using st(3) by (simp add: owners_def)
    have "deref h st = Inr (i, heap ! i, card (owners st i))" if "v h = Some (Some i)" for h i
      using deref_held [OF st(2), of h i] use_sees [OF st(4), of h] that st(3) by auto
    moreover have "cells st ! i = None \<longleftrightarrow> owners st i = {}" if "i < length heap" for i
      using cell_dead [OF st(2)] st(4) that by (simp add: sees_def)
    ultimately show ?thesis using st(1,3) Inr q by (auto simp: o)
  qed
qed

text \<open>A channel and a copy of it, which is used; then the first object is destroyed, and at last the copy.\<close>

theorem channels_as_references_witness:
  "\<exists>st st'. channel_run (\<lambda>n. replicate n CHR 0x00) [New 0 4 2 (- 1), Copy 1 0, Use 1 (\<lambda>ch. ch\<lparr>full := True\<rparr>), Destroy 0] no_channels = Inr st \<and>
     deref 1 st = Inr (0, int_channel\<lparr>full := True\<rparr>, 1) \<and>
     channel_run (\<lambda>n. replicate n CHR 0x00) [New 0 4 2 (- 1), Copy 1 0, Destroy 0, Destroy 1] no_channels = Inr st' \<and> cells st' ! 0 = None"
proof -
  let ?j = "\<lambda>n. replicate n CHR 0x00" and ?xs = "[New 0 4 2 (- 1), Copy 1 0, Use 1 (\<lambda>ch. ch\<lparr>full := True\<rparr>), Destroy 0]"
    and ?ys = "[New 0 4 2 (- 1), Copy 1 0, Destroy 0, Destroy 1]"
  let ?v = "[0 \<mapsto> Some 0, 1 \<mapsto> Some 0](0 := None) :: nat \<rightharpoonup> nat option"
  have "ref_run ?j ?xs (Map.empty, []) = Inr (?v, [int_channel\<lparr>full := True\<rparr>])"
    "ref_run ?j ?ys (Map.empty, []) = Inr (?v(1 := None), [int_channel])"
    by (simp_all add: int_channel_def)
  note runs = channels_as_references [OF this(1)] channels_as_references [OF this(2)]
  have "{h'. ?v h' = Some (Some 0)} = {1}" by (auto split: if_splits)
  then have "\<exists>st. channel_run ?j ?xs no_channels = Inr st \<and> deref 1 st = Inr (0, int_channel\<lparr>full := True\<rparr>, 1)"
    using runs(1) by fastforce
  moreover have "\<exists>st. channel_run ?j ?ys no_channels = Inr st \<and> cells st ! 0 = None" using runs(2) by fastforce
  ultimately show ?thesis by blast
qed

section \<open>A copy is the same channel\<close>

text \<open>Both operators are uses in the sense of the programs above.\<close>

lemma operators_are_uses:
  "Channel_op_get env h p (st, s) = Inr (out, st', s') \<Longrightarrow> \<exists>f. channel_do junk (Use h f) st = Inr st'"
  "Channel_op_put env h p (st, s) = Inr (out, st', s') \<Longrightarrow> \<exists>f. channel_do junk (Use h f) st = Inr st'"
  by (auto simp: Channel_op_get_def Channel_op_put_def res_bind_Inr_conv intro: exI [of _ "\<lambda>_. c" for c])

text \<open>A block that is put into a channel through one object comes out through another object that shares it.\<close>

lemma put_get_shared:
  assumes st: "held {#} st" "vars st h = Some (Some i)" "vars st c = Some (Some i)" "cells st ! i = Some (ch, n)"
    and ch: "ch_ok ch" "contents ch = []" "\<not> full ch" "\<forall>d \<in> set (ch_queue ch). wc_state (ctxs s ! d) \<noteq> kInit"
    and p: "mem_load (mem s) p (unat (blk_size ch)) = Inr v" "valid_range (mem s) q (unat (blk_size ch))"
  shows "\<exists>st1 st2 s'. Channel_op_put env h p (st, s) = Inr (Returned, st1, s) \<and>
    Channel_op_get env c q (st1, s) = Inr (Returned, st2, s') \<and> mem_load (mem s') q (unat (blk_size ch)) = Inr v"
proof -
  obtain n where d: "i < length (cells st)" "deref h st = Inr (i, ch, n)" using deref_held [OF st(1,2)] st(4) by auto
  obtain ch1 where w: "ChannelImpl_Write env p ch s = Inr (Returned, ch1, s)" "ch_ok ch1" "contents ch1 = [v]" "ch_queue ch1 = []"
    using Write_room [OF ch(1,4) p(1) ch(3)] ch(2) by auto
  have l: "length v = unat (blk_size ch)" by (rule length_mem_load [OF p(1)])
  then have b: "unat (blk_size ch1) = unat (blk_size ch)" using contents_blocks [of ch1] w(2,3) by (simp add: ch_ok_def)
  let ?st1 = "set_cell i (Some (ch1, n)) st"
  have "deref c ?st1 = Inr (i, ch1, n)" using d(1) st(3) by (simp add: deref_def var_at_def cell_at_def set_cell_def)
  moreover obtain ch2 s' where r: "ChannelImpl_Read env q ch1 s = Inr (Returned, ch2, s')" "mem_store (mem s) q v = Inr (mem s')"
    using Read_nonempty [OF w(2), of s q env] w(3,4) p(2) b by auto
  ultimately show ?thesis
    using d w(1) mem_load_store_same [OF r(2)] l
    by (simp add: Channel_op_put_def Channel_op_get_def Channel_put_def Channel_get_def)
qed

end
