(* ===== verification/Byte_Order.thy ===== *)
theory Byte_Order
  imports Prelude
begin

text \<open>
  Conversion between host and network byte order: \<open>include/byte_order.h\<close>. On the supported systems the functions are
  \<open>htobe\<close> and \<open>betoh\<close> of the platform, which swap the bytes on a little-endian host and do nothing on a
  big-endian one; the byte order of the host is a parameter.
\<close>

unbundle bit_operations_syntax

section \<open>Bytes of a word\<close>

text \<open>The bytes of a word, least significant first, each as a word; and back.\<close>

definition bytes :: "'a::len word \<Rightarrow> 'a word list" where
  "bytes v = map (\<lambda>i. take_bit 8 (drop_bit (8 * i) v)) [0..<LENGTH('a) div 8]"

definition of_bytes :: "'a::len word list \<Rightarrow> 'a word" where
  "of_bytes bs = foldr (\<lambda>b w. b OR push_bit 8 w) bs 0"

definition bswap :: "'a::len word \<Rightarrow> 'a word" where
  "bswap v = of_bytes (rev (bytes v))"

text \<open>The object representation of a word in memory, on a host of the given byte order.\<close>

definition in_memory :: "bool \<Rightarrow> 'a::len word \<Rightarrow> 'a word list" where
  "in_memory big v = (if big then rev (bytes v) else bytes v)"

section \<open>The functions\<close>

definition htobe :: "bool \<Rightarrow> 'a::len word \<Rightarrow> 'a word" where
  "htobe big v = (if big then v else bswap v)"

definition hton16 :: "bool \<Rightarrow> uint16 \<Rightarrow> uint16" where
  [model_defs]: "hton16 big v = htobe big v"

definition hton32 :: "bool \<Rightarrow> uint32 \<Rightarrow> uint32" where
  [model_defs]: "hton32 big v = htobe big v"

definition hton64 :: "bool \<Rightarrow> uint64 \<Rightarrow> uint64" where
  [model_defs]: "hton64 big v = htobe big v"

definition ntoh16 :: "bool \<Rightarrow> uint16 \<Rightarrow> uint16" where
  [model_defs]: "ntoh16 big v = htobe big v"

definition ntoh32 :: "bool \<Rightarrow> uint32 \<Rightarrow> uint32" where
  [model_defs]: "ntoh32 big v = htobe big v"

definition ntoh64 :: "bool \<Rightarrow> uint64 \<Rightarrow> uint64" where
  [model_defs]: "ntoh64 big v = htobe big v"

section \<open>Swapping bytes\<close>

lemma bit_of_bytes:
  fixes bs :: "'a::len word list"
  assumes "\<forall>b \<in> set bs. \<forall>n \<ge> 8. \<not> bit b n" "n < LENGTH('a)"
  shows "bit (of_bytes bs) n \<longleftrightarrow> n div 8 < length bs \<and> bit (bs ! (n div 8)) (n mod 8)"
  using assms
proof (induction bs arbitrary: n)
  case Nil
  then show ?case by (simp add: of_bytes_def)
next
  case (Cons b bs)
  show ?case
  proof (cases "n < 8")
    case True
    then show ?thesis using Cons.prems by (simp add: of_bytes_def bit_or_iff bit_push_bit_iff)
  next
    case False
    then have n: "n div 8 = Suc ((n - 8) div 8)" "n mod 8 = (n - 8) mod 8"
      by (simp_all add: le_div_geq le_mod_geq)
    have "bit (of_bytes (b # bs)) n = bit (of_bytes bs) (n - 8)"
      using False Cons.prems by (auto simp: of_bytes_def bit_or_iff bit_push_bit_iff)
    with Cons.IH [of "n - 8"] Cons.prems False n show ?thesis by auto
  qed
qed

lemma bytes_small: "b \<in> set (bytes v) \<Longrightarrow> n \<ge> 8 \<Longrightarrow> \<not> bit b n"
  by (auto simp: bytes_def bit_take_bit_iff)

lemma length_bytes: "length (bytes (v :: 'a::len word)) = LENGTH('a) div 8"
  by (simp add: bytes_def)

lemma nth_bytes:
  "i < LENGTH('a) div 8 \<Longrightarrow> m < 8 \<Longrightarrow> bit (bytes (v :: 'a::len word) ! i) m \<longleftrightarrow> bit v (8 * i + m)"
  by (simp add: bytes_def bit_take_bit_iff bit_drop_bit_eq)

lemma of_bytes_bytes:
  fixes v :: "'a::len word"
  assumes "8 dvd LENGTH('a)"
  shows "of_bytes (bytes v) = v"
proof (rule bit_word_eqI)
  fix n assume n: "n < LENGTH('a)"
  then have "n div 8 < LENGTH('a) div 8" using assms by (auto simp: less_mult_imp_div_less elim!: dvdE)
  with n show "bit (of_bytes (bytes v)) n = bit v n"
    by (simp add: bit_of_bytes bytes_small length_bytes nth_bytes)
qed

lemma bytes_of_bytes:
  fixes bs :: "'a::len word list"
  assumes "\<forall>b \<in> set bs. \<forall>n \<ge> 8. \<not> bit b n" "length bs = LENGTH('a) div 8"
  shows "bytes (of_bytes bs) = bs"
proof (rule nth_equalityI)
  show "length (bytes (of_bytes bs)) = length bs" using assms(2) by (simp add: length_bytes)
next
  fix i assume "i < length (bytes (of_bytes bs))"
  then have i: "i < length bs" "i < LENGTH('a) div 8" using assms(2) by (simp_all add: length_bytes)
  show "bytes (of_bytes bs) ! i = bs ! i"
  proof (rule bit_word_eqI)
    fix n assume "n < LENGTH('a)"
    show "bit (bytes (of_bytes bs) ! i) n = bit (bs ! i) n"
    proof (cases "n < 8")
      case True
      have "8 * i + n < LENGTH('a)" using i(2) True by linarith
      with True i assms(1) show ?thesis by (simp add: nth_bytes bit_of_bytes)
    next
      case False
      with i assms(1) bytes_small [of "bytes (of_bytes bs) ! i" "of_bytes bs" n] show ?thesis
        by (simp add: length_bytes)
    qed
  qed
qed

lemma bytes_bswap: "bytes (bswap (v :: 'a::len word)) = rev (bytes v)"
  by (simp add: bswap_def bytes_of_bytes bytes_small length_bytes)

lemma bswap_bswap: "8 dvd LENGTH('a) \<Longrightarrow> bswap (bswap v) = (v :: 'a::len word)"
  using bytes_bswap [of v] by (simp add: bswap_def [of "bswap v"] of_bytes_bytes)

lemma hton16_network: "in_memory big (hton16 big a) = rev (bytes a)"
  by (cases big) (simp_all add: model_defs in_memory_def htobe_def bytes_bswap)

lemma ntoh16_hton16 [simp]: "ntoh16 big (hton16 big a) = a"
  by (cases big) (simp_all add: model_defs htobe_def bswap_bswap)

text \<open>Network byte order. On a host of either byte order, for the three widths: a value converted to network
  order lies in memory with its most significant byte first, and converting back gives the value.\<close>

theorem hton_network_order:
  "in_memory big (hton16 big a) = rev (bytes a) \<and> ntoh16 big (hton16 big a) = a \<and>
   in_memory big (hton32 big b) = rev (bytes b) \<and> ntoh32 big (hton32 big b) = b \<and>
   in_memory big (hton64 big c) = rev (bytes c) \<and> ntoh64 big (hton64 big c) = c"
  by (cases big) (simp_all add: model_defs in_memory_def htobe_def bytes_bswap bswap_bswap)

end
