(* ===== verification/Memory.thy ===== *)
theory Memory
  imports Byte_Order
begin

text \<open>
  The memory of a machine, for the theories on the context switch: bytes under addresses that
  wrap around, loads and stores of words in the order of the bytes on a little endian machine, blocks that do not overlap and
  blocks that hold the same bytes. Addresses are as wide as the words, 64 or 32 bits.
\<close>

unbundle bit_operations_syntax

section \<open>Memory\<close>

type_synonym 'a memory = "'a word \<Rightarrow> uint8"

definition store :: "'a::len word \<Rightarrow> 'a word \<Rightarrow> 'a memory \<Rightarrow> 'a memory" where
  "store a v m = (\<lambda>b. if unat (b - a) < LENGTH('a) div 8 then ucast (bytes v ! unat (b - a)) else m b)"

definition load :: "'a::len memory \<Rightarrow> 'a word \<Rightarrow> 'a word" where
  "load m a = of_bytes (map (\<lambda>i. ucast (m (a + of_nat i))) [0..<LENGTH('a) div 8])"

section \<open>Loads and stores\<close>

lemma nth_bytes_ucast:
  assumes "i < LENGTH('a) div 8"
  shows "ucast (ucast (bytes (v :: 'a::len word) ! i) :: uint8) = bytes v ! i"
proof (rule bit_word_eqI)
  fix n assume "n < LENGTH('a)"
  have "bytes v ! i \<in> set (bytes v)" using assms by (simp add: length_bytes)
  from bytes_small [OF this, of n] \<open>n < LENGTH('a)\<close>
  show "bit (ucast (ucast (bytes v ! i) :: uint8) :: 'a word) n = bit (bytes v ! i) n"
    by (cases "n < 8") (simp_all add: bit_ucast_iff not_less)
qed

lemma small_offset: "i < LENGTH('a) div 8 \<Longrightarrow> unat (of_nat i :: 'a::len word) = i"
  by (rule unat_of_nat_lt) (metis div_le_dividend less_le_trans less_exp order.strict_trans)

lemma load_store_same [simp]:
  assumes "8 dvd LENGTH('a)"
  shows "load (store a v m) (a :: 'a::len word) = v"
proof -
  have "map (\<lambda>i. ucast (store a v m (a + of_nat i))) [0..<LENGTH('a) div 8] = bytes v"
    by (rule nth_equalityI) (simp_all add: length_bytes store_def small_offset nth_bytes_ucast)
  then show ?thesis using assms by (simp add: load_def of_bytes_bytes)
qed

lemma load_zero [simp]: "load (\<lambda>_. 0) a = 0"
proof -
  have "foldr (\<lambda>b w. b OR push_bit 8 w) (replicate n 0) (0 :: 'a::len word) = 0" for n by (induction n) simp_all
  then show ?thesis by (simp add: load_def of_bytes_def map_replicate_const)
qed

text \<open>\<open>apart a n b k\<close>: the \<open>n\<close> bytes at \<open>a\<close> and the \<open>k\<close> bytes at \<open>b\<close> do not overlap.\<close>

definition apart :: "'a::len word \<Rightarrow> nat \<Rightarrow> 'a word \<Rightarrow> nat \<Rightarrow> bool" where
  "apart a n b k \<longleftrightarrow> n \<le> unat (b - a) \<and> k \<le> unat (a - b)"

lemma apart_sym: "apart a n b k \<longleftrightarrow> apart b k a n"
  by (auto simp: apart_def)

lemma unat_plus_lt: "unat x + i < 2 ^ LENGTH('a) \<Longrightarrow> unat (x + of_nat i) = unat x + i" for x :: "'a::len word"
  by (simp add: unat_word_ariths unat_of_nat_lt)

lemma unat_minus_ge:
  fixes x :: "'a::len word"
  assumes "i \<le> unat x"
  shows "unat (x - of_nat i) = unat x - i"
proof -
  have "unat (of_nat i :: 'a word) = i" using le_less_trans [OF assms unat_lt2p] by (rule unat_of_nat_lt)
  with assms show ?thesis by (simp add: unat_sub word_le_nat_alt)
qed

lemma unat_diff_swap:
  fixes a b :: "'a::len word"
  assumes "a \<noteq> b"
  shows "unat (a - b) + unat (b - a) = 2 ^ LENGTH('a)"
proof -
  have "(unat (a - b) + unat (b - a)) mod 2 ^ LENGTH('a) = 0"
    using unat_word_ariths(1) [of "a - b" "b - a"] by simp
  then obtain k where k: "unat (a - b) + unat (b - a) = 2 ^ LENGTH('a) * k" by (auto simp: mod_eq_0_iff_dvd elim!: dvdE)
  moreover have "0 < unat (a - b)" using assms by (simp add: unat_gt_0)
  moreover have "unat (a - b) + unat (b - a) < 2 ^ LENGTH('a) * 2"
    using unat_lt2p [of "a - b"] unat_lt2p [of "b - a"] by linarith
  ultimately have "0 < k" "k < 2" by (auto intro: ccontr)
  with k show ?thesis by (simp add: less_2_cases_iff)
qed

lemma apart_offset:
  assumes "apart a n b k" "i < n"
  shows "k \<le> unat (a + of_nat i - b)"
proof (cases "k = 0")
  case False
  then have "a \<noteq> b" using assms by (auto simp: apart_def)
  then have "unat (a - b) + unat (b - a) = 2 ^ LENGTH('a)" by (rule unat_diff_swap)
  then have "unat (a - b) + i < 2 ^ LENGTH('a)" using assms by (auto simp: apart_def)
  from unat_plus_lt [OF this] assms show ?thesis
    by (simp add: apart_def add_diff_eq diff_add_eq)
qed simp

text \<open>A part of a block is apart from what the block is apart from.\<close>

lemma apart_sub:
  assumes "apart a n b k" "i + n' \<le> n" "0 < n'"
  shows "apart (a + of_nat i) n' b k"
proof -
  have "i + n' \<le> unat (b - a)" using assms by (simp add: apart_def)
  then have "n' \<le> unat (b - a - of_nat i)" by (simp add: unat_minus_ge)
  moreover have "b - a - of_nat i = b - (a + of_nat i)" by simp
  ultimately show ?thesis using apart_offset [OF assms(1), of i] assms(2,3) by (simp add: apart_def)
qed

lemma store_apart:
  fixes a b :: "'a::len word"
  shows "apart a n b (LENGTH('a) div 8) \<Longrightarrow> i < n \<Longrightarrow> store b v m (a + of_nat i) = m (a + of_nat i)"
  using apart_offset [of a n b "LENGTH('a) div 8" i] by (simp add: store_def not_less)

lemma load_cong:
  fixes a :: "'a::len word"
  shows "(\<And>i. i < LENGTH('a) div 8 \<Longrightarrow> m (a + of_nat i) = m' (a + of_nat i)) \<Longrightarrow> load m a = load m' a"
  unfolding load_def by (rule arg_cong [where f = of_bytes], rule map_cong) simp_all

lemma load_store_apart:
  fixes a b :: "'a::len word"
  shows "apart a (LENGTH('a) div 8) b (LENGTH('a) div 8) \<Longrightarrow> load (store b v m) a = load m a"
  by (rule load_cong) (rule store_apart)

lemma load_store_word:
  fixes a b :: "'a::len word"
  shows "LENGTH('a) div 8 = w \<Longrightarrow> apart a w b w \<Longrightarrow> load (store b v m) a = load m a"
  using load_store_apart by blast

text \<open>Words at different offsets from the same address.\<close>

lemma load_store_offset:
  fixes c i j :: "'a::len word"
  defines "w \<equiv> LENGTH('a) div 8"
  shows "w \<le> unat (i - j) \<Longrightarrow> w \<le> unat (j - i) \<Longrightarrow> load (store (c + j) v M) (c + i) = load M (c + i)"
    "w \<le> unat (- j) \<Longrightarrow> w \<le> unat j \<Longrightarrow> load (store (c + j) v M) c = load M c"
    "w \<le> unat i \<Longrightarrow> w \<le> unat (- i) \<Longrightarrow> load (store c v M) (c + i) = load M (c + i)"
    "w \<le> unat (i - j) \<Longrightarrow> w \<le> unat (j - i) \<Longrightarrow> load (store (c - j) v M) (c - i) = load M (c - i)"
    "w \<le> unat (- j) \<Longrightarrow> w \<le> unat j \<Longrightarrow> load (store (c - j) v M) c = load M c"
  unfolding w_def by (simp_all add: load_store_apart apart_def)

definition same_bytes :: "'a::len memory \<Rightarrow> 'a memory \<Rightarrow> 'a word \<Rightarrow> nat \<Rightarrow> bool" where
  "same_bytes M M' a n \<longleftrightarrow> (\<forall>i < n. M (a + of_nat i) = M' (a + of_nat i))"

lemma same_bytes_trans: "same_bytes M M' a n \<Longrightarrow> same_bytes M' M'' a n \<Longrightarrow> same_bytes M M'' a n"
  by (simp add: same_bytes_def)

lemma store_same_bytes:
  fixes a b :: "'a::len word"
  shows "apart a n b (LENGTH('a) div 8) \<Longrightarrow> same_bytes (store b v M) M a n"
  by (simp add: same_bytes_def store_apart)

lemma load_same:
  fixes a :: "'a::len word"
  assumes "same_bytes M M' a n" "k + LENGTH('a) div 8 \<le> n"
  shows "load M (a + of_nat k) = load M' (a + of_nat k)"
proof (rule load_cong)
  fix i :: nat assume "i < LENGTH('a) div 8"
  with assms have "M (a + of_nat (k + i)) = M' (a + of_nat (k + i))" by (simp add: same_bytes_def del: of_nat_add)
  then show "M (a + of_nat k + of_nat i) = M' (a + of_nat k + of_nat i)" by (simp add: add.assoc)
qed

text \<open>Words stored one after the other at offsets from an address.\<close>

definition stores :: "'a::len word \<Rightarrow> (nat \<times> 'a word) list \<Rightarrow> 'a memory \<Rightarrow> 'a memory" where
  "stores c kvs M = fold (\<lambda>(k, v). store (c + of_nat k) v) kvs M"

lemma stores_simps [simp]:
  "stores c [] M = M" "stores c ((k, v) # kvs) M = stores c kvs (store (c + of_nat k) v M)"
  by (simp_all add: stores_def)

lemma stores_same:
  fixes a c :: "'a::len word"
  assumes "apart a n c z" "list_all (\<lambda>(k, v). k + LENGTH('a) div 8 \<le> z) kvs" "8 \<le> LENGTH('a)"
  shows "same_bytes (stores c kvs M) M a n"
  using assms(2)
proof (induction kvs arbitrary: M)
  case (Cons kv kvs)
  obtain k v where kv: "kv = (k, v)" by force
  have "0 < LENGTH('a) div 8" using assms(3) by (simp add: div_greater_zero_iff)
  with kv have "apart a n (c + of_nat k) (LENGTH('a) div 8)"
    using apart_sub [of c z a n k "LENGTH('a) div 8"] assms(1) Cons.prems by (simp add: apart_sym [of a])
  then have "same_bytes (store (c + of_nat k) v M) M a n" by (rule store_same_bytes)
  with Cons kv show ?case by (simp add: same_bytes_def)
qed (simp add: same_bytes_def)

text \<open>And loaded from there.\<close>

definition words_at :: "'a::len memory \<Rightarrow> 'a word \<Rightarrow> nat list \<Rightarrow> 'a word list" where
  "words_at M c ks = map (\<lambda>k. load M (c + of_nat k)) ks"

lemma words_at_same:
  fixes c :: "'a::len word"
  shows "same_bytes M M' c n \<Longrightarrow> list_all (\<lambda>k. k + LENGTH('a) div 8 \<le> n) ks \<Longrightarrow> words_at M c ks = words_at M' c ks"
  by (auto simp: words_at_def list_all_iff load_same)

section \<open>Alignment\<close>

lemma aligned_down: "unat (x AND - 16) = 16 * (unat x div 16)" for x :: "'a::len word"
proof -
  have "(- 16 :: 'a word) = NOT (mask 4)" by (simp add: mask_eq_exp_minus_1 not_eq_complement)
  moreover have "x AND NOT (mask 4) = push_bit 4 (drop_bit 4 x)"
    by (rule bit_word_eqI) (auto simp: bit_and_iff bit_not_iff bit_mask_iff bit_push_bit_iff bit_drop_bit_eq)
  ultimately have "x AND - 16 = push_bit 4 (drop_bit 4 x)" by simp
  also have "\<dots> = x - take_bit 4 x" using bits_ident [of 4 x] by (simp add: eq_diff_eq)
  also have "unat \<dots> = unat x - unat x mod 16"
    by (subst unat_sub) (simp_all add: word_le_nat_alt unsigned_take_bit_eq take_bit_eq_mod [of _ "unat x"])
  finally show ?thesis by (simp add: minus_mod_eq_mult_div)
qed

text \<open>A block of \<open>k\<close> bytes that ends at the highest multiple of 16 in a stack of \<open>s\<close> bytes at \<open>b\<close>.\<close>

lemma block_at_top:
  fixes b s :: "'a::len word"
  assumes "unat b + unat s < 2 ^ LENGTH('a)" "k + 16 \<le> unat s"
  defines "c \<equiv> ((b + s) AND - 16) - of_nat k"
  shows "unat c = 16 * ((unat b + unat s) div 16) - k" "unat b \<le> unat c" "unat c + k \<le> unat b + unat s"
    "16 dvd unat (c + of_nat k)"
proof -
  let ?top = "unat b + unat s"
  have top: "unat (b + s) = ?top" using assms by (simp add: unat_word_ariths)
  have ge: "k \<le> 16 * (?top div 16)" "?top < 16 * (?top div 16) + 16" "16 * (?top div 16) \<le> ?top"
    using assms(2) by simp_all
  show c: "unat c = 16 * (?top div 16) - k"
    using unat_minus_ge [of k "(b + s) AND - 16"] ge(1) by (simp add: c_def aligned_down top)
  show "unat b \<le> unat c" "unat c + k \<le> ?top" using c ge assms(2) by linarith+
  show "16 dvd unat (c + of_nat k)" by (simp add: c_def aligned_down top)
qed

end
