(* ===== verification/Context_Switch.thy ===== *)
theory Context_Switch
  imports Memory
begin

text \<open>
  What \<open>src/context/context.h\<close> promises of \<open>tb_context_jump\<close>, for any machine and any number of
  contexts. A program that switches is described by the suspended contexts, each with the machine as it was when the code that owns it
  called \<open>tb_context_jump\<close>, and the machine that is running. The contract is the locale \<open>context_switch\<close>; its lemmas
  say that a context that is resumed goes on the way it was suspended, whatever ran in between. The theories on
  the single machines interpret it for their instruction sequences.
\<close>

section \<open>Programs that switch\<close>

text \<open>The parts of a machine a switch is about: the jump, the memory, the argument with the context to switch to, the
  address of the context the jump makes for its caller, the number of bytes of a context, the number of bytes
  the jump writes, from the new context on, and the other blocks it writes: the one for the result, where results are returned in memory.\<close>

record ('m, 'w) switching =
  sw_jump :: "'m \<Rightarrow> 'm"
  sw_mem :: "'m \<Rightarrow> 'w \<Rightarrow> uint8"
  sw_target :: "'m \<Rightarrow> 'w"
  sw_area :: "'m \<Rightarrow> 'w"
  sw_bytes :: nat
  sw_written :: nat
  sw_results :: "'m \<Rightarrow> ('w \<times> nat) list"

definition avoids :: "'a::len word \<Rightarrow> nat \<Rightarrow> ('a word \<times> nat) list \<Rightarrow> bool" where
  "avoids a n bs \<longleftrightarrow> list_all (\<lambda>(b, k). apart a n b k) bs"

lemma avoids_simps [simp]: "avoids a n []" "avoids a n ((b, k) # bs) \<longleftrightarrow> apart a n b k \<and> avoids a n bs"
  by (simp_all add: avoids_def)

text \<open>What a jump writes does not overlap a suspended context; what it writes as a result does not overlap the context it makes.\<close>

definition area_free :: "('m, 'a::len word) switching \<Rightarrow> ('a word \<rightharpoonup> 'm) \<Rightarrow> 'm \<Rightarrow> bool" where
  "area_free sw S m \<longleftrightarrow>
     (\<forall>c \<in> dom S. avoids c (sw_bytes sw) ((sw_area sw m, sw_written sw) # sw_results sw m)) \<and>
     avoids (sw_area sw m) (sw_bytes sw) (sw_results sw m)"

text \<open>The running code does what it likes but write to a suspended context; a jump suspends it, from a stack that does not
  overlap a suspended context, and the context it jumps to, which may be one that was just made, is no longer suspended; a
  context that is never resumed again may be forgotten, after which its stack may be used for another one.\<close>

inductive switches :: "('m, 'a::len word) switching \<Rightarrow> ('a word \<rightharpoonup> 'm) \<Rightarrow> 'm \<Rightarrow> bool" for sw where
  switches_start: "switches sw Map.empty m"
| switches_run: "switches sw S m \<Longrightarrow> (\<And>c. c \<in> dom S \<Longrightarrow> same_bytes (sw_mem sw m') (sw_mem sw m) c (sw_bytes sw)) \<Longrightarrow>
    switches sw S m'"
| switches_jump: "switches sw S m \<Longrightarrow> area_free sw S m \<Longrightarrow>
    switches sw (S(sw_target sw m := None, sw_area sw m \<mapsto> m)) (sw_jump sw m)"
| switches_forget: "switches sw S m \<Longrightarrow> switches sw (S(c := None)) m"

section \<open>The contract\<close>

text \<open>\<open>kept m\<close> is what the caller of a jump in state \<open>m\<close> has to find when the call returns, \<open>found m\<close> what there is in a state
  just after a jump, and \<open>frame_at M c\<close> what the context at \<open>c\<close> says about it.\<close>

locale context_switch =
  fixes sw :: "('m, 'a::len word) switching" and kept :: "'m \<Rightarrow> 'v" and found :: "'m \<Rightarrow> 'v" and frame_at :: "'a memory \<Rightarrow> 'a word \<Rightarrow> 'v"
  assumes saves: "avoids (sw_area sw m) (sw_bytes sw) (sw_results sw m) \<Longrightarrow>
      frame_at (sw_mem sw (sw_jump sw m)) (sw_area sw m) = kept m"
    and resumes: "avoids (sw_target sw m) (sw_bytes sw) ((sw_area sw m, sw_written sw) # sw_results sw m) \<Longrightarrow>
      found (sw_jump sw m) = frame_at (sw_mem sw m) (sw_target sw m)"
    and jump_frame: "avoids a k ((sw_area sw m, sw_written sw) # sw_results sw m) \<Longrightarrow>
      same_bytes (sw_mem sw (sw_jump sw m)) (sw_mem sw m) a k"
    and frame_same: "same_bytes M M' c (sw_bytes sw) \<Longrightarrow> frame_at M c = frame_at M' c"
begin

lemma suspended_kept:
  assumes "switches sw S m" "S c = Some k"
  shows "frame_at (sw_mem sw m) c = kept k"
  using assms
proof (induction arbitrary: c k rule: switches.induct)
  case (switches_run S m m')
  then show ?case using frame_same [of "sw_mem sw m'" "sw_mem sw m" c] by auto
next
  case (switches_jump S m)
  show ?case
  proof (cases "c = sw_area sw m")
    case True
    then show ?thesis using switches_jump.prems switches_jump.hyps saves by (auto simp: area_free_def)
  next
    case False
    then have "S c = Some k" using switches_jump.prems by (auto split: if_splits)
    moreover from this have "avoids c (sw_bytes sw) ((sw_area sw m, sw_written sw) # sw_results sw m)"
      using switches_jump.hyps by (auto simp: area_free_def)
    ultimately show ?thesis
      using switches_jump.IH frame_same [OF jump_frame, of c m] by auto
  qed
qed (auto split: if_splits)

lemma resumed_found:
  assumes "switches sw S m" "S (sw_target sw m) = Some k" "area_free sw S m"
  shows "found (sw_jump sw m) = kept k"
  using resumes [of m] suspended_kept [OF assms(1,2)] assms(2,3) by (auto simp: area_free_def)

end

end
