(* ===== verification/Context_X64.thy ===== *)
theory Context_X64
  imports Context_Switch
begin

text \<open>
  The context switch on x86-64: the System V branch of \<open>src/context/context_x64.S\<close>, which the scheduler
  enters and leaves coroutines with. The routines are lists of instructions, each a straight line that ends by leaving
  it, executed on registers and a memory of bytes; addresses wrap around. The addresses the linker gives
  to the labels \<open>__entry\<close> and \<open>__end\<close> are a parameter.

  The theorems are what \<open>src/context/context.h\<close> promises: a jump returns, when some other code jumps
  back, like an ordinary call that keeps the registers a callee has to keep, and a context that was made
  starts its function with a well formed stack.
\<close>

unbundle bit_operations_syntax

section \<open>The machine\<close>

datatype reg = RAX | RBX | RCX | RDX | RSI | RDI | RBP | RSP | R8 | R12 | R13 | R14 | R15

datatype label = Entry | End

text \<open>Operands in the order of the source file: the destination comes last.\<close>

datatype instr =
    Pushq reg
  | Popq reg
  | Movq reg reg
  | Movabs uint64 reg
  | Addq reg reg
  | Andq reg reg
  | Xorq reg reg
  | Leaq uint64 reg reg \<comment> \<open>displacement, base, destination\<close>
  | LeaqLabel label reg
  | MovqTo reg uint64 reg \<comment> \<open>source, displacement, base\<close>
  | Jmp reg
  | Ret
  | Call_exit
  | Hlt

record machine =
  regs :: "reg \<Rightarrow> uint64"
  m_mem :: "64 memory"
  rip :: uint64
  exit_status :: "uint64 option"

definition set_reg :: "reg \<Rightarrow> uint64 \<Rightarrow> machine \<Rightarrow> machine" where
  "set_reg r v m = m\<lparr>regs := (regs m)(r := v)\<rparr>"

fun exec1 :: "(label \<Rightarrow> uint64) \<Rightarrow> instr \<Rightarrow> machine \<Rightarrow> machine" where
  "exec1 lab (Pushq r) m =
     (let sp = regs m RSP - 8 in (set_reg RSP sp m)\<lparr>m_mem := store sp (regs m r) (m_mem m)\<rparr>)"
| "exec1 lab (Popq r) m = set_reg r (load (m_mem m) (regs m RSP)) (set_reg RSP (regs m RSP + 8) m)"
| "exec1 lab (Movq s d) m = set_reg d (regs m s) m"
| "exec1 lab (Movabs v d) m = set_reg d v m"
| "exec1 lab (Addq s d) m = set_reg d (regs m d + regs m s) m"
| "exec1 lab (Andq s d) m = set_reg d (regs m d AND regs m s) m"
| "exec1 lab (Xorq s d) m = set_reg d (regs m d XOR regs m s) m"
| "exec1 lab (Leaq disp b d) m = set_reg d (regs m b + disp) m"
| "exec1 lab (LeaqLabel l d) m = set_reg d (lab l) m"
| "exec1 lab (MovqTo s disp b) m = m\<lparr>m_mem := store (regs m b + disp) (regs m s) (m_mem m)\<rparr>"
| "exec1 lab (Jmp r) m = m\<lparr>rip := regs m r\<rparr>"
| "exec1 lab Ret m = set_reg RSP (regs m RSP + 8) (m\<lparr>rip := load (m_mem m) (regs m RSP)\<rparr>)"
| "exec1 lab Call_exit m = m\<lparr>exit_status := Some (regs m RDI)\<rparr>"
| "exec1 lab Hlt m = m"

definition exec :: "(label \<Rightarrow> uint64) \<Rightarrow> instr list \<Rightarrow> machine \<Rightarrow> machine" where
  "exec lab is m = fold (exec1 lab) is m"

section \<open>The routines\<close>

text \<open>Arguments: \<open>rdi\<close> is the stack, \<open>rsi\<close> its size, \<open>rdx\<close> the function; the context is the result in
  \<open>rax\<close>.\<close>

definition tb_context_make :: "instr list" where
  "tb_context_make =
     [Addq RSI RDI, Movq RDI RAX,
      Movabs (- 16) R8, Andq R8 RAX,
      Leaq (- 56) RAX RAX,
      MovqTo RDX 32 RAX,
      LeaqLabel Entry RCX, MovqTo RCX 48 RAX,
      LeaqLabel End RCX, MovqTo RCX 40 RAX,
      Ret]"

definition context_entry :: "instr list" where
  "context_entry = [Movq RAX RDI, Pushq RBP, Jmp RBX]"

definition context_end :: "instr list" where
  "context_end = [Xorq RDI RDI, Call_exit, Hlt]"

text \<open>Arguments: \<open>rdi\<close> is the context to switch to, \<open>rsi\<close> the private pointer; the result is the old
  context in \<open>rax\<close> and the private pointer in \<open>rdx\<close>.\<close>

definition tb_context_jump :: "instr list" where
  "tb_context_jump =
     [Pushq RBP, Pushq RBX, Pushq R15, Pushq R14, Pushq R13, Pushq R12,
      Movq RSP RAX,
      Movq RDI RSP,
      Popq R12, Popq R13, Popq R14, Popq R15, Popq RBX, Popq RBP,
      Popq R8,
      Movq RSI RDX,
      Jmp R8]"

section \<open>Switching\<close>

text \<open>What the caller of \<open>tb_context_jump\<close> relies on: the registers a callee keeps, the stack pointer and the place
  to go on; a context holds them in 56 bytes, the last of which are the return address.\<close>

definition callee_saved :: "reg list" where
  "callee_saved = [R12, R13, R14, R15, RBX, RBP]"

definition x64_kept :: "machine \<Rightarrow> uint64 list \<times> uint64 \<times> uint64" where
  "x64_kept m = (map (regs m) callee_saved, regs m RSP + 8, load (m_mem m) (regs m RSP))"

definition x64_found :: "machine \<Rightarrow> uint64 list \<times> uint64 \<times> uint64" where
  "x64_found m = (map (regs m) callee_saved, regs m RSP, rip m)"

definition x64_frame :: "64 memory \<Rightarrow> uint64 \<Rightarrow> uint64 list \<times> uint64 \<times> uint64" where
  "x64_frame M c = (words_at M c [0, 8, 16, 24, 32, 40], c + 56, load M (c + 48))"

definition x64 :: "(label \<Rightarrow> uint64) \<Rightarrow> (machine, uint64) switching" where
  "x64 lab = \<lparr>sw_jump = exec lab tb_context_jump, sw_mem = m_mem, sw_target = (\<lambda>m. regs m RDI),
     sw_area = (\<lambda>m. regs m RSP - 48), sw_bytes = 56, sw_written = 48, sw_results = (\<lambda>_. [])\<rparr>"

text \<open>The memory after the six pushes.\<close>

definition saved :: "machine \<Rightarrow> 64 memory" where
  "saved m = stores (regs m RSP - 48) [(40, regs m RBP), (32, regs m RBX), (24, regs m R15), (16, regs m R14), (8, regs m R13),
     (0, regs m R12)] (m_mem m)"

lemma jump_effect:
  defines "c \<equiv> \<lambda>m. regs m RDI"
  shows "exec lab tb_context_jump m = m\<lparr>m_mem := saved m, rip := load (saved m) (c m + 48),
    regs := (regs m)(RAX := regs m RSP - 48, RDX := regs m RSI, RSP := c m + 56,
      R8 := load (saved m) (c m + 48), R12 := load (saved m) (c m), R13 := load (saved m) (c m + 8),
      R14 := load (saved m) (c m + 16), R15 := load (saved m) (c m + 24),
      RBX := load (saved m) (c m + 32), RBP := load (saved m) (c m + 40))\<rparr>"
    (is "?l = ?r")
proof -
  note run = exec_def tb_context_jump_def set_reg_def Let_def saved_def c_def add.commute
  have "regs ?l r = regs ?r r" for r
    by (cases r) (simp_all add: run)
  then have "regs ?l = regs ?r" ..
  moreover have "m_mem ?l = m_mem ?r" "rip ?l = rip ?r" "exit_status ?l = exit_status ?r"
    by (simp_all add: run)
  ultimately show ?thesis by (intro machine.equality) simp_all
qed

text \<open>The pushes write the 48 bytes below the stack pointer, and together with the return address they
  form a context.\<close>

lemma saved_frame: "apart a n (regs m RSP - 48) 48 \<Longrightarrow> same_bytes (saved m) (m_mem m) a n"
  unfolding saved_def by (erule stores_same) simp_all

lemma saved_context: "x64_frame (saved m) (regs m RSP - 48) = x64_kept m"
  by (simp add: x64_frame_def words_at_def x64_kept_def callee_saved_def saved_def Let_def diff_add_eq load_store_offset)

lemma x64_frame_same: "same_bytes M M' c 56 \<Longrightarrow> x64_frame M c = x64_frame M' c"
  using load_same [of M M' c 56 48] words_at_same [of M M' c 56] by (simp add: x64_frame_def)

interpretation x64_switch: context_switch "x64 lab" x64_kept x64_found x64_frame
proof
  fix m
  show "x64_frame (sw_mem (x64 lab) (sw_jump (x64 lab) m)) (sw_area (x64 lab) m) = x64_kept m"
    by (simp add: x64_def jump_effect saved_context)
next
  fix m assume "avoids (sw_target (x64 lab) m) (sw_bytes (x64 lab)) ((sw_area (x64 lab) m, sw_written (x64 lab)) # sw_results (x64 lab) m)"
  then have "x64_frame (saved m) (regs m RDI) = x64_frame (m_mem m) (regs m RDI)"
    by (intro x64_frame_same saved_frame) (simp add: x64_def)
  moreover have "x64_found (exec lab tb_context_jump m) = x64_frame (saved m) (regs m RDI)"
    by (simp add: x64_found_def x64_frame_def words_at_def callee_saved_def jump_effect)
  ultimately show "x64_found (sw_jump (x64 lab) m) = x64_frame (sw_mem (x64 lab) m) (sw_target (x64 lab) m)"
    by (simp add: x64_def)
qed (simp_all add: x64_def jump_effect saved_frame x64_frame_same)

text \<open>C23: a switch is a call that returns, among any number of contexts. Take any program that has switched between
  contexts, in which the code that ran never wrote to a suspended context, and let it jump to a suspended one from
  a stack that does not overlap a suspended context; \<open>k\<close> is the state in which the owner of that context called \<open>tb_context_jump\<close>. Then
  execution goes on behind that call, with the stack pointer a return leaves and every register a callee must keep
  (\<open>rbx\<close>, \<open>rbp\<close>, \<open>r12\<close> to \<open>r15\<close>) as it was; the result is the context of the code that jumped and the
  pointer it passed, and only the 48 bytes below its stack pointer were written.\<close>

theorem context_switch_returns:
  fixes lab :: "label \<Rightarrow> uint64"
  defines "jump \<equiv> exec lab tb_context_jump"
  assumes "switches (x64 lab) S m" "area_free (x64 lab) S m" "S (regs m RDI) = Some k"
  shows "(\<forall>r \<in> {RBX, RBP, R12, R13, R14, R15}. regs (jump m) r = regs k r) \<and>
    regs (jump m) RSP = regs k RSP + 8 \<and> rip (jump m) = load (m_mem k) (regs k RSP) \<and>
    regs (jump m) RAX = regs m RSP - 48 \<and> regs (jump m) RDX = regs m RSI \<and>
    (\<forall>a n. apart a n (regs m RSP - 48) 48 \<longrightarrow> same_bytes (m_mem (jump m)) (m_mem m) a n)"
proof -
  have "x64_found (jump m) = x64_kept k"
    using x64_switch.resumed_found [OF assms(2) _ assms(3)] assms(4) by (simp add: x64_def jump_def)
  moreover have "\<forall>a n. apart a n (regs m RSP - 48) 48 \<longrightarrow> same_bytes (m_mem (jump m)) (m_mem m) a n"
    using saved_frame by (simp add: jump_def jump_effect)
  moreover have "regs (jump m) RAX = regs m RSP - 48" "regs (jump m) RDX = regs m RSI"
    by (simp_all add: jump_def jump_effect)
  ultimately show ?thesis by (auto simp: x64_found_def x64_kept_def callee_saved_def)
qed

section \<open>Starting\<close>

text \<open>Where \<open>tb_context_make\<close> puts the context: below the highest multiple of 16 in the stack.\<close>

definition made_at :: "machine \<Rightarrow> uint64" where
  "made_at m = ((regs m RDI + regs m RSI) AND - 16) - 56"

lemma make_effect:
  assumes "apart (regs m RSP) 8 (made_at m + 32) 24"
  shows "exec lab tb_context_make m = m\<lparr>
    m_mem := store (made_at m + 40) (lab End) (store (made_at m + 48) (lab Entry)
      (store (made_at m + 32) (regs m RDX) (m_mem m))),
    rip := load (m_mem m) (regs m RSP),
    regs := (regs m)(RDI := regs m RDI + regs m RSI, RAX := made_at m, R8 := - 16, RCX := lab End,
      RSP := regs m RSP + 8)\<rparr>" (is "?l = ?r")
proof -
  note run = exec_def tb_context_make_def set_reg_def Let_def made_at_def
  have sub: "apart (regs m RSP) 8 (made_at m + 32 + of_nat k) 8" if "k + 8 \<le> 24" for k
    using apart_sub [OF assms [unfolded apart_sym [of "regs m RSP"]] that] by (simp add: apart_sym [of "regs m RSP"])
  have ap: "apart (regs m RSP) 8 (made_at m + 32) 8" "apart (regs m RSP) 8 (made_at m + 40) 8"
    "apart (regs m RSP) 8 (made_at m + 48) 8"
    using sub [of 0] sub [of 8] sub [of 16] by (simp_all add: add.assoc)
  have "regs ?l r = regs ?r r" for r
    by (cases r) (simp_all add: run)
  then have "regs ?l = regs ?r" ..
  moreover have "m_mem ?l = m_mem ?r" "exit_status ?l = exit_status ?r"
    by (simp_all add: run)
  moreover have "rip ?l = rip ?r"
    using load_store_word [OF _ ap(1)] load_store_word [OF _ ap(2)] load_store_word [OF _ ap(3)]
    by (simp add: run)
  ultimately show ?thesis by (intro machine.equality) simp_all
qed

text \<open>A stack that can hold a context: it does not wrap around, and has room for a context and the alignment.\<close>

definition stack_room :: "machine \<Rightarrow> bool" where
  "stack_room m \<longleftrightarrow> unat (regs m RDI) + unat (regs m RSI) < 2 ^ 64 \<and> 72 \<le> unat (regs m RSI)"

lemma made_at_range:
  assumes "stack_room m"
  shows "unat (regs m RDI) \<le> unat (made_at m)" "unat (made_at m) + 56 \<le> unat (regs m RDI) + unat (regs m RSI)"
    "16 dvd unat (made_at m + 56)"
  using block_at_top(2-4) [of "regs m RDI" "regs m RSI" 56] assms by (simp_all add: stack_room_def made_at_def)

lemma apart_made:
  assumes "stack_room m" "apart (regs m RSP) 8 (regs m RDI) (unat (regs m RSI))"
  shows "apart (regs m RSP) 8 (made_at m + 32) 24"
proof -
  note r = made_at_range [OF assms(1)]
  define i where "i = unat (made_at m) - unat (regs m RDI) + 32"
  have i: "i + 24 \<le> unat (regs m RSI)" using r(1,2) by (simp add: i_def)
  have "made_at m + 32 = regs m RDI + of_nat i"
    using r(1) by (simp add: i_def of_nat_diff)
  with apart_sub [OF assms(2) [unfolded apart_sym [of "regs m RSP"]] i] show ?thesis
    by (simp add: apart_sym [of "regs m RSP"])
qed

lemma made_loads:
  assumes "apart (regs m RSP) 8 (made_at m + 32) 24"
  shows "load (m_mem (exec lab tb_context_make m)) (made_at m + 32) = regs m RDX"
    "load (m_mem (exec lab tb_context_make m)) (made_at m + 40) = lab End"
    "load (m_mem (exec lab tb_context_make m)) (made_at m + 48) = lab Entry"
  by (simp_all add: make_effect [OF assms] load_store_offset)

lemma entry_effect:
  "rip (exec lab context_entry m) = regs m RBX" "regs (exec lab context_entry m) RDI = regs m RAX"
  "regs (exec lab context_entry m) RSI = regs m RSI" "regs (exec lab context_entry m) RSP = regs m RSP - 8"
  "load (m_mem (exec lab context_entry m)) (regs m RSP - 8) = regs m RBP"
  by (simp_all add: exec_def context_entry_def set_reg_def Let_def)

text \<open>C24: a context that was made starts its function. \<open>tb_context_make\<close>, called with a stack of at least 72 bytes
  that does not hold the caller's frame, returns to its caller with the registers a callee must keep, and
  the context lies inside the stack. If its last 24 bytes are still as they were when some code jumps to it,
  from a stack that does not overlap it, execution arrives at \<open>__entry\<close> and from there at the function: its
  argument (a structure in two registers) is the context and the pointer of the code that jumped, its
  stack pointer is aligned as the calling convention demands, and the return address on its stack is
  \<open>__end\<close>.\<close>

theorem context_starts_function:
  fixes lab :: "label \<Rightarrow> uint64"
  defines "made \<equiv> exec lab tb_context_make" and "started \<equiv> \<lambda>n. exec lab context_entry (exec lab tb_context_jump n)"
  assumes "stack_room m" "apart (regs m RSP) 8 (regs m RDI) (unat (regs m RSI))"
    and "regs n RDI = regs (made m) RAX" "same_bytes (m_mem n) (m_mem (made m)) (regs n RDI + 32) 24"
    and "apart (regs n RDI) 56 (regs n RSP - 48) 48"
  shows "rip (made m) = load (m_mem m) (regs m RSP) \<and> regs (made m) RSP = regs m RSP + 8 \<and>
    (\<forall>r \<in> {RBX, RBP, R12, R13, R14, R15}. regs (made m) r = regs m r) \<and>
    unat (regs m RDI) \<le> unat (regs n RDI) \<and> unat (regs n RDI) + 56 \<le> unat (regs m RDI) + unat (regs m RSI) \<and>
    rip (exec lab tb_context_jump n) = lab Entry \<and> rip (started n) = regs m RDX \<and>
    regs (started n) RDI = regs n RSP - 48 \<and> regs (started n) RSI = regs n RSI \<and>
    16 dvd unat (regs (started n) RSP + 8) \<and> load (m_mem (started n)) (regs (started n) RSP) = lab End"
proof -
  note ap = apart_made [OF assms(3,4)]
  note made = make_effect [OF ap, of lab, folded made_def]
  have c: "regs n RDI = made_at m" using assms(5) by (simp add: made)
  have "same_bytes (saved n) (m_mem n) (made_at m) 56" using saved_frame [OF assms(7)] by (simp add: c)
  note s = load_same [OF this, of 32] load_same [OF this, of 40] load_same [OF this, of 48]
  note k = load_same [OF assms(6), of 0] load_same [OF assms(6), of 8] load_same [OF assms(6), of 16]
  have loads: "load (saved n) (made_at m + 32) = regs m RDX" "load (saved n) (made_at m + 40) = lab End"
    "load (saved n) (made_at m + 48) = lab Entry"
    using s k made_loads [OF ap, of lab, folded made_def] by (simp_all add: c add.assoc)
  have entered: "rip (exec lab tb_context_jump n) = lab Entry" using loads(3) by (simp add: jump_effect c)
  have start: "rip (started n) = regs m RDX" "regs (started n) RDI = regs n RSP - 48"
    "regs (started n) RSI = regs n RSI" "regs (started n) RSP = made_at m + 48"
    "load (m_mem (started n)) (regs (started n) RSP) = lab End"
    using loads entry_effect [of lab "exec lab tb_context_jump n"]
    by (simp_all add: started_def jump_effect c)
  with entered made_at_range [OF assms(3)] show ?thesis by (simp add: made c add.assoc)
qed

text \<open>A function that returns ends the program: the address it returns to is \<open>__end\<close>.\<close>

lemma context_end_exits: "exit_status (exec lab context_end m) = Some 0"
  by (simp add: exec_def context_end_def set_reg_def)

text \<open>With a stack and a size that are multiples of 16, as \<open>malloc\<close> and the scheduler give them, the context is
  56 bytes below the top.\<close>

lemma made_at_aligned:
  assumes "stack_room m" "16 dvd unat (regs m RDI)" "16 dvd unat (regs m RSI)"
  shows "made_at m = regs m RDI + regs m RSI - 56"
proof -
  have "16 dvd unat (regs m RDI) + unat (regs m RSI)" using assms(2,3) by (rule dvd_add)
  moreover have "unat (regs m RDI + regs m RSI) = unat (regs m RDI) + unat (regs m RSI)"
    using assms(1) by (simp add: stack_room_def unat_word_ariths)
  ultimately have "(regs m RDI + regs m RSI) AND - 16 = regs m RDI + regs m RSI"
    by (simp add: word_unat_eq_iff aligned_down)
  then show ?thesis by (simp add: made_at_def)
qed

section \<open>Two coroutines\<close>

text \<open>A machine with the loop's stack below 0x10000 and a coroutine stack of 4096 bytes at 0x20000.\<close>

definition machine0 :: machine where
  "machine0 = \<lparr>regs = (\<lambda>_. 0)(RSP := 0xF000, RDI := 0x20000, RSI := 0x1000, RDX := 0x400000, RBX := 7),
     m_mem = (\<lambda>_. 0), rip = 0, exit_status = None\<rparr>"

definition lab0 :: "label \<Rightarrow> uint64" where
  "lab0 l = (case l of Entry \<Rightarrow> 0x500000 | End \<Rightarrow> 0x500010)"

theorem context_starts_function_witness:
  "let m1 = exec lab0 tb_context_make machine0;
       m2 = m1\<lparr>regs := (regs m1)(RDI := regs m1 RAX, RSI := 42, RSP := 0xF000)\<rparr>;
       m3 = exec lab0 context_entry (exec lab0 tb_context_jump m2)
   in rip m3 = 0x400000 \<and> regs m3 RDI = 0xEFD0 \<and> regs m3 RSI = 42"
proof -
  let ?m1 = "exec lab0 tb_context_make machine0"
  let ?m2 = "?m1\<lparr>regs := (regs ?m1)(RDI := regs ?m1 RAX, RSI := 42, RSP := 0xF000)\<rparr>"
  have room: "stack_room machine0" "apart (regs machine0 RSP) 8 (regs machine0 RDI) (unat (regs machine0 RSI))"
    by (simp_all add: machine0_def stack_room_def apart_def)
  have "made_at machine0 = 0x20FC8"
    using made_at_aligned [OF room(1)] by (simp add: machine0_def)
  with make_effect [OF apart_made [OF room], of lab0] have "apart (regs ?m2 RDI) 56 (regs ?m2 RSP - 48) 48"
    by (simp add: apart_def)
  with context_starts_function [OF room, of ?m2 lab0] show ?thesis
    by (simp add: Let_def same_bytes_def machine0_def)
qed

theorem context_switch_returns_witness:
  "let m1 = machine0\<lparr>regs := (regs machine0)(RDI := 0x20FC8)\<rparr>; m2 = exec lab0 tb_context_jump m1;
       n = m2\<lparr>regs := (regs m2)(RDI := regs m2 RAX, RSI := 5, RBX := 0)\<rparr>; n2 = exec lab0 tb_context_jump n
   in regs n2 RBX = 7 \<and> regs n2 RSP = 0xF008 \<and> regs n2 RDX = 5"
proof -
  let ?m1 = "machine0\<lparr>regs := (regs machine0)(RDI := 0x20FC8)\<rparr>"
  let ?m2 = "exec lab0 tb_context_jump ?m1"
  let ?n = "?m2\<lparr>regs := (regs ?m2)(RDI := regs ?m2 RAX, RSI := 5, RBX := 0)\<rparr>"
  let ?S = "[0xEFD0 \<mapsto> ?m1]"
  have "switches (x64 lab0) ?S ?m2"
    using switches_jump [OF switches_start, of "x64 lab0" ?m1] by (simp add: x64_def area_free_def machine0_def)
  then have "switches (x64 lab0) ?S ?n"
    by (rule switches_run) (simp add: x64_def same_bytes_def)
  moreover have "area_free (x64 lab0) ?S ?n"
    by (simp add: area_free_def x64_def jump_effect apart_def machine0_def)
  moreover have "?S (regs ?n RDI) = Some ?m1" by (simp add: jump_effect machine0_def)
  ultimately show ?thesis
    using context_switch_returns [of lab0 ?S ?n ?m1] by (simp add: Let_def machine0_def)
qed

end
