(* ===== verification/Context_ARM64.thy ===== *)
theory Context_ARM64
  imports Context_Switch
begin

text \<open>
  The context switch on 64 bit ARM: \<open>src/context/context_arm64.S\<close> as it is assembled for Linux. The model is that of the
  x86-64 routines, with the registers and instructions of this machine; the vector registers are part of the machine because the
  calling convention counts some of them among those a callee keeps, although the routines do not mention them.
\<close>

unbundle bit_operations_syntax

section \<open>The machine\<close>

text \<open>The general registers \<open>x0\<close> to \<open>x30\<close>, the stack pointer, and the lower halves \<open>d0\<close> to \<open>d31\<close> of the vector
  registers.\<close>

datatype arm_reg = X nat | XSP | D nat

datatype arm_instr =
    Add_reg arm_reg arm_reg arm_reg \<comment> \<open>destination first, as in the source file\<close>
  | Add_imm arm_reg arm_reg uint64
  | Sub_imm arm_reg arm_reg uint64
  | And_imm arm_reg arm_reg uint64
  | Mov arm_reg arm_reg
  | Mov_imm arm_reg uint64
  | Adr_end arm_reg
  | Str arm_reg arm_reg uint64 \<comment> \<open>source, base, offset\<close>
  | Ldr arm_reg arm_reg uint64
  | Stp arm_reg arm_reg arm_reg uint64
  | Ldp arm_reg arm_reg arm_reg uint64
  | RetR arm_reg
  | Bl_exit

record arm_machine =
  aregs :: "arm_reg \<Rightarrow> uint64"
  a_mem :: "64 memory"
  a_pc :: uint64
  a_exit :: "uint64 option"

definition set_areg :: "arm_reg \<Rightarrow> uint64 \<Rightarrow> arm_machine \<Rightarrow> arm_machine" where
  "set_areg r v m = m\<lparr>aregs := (aregs m)(r := v)\<rparr>"

fun arm_exec1 :: "uint64 \<Rightarrow> arm_instr \<Rightarrow> arm_machine \<Rightarrow> arm_machine" where
  "arm_exec1 lend (Add_reg d a b) m = set_areg d (aregs m a + aregs m b) m"
| "arm_exec1 lend (Add_imm d a i) m = set_areg d (aregs m a + i) m"
| "arm_exec1 lend (Sub_imm d a i) m = set_areg d (aregs m a - i) m"
| "arm_exec1 lend (And_imm d a i) m = set_areg d (aregs m a AND i) m"
| "arm_exec1 lend (Mov d a) m = set_areg d (aregs m a) m"
| "arm_exec1 lend (Mov_imm d i) m = set_areg d i m"
| "arm_exec1 lend (Adr_end d) m = set_areg d lend m"
| "arm_exec1 lend (Str s b i) m = m\<lparr>a_mem := store (aregs m b + i) (aregs m s) (a_mem m)\<rparr>"
| "arm_exec1 lend (Ldr d b i) m = set_areg d (load (a_mem m) (aregs m b + i)) m"
| "arm_exec1 lend (Stp s t b i) m =
     m\<lparr>a_mem := store (aregs m b + i + 8) (aregs m t) (store (aregs m b + i) (aregs m s) (a_mem m))\<rparr>"
| "arm_exec1 lend (Ldp d e b i) m =
     set_areg e (load (a_mem m) (aregs m b + i + 8)) (set_areg d (load (a_mem m) (aregs m b + i)) m)"
| "arm_exec1 lend (RetR r) m = m\<lparr>a_pc := aregs m r\<rparr>"
| "arm_exec1 lend Bl_exit m = m\<lparr>a_exit := Some (aregs m (X 0))\<rparr>"

definition arm_exec :: "uint64 \<Rightarrow> arm_instr list \<Rightarrow> arm_machine \<Rightarrow> arm_machine" where
  "arm_exec lend is m = fold (arm_exec1 lend) is m"

section \<open>The routines\<close>

text \<open>Arguments: \<open>x0\<close> is the stack, \<open>x1\<close> its size, \<open>x2\<close> the function; the result is in \<open>x0\<close>.\<close>

definition arm_context_make :: "arm_instr list" where
  "arm_context_make =
     [Add_reg (X 0) (X 0) (X 1),
      And_imm (X 0) (X 0) (NOT 15),
      Sub_imm (X 0) (X 0) 112,
      Str (X 2) (X 0) 96,
      Adr_end (X 1),
      Str (X 1) (X 0) 88,
      RetR (X 30)]"

definition arm_context_end :: "arm_instr list" where
  "arm_context_end = [Mov_imm (X 0) 0, Bl_exit]"

text \<open>Arguments and results: \<open>x0\<close> is the context to switch to and then the old one, \<open>x1\<close> the private pointer.\<close>

definition arm_context_jump :: "arm_instr list" where
  "arm_context_jump =
     [Sub_imm XSP XSP 0x70,
      Stp (X 19) (X 20) XSP 0x00, Stp (X 21) (X 22) XSP 0x10, Stp (X 23) (X 24) XSP 0x20,
      Stp (X 25) (X 26) XSP 0x30, Stp (X 27) (X 28) XSP 0x40, Stp (X 29) (X 30) XSP 0x50,
      Str (X 30) XSP 0x60,
      Mov (X 4) XSP,
      Mov XSP (X 0),
      Ldp (X 19) (X 20) XSP 0x00, Ldp (X 21) (X 22) XSP 0x10, Ldp (X 23) (X 24) XSP 0x20,
      Ldp (X 25) (X 26) XSP 0x30, Ldp (X 27) (X 28) XSP 0x40, Ldp (X 29) (X 30) XSP 0x50,
      Mov (X 0) (X 4),
      Ldr (X 4) XSP 0x60,
      Add_imm XSP XSP 0x70,
      RetR (X 4)]"

section \<open>Switching\<close>

text \<open>The general registers a context holds, with the offsets of their words.\<close>

definition arm_saved_regs :: "arm_reg list" where
  "arm_saved_regs = map X [19, 20, 21, 22, 23, 24, 25, 26, 27, 28, 29, 30]"

definition arm_offsets :: "nat list" where
  "arm_offsets = [0, 8, 16, 24, 32, 40, 48, 56, 64, 72, 80, 88]"

definition arm_kept :: "arm_machine \<Rightarrow> uint64 list \<times> uint64 \<times> uint64" where
  "arm_kept m = (map (aregs m) arm_saved_regs, aregs m XSP, aregs m (X 30))"

definition arm_found :: "arm_machine \<Rightarrow> uint64 list \<times> uint64 \<times> uint64" where
  "arm_found m = (map (aregs m) arm_saved_regs, aregs m XSP, a_pc m)"

definition arm_frame :: "64 memory \<Rightarrow> uint64 \<Rightarrow> uint64 list \<times> uint64 \<times> uint64" where
  "arm_frame M c = (words_at M c arm_offsets, c + 112, load M (c + 96))"

definition arm64 :: "uint64 \<Rightarrow> (arm_machine, uint64) switching" where
  "arm64 lend = \<lparr>sw_jump = arm_exec lend arm_context_jump, sw_mem = a_mem, sw_target = (\<lambda>m. aregs m (X 0)),
     sw_area = (\<lambda>m. aregs m XSP - 112), sw_bytes = 112, sw_written = 112, sw_results = (\<lambda>_. [])\<rparr>"

text \<open>The memory after the stores.\<close>

definition arm_saved :: "arm_machine \<Rightarrow> 64 memory" where
  "arm_saved m = stores (aregs m XSP - 112)
     (zip arm_offsets (map (aregs m) arm_saved_regs) @ [(96, aregs m (X 30))]) (a_mem m)"

lemma arm_jump_effect:
  fixes lend m
  defines "c \<equiv> aregs m (X 0)" and "m' \<equiv> arm_exec lend arm_context_jump m"
  shows "a_mem m' = arm_saved m" "arm_found m' = arm_frame (arm_saved m) c"
    "aregs m' (X 0) = aregs m XSP - 112" "aregs m' (X 1) = aregs m (X 1)" "aregs m' (D i) = aregs m (D i)"
  unfolding m'_def c_def
  by (simp_all add: arm_exec_def arm_context_jump_def set_areg_def arm_saved_def Let_def arm_offsets_def arm_saved_regs_def
      arm_found_def arm_frame_def words_at_def add.assoc)

text \<open>The stores write into the 112 bytes below the stack pointer, and make a context.\<close>

lemma arm_saved_context: "arm_frame (arm_saved m) (aregs m XSP - 112) = arm_kept m"
  by (simp add: arm_frame_def words_at_def arm_kept_def arm_saved_def Let_def arm_offsets_def arm_saved_regs_def load_store_offset)

lemma arm_saved_frame: "apart a n (aregs m XSP - 112) 112 \<Longrightarrow> same_bytes (arm_saved m) (a_mem m) a n"
  unfolding arm_saved_def by (erule stores_same) (simp_all add: arm_offsets_def arm_saved_regs_def)

lemma arm_frame_same: "same_bytes M M' c 112 \<Longrightarrow> arm_frame M c = arm_frame M' c"
  using load_same [of M M' c 112 96] words_at_same [of M M' c 112 arm_offsets] by (simp add: arm_frame_def arm_offsets_def)

interpretation arm_switch: context_switch "arm64 lend" arm_kept arm_found arm_frame
proof
  fix m assume "avoids (sw_target (arm64 lend) m) (sw_bytes (arm64 lend)) ((sw_area (arm64 lend) m, sw_written (arm64 lend)) # sw_results (arm64 lend) m)"
  then have "arm_frame (arm_saved m) (aregs m (X 0)) = arm_frame (a_mem m) (aregs m (X 0))"
    by (intro arm_frame_same arm_saved_frame) (simp add: arm64_def)
  then show "arm_found (sw_jump (arm64 lend) m) = arm_frame (sw_mem (arm64 lend) m) (sw_target (arm64 lend) m)"
    by (simp add: arm64_def arm_jump_effect)
qed (simp_all add: arm64_def arm_jump_effect arm_saved_frame arm_saved_context arm_frame_same)

text \<open>C25: on 64 bit ARM, too, a switch among any number of contexts is a call that returns, as far as the general registers go: when the
  code that ran in between wrote to no suspended context, execution goes on behind the call of \<open>tb_context_jump\<close> in
  state \<open>k\<close> with \<open>x19\<close> to \<open>x30\<close> and the stack pointer of that state; the result is the context of the code that
  jumped and the pointer it passed. The vector registers are not part of a context: although the calling convention counts \<open>d8\<close> to
  \<open>d15\<close> among the registers a callee keeps, code that is resumed finds in them what the code that jumped to it had there.\<close>

theorem arm_switch_returns:
  fixes lend :: uint64
  defines "jump \<equiv> arm_exec lend arm_context_jump"
  assumes "switches (arm64 lend) S m" "area_free (arm64 lend) S m" "S (aregs m (X 0)) = Some k"
  shows "(\<forall>i. 19 \<le> i \<and> i \<le> 30 \<longrightarrow> aregs (jump m) (X i) = aregs k (X i)) \<and>
    aregs (jump m) XSP = aregs k XSP \<and> a_pc (jump m) = aregs k (X 30) \<and>
    aregs (jump m) (X 0) = aregs m XSP - 112 \<and> aregs (jump m) (X 1) = aregs m (X 1) \<and>
    (\<forall>i. aregs (jump m) (D i) = aregs m (D i))"
proof -
  have "arm_found (jump m) = arm_kept k"
    using arm_switch.resumed_found [OF assms(2) _ assms(3)] assms(4) by (simp add: arm64_def jump_def)
  moreover have "X i \<in> set arm_saved_regs" if "19 \<le> i" "i \<le> 30" for i
  proof -
    have "i = 19 \<or> i = 20 \<or> i = 21 \<or> i = 22 \<or> i = 23 \<or> i = 24 \<or> i = 25 \<or> i = 26 \<or> i = 27 \<or> i = 28 \<or> i = 29 \<or> i = 30"
      using that by arith
    then show ?thesis by (auto simp: arm_saved_regs_def)
  qed
  ultimately show ?thesis
    by (auto simp: arm_found_def arm_kept_def jump_def arm_jump_effect simp del: One_nat_def)
qed

text \<open>The loop's stack below 0xF000, a context at 0x20F90, a coroutine that uses \<open>x19\<close> and \<open>d8\<close>.\<close>

definition arm0 :: arm_machine where
  "arm0 = \<lparr>aregs = (\<lambda>_. 0)(XSP := 0xF000, X 0 := 0x20F90, X 19 := 7, X 30 := 0x400000, D 8 := 7), a_mem = (\<lambda>_. 0),
     a_pc = 0, a_exit = None\<rparr>"

theorem arm_switch_returns_witness:
  "let m = arm_exec 0 arm_context_jump arm0;
       n = m\<lparr>aregs := (aregs m)(X 1 := 5, X 19 := 0, D 8 := 9)\<rparr>; n' = arm_exec 0 arm_context_jump n
   in aregs n' (X 19) = 7 \<and> aregs n' XSP = 0xF000 \<and> a_pc n' = 0x400000 \<and> aregs n' (X 1) = 5 \<and> aregs n' (D 8) = 9"
proof -
  let ?m = "arm_exec 0 arm_context_jump arm0"
  let ?n = "?m\<lparr>aregs := (aregs ?m)(X 1 := 5, X 19 := 0, D 8 := 9)\<rparr>"
  let ?S = "[0xEF90 \<mapsto> arm0]"
  have sp: "aregs ?m XSP = 0x21000" "aregs ?m (X 0) = 0xEF90"
    by (simp_all add: arm0_def arm_exec_def arm_context_jump_def set_areg_def)
  have "switches (arm64 0) ?S ?m"
    using switches_jump [OF switches_start, of "arm64 0" arm0] by (simp add: arm64_def area_free_def arm0_def)
  then have "switches (arm64 0) ?S ?n"
    by (rule switches_run) (simp add: arm64_def same_bytes_def)
  moreover have "area_free (arm64 0) ?S ?n" by (simp add: area_free_def arm64_def apart_def sp)
  moreover have "?S (aregs ?n (X 0)) = Some arm0" by (simp add: sp)
  ultimately show ?thesis
    using arm_switch_returns [of 0 ?S ?n arm0] by (simp add: Let_def arm0_def)
qed

section \<open>Starting\<close>

definition arm_made_at :: "arm_machine \<Rightarrow> uint64" where
  "arm_made_at m = ((aregs m (X 0) + aregs m (X 1)) AND - 16) - 112"

text \<open>A stack that can hold a context.\<close>

definition arm_room :: "arm_machine \<Rightarrow> bool" where
  "arm_room m \<longleftrightarrow> unat (aregs m (X 0)) + unat (aregs m (X 1)) < 2 ^ 64 \<and> 128 \<le> unat (aregs m (X 1))"

lemma arm_make_effect:
  fixes lend m
  defines "m' \<equiv> arm_exec lend arm_context_make m"
  shows "a_mem m' = store (arm_made_at m + 88) lend (store (arm_made_at m + 96) (aregs m (X 2)) (a_mem m))"
    "aregs m' (X 0) = arm_made_at m" "a_pc m' = aregs m (X 30)" "2 \<le> i \<Longrightarrow> aregs m' (X i) = aregs m (X i)"
    "aregs m' XSP = aregs m XSP" "aregs m' (D j) = aregs m (D j)"
  unfolding m'_def
  by (simp_all add: arm_exec_def arm_context_make_def set_areg_def arm_made_at_def)

lemma arm_made_range:
  assumes "arm_room m"
  shows "unat (aregs m (X 0)) \<le> unat (arm_made_at m)"
    "unat (arm_made_at m) + 112 \<le> unat (aregs m (X 0)) + unat (aregs m (X 1))" "16 dvd unat (arm_made_at m + 112)"
  using block_at_top(2-4) [of "aregs m (X 0)" "aregs m (X 1)" 112] assms by (simp_all add: arm_room_def arm_made_at_def)

text \<open>A context that was made starts its function. If bytes 88 to 103 of the context are still as \<open>tb_context_make\<close> left them when some
  code jumps to it, from a stack that does not overlap it, execution arrives at the function: its argument (a structure in
  two registers) is the context and the pointer of the code that jumped, its stack pointer is the aligned top of the stack, and the
  address it returns to is \<open>__end\<close>.\<close>

theorem arm_context_starts:
  fixes lend :: uint64
  defines "made \<equiv> arm_exec lend arm_context_make" and "jump \<equiv> arm_exec lend arm_context_jump"
  assumes "arm_room m" "aregs n (X 0) = aregs (made m) (X 0)"
    and "same_bytes (a_mem n) (a_mem (made m)) (aregs n (X 0) + 88) 16"
    and "apart (aregs n (X 0)) 112 (aregs n XSP - 112) 112"
  shows "a_pc (made m) = aregs m (X 30) \<and> aregs (made m) XSP = aregs m XSP \<and>
    unat (aregs m (X 0)) \<le> unat (aregs n (X 0)) \<and> unat (aregs n (X 0)) + 112 \<le> unat (aregs m (X 0)) + unat (aregs m (X 1)) \<and>
    a_pc (jump n) = aregs m (X 2) \<and> aregs (jump n) (X 0) = aregs n XSP - 112 \<and> aregs (jump n) (X 1) = aregs n (X 1) \<and>
    16 dvd unat (aregs (jump n) XSP) \<and> aregs (jump n) (X 30) = lend"
proof -
  let ?c = "arm_made_at m"
  have c: "aregs n (X 0) = ?c" using assms(4) by (simp add: made_def arm_make_effect)
  have "load (a_mem n) (?c + 88) = lend" "load (a_mem n) (?c + 96) = aregs m (X 2)"
    using load_same [OF assms(5), of 0] load_same [OF assms(5), of 8]
    by (simp_all add: c made_def arm_make_effect load_store_offset add.assoc)
  moreover have "same_bytes (arm_saved n) (a_mem n) ?c 112" using arm_saved_frame [OF assms(6)] by (simp add: c)
  then have "load (arm_saved n) (?c + 88) = load (a_mem n) (?c + 88)" "load (arm_saved n) (?c + 96) = load (a_mem n) (?c + 96)"
    using load_same [of "arm_saved n" "a_mem n" ?c 112 88] load_same [of "arm_saved n" "a_mem n" ?c 112 96] by simp_all
  moreover have "arm_found (jump n) = arm_frame (arm_saved n) ?c" by (simp add: jump_def arm_jump_effect c)
  ultimately have "a_pc (jump n) = aregs m (X 2)" "aregs (jump n) (X 30) = lend" "aregs (jump n) XSP = ?c + 112"
    by (simp_all add: arm_found_def arm_frame_def arm_offsets_def arm_saved_regs_def words_at_def)
  with arm_made_range [OF assms(3)] show ?thesis
    by (simp add: c made_def jump_def arm_make_effect arm_jump_effect del: One_nat_def)
qed

text \<open>A function that returns ends the program.\<close>

lemma arm_end_exits: "a_exit (arm_exec lend arm_context_end m) = Some 0"
  by (simp add: arm_exec_def arm_context_end_def set_areg_def)

end
