(* ===== verification/Context_X86.thy ===== *)
theory Context_X86
  imports Context_Switch
begin

text \<open>
  The context switch on 32 bit x86: the branch of \<open>src/context/context_x86.S\<close> that is assembled for Linux. Arguments are passed on
  the stack, and a structure is returned in memory: the caller of \<open>tb_context_jump\<close> pushes the address as a hidden first argument, which the
  callee takes from the stack when it returns.
\<close>

unbundle bit_operations_syntax

section \<open>The machine\<close>

datatype x86_reg = EAX | EBX | ECX | EDX | ESI | EDI | EBP | ESP

datatype x86_label = X_entry | X_end | X_1 | X_2

text \<open>Operands in the order of the source file: the destination comes last.\<close>

datatype x86_instr =
    X_push x86_reg
  | X_pop x86_reg
  | X_mov x86_reg x86_reg
  | X_load uint32 x86_reg x86_reg \<comment> \<open>displacement, base, destination\<close>
  | X_store x86_reg uint32 x86_reg \<comment> \<open>source, displacement, base\<close>
  | X_add_from uint32 x86_reg x86_reg \<comment> \<open>displacement, base, destination\<close>
  | X_and_imm uint32 x86_reg
  | X_xor x86_reg x86_reg
  | X_lea uint32 x86_reg x86_reg \<comment> \<open>displacement, base, destination\<close>
  | X_call_next x86_label \<comment> \<open>a call of the next instruction, which has that label\<close>
  | X_add_diff x86_label x86_label x86_reg \<comment> \<open>the distance of two labels\<close>
  | X_jmp x86_reg
  | X_ret uint32 \<comment> \<open>the bytes of arguments that are taken from the stack\<close>
  | X_call_exit
  | X_hlt

record x86_machine =
  x86_regs :: "x86_reg \<Rightarrow> uint32"
  x86_mem :: "32 memory"
  x86_ip :: uint32
  x86_exit :: "uint32 option"

definition set_x86 :: "x86_reg \<Rightarrow> uint32 \<Rightarrow> x86_machine \<Rightarrow> x86_machine" where
  "set_x86 r v m = m\<lparr>x86_regs := (x86_regs m)(r := v)\<rparr>"

definition x86_push :: "uint32 \<Rightarrow> x86_machine \<Rightarrow> x86_machine" where
  "x86_push v m = (let sp = x86_regs m ESP - 4 in (set_x86 ESP sp m)\<lparr>x86_mem := store sp v (x86_mem m)\<rparr>)"

fun x86_exec1 :: "(x86_label \<Rightarrow> uint32) \<Rightarrow> x86_instr \<Rightarrow> x86_machine \<Rightarrow> x86_machine" where
  "x86_exec1 lab (X_push r) m = x86_push (x86_regs m r) m"
| "x86_exec1 lab (X_pop r) m = set_x86 r (load (x86_mem m) (x86_regs m ESP)) (set_x86 ESP (x86_regs m ESP + 4) m)"
| "x86_exec1 lab (X_mov s d) m = set_x86 d (x86_regs m s) m"
| "x86_exec1 lab (X_load i b d) m = set_x86 d (load (x86_mem m) (x86_regs m b + i)) m"
| "x86_exec1 lab (X_store s i b) m = m\<lparr>x86_mem := store (x86_regs m b + i) (x86_regs m s) (x86_mem m)\<rparr>"
| "x86_exec1 lab (X_add_from i b d) m = set_x86 d (x86_regs m d + load (x86_mem m) (x86_regs m b + i)) m"
| "x86_exec1 lab (X_and_imm i d) m = set_x86 d (x86_regs m d AND i) m"
| "x86_exec1 lab (X_xor s d) m = set_x86 d (x86_regs m d XOR x86_regs m s) m"
| "x86_exec1 lab (X_lea i b d) m = set_x86 d (x86_regs m b + i) m"
| "x86_exec1 lab (X_call_next l) m = x86_push (lab l) m"
| "x86_exec1 lab (X_add_diff l l' d) m = set_x86 d (x86_regs m d + (lab l - lab l')) m"
| "x86_exec1 lab (X_jmp r) m = m\<lparr>x86_ip := x86_regs m r\<rparr>"
| "x86_exec1 lab (X_ret n) m =
     set_x86 ESP (x86_regs m ESP + 4 + n) (m\<lparr>x86_ip := load (x86_mem m) (x86_regs m ESP)\<rparr>)"
| "x86_exec1 lab X_call_exit m = m\<lparr>x86_exit := Some (load (x86_mem m) (x86_regs m ESP))\<rparr>"
| "x86_exec1 lab X_hlt m = m"

definition x86_exec :: "(x86_label \<Rightarrow> uint32) \<Rightarrow> x86_instr list \<Rightarrow> x86_machine \<Rightarrow> x86_machine" where
  "x86_exec lab is m = fold (x86_exec1 lab) is m"

section \<open>The routines\<close>

text \<open>Arguments on the stack behind the return address: the stack, its size, the function; the result is in \<open>eax\<close>.\<close>

definition x86_context_make :: "x86_instr list" where
  "x86_context_make =
     [X_load 4 ESP EAX, X_add_from 8 ESP EAX,
      X_lea (- 8) EAX EAX,
      X_and_imm (- 16) EAX,
      X_lea (- 24) EAX EAX,
      X_load 12 ESP EDX, X_store EDX 8 EAX,
      X_store EAX 20 EAX,
      X_call_next X_1, X_pop ECX, X_add_diff X_entry X_1 ECX, X_store ECX 16 EAX,
      X_call_next X_2, X_pop ECX, X_add_diff X_end X_2 ECX, X_store ECX 12 EAX,
      X_ret 0]"

definition x86_context_entry :: "x86_instr list" where
  "x86_context_entry = [X_store EAX 0 ESP, X_store EDX 4 ESP, X_push EBP, X_jmp EBX]"

definition x86_context_end :: "x86_instr list" where
  "x86_context_end = [X_xor EAX EAX, X_store EAX 0 ESP, X_call_exit, X_hlt]"

text \<open>Arguments on the stack behind the return address: the address of the result, the context to switch to, the private pointer.\<close>

definition x86_context_jump :: "x86_instr list" where
  "x86_context_jump =
     [X_push EBP, X_push EBX, X_push ESI, X_push EDI,
      X_mov ESP EAX,
      X_load 24 ESP ECX,
      X_load 28 ESP EDX,
      X_mov ECX ESP,
      X_pop EDI, X_pop ESI, X_pop EBX, X_pop EBP,
      X_load 4 ESP ECX, X_store EAX 0 ECX, X_store EDX 4 ECX,
      X_ret 4]"

section \<open>Switching\<close>

text \<open>A context has 24 bytes: the registers a callee keeps, the return address and the address of the result, which the caller
  pushed.\<close>

definition x86_saved_regs :: "x86_reg list" where
  "x86_saved_regs = [EDI, ESI, EBX, EBP]"

type_synonym x86_frame = "uint32 list \<times> uint32 \<times> uint32 \<times> uint32"

definition x86_kept :: "x86_machine \<Rightarrow> x86_frame" where
  "x86_kept m = (map (x86_regs m) x86_saved_regs, x86_regs m ESP + 8, load (x86_mem m) (x86_regs m ESP),
     load (x86_mem m) (x86_regs m ESP + 4))"

definition x86_found :: "x86_machine \<Rightarrow> x86_frame" where
  "x86_found m = (map (x86_regs m) x86_saved_regs, x86_regs m ESP, x86_ip m, x86_regs m ECX)"

definition x86_frame_at :: "32 memory \<Rightarrow> uint32 \<Rightarrow> x86_frame" where
  "x86_frame_at M c = (words_at M c [0, 4, 8, 12], c + 24, load M (c + 16), load M (c + 20))"

definition x86_target :: "x86_machine \<Rightarrow> uint32" where
  "x86_target m = load (x86_mem m) (x86_regs m ESP + 8)"

definition x86_priv :: "x86_machine \<Rightarrow> uint32" where
  "x86_priv m = load (x86_mem m) (x86_regs m ESP + 12)"

text \<open>The memory after the four pushes, and after the result is stored.\<close>

definition x86_saved :: "x86_machine \<Rightarrow> 32 memory" where
  "x86_saved m = stores (x86_regs m ESP - 16)
     [(12, x86_regs m EBP), (8, x86_regs m EBX), (4, x86_regs m ESI), (0, x86_regs m EDI)] (x86_mem m)"

definition x86_result :: "x86_machine \<Rightarrow> uint32" where
  "x86_result m = load (x86_saved m) (x86_target m + 20)"

definition x86_stored :: "x86_machine \<Rightarrow> 32 memory" where
  "x86_stored m = stores (x86_result m) [(0, x86_regs m ESP - 16), (4, x86_priv m)] (x86_saved m)"

definition x86 :: "(x86_label \<Rightarrow> uint32) \<Rightarrow> (x86_machine, uint32) switching" where
  "x86 lab = \<lparr>sw_jump = x86_exec lab x86_context_jump, sw_mem = x86_mem, sw_target = x86_target,
     sw_area = (\<lambda>m. x86_regs m ESP - 16), sw_bytes = 24, sw_written = 16, sw_results = (\<lambda>m. [(x86_result m, 8)])\<rparr>"

lemma x86_saved_same: "apart a n (x86_regs m ESP - 16) 16 \<Longrightarrow> same_bytes (x86_saved m) (x86_mem m) a n"
  unfolding x86_saved_def by (erule stores_same) simp_all

lemma x86_saved_above:
  assumes "i \<le> 12"
  shows "load (x86_saved m) (x86_regs m ESP + of_nat i) = load (x86_mem m) (x86_regs m ESP + of_nat i)"
  using load_same [OF x86_saved_same [of "x86_regs m ESP" 16 m], of i] assms by (simp add: apart_def)

lemma x86_jump_effect:
  fixes lab m
  defines "c \<equiv> x86_target m" and "m' \<equiv> x86_exec lab x86_context_jump m"
  shows "x86_mem m' = x86_stored m" "map (x86_regs m') x86_saved_regs = words_at (x86_saved m) c [0, 4, 8, 12]"
    "x86_regs m' ESP = c + 24" "x86_ip m' = load (x86_stored m) (c + 16)" "x86_regs m' ECX = x86_result m"
    "x86_regs m' EAX = x86_regs m ESP - 16" "x86_regs m' EDX = x86_priv m"
  using x86_saved_above [of 8 m] x86_saved_above [of 12 m] unfolding m'_def c_def
  by (simp_all add: x86_exec_def x86_context_jump_def x86_push_def Let_def set_x86_def x86_saved_def x86_stored_def x86_result_def
      x86_saved_regs_def words_at_def x86_target_def x86_priv_def ac_simps)

lemma x86_stored_same: "apart a n (x86_result m) 8 \<Longrightarrow> same_bytes (x86_stored m) (x86_saved m) a n"
  unfolding x86_stored_def by (erule stores_same) simp_all

lemma x86_stored_result:
  "load (x86_stored m) (x86_result m) = x86_regs m ESP - 16" "load (x86_stored m) (x86_result m + 4) = x86_priv m"
  by (simp_all add: x86_stored_def load_store_offset)

text \<open>Together with the return address and the hidden argument the saved registers form a context.\<close>

lemma x86_saved_context: "x86_frame_at (x86_saved m) (x86_regs m ESP - 16) = x86_kept m"
proof -
  have "words_at (x86_saved m) (x86_regs m ESP - 16) [0, 4, 8, 12] = map (x86_regs m) x86_saved_regs"
    by (simp add: words_at_def x86_saved_def x86_saved_regs_def load_store_offset)
  then show ?thesis using x86_saved_above [of 0 m] x86_saved_above [of 4 m] by (simp add: x86_frame_at_def x86_kept_def add.commute)
qed

lemma x86_frame_same: "same_bytes M M' c 24 \<Longrightarrow> x86_frame_at M c = x86_frame_at M' c"
  using load_same [of M M' c 24 16] load_same [of M M' c 24 20] words_at_same [of M M' c 24 "[0, 4, 8, 12]"]
  by (simp add: x86_frame_at_def)

interpretation x86_switch: context_switch "x86 lab" x86_kept x86_found x86_frame_at
proof
  fix m :: x86_machine
  let ?sw = "x86 lab" and ?c = "x86_target m"
  assume "avoids (sw_target ?sw m) (sw_bytes ?sw) ((sw_area ?sw m, sw_written ?sw) # sw_results ?sw m)"
  then have s: "same_bytes (x86_saved m) (x86_mem m) ?c 24" "same_bytes (x86_stored m) (x86_saved m) ?c 24"
    by (simp_all add: x86_def x86_saved_same x86_stored_same)
  have "x86_found (sw_jump ?sw m) = x86_frame_at (x86_saved m) ?c"
    using load_same [OF s(2), of 16] by (simp add: x86_def x86_found_def x86_frame_at_def x86_jump_effect x86_result_def)
  then show "x86_found (sw_jump ?sw m) = x86_frame_at (sw_mem ?sw m) (sw_target ?sw m)"
    using x86_frame_same [OF s(1)] by (simp add: x86_def)
next
  fix m assume "avoids (sw_area (x86 lab) m) (sw_bytes (x86 lab)) (sw_results (x86 lab) m)"
  then show "x86_frame_at (sw_mem (x86 lab) (sw_jump (x86 lab) m)) (sw_area (x86 lab) m) = x86_kept m"
    using x86_frame_same [OF x86_stored_same] by (simp add: x86_def x86_jump_effect x86_saved_context)
qed (auto simp: x86_def x86_jump_effect x86_frame_same intro: same_bytes_trans [OF x86_stored_same x86_saved_same])

text \<open>C36: on 32 bit x86 a switch among any number of contexts is a call that returns its result in memory: when the
  code that ran in between wrote to no suspended context, and neither the stack of the code that jumps nor the
  place of the result overlap one, execution goes on behind the call of \<open>tb_context_jump\<close> in
  state \<open>k\<close> with \<open>ebx\<close>, \<open>esi\<close>, \<open>edi\<close> and \<open>ebp\<close> of that state, the return address and the hidden argument are taken from the stack, and
  the context of the code that jumped and the pointer it passed are in the two words at the address the hidden argument
  gives. Only \<open>eax\<close> is not as the calling convention has it: it holds the context of the code that jumped and not the address of the result.\<close>

theorem x86_switch_returns:
  fixes lab :: "x86_label \<Rightarrow> uint32"
  defines "jump \<equiv> x86_exec lab x86_context_jump" and "arg \<equiv> \<lambda>m i. load (x86_mem m) (x86_regs m ESP + i)"
  assumes "switches (x86 lab) S m" "area_free (x86 lab) S m" "S (arg m 8) = Some k"
  shows "(\<forall>r \<in> {EBX, ESI, EDI, EBP}. x86_regs (jump m) r = x86_regs k r) \<and>
    x86_regs (jump m) ESP = x86_regs k ESP + 8 \<and> x86_ip (jump m) = arg k 0 \<and>
    load (x86_mem (jump m)) (arg k 4) = x86_regs m ESP - 16 \<and> load (x86_mem (jump m)) (arg k 4 + 4) = arg m 12 \<and>
    x86_regs (jump m) EAX = x86_regs m ESP - 16"
proof -
  have f: "x86_found (jump m) = x86_kept k"
    using x86_switch.resumed_found [OF assms(3) _ assms(4)] assms(5) by (simp add: x86_def jump_def arg_def x86_target_def)
  then have r: "x86_result m = arg k 4" by (simp add: x86_found_def x86_kept_def jump_def arg_def x86_jump_effect)
  have "x86_regs (jump m) EAX = x86_regs m ESP - 16" "x86_mem (jump m) = x86_stored m"
    by (simp_all add: jump_def x86_jump_effect)
  with f x86_stored_result [of m] r show ?thesis
    by (simp add: x86_found_def x86_kept_def x86_saved_regs_def arg_def x86_priv_def)
qed

section \<open>Starting\<close>

definition x86_made_at :: "x86_machine \<Rightarrow> uint32" where
  "x86_made_at m =
     ((load (x86_mem m) (x86_regs m ESP + 4) + load (x86_mem m) (x86_regs m ESP + 8) - 8) AND - 16) - 24"

text \<open>A stack that can hold a context and the arguments of the function.\<close>

definition x86_room :: "x86_machine \<Rightarrow> bool" where
  "x86_room m \<longleftrightarrow> unat (load (x86_mem m) (x86_regs m ESP + 4)) + unat (load (x86_mem m) (x86_regs m ESP + 8)) < 2 ^ 32 \<and>
     48 \<le> unat (load (x86_mem m) (x86_regs m ESP + 8))"

lemma x86_made_range:
  assumes "x86_room m"
  defines "stack \<equiv> load (x86_mem m) (x86_regs m ESP + 4)" and "sz \<equiv> load (x86_mem m) (x86_regs m ESP + 8)"
  shows "unat stack \<le> unat (x86_made_at m)" "unat (x86_made_at m) + 32 \<le> unat stack + unat sz" "16 dvd unat (x86_made_at m + 24)"
proof -
  have s: "unat (sz - 8) = unat sz - 8" "48 \<le> unat sz" "unat stack + unat sz < 2 ^ 32"
    using unat_minus_ge [of 8 sz] assms(1) by (simp_all add: x86_room_def stack_def sz_def)
  have c: "x86_made_at m = ((stack + (sz - 8)) AND - 16) - of_nat 24"
    by (simp add: x86_made_at_def stack_def sz_def add_diff_eq)
  have "unat stack + unat (sz - 8) < 2 ^ LENGTH(32)" "24 + 16 \<le> unat (sz - 8)" using s by simp_all
  note b = block_at_top(2-4) [OF this, folded c]
  show "unat stack \<le> unat (x86_made_at m)" "16 dvd unat (x86_made_at m + 24)" using b by simp_all
  show "unat (x86_made_at m) + 32 \<le> unat stack + unat sz" using b(2) s by linarith
qed

lemma x86_make_effect:
  fixes lab m
  defines "c \<equiv> x86_made_at m" and "sp \<equiv> x86_regs m ESP" and "m' \<equiv> x86_exec lab x86_context_make m"
  shows "x86_mem m' = store (c + 12) (lab X_end) (store (sp - 4) (lab X_2) (store (c + 16) (lab X_entry) (store (sp - 4) (lab X_1)
      (store (c + 20) c (store (c + 8) (load (x86_mem m) (sp + 12)) (x86_mem m))))))"
    "x86_regs m' EAX = c" "x86_regs m' ESP = sp + 4" "x86_ip m' = load (x86_mem m') sp"
    "x86_regs m' EBX = x86_regs m EBX" "x86_regs m' ESI = x86_regs m ESI" "x86_regs m' EDI = x86_regs m EDI" "x86_regs m' EBP = x86_regs m EBP"
  unfolding m'_def c_def sp_def
  by (simp_all add: x86_exec_def x86_context_make_def x86_push_def Let_def set_x86_def x86_made_at_def)

text \<open>When the context does not overlap the return address and the word below it.\<close>

lemma x86_made_loads:
  fixes lab m
  defines "c \<equiv> x86_made_at m" and "sp \<equiv> x86_regs m ESP" and "M \<equiv> x86_mem (x86_exec lab x86_context_make m)"
  assumes "apart (sp - 4) 8 c 24"
  shows "load M (c + 8) = load (x86_mem m) (sp + 12)" "load M (c + 12) = lab X_end" "load M (c + 16) = lab X_entry" "load M (c + 20) = c"
    "load M sp = load (x86_mem m) sp"
proof -
  have a: "apart (c + of_nat k) 4 (sp - 4 + of_nat j) 4" if "k \<le> 20" "j \<le> 4" for k j
    using apart_sub [OF assms(4), of j 4] that apart_sub [of c 24 "sp - 4 + of_nat j" 4 k 4] by (simp add: apart_sym)
  have l: "load (store (sp - 4) v N) (c + of_nat k) = load N (c + of_nat k)" if "k \<le> 20" for v N k
    using load_store_word [OF _ a [OF that, of 0]] by simp
  have r: "load (store (c + of_nat k) v N) sp = load N sp" if "k \<le> 20" for v N k
    using load_store_word [OF _ a [OF that, of 4, unfolded apart_sym [of "c + of_nat k"]]] by simp
  note s = l [of 8] l [of 12] l [of 16] l [of 20] r [of 8] r [of 12] r [of 16] r [of 20]
  show "load M (c + 8) = load (x86_mem m) (sp + 12)" "load M (c + 12) = lab X_end" "load M (c + 16) = lab X_entry" "load M (c + 20) = c"
    using s by (simp_all add: M_def x86_make_effect c_def sp_def load_store_offset)
  show "load M sp = load (x86_mem m) sp"
    using s by (simp add: M_def x86_make_effect c_def sp_def load_store_offset)
qed

lemma x86_entry_effect:
  fixes lab m
  defines "m' \<equiv> x86_exec lab x86_context_entry m"
  shows "x86_ip m' = x86_regs m EBX" "x86_regs m' ESP = x86_regs m ESP - 4" "load (x86_mem m') (x86_regs m ESP - 4) = x86_regs m EBP"
    "load (x86_mem m') (x86_regs m ESP) = x86_regs m EAX" "load (x86_mem m') (x86_regs m ESP + 4) = x86_regs m EDX"
  unfolding m'_def
  using load_store_apart [of "x86_regs m ESP + 4" "x86_regs m ESP - 4"]
  by (simp_all add: x86_exec_def x86_context_entry_def x86_push_def Let_def set_x86_def load_store_offset apart_def)

text \<open>A context that was made on 32 bit x86 starts its function. \<open>tb_context_make\<close>, called with a stack of at least 48 bytes
  that does not hold the caller's return address, returns to its caller with the registers a callee must keep, and
  the context lies inside the stack, with room for two words behind it. If its last 16 bytes are still as they were when some code jumps to
  it, from a stack that does not overlap it, execution arrives at \<open>__entry\<close> and from there at the function: its
  argument (a structure on the stack) is the context and the pointer of the code that jumped, the stack is aligned as
  the calling convention demands, and the return address on it is \<open>__end\<close>.\<close>

theorem x86_context_starts:
  fixes lab :: "x86_label \<Rightarrow> uint32"
  defines "made \<equiv> x86_exec lab x86_context_make" and "jump \<equiv> x86_exec lab x86_context_jump"
    and "started \<equiv> \<lambda>n. x86_exec lab x86_context_entry (x86_exec lab x86_context_jump n)"
    and "arg \<equiv> \<lambda>m i. load (x86_mem m) (x86_regs m ESP + i)"
  assumes "x86_room m" "apart (x86_regs m ESP - 4) 8 (x86_regs (made m) EAX) 24" "arg n 8 = x86_regs (made m) EAX"
    and "same_bytes (x86_mem n) (x86_mem (made m)) (arg n 8 + 8) 16" "apart (arg n 8) 24 (x86_regs n ESP - 16) 16"
  shows "x86_ip (made m) = arg m 0 \<and> x86_regs (made m) ESP = x86_regs m ESP + 4 \<and>
    (\<forall>r \<in> {EBX, ESI, EDI, EBP}. x86_regs (made m) r = x86_regs m r) \<and>
    unat (arg m 4) \<le> unat (arg n 8) \<and> unat (arg n 8) + 32 \<le> unat (arg m 4) + unat (arg m 8) \<and>
    x86_ip (jump n) = lab X_entry \<and> x86_ip (started n) = arg m 12 \<and>
    arg (started n) 4 = x86_regs n ESP - 16 \<and> arg (started n) 8 = arg n 12 \<and>
    arg (started n) 0 = lab X_end \<and> 16 dvd unat (x86_regs (started n) ESP + 4)"
proof -
  let ?c = "x86_made_at m"
  have c: "x86_regs (made m) EAX = ?c" by (simp add: made_def x86_make_effect)
  then have t: "x86_target n = ?c" "arg n 8 = ?c" using assms(7) by (simp_all add: arg_def x86_target_def)
  note l = x86_made_loads [OF assms(6) [unfolded c], of lab, folded made_def]
  have k: "load (x86_mem n) (?c + 8 + of_nat i) = load (x86_mem (made m)) (?c + 8 + of_nat i)" if "i \<le> 12" for i
    using load_same [OF assms(8), of i] that by (simp add: t)
  have s: "load (x86_saved n) (?c + of_nat i) = load (x86_mem n) (?c + of_nat i)" if "i \<le> 20" for i
    using load_same [OF x86_saved_same [OF assms(9)], of i] that by (simp add: t)
  have loads: "load (x86_saved n) (?c + 8) = arg m 12" "load (x86_saved n) (?c + 12) = lab X_end"
    "load (x86_saved n) (?c + 16) = lab X_entry" "load (x86_saved n) (?c + 20) = ?c"
    using k [of 0] k [of 4] k [of 8] k [of 12] s [of 8] s [of 12] s [of 16] s [of 20] l by (simp_all add: arg_def add.assoc)
  have res: "x86_result n = ?c" using loads(4) by (simp add: x86_result_def t)
  have "load (x86_stored n) (?c + 16) = lab X_entry"
    using load_same [OF x86_stored_same [of "?c + 16" 4 n], of 0] loads(3) by (simp add: res apart_def)
  then have entered: "x86_ip (jump n) = lab X_entry" "x86_regs (jump n) EBX = arg m 12" "x86_regs (jump n) EBP = lab X_end"
    "x86_regs (jump n) ESP = ?c + 24" "x86_regs (jump n) EAX = x86_regs n ESP - 16" "x86_regs (jump n) EDX = arg n 12"
    using loads x86_jump_effect(2) [of lab n]
    by (simp_all add: jump_def x86_jump_effect t words_at_def x86_saved_regs_def x86_priv_def arg_def)
  have "started n = x86_exec lab x86_context_entry (jump n)" by (simp add: started_def jump_def)
  then have start: "x86_ip (started n) = arg m 12" "x86_regs (started n) ESP = ?c + 20" "arg (started n) 0 = lab X_end"
    "arg (started n) 4 = x86_regs n ESP - 16" "arg (started n) 8 = arg n 12"
    using entered x86_entry_effect [of lab "jump n"] by (simp_all add: arg_def ac_simps)
  have "x86_ip (made m) = arg m 0" using l(5) by (simp add: made_def x86_make_effect(4) arg_def)
  moreover have "unat (arg m 4) \<le> unat ?c" "unat ?c + 32 \<le> unat (arg m 4) + unat (arg m 8)" "16 dvd unat (?c + 24)"
    using x86_made_range [OF assms(5)] by (simp_all add: arg_def)
  ultimately show ?thesis
    using entered(1) start by (simp add: made_def x86_make_effect(3,5-8) t add.assoc)
qed

text \<open>The status is the word on top of the stack.\<close>

lemma x86_end_exits: "x86_exit (x86_exec lab x86_context_end m) = Some 0"
  by (simp add: x86_exec_def x86_context_end_def set_x86_def)

section \<open>Two coroutines\<close>

text \<open>The loop with its stack pointer at 0xF000, where it called a function with three arguments.\<close>

definition x86_called :: "uint32 \<Rightarrow> uint32 list \<Rightarrow> x86_machine \<Rightarrow> x86_machine" where
  "x86_called sp ws m = m\<lparr>x86_regs := (x86_regs m)(ESP := sp), x86_mem := stores sp (zip [0, 4, 8, 12] ws) (x86_mem m)\<rparr>"

definition x86_0 :: x86_machine where
  "x86_0 = \<lparr>x86_regs = (\<lambda>_. 0)(EBX := 7), x86_mem = (\<lambda>_. 0), x86_ip = 0, x86_exit = None\<rparr>"

lemma x86_called_simps:
  assumes "length ws = 4"
  shows "x86_regs (x86_called sp ws m) ESP = sp" "r \<noteq> ESP \<Longrightarrow> x86_regs (x86_called sp ws m) r = x86_regs m r"
    "load (x86_mem (x86_called sp ws m)) sp = ws ! 0" "load (x86_mem (x86_called sp ws m)) (sp + 4) = ws ! 1"
    "load (x86_mem (x86_called sp ws m)) (sp + 8) = ws ! 2" "load (x86_mem (x86_called sp ws m)) (sp + 12) = ws ! 3"
    "apart a n sp 16 \<Longrightarrow> same_bytes (x86_mem (x86_called sp ws m)) (x86_mem m) a n"
proof -
  obtain w0 w1 w2 w3 where "ws = [w0, w1, w2, w3]" using assms by (auto simp: numeral_eq_Suc length_Suc_conv)
  then show "x86_regs (x86_called sp ws m) ESP = sp" "r \<noteq> ESP \<Longrightarrow> x86_regs (x86_called sp ws m) r = x86_regs m r"
    "load (x86_mem (x86_called sp ws m)) sp = ws ! 0" "load (x86_mem (x86_called sp ws m)) (sp + 4) = ws ! 1"
    "load (x86_mem (x86_called sp ws m)) (sp + 8) = ws ! 2" "load (x86_mem (x86_called sp ws m)) (sp + 12) = ws ! 3"
    "apart a n sp 16 \<Longrightarrow> same_bytes (x86_mem (x86_called sp ws m)) (x86_mem m) a n"
    using stores_same [of _ _ sp 16 "zip [0, 4, 8, 12] ws"] by (simp_all add: x86_called_def load_store_offset)
qed

theorem x86_context_starts_witness:
  "let lab = (\<lambda>l. case l of X_entry \<Rightarrow> 64 | X_end \<Rightarrow> 128 | X_1 \<Rightarrow> 32 | X_2 \<Rightarrow> 48);
       m = x86_called 0xF000 [0x400000, 0x20000, 0x1000, 0x8000] x86_0;
       n = x86_called 0xF000 [0x400010, 0xF100, 0x20FD8, 5] (x86_exec lab x86_context_make m);
       s = x86_exec lab x86_context_entry (x86_exec lab x86_context_jump n)
   in x86_ip s = 0x8000 \<and> load (x86_mem s) (x86_regs s ESP + 8) = 5 \<and> load (x86_mem s) (x86_regs s ESP) = 128"
proof -
  define lab :: "x86_label \<Rightarrow> uint32" where "lab = (\<lambda>l. case l of X_entry \<Rightarrow> 64 | X_end \<Rightarrow> 128 | X_1 \<Rightarrow> 32 | X_2 \<Rightarrow> 48)"
  define m where "m = x86_called 0xF000 [0x400000, 0x20000, 0x1000, 0x8000] x86_0"
  define n where "n = x86_called 0xF000 [0x400010, 0xF100, 0x20FD8, 5] (x86_exec lab x86_context_make m)"
  note called = x86_called_simps [where sp = "0xF000", simplified]
  have m: "x86_regs m ESP = 0xF000" "load (x86_mem m) 0xF004 = 0x20000" "load (x86_mem m) 0xF008 = 0x1000" "load (x86_mem m) 0xF00C = 0x8000"
    by (simp_all add: m_def called)
  have n: "x86_regs n ESP = 0xF000" "load (x86_mem n) 0xF008 = 0x20FD8" "load (x86_mem n) 0xF00C = 5"
    by (simp_all add: n_def called)
  have c: "x86_regs (x86_exec lab x86_context_make m) EAX = 0x20FD8" by (simp add: x86_make_effect x86_made_at_def m)
  have "x86_room m" by (simp add: x86_room_def m)
  moreover have "same_bytes (x86_mem n) (x86_mem (x86_exec lab x86_context_make m)) 0x20FE0 16"
    by (simp add: n_def called apart_def)
  ultimately show ?thesis
    using x86_context_starts [of m lab n] unfolding Let_def lab_def [symmetric] m_def [symmetric] n_def [symmetric]
    by (simp add: m n c apart_def) (simp add: lab_def)
qed

theorem x86_switch_returns_witness:
  "let lab = (\<lambda>_. 0); m = x86_called 0xF000 [0x400000, 0xF100, 0x20FC8, 0] x86_0; j = x86_exec lab x86_context_jump m;
       n = x86_called 0x20F80 [0x500000, 0x20FA0, 0xEFF0, 5] (j\<lparr>x86_regs := (x86_regs j)(EBX := 0)\<rparr>);
       n' = x86_exec lab x86_context_jump n
   in x86_regs n' EBX = 7 \<and> x86_regs n' ESP = 0xF008 \<and> x86_ip n' = 0x400000 \<and> load (x86_mem n') 0xF104 = 5"
proof -
  define lab :: "x86_label \<Rightarrow> uint32" where "lab = (\<lambda>_. 0)"
  define m where "m = x86_called 0xF000 [0x400000, 0xF100, 0x20FC8, 0] x86_0"
  define j where "j = x86_exec lab x86_context_jump m"
  define n where "n = x86_called 0x20F80 [0x500000, 0x20FA0, 0xEFF0, 5] (j\<lparr>x86_regs := (x86_regs j)(EBX := 0)\<rparr>)"
  let ?S = "[0xEFF0 \<mapsto> m]"
  note called = x86_called_simps [where sp = "0xF000", simplified] x86_called_simps [where sp = "0x20F80", simplified]
  have m: "x86_regs m ESP = 0xF000" "x86_regs m EBX = 7" "load (x86_mem m) 0xF000 = 0x400000" "load (x86_mem m) 0xF004 = 0xF100"
    "load (x86_mem m) 0xF008 = 0x20FC8" by (simp_all add: m_def called x86_0_def)
  have n: "x86_regs n ESP = 0x20F80" "load (x86_mem n) 0x20F88 = 0xEFF0" "load (x86_mem n) 0x20F8C = 5" by (simp_all add: n_def called)
  have z: "same_bytes (x86_mem m) (\<lambda>_. 0) 0x20FDC 4"
    using called(7) [of _ "0x20FDC" 4 x86_0] by (simp add: m_def apart_def) (simp add: x86_0_def)
  have "x86_result m = 0"
    using load_same [OF x86_saved_same [of "0x20FDC" 4 m], of 0] load_same [OF z, of 0]
    by (simp add: x86_result_def x86_target_def m apart_def)
  then have area: "area_free (x86 lab) Map.empty m" by (simp add: area_free_def x86_def m apart_def)
  have "switches (x86 lab) ?S j"
    using switches_jump [OF switches_start area] by (simp add: x86_def m j_def)
  then have sw: "switches (x86 lab) ?S n"
    by (rule switches_run) (simp add: x86_def n_def x86_called_simps(7) [where sp = "0x20F80" and m = "j\<lparr>x86_regs := f\<rparr>" for f, simplified] apart_def)
  have "load (x86_mem n) 0xF004 = 0xF100"
    using x86_switch.suspended_kept [OF sw, of "0xEFF0" m] by (simp add: x86_def x86_frame_at_def x86_kept_def m)
  then have "x86_result n = 0xF100"
    using load_same [OF x86_saved_same [of "0xF004" 4 n], of 0] by (simp add: x86_result_def x86_target_def n apart_def)
  then have "area_free (x86 lab) ?S n" by (simp add: area_free_def x86_def n apart_def)
  from x86_switch_returns [OF sw this, of m] show ?thesis
    unfolding Let_def lab_def [symmetric] m_def [symmetric] j_def [symmetric] n_def [symmetric] by (simp add: m n)
qed

end
