(* ===== verification/Context_ARM.thy ===== *)
theory Context_ARM
  imports Context_Switch
begin

text \<open>
  The context switch on 32 bit ARM: \<open>src/context/context_arm.S\<close> as it is assembled for Linux, where \<open>TB_CONTEXT_SJLJ_BYTES\<close>
  is 0. A structure of two words is returned in memory here: the caller of \<open>tb_context_jump\<close> passes the address in \<open>r0\<close>, a context
  remembers it, and the jump that resumes the context stores the result there.
\<close>

unbundle bit_operations_syntax

section \<open>The machine\<close>

text \<open>The general registers \<open>r0\<close> to \<open>r12\<close>, the stack pointer, the link register, and the vector registers \<open>s0\<close> to \<open>s31\<close>.\<close>

datatype a32_reg = R nat | SP | LR | V nat

datatype a32_instr =
    A_add a32_reg a32_reg a32_reg \<comment> \<open>destination first, as in the source file\<close>
  | A_add_imm a32_reg a32_reg uint32
  | A_sub_imm a32_reg a32_reg uint32
  | A_bic a32_reg a32_reg uint32
  | A_mov a32_reg a32_reg
  | A_mov_imm a32_reg uint32
  | A_adr_end a32_reg
  | A_str a32_reg a32_reg uint32 \<comment> \<open>source, base, offset\<close>
  | A_push "a32_reg list"
  | A_pop "a32_reg list"
  | A_pop_pc
  | A_bx a32_reg
  | A_bl_exit

record a32_machine =
  a32_regs :: "a32_reg \<Rightarrow> uint32"
  a32_mem :: "32 memory"
  a32_pc :: uint32
  a32_exit :: "uint32 option"

definition set_a32 :: "a32_reg \<Rightarrow> uint32 \<Rightarrow> a32_machine \<Rightarrow> a32_machine" where
  "set_a32 r v m = m\<lparr>a32_regs := (a32_regs m)(r := v)\<rparr>"

text \<open>The register that comes first is the one at the lowest address.\<close>

fun a32_pushes :: "a32_reg list \<Rightarrow> a32_machine \<Rightarrow> a32_machine" where
  "a32_pushes [] m = m"
| "a32_pushes (r # rs) m = a32_pushes rs
     ((set_a32 SP (a32_regs m SP - 4) m)\<lparr>a32_mem := store (a32_regs m SP - 4) (a32_regs m r) (a32_mem m)\<rparr>)"

fun a32_pops :: "a32_reg list \<Rightarrow> a32_machine \<Rightarrow> a32_machine" where
  "a32_pops [] m = m"
| "a32_pops (r # rs) m = a32_pops rs (set_a32 r (load (a32_mem m) (a32_regs m SP)) (set_a32 SP (a32_regs m SP + 4) m))"

fun a32_exec1 :: "uint32 \<Rightarrow> a32_instr \<Rightarrow> a32_machine \<Rightarrow> a32_machine" where
  "a32_exec1 lend (A_add d a b) m = set_a32 d (a32_regs m a + a32_regs m b) m"
| "a32_exec1 lend (A_add_imm d a i) m = set_a32 d (a32_regs m a + i) m"
| "a32_exec1 lend (A_sub_imm d a i) m = set_a32 d (a32_regs m a - i) m"
| "a32_exec1 lend (A_bic d a i) m = set_a32 d (a32_regs m a AND NOT i) m"
| "a32_exec1 lend (A_mov d a) m = set_a32 d (a32_regs m a) m"
| "a32_exec1 lend (A_mov_imm d i) m = set_a32 d i m"
| "a32_exec1 lend (A_adr_end d) m = set_a32 d lend m"
| "a32_exec1 lend (A_str s b i) m = m\<lparr>a32_mem := store (a32_regs m b + i) (a32_regs m s) (a32_mem m)\<rparr>"
| "a32_exec1 lend (A_push rs) m = a32_pushes (rev rs) m"
| "a32_exec1 lend (A_pop rs) m = a32_pops rs m"
| "a32_exec1 lend A_pop_pc m = set_a32 SP (a32_regs m SP + 4) (m\<lparr>a32_pc := load (a32_mem m) (a32_regs m SP)\<rparr>)"
| "a32_exec1 lend (A_bx r) m = m\<lparr>a32_pc := a32_regs m r\<rparr>"
| "a32_exec1 lend A_bl_exit m = m\<lparr>a32_exit := Some (a32_regs m (R 0))\<rparr>"

definition a32_exec :: "uint32 \<Rightarrow> a32_instr list \<Rightarrow> a32_machine \<Rightarrow> a32_machine" where
  "a32_exec lend is m = fold (a32_exec1 lend) is m"

section \<open>The routines\<close>

text \<open>Arguments: \<open>r0\<close> is the stack, \<open>r1\<close> its size, \<open>r2\<close> the function; the result is in \<open>r0\<close>.\<close>

definition a32_context_make :: "a32_instr list" where
  "a32_context_make =
     [A_add (R 0) (R 0) (R 1),
      A_bic (R 0) (R 0) 15,
      A_sub_imm (R 0) (R 0) 64,
      A_str (R 2) (R 0) 40,
      A_add_imm (R 1) (R 0) 44,
      A_str (R 1) (R 0) 0,
      A_adr_end (R 1),
      A_str (R 1) (R 0) 36,
      A_bx LR]"

definition a32_context_end :: "a32_instr list" where
  "a32_context_end = [A_mov_imm (R 0) 0, A_bl_exit]"

text \<open>Arguments: \<open>r0\<close> is the address of the result, \<open>r1\<close> the context to switch to, \<open>r2\<close> the private pointer.\<close>

definition a32_context_jump :: "a32_instr list" where
  "a32_context_jump =
     [A_push [LR],
      A_push [R 0, R 4, R 5, R 6, R 7, R 8, R 9, R 10, R 11, LR],
      A_mov (R 0) SP,
      A_mov SP (R 1),
      A_pop [R 3, R 4, R 5, R 6, R 7, R 8, R 9, R 10, R 11, LR],
      A_str (R 0) (R 3) 0,
      A_str (R 2) (R 3) 4,
      A_mov (R 1) (R 2),
      A_pop_pc]"

section \<open>Switching\<close>

text \<open>The registers a context holds, with the offsets of their words; the first word is the address of the result, the last one the
  place to go on.\<close>

definition a32_saved_regs :: "a32_reg list" where
  "a32_saved_regs = [R 4, R 5, R 6, R 7, R 8, R 9, R 10, R 11, LR]"

definition a32_offsets :: "nat list" where
  "a32_offsets = [4, 8, 12, 16, 20, 24, 28, 32, 36]"

type_synonym a32_frame = "uint32 list \<times> uint32 \<times> uint32 \<times> uint32"

definition a32_kept :: "a32_machine \<Rightarrow> a32_frame" where
  "a32_kept m = (map (a32_regs m) a32_saved_regs, a32_regs m SP, a32_regs m LR, a32_regs m (R 0))"

definition a32_found :: "a32_machine \<Rightarrow> a32_frame" where
  "a32_found m = (map (a32_regs m) a32_saved_regs, a32_regs m SP, a32_pc m, a32_regs m (R 3))"

definition a32_frame_at :: "32 memory \<Rightarrow> uint32 \<Rightarrow> a32_frame" where
  "a32_frame_at M c = (words_at M c a32_offsets, c + 44, load M (c + 40), load M c)"

text \<open>The memory after the two pushes, and after the result is stored.\<close>

definition a32_saved :: "a32_machine \<Rightarrow> 32 memory" where
  "a32_saved m = stores (a32_regs m SP - 44)
     ((40, a32_regs m LR) # rev ((0, a32_regs m (R 0)) # zip a32_offsets (map (a32_regs m) a32_saved_regs))) (a32_mem m)"

definition a32_result :: "a32_machine \<Rightarrow> uint32" where
  "a32_result m = load (a32_saved m) (a32_regs m (R 1))"

definition a32_stored :: "a32_machine \<Rightarrow> 32 memory" where
  "a32_stored m = stores (a32_result m) [(0, a32_regs m SP - 44), (4, a32_regs m (R 2))] (a32_saved m)"

definition arm32 :: "uint32 \<Rightarrow> (a32_machine, uint32) switching" where
  "arm32 lend = \<lparr>sw_jump = a32_exec lend a32_context_jump, sw_mem = a32_mem, sw_target = (\<lambda>m. a32_regs m (R 1)),
     sw_area = (\<lambda>m. a32_regs m SP - 44), sw_bytes = 44, sw_written = 44, sw_results = (\<lambda>m. [(a32_result m, 8)])\<rparr>"

lemma a32_jump_effect:
  fixes lend m
  defines "c \<equiv> a32_regs m (R 1)" and "m' \<equiv> a32_exec lend a32_context_jump m"
  shows "a32_mem m' = a32_stored m" "map (a32_regs m') a32_saved_regs = words_at (a32_saved m) c a32_offsets"
    "a32_regs m' SP = c + 44" "a32_pc m' = load (a32_stored m) (c + 40)" "a32_regs m' (R 3) = a32_result m"
    "a32_regs m' (R 0) = a32_regs m SP - 44" "a32_regs m' (R 1) = a32_regs m (R 2)" "a32_regs m' (V i) = a32_regs m (V i)"
  unfolding m'_def c_def
  by (simp_all add: a32_exec_def a32_context_jump_def set_a32_def a32_saved_def a32_stored_def a32_result_def a32_offsets_def
      a32_saved_regs_def words_at_def add.assoc)

text \<open>The pushes write into the 44 bytes below the stack pointer, and make a context; the result is stored in the 8 bytes the context that is
  resumed asks for.\<close>

lemma a32_saved_context: "a32_frame_at (a32_saved m) (a32_regs m SP - 44) = a32_kept m"
  by (simp add: a32_frame_at_def words_at_def a32_kept_def a32_saved_def a32_offsets_def a32_saved_regs_def load_store_offset)

lemma a32_saved_same: "apart a n (a32_regs m SP - 44) 44 \<Longrightarrow> same_bytes (a32_saved m) (a32_mem m) a n"
  unfolding a32_saved_def by (erule stores_same) (simp_all add: a32_offsets_def a32_saved_regs_def)

lemma a32_stored_same: "apart a n (a32_result m) 8 \<Longrightarrow> same_bytes (a32_stored m) (a32_saved m) a n"
  unfolding a32_stored_def by (erule stores_same) simp_all

lemma a32_stored_result:
  "load (a32_stored m) (a32_result m) = a32_regs m SP - 44" "load (a32_stored m) (a32_result m + 4) = a32_regs m (R 2)"
  by (simp_all add: a32_stored_def load_store_offset)

lemma a32_frame_same: "same_bytes M M' c 44 \<Longrightarrow> a32_frame_at M c = a32_frame_at M' c"
  using load_same [of M M' c 44 40] load_same [of M M' c 44 0] words_at_same [of M M' c 44 a32_offsets]
  by (simp add: a32_frame_at_def a32_offsets_def)

interpretation a32_switch: context_switch "arm32 lend" a32_kept a32_found a32_frame_at
proof
  fix m :: a32_machine
  let ?sw = "arm32 lend" and ?c = "a32_regs m (R 1)"
  assume "avoids (sw_target ?sw m) (sw_bytes ?sw) ((sw_area ?sw m, sw_written ?sw) # sw_results ?sw m)"
  then have s: "same_bytes (a32_saved m) (a32_mem m) ?c 44" "same_bytes (a32_stored m) (a32_saved m) ?c 44"
    by (simp_all add: arm32_def a32_saved_same a32_stored_same)
  have "a32_found (sw_jump ?sw m) = a32_frame_at (a32_saved m) ?c"
    using load_same [OF s(2), of 40] by (simp add: arm32_def a32_found_def a32_frame_at_def a32_jump_effect a32_result_def)
  then show "a32_found (sw_jump ?sw m) = a32_frame_at (sw_mem ?sw m) (sw_target ?sw m)"
    using a32_frame_same [OF s(1)] by (simp add: arm32_def)
next
  fix m assume "avoids (sw_area (arm32 lend) m) (sw_bytes (arm32 lend)) (sw_results (arm32 lend) m)"
  then show "a32_frame_at (sw_mem (arm32 lend) (sw_jump (arm32 lend) m)) (sw_area (arm32 lend) m) = a32_kept m"
    using a32_frame_same [OF a32_stored_same] by (simp add: arm32_def a32_jump_effect a32_saved_context)
qed (auto simp: arm32_def a32_jump_effect a32_frame_same intro: same_bytes_trans [OF a32_stored_same a32_saved_same])

text \<open>On 32 bit ARM a switch among any number of contexts is a call that returns its result in memory: when the
  code that ran in between wrote to no suspended context, and neither the stack of the code that jumps nor the
  place of the result overlap one, execution goes on behind the call of \<open>tb_context_jump\<close> in
  state \<open>k\<close> with \<open>r4\<close> to \<open>r11\<close>, the link register and the stack pointer of that state, and the context of the code that
  jumped and the pointer it passed are in the two words at the address in \<open>r0\<close> of that state. The vector registers are
  not part of a context: code that is resumed finds in \<open>s16\<close> to \<open>s31\<close>, which a callee has to keep, what the code that jumped to it had there.\<close>

theorem a32_switch_returns:
  fixes lend :: uint32
  defines "jump \<equiv> a32_exec lend a32_context_jump"
  assumes "switches (arm32 lend) S m" "area_free (arm32 lend) S m" "S (a32_regs m (R 1)) = Some k"
  shows "(\<forall>i \<in> {4..11}. a32_regs (jump m) (R i) = a32_regs k (R i)) \<and>
    a32_regs (jump m) LR = a32_regs k LR \<and> a32_regs (jump m) SP = a32_regs k SP \<and> a32_pc (jump m) = a32_regs k LR \<and>
    load (a32_mem (jump m)) (a32_regs k (R 0)) = a32_regs m SP - 44 \<and>
    load (a32_mem (jump m)) (a32_regs k (R 0) + 4) = a32_regs m (R 2) \<and>
    (\<forall>i. a32_regs (jump m) (V i) = a32_regs m (V i))"
proof -
  have f: "a32_found (jump m) = a32_kept k"
    using a32_switch.resumed_found [OF assms(2) _ assms(3)] assms(4) by (simp add: arm32_def jump_def)
  then have r: "a32_result m = a32_regs k (R 0)" by (simp add: a32_found_def a32_kept_def jump_def a32_jump_effect)
  have "{4..11} = {4, 5, 6, 7, 8, 9, 10, 11 :: nat}" by auto
  with f show ?thesis
    using a32_stored_result [of m] r
    by (simp add: a32_found_def a32_kept_def a32_saved_regs_def) (simp add: jump_def a32_jump_effect)
qed

text \<open>The loop's stack below 0xF000 with the place for the result at 0xF100, a context at 0x20FC0.\<close>

definition a32_0 :: a32_machine where
  "a32_0 = \<lparr>a32_regs = (\<lambda>_. 0)(SP := 0xF000, R 0 := 0xF100, R 1 := 0x20FC0, R 4 := 7, LR := 0x400000), a32_mem = (\<lambda>_. 0),
     a32_pc = 0, a32_exit = None\<rparr>"

theorem a32_switch_returns_witness:
  "let m = a32_exec 0 a32_context_jump a32_0;
       n = m\<lparr>a32_regs := (a32_regs m)(R 0 := 0x20F00, R 1 := 0xEFD4, R 2 := 5, R 4 := 0)\<rparr>; n' = a32_exec 0 a32_context_jump n
   in a32_regs n' (R 4) = 7 \<and> a32_regs n' SP = 0xF000 \<and> a32_pc n' = 0x400000 \<and> load (a32_mem n') 0xF104 = 5"
proof -
  let ?m = "a32_exec 0 a32_context_jump a32_0"
  let ?n = "?m\<lparr>a32_regs := (a32_regs ?m)(R 0 := 0x20F00, R 1 := 0xEFD4, R 2 := 5, R 4 := 0)\<rparr>"
  let ?S = "[0xEFD4 \<mapsto> a32_0]"
  have res: "a32_result a32_0 = 0"
    using load_same [OF a32_saved_same [of "0x20FC0" 4 a32_0], of 0] by (simp add: a32_result_def a32_0_def apart_def)
  have sp: "a32_regs ?m SP = 0x20FEC" by (simp add: a32_jump_effect) (simp add: a32_0_def)
  have area: "area_free (arm32 0) Map.empty a32_0" by (simp add: area_free_def arm32_def res) (simp add: a32_0_def apart_def)
  have "switches (arm32 0) ?S ?m"
    using switches_jump [OF switches_start area] by (simp add: arm32_def a32_0_def)
  then have sw: "switches (arm32 0) ?S ?n"
    by (rule switches_run) (simp add: arm32_def same_bytes_def)
  have "load (a32_mem ?n) 0xEFD4 = 0xF100"
    using a32_switch.suspended_kept [OF sw, of "0xEFD4" a32_0] by (simp add: arm32_def a32_frame_at_def a32_kept_def a32_0_def)
  then have "a32_result ?n = 0xF100"
    using load_same [OF a32_saved_same [of "0xEFD4" 4 ?n], of 0] sp by (simp add: a32_result_def apart_def)
  then have "area_free (arm32 0) ?S ?n" using sp by (simp add: area_free_def arm32_def apart_def)
  moreover note sw
  moreover have "?S (a32_regs ?n (R 1)) = Some a32_0" by simp
  ultimately show ?thesis
    using a32_switch_returns [of 0 ?S ?n a32_0] by (simp add: Let_def a32_0_def)
qed

section \<open>Starting\<close>

definition a32_made_at :: "a32_machine \<Rightarrow> uint32" where
  "a32_made_at m = ((a32_regs m (R 0) + a32_regs m (R 1)) AND - 16) - 64"

definition a32_room :: "a32_machine \<Rightarrow> bool" where
  "a32_room m \<longleftrightarrow> unat (a32_regs m (R 0)) + unat (a32_regs m (R 1)) < 2 ^ 32 \<and> 80 \<le> unat (a32_regs m (R 1))"

lemma a32_make_effect:
  fixes lend m
  defines "c \<equiv> a32_made_at m" and "m' \<equiv> a32_exec lend a32_context_make m"
  shows "a32_mem m' = stores c [(40, a32_regs m (R 2)), (0, c + 44), (36, lend)] (a32_mem m)"
    "a32_regs m' (R 0) = c" "a32_pc m' = a32_regs m LR" "2 \<le> i \<Longrightarrow> a32_regs m' (R i) = a32_regs m (R i)"
    "a32_regs m' SP = a32_regs m SP" "a32_regs m' LR = a32_regs m LR" "a32_regs m' (V j) = a32_regs m (V j)"
  unfolding m'_def c_def by (simp_all add: a32_exec_def a32_context_make_def set_a32_def a32_made_at_def)

lemma a32_made_range:
  assumes "a32_room m"
  shows "unat (a32_regs m (R 0)) \<le> unat (a32_made_at m)"
    "unat (a32_made_at m) + 64 \<le> unat (a32_regs m (R 0)) + unat (a32_regs m (R 1))"
    "unat (a32_made_at m + 44) mod 8 = 4"
proof -
  note b = block_at_top [of "a32_regs m (R 0)" "a32_regs m (R 1)" 64]
  show r: "unat (a32_regs m (R 0)) \<le> unat (a32_made_at m)"
    "unat (a32_made_at m) + 64 \<le> unat (a32_regs m (R 0)) + unat (a32_regs m (R 1))"
    using b(2,3) assms by (simp_all add: a32_room_def a32_made_at_def)
  have "unat (a32_made_at m + 44) = unat (a32_made_at m) + 44"
    using unat_plus_lt [of "a32_made_at m" 44] r(2) assms by (simp add: a32_room_def)
  moreover have "unat (a32_made_at m) = 16 * ((unat (a32_regs m (R 0)) + unat (a32_regs m (R 1))) div 16) - 64"
    using b(1) assms by (simp add: a32_room_def a32_made_at_def)
  then have "unat (a32_made_at m) = 8 * (2 * ((unat (a32_regs m (R 0)) + unat (a32_regs m (R 1))) div 16) - 8)" by simp
  ultimately show "unat (a32_made_at m + 44) mod 8 = 4" by simp
qed

text \<open>C34: a context that was made on 32 bit ARM starts its function, with a stack pointer that is not aligned. \<open>tb_context_make\<close>, called with a stack of
  at least 80 bytes, returns to its caller, and the context lies inside the stack. If its first 44 bytes are still as they were when some code jumps to
  it, from a stack that does not overlap the 64 bytes reserved for it, execution arrives at the function: its
  argument (a structure in two registers) is the context and the pointer of the code that jumped, the address it returns to
  is \<open>__end\<close>, and the result of the jump is stored into the reserved bytes behind the context. The stack pointer is a
  multiple of 4 that is not one of 8, for every stack, where the procedure call standard demands a multiple of 8.\<close>

theorem a32_context_starts:
  fixes lend :: uint32
  defines "made \<equiv> a32_exec lend a32_context_make" and "jump \<equiv> a32_exec lend a32_context_jump"
  assumes "a32_room m" "a32_regs n (R 1) = a32_regs (made m) (R 0)"
    and "same_bytes (a32_mem n) (a32_mem (made m)) (a32_regs n (R 1)) 44"
    and "apart (a32_regs n (R 1)) 64 (a32_regs n SP - 44) 44"
  shows "a32_pc (made m) = a32_regs m LR \<and> a32_regs (made m) SP = a32_regs m SP \<and>
    (\<forall>i \<in> {4..11}. a32_regs (made m) (R i) = a32_regs m (R i)) \<and>
    unat (a32_regs m (R 0)) \<le> unat (a32_regs n (R 1)) \<and>
    unat (a32_regs n (R 1)) + 64 \<le> unat (a32_regs m (R 0)) + unat (a32_regs m (R 1)) \<and>
    a32_pc (jump n) = a32_regs m (R 2) \<and> a32_regs (jump n) LR = lend \<and>
    a32_regs (jump n) (R 0) = a32_regs n SP - 44 \<and> a32_regs (jump n) (R 1) = a32_regs n (R 2) \<and>
    a32_regs (jump n) SP = a32_regs n (R 1) + 44 \<and> a32_result n = a32_regs n (R 1) + 44 \<and>
    unat (a32_regs (jump n) SP) mod 8 = 4"
proof -
  let ?c = "a32_made_at m"
  have c: "a32_regs n (R 1) = ?c" using assms(4) by (simp add: made_def a32_make_effect)
  have ap: "apart ?c 44 (a32_regs n SP - 44) 44" using apart_sub [OF assms(6), of 0 44] by (simp add: c del: One_nat_def)
  have "a32_frame_at (a32_saved n) ?c = a32_frame_at (a32_mem (made m)) ?c"
    using a32_frame_same [OF same_bytes_trans [OF a32_saved_same [OF ap]]] assms(5) by (simp add: c del: One_nat_def)
  then have loads: "load (a32_saved n) ?c = ?c + 44" "load (a32_saved n) (?c + 36) = lend" "load (a32_saved n) (?c + 40) = a32_regs m (R 2)"
    by (simp_all add: a32_frame_at_def words_at_def a32_offsets_def made_def a32_make_effect load_store_offset)
  have res: "a32_result n = ?c + 44" using loads(1) by (simp add: a32_result_def c del: One_nat_def)
  have "load (a32_stored n) (?c + 40) = load (a32_saved n) (?c + 40)"
    using load_same [OF a32_stored_same [of "?c + 40" 4 n], of 0] by (simp add: res apart_def)
  with loads have "a32_pc (jump n) = a32_regs m (R 2)" "a32_regs (jump n) LR = lend"
    using a32_jump_effect(2) [of lend n] by (simp_all add: jump_def a32_jump_effect c words_at_def a32_offsets_def a32_saved_regs_def del: One_nat_def)
  with a32_made_range [OF assms(3)] res show ?thesis
    by (simp add: c made_def jump_def a32_make_effect a32_jump_effect del: One_nat_def)
qed

text \<open>A stack of 4096 bytes at 0x20000.\<close>

definition a32_1 :: a32_machine where
  "a32_1 = a32_0\<lparr>a32_regs := (a32_regs a32_0)(R 0 := 0x20000, R 1 := 0x1000, R 2 := 0x8000)\<rparr>"

theorem a32_context_starts_witness:
  "let m = a32_exec 64 a32_context_make a32_1; n = m\<lparr>a32_regs := (a32_regs m)(R 0 := 0xF100, R 1 := a32_regs m (R 0), R 2 := 5)\<rparr>;
       n' = a32_exec 64 a32_context_jump n
   in a32_pc n' = 0x8000 \<and> a32_regs n' (R 1) = 5 \<and> a32_regs n' LR = 64 \<and> unat (a32_regs n' SP) mod 8 = 4"
proof -
  define m where "m = a32_exec 64 a32_context_make a32_1"
  define n where "n = m\<lparr>a32_regs := (a32_regs m)(R 0 := 0xF100, R 1 := a32_regs m (R 0), R 2 := 5)\<rparr>"
  have room: "a32_room a32_1" by (simp add: a32_room_def a32_1_def a32_0_def)
  have n: "a32_regs n (R 1) = a32_regs m (R 0)" "a32_regs n (R 2) = 5" "same_bytes (a32_mem n) (a32_mem m) a k" for a k
    by (simp_all add: n_def same_bytes_def)
  have "a32_made_at a32_1 = 0x20FC0" by (simp add: a32_made_at_def a32_1_def a32_0_def)
  then have "apart (a32_regs n (R 1)) 64 (a32_regs n SP - 44) 44"
    by (simp add: n_def m_def a32_make_effect apart_def) (simp add: a32_1_def a32_0_def)
  note start = a32_context_starts [OF room, of n 64, folded m_def, OF n(1,3) this]
  have "a32_regs a32_1 (R 2) = 0x8000" by (simp add: a32_1_def)
  with start n(2) show ?thesis unfolding Let_def m_def [symmetric] n_def [symmetric] by metis
qed

text \<open>A function that returns ends the program.\<close>

lemma a32_end_exits: "a32_exit (a32_exec lend a32_context_end m) = Some 0"
  by (simp add: a32_exec_def a32_context_end_def set_a32_def)

end
