(* ===== verification/Context_MIPS.thy ===== *)
theory Context_MIPS
  imports Context_Switch
begin

text \<open>
  The context switch on 32 bit MIPS: \<open>src/context/context_mips.S\<close> as it is assembled for position independent code on a little endian
  machine. The assembler fills the delay slots of jumps, so that the instructions are executed in the order of the file. The distance
  \<open>_gp_disp\<close> of the global pointer, which \<open>.cpload\<close> adds to the address of the routine, and the address of \<open>__end\<close> are parameters.
\<close>

unbundle bit_operations_syntax

section \<open>The machine\<close>

text \<open>The registers \<open>s0\<close> to \<open>s7\<close>, \<open>a0\<close> to \<open>a3\<close>, \<open>v0\<close> and \<open>v1\<close>, \<open>t0\<close> to \<open>t9\<close>, and those with a purpose of their own.\<close>

datatype mips_reg = Ms nat | Ma nat | Mv nat | Mt nat | Mgp | Mfp | Msp | Mra | Mzero

datatype mips_instr =
    M_addu mips_reg mips_reg mips_reg \<comment> \<open>destination first, as in the source file\<close>
  | M_addiu mips_reg mips_reg uint32
  | M_and mips_reg mips_reg mips_reg
  | M_move mips_reg mips_reg
  | M_li mips_reg uint32
  | M_la_end mips_reg
  | M_cpload
  | M_sw mips_reg uint32 mips_reg \<comment> \<open>source, offset, base\<close>
  | M_lw mips_reg uint32 mips_reg
  | M_jr mips_reg
  | M_call_exit

record mips_machine =
  mips_regs :: "mips_reg \<Rightarrow> uint32"
  mips_mem :: "32 memory"
  mips_pc :: uint32
  mips_exit :: "uint32 option"

definition set_mips :: "mips_reg \<Rightarrow> uint32 \<Rightarrow> mips_machine \<Rightarrow> mips_machine" where
  "set_mips r v m = m\<lparr>mips_regs := (mips_regs m)(r := v)\<rparr>"

record mips_link =
  gp_disp :: uint32
  label_end :: uint32

fun mips_exec1 :: "mips_link \<Rightarrow> mips_instr \<Rightarrow> mips_machine \<Rightarrow> mips_machine" where
  "mips_exec1 lk (M_addu d a b) m = set_mips d (mips_regs m a + mips_regs m b) m"
| "mips_exec1 lk (M_addiu d a i) m = set_mips d (mips_regs m a + i) m"
| "mips_exec1 lk (M_and d a b) m = set_mips d (mips_regs m a AND mips_regs m b) m"
| "mips_exec1 lk (M_move d a) m = set_mips d (if a = Mzero then 0 else mips_regs m a) m"
| "mips_exec1 lk (M_li d i) m = set_mips d i m"
| "mips_exec1 lk (M_la_end d) m = set_mips d (label_end lk) m"
| "mips_exec1 lk M_cpload m = set_mips Mgp (mips_regs m (Mt 9) + gp_disp lk) m"
| "mips_exec1 lk (M_sw s i b) m = m\<lparr>mips_mem := store (mips_regs m b + i) (mips_regs m s) (mips_mem m)\<rparr>"
| "mips_exec1 lk (M_lw d i b) m = set_mips d (load (mips_mem m) (mips_regs m b + i)) m"
| "mips_exec1 lk (M_jr r) m = m\<lparr>mips_pc := mips_regs m r\<rparr>"
| "mips_exec1 lk M_call_exit m = m\<lparr>mips_exit := Some (mips_regs m (Ma 0))\<rparr>"

definition mips_exec :: "mips_link \<Rightarrow> mips_instr list \<Rightarrow> mips_machine \<Rightarrow> mips_machine" where
  "mips_exec lk is m = fold (mips_exec1 lk) is m"

section \<open>The routines\<close>

text \<open>Arguments: \<open>a0\<close> is the stack, \<open>a1\<close> its size, \<open>a2\<close> the function; the result is in \<open>v0\<close>.\<close>

definition mips_context_make :: "mips_instr list" where
  "mips_context_make =
     [M_cpload,
      M_addu (Mv 0) (Ma 0) (Ma 1),
      M_addiu (Mv 0) (Mv 0) (- 32),
      M_move (Mv 1) (Mv 0), M_li (Mv 0) (- 16), M_and (Mv 0) (Mv 1) (Mv 0),
      M_addiu (Mv 0) (Mv 0) (- 64),
      M_sw (Ma 2) 44 (Mv 0),
      M_sw Mgp 48 (Mv 0),
      M_addiu (Mt 0) (Mv 0) 52, M_sw (Mt 0) 36 (Mv 0),
      M_la_end (Mt 9), M_sw (Mt 9) 40 (Mv 0),
      M_jr Mra]"

definition mips_context_end :: "mips_instr list" where
  "mips_context_end = [M_addiu Msp Msp (- 32), M_sw Mra 28 Msp, M_move (Ma 0) Mzero, M_call_exit]"

text \<open>Arguments: \<open>a0\<close> is the address of the result, \<open>a1\<close> the context to switch to, \<open>a2\<close> the private pointer.\<close>

definition mips_context_jump :: "mips_instr list" where
  "mips_context_jump =
     [M_addiu Msp Msp (- 64),
      M_sw (Ms 0) 0 Msp, M_sw (Ms 1) 4 Msp, M_sw (Ms 2) 8 Msp, M_sw (Ms 3) 12 Msp,
      M_sw (Ms 4) 16 Msp, M_sw (Ms 5) 20 Msp, M_sw (Ms 6) 24 Msp, M_sw (Ms 7) 28 Msp,
      M_sw Mfp 32 Msp, M_sw (Ma 0) 36 Msp, M_sw Mra 40 Msp, M_sw Mra 44 Msp, M_sw Mgp 48 Msp,
      M_move (Ma 0) Msp,
      M_move Msp (Ma 1),
      M_lw (Ms 0) 0 Msp, M_lw (Ms 1) 4 Msp, M_lw (Ms 2) 8 Msp, M_lw (Ms 3) 12 Msp,
      M_lw (Ms 4) 16 Msp, M_lw (Ms 5) 20 Msp, M_lw (Ms 6) 24 Msp, M_lw (Ms 7) 28 Msp,
      M_lw Mfp 32 Msp, M_lw (Mt 0) 36 Msp, M_lw Mra 40 Msp, M_lw (Mt 9) 44 Msp, M_lw Mgp 48 Msp,
      M_addiu Msp Msp 64,
      M_sw (Ma 0) 0 (Mt 0), M_sw (Ma 2) 4 (Mt 0),
      M_move (Ma 1) (Ma 2),
      M_jr (Mt 9)]"

section \<open>Switching\<close>

text \<open>A context has 52 bytes. The words at 36 and 44 are the address of the result and the place to go on.\<close>

definition mips_saved_regs :: "mips_reg list" where
  "mips_saved_regs = [Ms 0, Ms 1, Ms 2, Ms 3, Ms 4, Ms 5, Ms 6, Ms 7, Mfp, Mra, Mgp]"

definition mips_offsets :: "nat list" where
  "mips_offsets = [0, 4, 8, 12, 16, 20, 24, 28, 32, 40, 48]"

type_synonym mips_frame = "uint32 list \<times> uint32 \<times> uint32 \<times> uint32"

definition mips_kept :: "mips_machine \<Rightarrow> mips_frame" where
  "mips_kept m = (map (mips_regs m) mips_saved_regs, mips_regs m Msp, mips_regs m Mra, mips_regs m (Ma 0))"

definition mips_found :: "mips_machine \<Rightarrow> mips_frame" where
  "mips_found m = (map (mips_regs m) mips_saved_regs, mips_regs m Msp, mips_pc m, mips_regs m (Mt 0))"

definition mips_frame_at :: "32 memory \<Rightarrow> uint32 \<Rightarrow> mips_frame" where
  "mips_frame_at M c = (words_at M c mips_offsets, c + 64, load M (c + 44), load M (c + 36))"

definition mips_saved :: "mips_machine \<Rightarrow> 32 memory" where
  "mips_saved m = stores (mips_regs m Msp - 64)
     [(0, mips_regs m (Ms 0)), (4, mips_regs m (Ms 1)), (8, mips_regs m (Ms 2)), (12, mips_regs m (Ms 3)), (16, mips_regs m (Ms 4)),
      (20, mips_regs m (Ms 5)), (24, mips_regs m (Ms 6)), (28, mips_regs m (Ms 7)), (32, mips_regs m Mfp), (36, mips_regs m (Ma 0)),
      (40, mips_regs m Mra), (44, mips_regs m Mra), (48, mips_regs m Mgp)] (mips_mem m)"

definition mips_result :: "mips_machine \<Rightarrow> uint32" where
  "mips_result m = load (mips_saved m) (mips_regs m (Ma 1) + 36)"

definition mips_stored :: "mips_machine \<Rightarrow> 32 memory" where
  "mips_stored m = stores (mips_result m) [(0, mips_regs m Msp - 64), (4, mips_regs m (Ma 2))] (mips_saved m)"

definition mips :: "mips_link \<Rightarrow> (mips_machine, uint32) switching" where
  "mips lk = \<lparr>sw_jump = mips_exec lk mips_context_jump, sw_mem = mips_mem, sw_target = (\<lambda>m. mips_regs m (Ma 1)),
     sw_area = (\<lambda>m. mips_regs m Msp - 64), sw_bytes = 52, sw_written = 52, sw_results = (\<lambda>m. [(mips_result m, 8)])\<rparr>"

lemma mips_jump_effect:
  fixes lk m
  defines "c \<equiv> mips_regs m (Ma 1)" and "m' \<equiv> mips_exec lk mips_context_jump m"
  shows "mips_mem m' = mips_stored m" "mips_found m' = mips_frame_at (mips_saved m) c" "mips_regs m' (Mt 0) = mips_result m"
    "mips_regs m' (Ma 0) = mips_regs m Msp - 64" "mips_regs m' (Ma 1) = mips_regs m (Ma 2)" "mips_regs m' (Mv i) = mips_regs m (Mv i)"
    "mips_regs m' (Mt 9) = mips_pc m'"
  unfolding m'_def c_def
  by (simp_all add: mips_exec_def mips_context_jump_def set_mips_def mips_saved_def mips_stored_def mips_result_def mips_found_def
      mips_frame_at_def mips_saved_regs_def mips_offsets_def words_at_def add.assoc)

lemma mips_saved_context: "mips_frame_at (mips_saved m) (mips_regs m Msp - 64) = mips_kept m"
  by (simp add: mips_frame_at_def words_at_def mips_kept_def mips_saved_def mips_offsets_def mips_saved_regs_def load_store_offset)

lemma mips_saved_same: "apart a n (mips_regs m Msp - 64) 52 \<Longrightarrow> same_bytes (mips_saved m) (mips_mem m) a n"
  unfolding mips_saved_def by (erule stores_same) simp_all

lemma mips_stored_same: "apart a n (mips_result m) 8 \<Longrightarrow> same_bytes (mips_stored m) (mips_saved m) a n"
  unfolding mips_stored_def by (erule stores_same) simp_all

lemma mips_stored_result:
  "load (mips_stored m) (mips_result m) = mips_regs m Msp - 64" "load (mips_stored m) (mips_result m + 4) = mips_regs m (Ma 2)"
  by (simp_all add: mips_stored_def load_store_offset)

lemma mips_frame_same: "same_bytes M M' c 52 \<Longrightarrow> mips_frame_at M c = mips_frame_at M' c"
  using load_same [of M M' c 52 44] load_same [of M M' c 52 36] words_at_same [of M M' c 52 mips_offsets]
  by (simp add: mips_frame_at_def mips_offsets_def)

interpretation mips_switch: context_switch "mips lk" mips_kept mips_found mips_frame_at
proof
  fix m :: mips_machine
  let ?sw = "mips lk" and ?c = "mips_regs m (Ma 1)"
  assume "avoids (sw_target ?sw m) (sw_bytes ?sw) ((sw_area ?sw m, sw_written ?sw) # sw_results ?sw m)"
  then have "same_bytes (mips_saved m) (mips_mem m) ?c 52" by (simp add: mips_def mips_saved_same)
  from mips_frame_same [OF this] show "mips_found (sw_jump ?sw m) = mips_frame_at (sw_mem ?sw m) (sw_target ?sw m)"
    by (simp add: mips_def mips_jump_effect)
next
  fix m assume "avoids (sw_area (mips lk) m) (sw_bytes (mips lk)) (sw_results (mips lk) m)"
  then show "mips_frame_at (sw_mem (mips lk) (sw_jump (mips lk) m)) (sw_area (mips lk) m) = mips_kept m"
    using mips_frame_same [OF mips_stored_same] by (simp add: mips_def mips_jump_effect mips_saved_context)
qed (auto simp: mips_def mips_jump_effect mips_frame_same intro: same_bytes_trans [OF mips_stored_same mips_saved_same])

text \<open>On 32 bit MIPS a switch among any number of contexts is a call that returns its result in memory: execution goes on behind
  the call of \<open>tb_context_jump\<close> in state \<open>k\<close> with \<open>s0\<close> to \<open>s7\<close>, \<open>fp\<close>, \<open>ra\<close>, \<open>gp\<close> and the stack pointer of that state, and the context of the
  code that jumped and the pointer it passed are in the two words at the address in \<open>a0\<close> of that state. The register \<open>v0\<close>, in which a
  function that returns a structure returns its address, is not set.\<close>

theorem mips_switch_returns:
  fixes lk :: mips_link
  defines "jump \<equiv> mips_exec lk mips_context_jump"
  assumes "switches (mips lk) S m" "area_free (mips lk) S m" "S (mips_regs m (Ma 1)) = Some k"
  shows "(\<forall>r \<in> set mips_saved_regs. mips_regs (jump m) r = mips_regs k r) \<and>
    mips_regs (jump m) Msp = mips_regs k Msp \<and> mips_pc (jump m) = mips_regs k Mra \<and>
    load (mips_mem (jump m)) (mips_regs k (Ma 0)) = mips_regs m Msp - 64 \<and>
    load (mips_mem (jump m)) (mips_regs k (Ma 0) + 4) = mips_regs m (Ma 2) \<and>
    mips_regs (jump m) (Mv 0) = mips_regs m (Mv 0)"
proof -
  have f: "mips_found (jump m) = mips_kept k"
    using mips_switch.resumed_found [OF assms(2) _ assms(3)] assms(4) by (simp add: mips_def jump_def)
  have j: "mips_mem (jump m) = mips_stored m" "mips_regs (jump m) (Mt 0) = mips_result m" "mips_regs (jump m) (Mv 0) = mips_regs m (Mv 0)"
    by (simp_all add: jump_def mips_jump_effect)
  with f have "mips_result m = mips_regs k (Ma 0)" by (simp add: mips_found_def mips_kept_def)
  with f j mips_stored_result [of m] show ?thesis by (simp add: mips_found_def mips_kept_def)
qed

section \<open>Starting\<close>

definition mips_made_at :: "mips_machine \<Rightarrow> uint32" where
  "mips_made_at m = ((mips_regs m (Ma 0) + mips_regs m (Ma 1) - 32) AND - 16) - 64"

text \<open>A stack that can hold a context and the area for the arguments of the function.\<close>

definition mips_room :: "mips_machine \<Rightarrow> bool" where
  "mips_room m \<longleftrightarrow> unat (mips_regs m (Ma 0)) + unat (mips_regs m (Ma 1)) < 2 ^ 32 \<and> 112 \<le> unat (mips_regs m (Ma 1))"

lemma mips_made_range:
  assumes "mips_room m"
  shows "unat (mips_regs m (Ma 0)) \<le> unat (mips_made_at m)"
    "unat (mips_made_at m) + 96 \<le> unat (mips_regs m (Ma 0)) + unat (mips_regs m (Ma 1))" "16 dvd unat (mips_made_at m + 64)"
proof -
  let ?a = "mips_regs m (Ma 0)" and ?s = "mips_regs m (Ma 1)"
  have s: "unat (?s - 32) = unat ?s - 32" "112 \<le> unat ?s" "unat ?a + unat ?s < 2 ^ 32"
    using unat_minus_ge [of 32 ?s] assms by (simp_all add: mips_room_def)
  have c: "mips_made_at m = ((?a + (?s - 32)) AND - 16) - of_nat 64" by (simp add: mips_made_at_def add_diff_eq)
  have "unat ?a + unat (?s - 32) < 2 ^ LENGTH(32)" "64 + 16 \<le> unat (?s - 32)" using s by simp_all
  note b = block_at_top(2-4) [OF this, folded c]
  show "unat ?a \<le> unat (mips_made_at m)" "16 dvd unat (mips_made_at m + 64)" using b by simp_all
  show "unat (mips_made_at m) + 96 \<le> unat ?a + unat ?s" using b(2) s by linarith
qed

lemma mips_make_effect:
  fixes lk m
  defines "c \<equiv> mips_made_at m" and "m' \<equiv> mips_exec lk mips_context_make m"
  shows "mips_mem m' = stores c [(44, mips_regs m (Ma 2)), (48, mips_regs m (Mt 9) + gp_disp lk), (36, c + 52), (40, label_end lk)] (mips_mem m)"
    "mips_regs m' (Mv 0) = c" "mips_pc m' = mips_regs m Mra" "mips_regs m' (Ms i) = mips_regs m (Ms i)" "mips_regs m' Mfp = mips_regs m Mfp"
    "mips_regs m' Msp = mips_regs m Msp"
  unfolding m'_def c_def
  by (simp_all add: mips_exec_def mips_context_make_def set_mips_def mips_made_at_def)

text \<open>A context that was made starts its function. If its 52 bytes are still as \<open>tb_context_make\<close> left them when some
  code jumps to it, from a stack that does not overlap the 64 bytes reserved for it, execution arrives at the function, with its address in
  \<open>t9\<close> and the global pointer of \<open>tb_context_make\<close>: its argument (a structure in
  two registers) is the context and the pointer of the code that jumped, its stack pointer is a multiple of 16 with 32 bytes above it, and the
  address it returns to is \<open>__end\<close>.\<close>

theorem mips_context_starts:
  fixes lk :: mips_link
  defines "made \<equiv> mips_exec lk mips_context_make" and "jump \<equiv> mips_exec lk mips_context_jump"
  assumes "mips_room m" "mips_regs n (Ma 1) = mips_regs (made m) (Mv 0)"
    and "same_bytes (mips_mem n) (mips_mem (made m)) (mips_regs n (Ma 1)) 52"
    and "apart (mips_regs n (Ma 1)) 52 (mips_regs n Msp - 64) 52"
  shows "mips_pc (made m) = mips_regs m Mra \<and> mips_regs (made m) Msp = mips_regs m Msp \<and>
    unat (mips_regs m (Ma 0)) \<le> unat (mips_regs n (Ma 1)) \<and>
    unat (mips_regs n (Ma 1)) + 96 \<le> unat (mips_regs m (Ma 0)) + unat (mips_regs m (Ma 1)) \<and>
    mips_pc (jump n) = mips_regs m (Ma 2) \<and> mips_regs (jump n) (Mt 9) = mips_regs m (Ma 2) \<and> mips_regs (jump n) Mra = label_end lk \<and>
    mips_regs (jump n) Mgp = mips_regs m (Mt 9) + gp_disp lk \<and>
    mips_regs (jump n) (Ma 0) = mips_regs n Msp - 64 \<and> mips_regs (jump n) (Ma 1) = mips_regs n (Ma 2) \<and>
    16 dvd unat (mips_regs (jump n) Msp)"
proof -
  let ?c = "mips_made_at m"
  have c: "mips_regs n (Ma 1) = ?c" using assms(4) by (simp add: made_def mips_make_effect)
  have "mips_frame_at (mips_saved n) ?c = mips_frame_at (mips_mem (made m)) ?c"
    using mips_frame_same [OF same_bytes_trans [OF mips_saved_same]] assms(5,6) by (simp add: c del: One_nat_def)
  then have f: "mips_found (jump n) = mips_frame_at (mips_mem (made m)) ?c"
    by (simp add: jump_def mips_jump_effect c del: One_nat_def)
  have "mips_pc (jump n) = mips_regs m (Ma 2)" "mips_regs (jump n) Mra = label_end lk" "mips_regs (jump n) Msp = ?c + 64"
    "mips_regs (jump n) Mgp = mips_regs m (Mt 9) + gp_disp lk"
    using f by (simp_all add: mips_found_def mips_frame_at_def mips_saved_regs_def mips_offsets_def words_at_def made_def mips_make_effect
        load_store_offset)
  moreover have "mips_regs (jump n) (Mt 9) = mips_pc (jump n)" "mips_regs (jump n) (Ma 0) = mips_regs n Msp - 64"
    "mips_regs (jump n) (Ma 1) = mips_regs n (Ma 2)"
    using mips_jump_effect(4,5,7) [of lk n] by (simp_all add: jump_def)
  ultimately show ?thesis
    using mips_made_range [OF assms(3)] by (simp add: c made_def mips_make_effect del: One_nat_def)
qed

text \<open>A function that returns ends the program.\<close>

lemma mips_end_exits: "mips_exit (mips_exec lk mips_context_end m) = Some 0"
  by (simp add: mips_exec_def mips_context_end_def set_mips_def)

end
