(* ===== verification/Arch.thy ===== *)
theory Arch
  imports Prelude
begin

text \<open>
  Which routines a build assembles: \<open>src/context/arch.h\<close> and \<open>src/context/context.S\<close> as functions of the macros the preprocessor has when it reads
  them. A macro is defined with an integer or with nothing; the names \<open>arch.h\<close> defines have no body but the sizes. The header
  fails with an \<open>#error\<close>, or when a macro without a body stands in a condition.
\<close>

section \<open>The preprocessor\<close>

type_synonym macros = "string \<rightharpoonup> int option"

datatype pp_error = Error string | BadExpression string

definition is_defined :: "macros \<Rightarrow> string \<Rightarrow> bool" where
  "is_defined m x \<longleftrightarrow> m x \<noteq> None"

definition any_defined :: "macros \<Rightarrow> string list \<Rightarrow> bool" where
  "any_defined m xs \<longleftrightarrow> list_ex (is_defined m) xs"

text \<open>The conditions \<open>defined(x) && p(x)\<close>: the name is replaced before the expression is read.\<close>

definition defined_and :: "macros \<Rightarrow> string \<Rightarrow> (int \<Rightarrow> bool) \<Rightarrow> pp_error + bool" where
  "defined_and m x p = (case m x of None \<Rightarrow> Inr False | Some None \<Rightarrow> Inl (BadExpression x) | Some (Some v) \<Rightarrow> Inr (p v))"

definition define_empty :: "string \<Rightarrow> macros \<Rightarrow> macros" where
  "define_empty x m = m(x \<mapsto> None)"

definition define_int :: "string \<Rightarrow> int \<Rightarrow> macros \<Rightarrow> macros" where
  "define_int x v m = m(x \<mapsto> Some v)"

definition pp_bind :: "pp_error + 'a \<Rightarrow> ('a \<Rightarrow> pp_error + 'b) \<Rightarrow> pp_error + 'b" where
  "pp_bind r f = (case r of Inl e \<Rightarrow> Inl e | Inr x \<Rightarrow> f x)"

section \<open>The header\<close>

abbreviation x86_names :: "string list" where
  "x86_names \<equiv> [''__i386'', ''__i686'', ''__i386__'', ''__i686__'', ''_M_IX86'']"

abbreviation x64_names :: "string list" where
  "x64_names \<equiv> [''__x86_64'', ''__amd64__'', ''__amd64'', ''_M_IA64'', ''_M_X64'']"

abbreviation mips_names :: "string list" where
  "mips_names \<equiv> [''mips'', ''_mips'', ''__mips__'']"

definition arch_machine :: "macros \<Rightarrow> pp_error + macros" where
  "arch_machine m =
     (if any_defined m x86_names then Inr (define_empty ''ARCH_X86'' m)
      else if any_defined m x64_names then Inr (define_empty ''ARCH_X64'' m)
      else pp_bind (defined_and m ''__aarch64__'' (\<lambda>v. v \<noteq> 0)) (\<lambda>aarch64.
        if any_defined m [''__arm64'', ''__arm64__''] \<or> aarch64 then Inr (define_empty ''ARCH_ARM64'' (define_empty ''ARCH_ARM'' m))
        else if is_defined m ''__arm__'' then Inr (define_empty ''ARCH_ARM'' m)
        else if any_defined m mips_names then Inr (define_empty ''ARCH_MIPS'' m)
        else Inl (Error ''unknown arch'')))"

definition arm_version :: "macros \<Rightarrow> pp_error + macros" where
  "arm_version m =
     (if is_defined m ''__ARM64_ARCH_8__'' then Inr (define_empty ''ARCH_ARM_v8'' m)
      else if is_defined m ''__ARM_ARCH_7A__'' then Inr (define_empty ''ARCH_ARM_v7A'' m)
      else if is_defined m ''__ARM_ARCH_7__'' then Inr (define_empty ''ARCH_ARM_v7'' m)
      else if is_defined m ''__ARM_ARCH_6__'' then Inr (define_empty ''ARCH_ARM_v6'' m)
      else if is_defined m ''__ARM_ARCH_5TE__'' then Inr (define_empty ''ARCH_ARM_v5te'' m)
      else if is_defined m ''__ARM_ARCH_5__'' then Inr (define_empty ''ARCH_ARM_v5'' m)
      else if is_defined m ''__ARM_ARCH_4T__'' then Inr (define_empty ''ARCH_ARM_v4t'' m)
      else if is_defined m ''__ARM_ARCH_3__'' then Inr (define_empty ''ARCH_ARM_v3'' m)
      else case m ''__ARM_ARCH'' of
        Some None \<Rightarrow> Inl (BadExpression ''__ARM_ARCH'')
      | Some (Some v) \<Rightarrow>
          Inr (if v \<ge> 8 then define_empty ''ARCH_ARM_v8'' m
               else if v \<ge> 7 then define_empty ''ARCH_ARM_v7'' m
               else if v \<ge> 6 then define_empty ''ARCH_ARM_v6'' m
               else define_empty ''ARCH_ARM_v5'' m)
      | None \<Rightarrow> pp_bind (defined_and m ''__aarch64__'' (\<lambda>v. v \<noteq> 0)) (\<lambda>aarch64.
          if aarch64 then Inr (define_empty ''ARCH_ARM_v8'' m) else Inl (Error ''unknown arm arch version'')))"

definition arm_neon :: "macros \<Rightarrow> macros" where
  "arm_neon m = (if is_defined m ''__ARM_NEON__'' then define_empty ''ARCH_ARM_NEON'' m else m)"

definition arch_arm :: "macros \<Rightarrow> pp_error + macros" where
  "arch_arm m = (if is_defined m ''ARCH_ARM'' then pp_bind (arm_version m) (\<lambda>m. Inr (arm_neon m)) else Inr m)"

definition arch_vfp :: "macros \<Rightarrow> macros" where
  "arch_vfp m = (if is_defined m ''__VFP_FP__'' then define_empty ''ARCH_VFP'' m else m)"

abbreviation data_model_names :: "string list" where
  "data_model_names \<equiv> [''__LP64__'', ''__64BIT__'', ''_LP64'']"

abbreviation names64 :: "string list" where
  "names64 \<equiv> [''__x86_64'', ''__x86_64__'', ''__amd64'', ''__amd64__'', ''__arm64'', ''__arm64__'', ''__sparc64__'', ''__PPC64__'',
     ''__ppc64__'', ''__powerpc64__'', ''_M_X64'', ''_M_AMD64'', ''_M_IA64'']"

definition cpu_size :: "macros \<Rightarrow> pp_error + macros" where
  "cpu_size m = pp_bind (defined_and m ''__WORDSIZE'' (\<lambda>v. v = 64)) (\<lambda>wordsize64. Inr
     (if any_defined m data_model_names \<or> any_defined m names64 \<or> wordsize64
      then define_int ''CPU_BYTE_SIZE'' 8 (define_int ''CPU_BIT_SIZE'' 64 m)
      else define_int ''CPU_BYTE_SIZE'' 4 (define_int ''CPU_BIT_SIZE'' 32 m)))"

definition arch_h :: "macros \<Rightarrow> pp_error + macros" where
  "arch_h m = pp_bind (arch_machine m) (\<lambda>m. pp_bind (arch_arm m) (\<lambda>m. cpu_size (arch_vfp m)))"

text \<open>The files \<open>context.S\<close> includes after the header.\<close>

definition context_S :: "macros \<Rightarrow> string list" where
  "context_S m =
     (if is_defined m ''ARCH_X86'' then [''prefix_x86_64.S'', ''context_x86.S'']
      else if is_defined m ''ARCH_X64'' then [''prefix_x86_64.S'', ''context_x64.S'']
      else if is_defined m ''ARCH_ARM64'' then [''prefix_arm64.S'', ''context_arm64.S'']
      else if is_defined m ''ARCH_ARM'' then [''prefix_arm.S'', ''context_arm.S'']
      else if is_defined m ''ARCH_MIPS'' then [''prefix_mips.S'', ''context_mips.S'']
      else [])"

section \<open>What compilers define\<close>

datatype machine = I386 | X86_64 | AArch64 | ARM32 | MIPS

fun routine_of :: "machine \<Rightarrow> string" where
  "routine_of I386 = ''context_x86.S''"
| "routine_of X86_64 = ''context_x64.S''"
| "routine_of AArch64 = ''context_arm64.S''"
| "routine_of ARM32 = ''context_arm.S''"
| "routine_of MIPS = ''context_mips.S''"

text \<open>The size of the words a routine saves.\<close>

fun routine_bits :: "machine \<Rightarrow> int" where
  "routine_bits X86_64 = 64"
| "routine_bits AArch64 = 64"
| "routine_bits _ = 32"

text \<open>The names GCC defines for a machine, and only for it; \<open>__LP64__\<close> says that pointers have 64 bits, whatever the machine. Both ARM
  machines have \<open>__ARM_ARCH\<close> with the version. Nothing else is known about the macros.\<close>

abbreviation own_names :: "string list" where
  "own_names \<equiv> [''ARCH_X86'', ''ARCH_X64'', ''ARCH_ARM64'', ''ARCH_ARM'', ''ARCH_MIPS'']"

definition compiler_for :: "machine \<Rightarrow> bool \<Rightarrow> macros \<Rightarrow> bool" where
  "compiler_for M lp64 m \<longleftrightarrow>
     (any_defined m x86_names \<longleftrightarrow> M = I386) \<and> (any_defined m x64_names \<longleftrightarrow> M = X86_64) \<and>
     m ''__aarch64__'' = (if M = AArch64 then Some (Some 1) else None) \<and> (is_defined m ''__arm__'' \<longleftrightarrow> M = ARM32) \<and>
     (any_defined m mips_names \<longleftrightarrow> M = MIPS) \<and> (any_defined m names64 \<longleftrightarrow> M = X86_64) \<and>
     (M \<in> {AArch64, ARM32} \<longrightarrow> (\<exists>v. m ''__ARM_ARCH'' = Some (Some v))) \<and>
     (any_defined m data_model_names \<longleftrightarrow> lp64) \<and> m ''__WORDSIZE'' = None \<and> \<not> any_defined m own_names"

section \<open>The routine that is built\<close>

lemma pp_bind_simps [simp]: "pp_bind (Inl e) f = Inl e" "pp_bind (Inr x) f = f x"
  by (simp_all add: pp_bind_def)

lemma pp_bind_Inr_conv: "pp_bind r f = Inr y \<longleftrightarrow> (\<exists>x. r = Inr x \<and> f x = Inr y)"
  by (cases r) simp_all

lemma is_defined_simps [simp]:
  "is_defined (define_empty x m) y \<longleftrightarrow> y = x \<or> is_defined m y"
  "is_defined (define_int x v m) y \<longleftrightarrow> y = x \<or> is_defined m y"
  by (auto simp: is_defined_def define_empty_def define_int_def)

lemma any_defined_simps [simp]: "\<not> any_defined m []" "any_defined m (x # xs) \<longleftrightarrow> is_defined m x \<or> any_defined m xs"
  by (simp_all add: any_defined_def)

text \<open>The names that decide about the routine, and those that decide about the size, are not touched by the other parts of the header.\<close>

definition deciding_names :: "string list" where
  "deciding_names = ''__WORDSIZE'' # own_names @ data_model_names @ names64"

definition agree :: "string list \<Rightarrow> macros \<Rightarrow> macros \<Rightarrow> bool" where
  "agree xs m m' \<longleftrightarrow> (\<forall>x \<in> set xs. m' x = m x)"

lemma agree_refl [simp]: "agree xs m m"
  by (simp add: agree_def)

lemma agree_trans: "agree xs m m' \<Longrightarrow> agree xs m' m'' \<Longrightarrow> agree xs m m''"
  by (simp add: agree_def)

lemma agree_mono: "agree xs m m' \<Longrightarrow> set ys \<subseteq> set xs \<Longrightarrow> agree ys m m'"
  by (auto simp: agree_def)

lemma agree_define:
  "x \<notin> set xs \<Longrightarrow> agree xs m (define_empty x m)" "x \<notin> set xs \<Longrightarrow> agree xs m (define_int x v m)"
  by (auto simp: agree_def define_empty_def define_int_def)

lemma agree_any: "agree xs m m' \<Longrightarrow> set ys \<subseteq> set xs \<Longrightarrow> any_defined m' ys = any_defined m ys"
  unfolding agree_def any_defined_def is_defined_def list_ex_iff by (metis subsetD)

definition version_names :: "string list" where
  "version_names = [''ARCH_ARM_v8'', ''ARCH_ARM_v7A'', ''ARCH_ARM_v7'', ''ARCH_ARM_v6'', ''ARCH_ARM_v5te'', ''ARCH_ARM_v5'', ''ARCH_ARM_v4t'', ''ARCH_ARM_v3'']"

lemma arm_version_defines:
  assumes "arm_version m = Inr m'"
  shows "m' \<in> (\<lambda>x. define_empty x m) ` set version_names"
  using assms unfolding arm_version_def by (simp add: version_names_def pp_bind_Inr_conv split: if_split_asm option.split_asm; blast)

lemma other_names: "\<forall>x \<in> set (''ARCH_ARM_NEON'' # ''ARCH_VFP'' # version_names). x \<notin> set deciding_names"
  by (simp add: version_names_def deciding_names_def)

lemma deciding_subsets: "set own_names \<subseteq> set deciding_names" "set data_model_names \<subseteq> set deciding_names" "set names64 \<subseteq> set deciding_names"
  "''__WORDSIZE'' \<in> set deciding_names"
  unfolding deciding_names_def by (simp_all add: subset_iff)

lemma arch_vfp_agree: "agree deciding_names m (arch_vfp m)"
  using agree_define(1) [of "''ARCH_VFP''" deciding_names m] other_names by (simp add: arch_vfp_def)

lemma arm_neon_agree: "agree deciding_names m (arm_neon m)"
  using agree_define(1) [of "''ARCH_ARM_NEON''" deciding_names m] other_names by (simp add: arm_neon_def)

lemma arm_version_agree: "arm_version m = Inr m' \<Longrightarrow> agree deciding_names m m'"
  using arm_version_defines [of m m'] other_names by (auto intro: agree_define(1))

lemma arch_arm_agree: "arch_arm m = Inr m' \<Longrightarrow> agree deciding_names m m'"
  by (auto simp: arch_arm_def pp_bind_Inr_conv split: if_split_asm intro: agree_trans [OF arm_version_agree arm_neon_agree])

lemma arm_version_known:
  assumes "m ''__ARM_ARCH'' = Some (Some v)"
  shows "\<exists>m'. arm_version m = Inr m'"
  using assms by (simp add: arm_version_def)

lemma context_S_agree: "agree own_names m m' \<Longrightarrow> context_S m' = context_S m"
  by (simp add: context_S_def is_defined_def agree_def)

lemma cpu_size_known:
  assumes "m ''__WORDSIZE'' = None"
  shows "\<exists>m'. cpu_size m = Inr m' \<and> agree own_names m m' \<and>
    m' ''CPU_BIT_SIZE'' = Some (Some (if any_defined m data_model_names \<or> any_defined m names64 then 64 else 32))"
  using assms by (simp add: cpu_size_def defined_and_def define_int_def agree_def)

text \<open>The parts after the first: they succeed when the version of an ARM machine is known, and decide the size alone.\<close>

lemma arch_h_after_machine:
  assumes "arch_machine m = Inr m1" "m1 ''ARCH_ARM'' = None \<or> (\<exists>v. m1 ''__ARM_ARCH'' = Some (Some v))" "m1 ''__WORDSIZE'' = None"
  shows "\<exists>m'. arch_h m = Inr m' \<and> context_S m' = context_S m1 \<and>
    m' ''CPU_BIT_SIZE'' = Some (Some (if any_defined m1 data_model_names \<or> any_defined m1 names64 then 64 else 32))"
proof -
  obtain m2 where m2: "arch_arm m1 = Inr m2"
    using assms(2) arm_version_known [of m1] by (cases "is_defined m1 ''ARCH_ARM''") (auto simp: arch_arm_def is_defined_def)
  have a: "agree deciding_names m1 (arch_vfp m2)" by (rule agree_trans [OF arch_arm_agree [OF m2] arch_vfp_agree])
  then obtain m' where m': "cpu_size (arch_vfp m2) = Inr m'" "agree own_names (arch_vfp m2) m'"
    "m' ''CPU_BIT_SIZE'' = Some (Some (if any_defined (arch_vfp m2) data_model_names \<or> any_defined (arch_vfp m2) names64 then 64 else 32))"
    using cpu_size_known [of "arch_vfp m2"] assms(3) deciding_subsets(4) by (auto simp: agree_def)
  have "context_S m' = context_S m1" by (rule context_S_agree [OF agree_trans [OF agree_mono [OF a deciding_subsets(1)] m'(2)]])
  moreover have "any_defined (arch_vfp m2) data_model_names = any_defined m1 data_model_names" "any_defined (arch_vfp m2) names64 = any_defined m1 names64"
    by (rule agree_any [OF a deciding_subsets(2)], rule agree_any [OF a deciding_subsets(3)])
  ultimately show ?thesis using m' m2 assms(1) by (simp only: arch_h_def pp_bind_simps) blast
qed

text \<open>The names the first part of the header defines for a machine.\<close>

fun arch_names :: "machine \<Rightarrow> string list" where
  "arch_names I386 = [''ARCH_X86'']"
| "arch_names X86_64 = [''ARCH_X64'']"
| "arch_names AArch64 = [''ARCH_ARM64'', ''ARCH_ARM'']"
| "arch_names ARM32 = [''ARCH_ARM'']"
| "arch_names MIPS = [''ARCH_MIPS'']"

lemma arch_machine_known: "compiler_for M lp64 m \<Longrightarrow> arch_machine m = Inr (foldr define_empty (arch_names M) m)"
  unfolding compiler_for_def arch_machine_def defined_and_def by (cases M) simp_all

lemma context_S_known: "\<not> any_defined m own_names \<Longrightarrow> \<exists>p. context_S (foldr define_empty (arch_names M) m) = [p, routine_of M]"
  by (cases M) (simp_all add: context_S_def)

lemma foldr_define_other: "x \<notin> set xs \<Longrightarrow> foldr define_empty xs m x = m x"
  by (induction xs) (auto simp: define_empty_def)

lemma arch_names_own: "set (arch_names M) \<subseteq> set own_names"
  by (cases M) simp_all

lemma any_defined_own: "set xs \<inter> set own_names = {} \<Longrightarrow> any_defined (foldr define_empty (arch_names M) m) xs = any_defined m xs"
proof (rule agree_any [OF _ subset_refl])
  assume "set xs \<inter> set own_names = {}"
  then have "x \<notin> set (arch_names M)" if "x \<in> set xs" for x using that subsetD [OF arch_names_own] by blast
  then show "agree xs m (foldr define_empty (arch_names M) m)" by (simp add: agree_def foldr_define_other)
qed

text \<open>Every build gets the routine of its machine. Whatever else the compiler and the command line define, on each of the five machines the
  header succeeds and \<open>context.S\<close> includes the prefix and the one routine written for the machine, also on 64 bit ARM, for which the header defines the name of 32 bit ARM too. The size of a word
  it announces is the one the routine saves exactly when the data model is that of the machine: it is not for programs with 32 bit pointers on 64 bit
  ARM, and for 64 bit MIPS, which gets the routine that saves the lower halves of its registers.\<close>

theorem built_for_machine:
  assumes "compiler_for M lp64 m"
  shows "\<exists>m' p. arch_h m = Inr m' \<and> context_S m' = [p, routine_of M] \<and>
    (m' ''CPU_BIT_SIZE'' = Some (Some (routine_bits M)) \<longleftrightarrow> M = X86_64 \<or> (lp64 \<longleftrightarrow> M = AArch64))"
proof -
  let ?m = "foldr define_empty (arch_names M) m"
  have same: "?m ''__WORDSIZE'' = m ''__WORDSIZE''" "?m ''__ARM_ARCH'' = m ''__ARM_ARCH''"
    by (rule foldr_define_other, cases M; simp)+
  have any: "any_defined ?m data_model_names = any_defined m data_model_names" "any_defined ?m names64 = any_defined m names64"
    by (rule any_defined_own, simp)+
  have c: "\<not> any_defined m own_names" "m ''__WORDSIZE'' = None" "any_defined m data_model_names = lp64" "any_defined m names64 \<longleftrightarrow> M = X86_64"
    "M \<in> {AArch64, ARM32} \<longrightarrow> (\<exists>v. m ''__ARM_ARCH'' = Some (Some v))"
    using assms unfolding compiler_for_def by blast+
  have "?m ''ARCH_ARM'' = None \<or> (\<exists>v. ?m ''__ARM_ARCH'' = Some (Some v))"
    using c(1,5) same(2) foldr_define_other [of "''ARCH_ARM''" "arch_names M" m] by (cases M) (simp_all add: is_defined_def)
  from arch_h_after_machine [OF arch_machine_known [OF assms] this] same(1) c(2)
  obtain m' where m': "arch_h m = Inr m'" "context_S m' = context_S ?m"
    "m' ''CPU_BIT_SIZE'' = Some (Some (if any_defined ?m data_model_names \<or> any_defined ?m names64 then 64 else 32))" by auto
  moreover have "m' ''CPU_BIT_SIZE'' = Some (Some (routine_bits M)) \<longleftrightarrow> M = X86_64 \<or> (lp64 \<longleftrightarrow> M = AArch64)"
    unfolding m'(3) any c(3,4) by (cases M) simp_all
  ultimately show ?thesis using context_S_known [OF c(1), of M] by metis
qed

text \<open>The macros of GCC for 64 bit MIPS that the header looks at.\<close>

definition mips64_gcc :: macros where
  "mips64_gcc = [''mips'' \<mapsto> Some 1, ''__mips__'' \<mapsto> Some 1, ''__mips64'' \<mapsto> Some 1, ''_LP64'' \<mapsto> Some 1, ''__LP64__'' \<mapsto> Some 1]"

theorem built_for_machine_witness:
  "compiler_for MIPS True mips64_gcc \<and>
   (\<exists>m' p. arch_h mips64_gcc = Inr m' \<and> context_S m' = [p, ''context_mips.S''] \<and> m' ''CPU_BIT_SIZE'' \<noteq> Some (Some 32))"
proof -
  have c: "compiler_for MIPS True mips64_gcc"
    by (simp add: compiler_for_def mips64_gcc_def is_defined_def)
  from built_for_machine [OF this] have "\<exists>m' p. arch_h mips64_gcc = Inr m' \<and> context_S m' = [p, ''context_mips.S''] \<and>
    m' ''CPU_BIT_SIZE'' \<noteq> Some (Some 32)" by simp
  with c show ?thesis by blast
qed

end
