(* ===== verification/Scheduler_Inv.thy ===== *)
theory Scheduler_Inv
  imports Scheduler
begin

text \<open>
  The well-formedness of a scheduler: its pool, its eight shared stacks and the coroutines that own them fit together.
  Construction establishes it and every operation keeps it, so that the only ways in which running queued tasks can
  fail are the three that theories \<open>Co_Pool\<close> and \<open>Scheduler\<close> describe: the pool is exhausted, a stack
  is restored from a private buffer, or a coroutine that had yielded is used again.

  The interface \<open>coroutine_code\<close> is what the scheduler needs of the code it runs: a coroutine leaves the scheduler
  well formed when it comes back, and leaves the unions of the others alone. It is interpreted on coroutines that make any sequence of the calls the
  library offers and write to their own stack.
\<close>

section \<open>Well-formed schedulers\<close>

abbreviation used :: "'k sys \<Rightarrow> co_ptr set" where
  "used s \<equiv> in_use (co_pool (sch s))"

abbreviation main_of :: "'k sys \<Rightarrow> co_ptr" where
  "main_of s \<equiv> main_co (sch s)"

abbreviation stack_bytes :: "'k sys \<Rightarrow> nat" where
  "stack_bytes s \<equiv> unat (stack_size (sch s))"

text \<open>A shared stack: memory of the right size once it is allocated, owned by nobody or by a coroutine in
  use whose stack it is.\<close>

definition stack_wf :: "'k sys \<Rightarrow> nat \<Rightarrow> bool" where
  [inv_defs]: "stack_wf s i \<longleftrightarrow>
     (case st_p (stacks (sch s) ! i) of
        None \<Rightarrow> st_co (stacks (sch s) ! i) = None
      | Some p \<Rightarrow> p < length (mem s) \<and> length (mem s ! p) = stack_bytes s \<and>
          st_top (stacks (sch s) ! i) = stack_bytes s) \<and>
     (\<forall>c. st_co (stacks (sch s) ! i) = Some c \<longrightarrow> c \<in> used s \<and> c \<noteq> main_of s \<and> c mod 8 = i)"

text \<open>A coroutine in use: it has a function to start with, or a context in a stack that is allocated.\<close>

definition co_wf :: "'k sys \<Rightarrow> co_ptr \<Rightarrow> bool" where
  [inv_defs]: "co_wf s c \<longleftrightarrow>
     (case co_ctx (co_at c s) of
        None \<Rightarrow> \<exists>f. co_union (co_at c s) = Func f
      | Some b \<Rightarrow> b \<le> stack_bytes s \<and> st_p (stacks (sch s) ! (c mod 8)) \<noteq> None)"

definition sched_wf :: "'k sys \<Rightarrow> bool" where
  [inv_defs]: "sched_wf s \<longleftrightarrow>
     pool_ok (co_pool (sch s)) \<and> main_of s \<in> used s \<and>
     length (stacks (sch s)) = kShareStackSize \<and> stack_bytes s < 2 ^ 31 \<and>
     (\<forall>i < kShareStackSize. stack_wf s i) \<and>
     (\<forall>i < kShareStackSize. \<forall>j < kShareStackSize. i \<noteq> j \<longrightarrow>
        st_p (stacks (sch s) ! i) = None \<or> st_p (stacks (sch s) ! i) \<noteq> st_p (stacks (sch s) ! j)) \<and>
     (\<forall>c \<in> used s. c \<noteq> main_of s \<longrightarrow> co_wf s c) \<and>
     (\<forall>c < kPoolSize. length (fb_data (buffer (co_stack (co_at c s)))) = kSmallBuffer)"

text \<open>Between two switches every owner of a stack has been started, and the loop has a context as
  soon as some coroutine has one.\<close>

definition owners_started :: "'k sys \<Rightarrow> bool" where
  [inv_defs]: "owners_started s \<longleftrightarrow>
     (\<forall>i < kShareStackSize. \<forall>c. st_co (stacks (sch s) ! i) = Some c \<longrightarrow> co_ctx (co_at c s) \<noteq> None)"

definition sched_ok :: "'k sys \<Rightarrow> bool" where
  [inv_defs]: "sched_ok s \<longleftrightarrow> sched_wf s \<and> owners_started s \<and>
     (\<forall>c \<in> used s. c \<noteq> main_of s \<longrightarrow> co_ctx (co_at c s) \<noteq> None \<longrightarrow> co_ctx (co_at (main_of s) s) \<noteq> None)"

text \<open>The state in which the code of coroutine \<open>co\<close> runs.\<close>

definition runs :: "co_ptr \<Rightarrow> 'k sys \<Rightarrow> bool" where
  [inv_defs]: "runs co s \<longleftrightarrow> sched_wf s \<and> owners_started s \<and> running_co (sch s) = Some co \<and> co \<in> used s \<and>
     co \<noteq> main_of s \<and> co_ctx (co_at co s) \<noteq> None \<and> co_ctx (co_at (main_of s) s) \<noteq> None"

section \<open>Changes that keep a scheduler well formed\<close>

lemma used_bounds:
  assumes "sched_wf s" "c \<in> used s"
  shows "c < kPoolSize" "c < unat (cp_id (co_pool (sch s)))" "c < length (pool (co_pool (sch s)))"
    "stack_of c s = c mod 8"
proof -
  show c: "c < kPoolSize" "c < unat (cp_id (co_pool (sch s)))" "c < length (pool (co_pool (sch s)))"
    using assms by (auto simp: sched_wf_def pool_ok_def in_use_def)
  have "co_stack_id (co_at c s) = of_nat (c mod 8)" using assms c by (simp add: sched_wf_def pool_ok_def)
  then show "stack_of c s = c mod 8" by (simp add: stack_of_def unat_of_nat_lt)
qed

lemma sched_wfD:
  assumes "sched_wf s"
  shows "pool_ok (co_pool (sch s))" "main_of s \<in> used s" "length (stacks (sch s)) = 8" "stack_bytes s < 2 ^ 31"
    and "i < 8 \<Longrightarrow> stack_wf s i" "c \<in> used s \<Longrightarrow> c \<noteq> main_of s \<Longrightarrow> co_wf s c"
    and "c < kPoolSize \<Longrightarrow> length (fb_data (buffer (co_stack (co_at c s)))) = kSmallBuffer"
  using assms by (simp_all add: sched_wf_def kShareStackSize_def)

lemma sched_wfI:
  assumes "pool_ok (co_pool (sch s))" "main_of s \<in> used s" "length (stacks (sch s)) = 8" "stack_bytes s < 2 ^ 31"
    and "\<And>i. i < 8 \<Longrightarrow> stack_wf s i"
    and "\<And>i j. i < 8 \<Longrightarrow> j < 8 \<Longrightarrow> i \<noteq> j \<Longrightarrow>
      st_p (stacks (sch s) ! i) = None \<or> st_p (stacks (sch s) ! i) \<noteq> st_p (stacks (sch s) ! j)"
    and "\<And>c. c \<in> used s \<Longrightarrow> c \<noteq> main_of s \<Longrightarrow> co_wf s c"
    and "\<And>c. c < kPoolSize \<Longrightarrow> length (fb_data (buffer (co_stack (co_at c s)))) = kSmallBuffer"
  shows "sched_wf s"
  using assms unfolding sched_wf_def by (simp add: kShareStackSize_def)

lemma stacks_apart:
  assumes "sched_wf s" "i < 8" "j < 8" "i \<noteq> j"
  shows "st_p (stacks (sch s) ! i) = None \<or> st_p (stacks (sch s) ! i) \<noteq> st_p (stacks (sch s) ! j)"
  using assms by (simp add: sched_wf_def kShareStackSize_def)

lemma upd_more [simp]:
  "main_of (upd_co co g s) = main_of s" "main_of (upd_stack i h s) = main_of s"
  "stack_size (sch (upd_co co g s)) = stack_size (sch s)" "stack_size (sch (upd_stack i h s)) = stack_size (sch s)"
  "used (upd_co co g s) = used s"
  by (simp_all add: upd_co_def upd_stack_def upd_sch_def in_use_def)

text \<open>Fields that are not looked at.\<close>

lemma sched_wf_cong:
  assumes "co_pool (sch s') = co_pool (sch s)" "main_of s' = main_of s" "stacks (sch s') = stacks (sch s)"
    and "stack_size (sch s') = stack_size (sch s)" "map length (mem s') = map length (mem s)"
  shows "sched_wf s' = sched_wf s" "owners_started s' = owners_started s"
proof -
  have "length (mem s') = length (mem s)" using assms(5) by (rule map_eq_imp_length_eq)
  moreover have "length (mem s' ! p) = length (mem s ! p)" if "p < length (mem s)" for p
    using assms(5) that calculation by (metis nth_map)
  ultimately have "stack_wf s' i = stack_wf s i" for i
    using assms by (auto simp: stack_wf_def split: option.splits)
  moreover have "co_wf s' c = co_wf s c" for c
    using assms by (simp add: co_wf_def cong: option.case_cong)
  ultimately show "sched_wf s' = sched_wf s"
    using assms by (simp add: sched_wf_def)
  show "owners_started s' = owners_started s" using assms by (simp add: owners_started_def)
qed

text \<open>One coroutine in use changes: it keeps its identity and its buffer.\<close>

lemma sched_wf_co:
  assumes ok: "sched_wf s" and use: "co \<in> used s"
    and same: "co_id (f (co_at co s)) = co_id (co_at co s)" "co_stack_id (f (co_at co s)) = co_stack_id (co_at co s)"
    and buf: "length (fb_data (buffer (co_stack (f (co_at co s))))) = kSmallBuffer"
    and new: "co \<noteq> main_of s \<Longrightarrow> co_wf (upd_co co f s) co"
  shows "sched_wf (upd_co co f s)"
proof (rule sched_wfI)
  note b = used_bounds [OF ok use]
  have "co_pool (sch (upd_co co f s)) = (co_pool (sch s))\<lparr>pool := (pool (co_pool (sch s)))[co := f (co_at co s)]\<rparr>"
    by (simp add: upd_co_def upd_sch_def)
  then show "pool_ok (co_pool (sch (upd_co co f s)))"
    using pool_ok_upd(1) [OF sched_wfD(1) [OF ok] b(2) same] by simp
  show "stack_wf (upd_co co f s) i" if "i < 8" for i
    using sched_wfD(5) [OF ok that] by (simp add: stack_wf_def cong: option.case_cong)
  show "co_wf (upd_co co f s) c" if "c \<in> used (upd_co co f s)" "c \<noteq> main_of (upd_co co f s)" for c
    using sched_wfD(6) [OF ok, of c] that new by (cases "c = co") (simp_all add: co_wf_def cong: option.case_cong)
  show "length (fb_data (buffer (co_stack (co_at c (upd_co co f s))))) = kSmallBuffer" if "c < kPoolSize" for c
    using sched_wfD(7) [OF ok that] buf b(3) by (cases "c = co") simp_all
qed (use ok sched_wfD(2-4) [OF ok] stacks_apart [OF ok] in simp_all)

text \<open>A stack gets another owner, or none.\<close>

lemma sched_wf_owner:
  assumes ok: "sched_wf s" and i: "i < 8" "st_p (stacks (sch s) ! i) \<noteq> None"
    and owner: "\<And>c. oc = Some c \<Longrightarrow> c \<in> used s \<and> c \<noteq> main_of s \<and> c mod 8 = i"
  shows "sched_wf (upd_stack i (\<lambda>x. x\<lparr>st_co := oc\<rparr>) s)" (is "sched_wf ?s")
proof (rule sched_wfI)
  have at: "stacks (sch ?s) ! j = (if j = i then (stacks (sch s) ! i)\<lparr>st_co := oc\<rparr> else stacks (sch s) ! j)" for j
    using sched_wfD(3) [OF ok] i by (simp add: nth_list_update)
  then have p: "st_p (stacks (sch ?s) ! j) = st_p (stacks (sch s) ! j)" for j by (simp only: at) simp
  show "stack_wf ?s j" if "j < 8" for j
    using sched_wfD(5) [OF ok that] owner i unfolding stack_wf_def at by (auto split: option.splits)
  show "st_p (stacks (sch ?s) ! j) = None \<or> st_p (stacks (sch ?s) ! j) \<noteq> st_p (stacks (sch ?s) ! k)"
    if "j < 8" "k < 8" "j \<noteq> k" for j k
    using stacks_apart [OF ok that] by (simp only: p)
  show "co_wf ?s c" if "c \<in> used ?s" "c \<noteq> main_of ?s" for c
    using sched_wfD(6) [OF ok, of c] that unfolding co_wf_def p by (simp cong: option.case_cong)
qed (use sched_wfD [OF ok] in simp_all)

text \<open>A stack is allocated and given to its first owner.\<close>

lemma sched_wf_alloc:
  assumes ok: "sched_wf s" and i: "i < 8" "st_p (stacks (sch s) ! i) = None"
    and co: "co \<in> used s" "co \<noteq> main_of s" "co mod 8 = i" and junk: "length junk = stack_bytes s"
  shows "sched_wf (upd_stack i (\<lambda>_. \<lparr>st_p = Some (length (mem s)), st_top = stack_bytes s, st_co = Some co\<rparr>)
    (s\<lparr>mem := mem s @ [junk]\<rparr>))" (is "sched_wf ?s")
proof (rule sched_wfI)
  have at: "stacks (sch ?s) ! j = (if j = i then \<lparr>st_p = Some (length (mem s)), st_top = stack_bytes s, st_co = Some co\<rparr>
      else stacks (sch s) ! j)" for j
    using sched_wfD(3) [OF ok] i by (simp add: nth_list_update)
  show "stack_wf ?s j" if "j < 8" for j
    using sched_wfD(5) [OF ok that] co junk unfolding stack_wf_def at
    by (auto simp: nth_append split: option.splits)
  have fresh: "st_p (stacks (sch s) ! j) \<noteq> Some (length (mem s))" if "j < 8" for j
    using sched_wfD(5) [OF ok that] by (auto simp: stack_wf_def)
  show "st_p (stacks (sch ?s) ! j) = None \<or> st_p (stacks (sch ?s) ! j) \<noteq> st_p (stacks (sch ?s) ! k)"
    if "j < 8" "k < 8" "j \<noteq> k" for j k
    using stacks_apart [OF ok that] fresh [OF that(1)] fresh [OF that(2)] that(3) unfolding at by auto
  show "co_wf ?s c" if "c \<in> used ?s" "c \<noteq> main_of ?s" for c
    using sched_wfD(6) [OF ok, of c] that i unfolding co_wf_def at by (auto cong: option.case_cong split: option.splits)
qed (use sched_wfD [OF ok] in simp_all)

text \<open>The owner of a stack has a frame there, which can be saved.\<close>

lemma wf_frame:
  assumes ok: "sched_wf s" and c: "c \<in> used s" "c \<noteq> main_of s" "co_ctx (co_at c s) = Some b"
  shows "\<exists>p. st_p (stacks (sch s) ! (c mod 8)) = Some p \<and> frame s c p b"
proof -
  note b = used_bounds [OF ok c(1)]
  have "b \<le> stack_bytes s" "st_p (stacks (sch s) ! (c mod 8)) \<noteq> None"
    using sched_wfD(6) [OF ok c(1,2)] c(3) by (simp_all add: co_wf_def)
  then obtain p where p: "st_p (stacks (sch s) ! (c mod 8)) = Some p" "b \<le> stack_bytes s" by blast
  have "stack_wf s (c mod 8)" using sched_wfD(5) [OF ok] by simp
  with p b c(3) sched_wfD(3,4,7) [OF ok] show ?thesis by (simp add: frame_def stack_wf_def)
qed

lemma SaveStack_wf:
  assumes ok: "sched_wf s" "owners_started s" and i: "i < 8" "st_co (stacks (sch s) ! i) = oc"
  shows "\<exists>g. SchedulerImpl_SaveStack oc s = Inr (case oc of None \<Rightarrow> s | Some c \<Rightarrow> upd_co c (\<lambda>x. x\<lparr>co_stack := g\<rparr>) s) \<and>
    length (fb_data (buffer g)) = kSmallBuffer"
proof (cases oc)
  case None
  then show ?thesis
    by (intro exI [where x = "co_stack Coroutine_init"])
      (simp add: SchedulerImpl_SaveStack_def Coroutine_init_def FixedBuffer_init_def)
next
  case (Some c)
  then have c: "c \<in> used s" "c \<noteq> main_of s" "co_ctx (co_at c s) \<noteq> None"
    using sched_wfD(5) [OF ok(1) i(1)] ok(2) i by (auto simp: stack_wf_def owners_started_def kShareStackSize_def)
  then obtain b p where "frame s c p b" using wf_frame [OF ok(1) c(1,2)] by blast
  from SaveStack_frame [OF this] Some show ?thesis by auto
qed

text \<open>What entering a coroutine leaves, and what it keeps.\<close>

definition entered :: "co_ptr \<Rightarrow> 'k sys \<Rightarrow> 'k sys \<Rightarrow> bool" where
  "entered co s s1 \<longleftrightarrow> sched_wf s1 \<and> owners_started s1 \<and> running_co (sch s1) = Some co \<and>
     used s1 = used s \<and> main_of s1 = main_of s \<and> stack_size (sch s1) = stack_size (sch s) \<and>
     co_ctx (co_at co s1) \<noteq> None \<and> co_union (co_at co s1) = co_union (co_at co s) \<and>
     (\<forall>c. c \<noteq> co \<longrightarrow> co_ctx (co_at c s1) = co_ctx (co_at c s))"

text \<open>The owner of the stack of \<open>co\<close> is saved and \<open>co\<close> becomes the owner.\<close>

lemma take_over:
  assumes ok: "sched_wf s" "owners_started s" and co: "co \<in> used s" "co \<noteq> main_of s"
    and st: "st_p (stacks (sch s) ! (co mod 8)) \<noteq> None" "st_co (stacks (sch s) ! (co mod 8)) = oc" "oc \<noteq> Some co"
  shows "\<exists>s3. SchedulerImpl_SaveStack oc s = Inr s3 \<and> mem s3 = mem s \<and> stacks (sch s3) = stacks (sch s) \<and>
    sched_wf s3 \<and> sched_wf (upd_stack (co mod 8) (\<lambda>x. x\<lparr>st_co := Some co\<rparr>) s3) \<and> used s3 = used s \<and>
    main_of s3 = main_of s \<and> stack_size (sch s3) = stack_size (sch s) \<and> running_co (sch s3) = running_co (sch s) \<and>
    co_at co s3 = co_at co s \<and> (\<forall>c. co_ctx (co_at c s3) = co_ctx (co_at c s))"
proof -
  obtain g where g: "SchedulerImpl_SaveStack oc s = Inr (case oc of None \<Rightarrow> s | Some c \<Rightarrow> upd_co c (\<lambda>x. x\<lparr>co_stack := g\<rparr>) s)"
    "length (fb_data (buffer g)) = kSmallBuffer"
    using SaveStack_wf [OF ok, of "co mod 8" oc] st(2) by auto
  let ?s3 = "case oc of None \<Rightarrow> s | Some c \<Rightarrow> upd_co c (\<lambda>x. x\<lparr>co_stack := g\<rparr>) s"
  have wf: "sched_wf ?s3"
  proof (cases oc)
    case None
    then show ?thesis using ok by simp
  next
    case (Some c)
    then have c: "c \<in> used s" "c \<noteq> main_of s"
      using sched_wfD(5) [OF ok(1), of "co mod 8"] st(2) by (auto simp: stack_wf_def)
    note b = used_bounds [OF ok(1) c(1)]
    have "co_wf (upd_co c (\<lambda>x. x\<lparr>co_stack := g\<rparr>) s) c"
      using sched_wfD(6) [OF ok(1) c] b(3) by (simp add: co_wf_def cong: option.case_cong)
    with Some show ?thesis by (simp add: sched_wf_co [OF ok(1) c(1)] g(2))
  qed
  have eqs: "mem ?s3 = mem s" "stacks (sch ?s3) = stacks (sch s)" "used ?s3 = used s" "main_of ?s3 = main_of s"
    "stack_size (sch ?s3) = stack_size (sch s)" "running_co (sch ?s3) = running_co (sch s)"
    by (cases oc; simp)+
  have at: "co_at co ?s3 = co_at co s" using st(3) by (cases oc) simp_all
  have ctx: "co_ctx (co_at c ?s3) = co_ctx (co_at c s)" for c
  proof (cases oc)
    case (Some d)
    then have "d \<in> used s" using sched_wfD(5) [OF ok(1), of "co mod 8"] st(2) by (auto simp: stack_wf_def)
    from used_bounds(3) [OF ok(1) this] Some show ?thesis by (simp add: nth_list_update)
  qed simp
  have "sched_wf (upd_stack (co mod 8) (\<lambda>x. x\<lparr>st_co := Some co\<rparr>) ?s3)"
    using co st(1) by (intro sched_wf_owner [OF wf]) (simp_all add: eqs)
  with g(1) wf eqs at ctx show ?thesis by blast
qed

lemma owners_startedD: "owners_started s \<Longrightarrow> i < 8 \<Longrightarrow> st_co (stacks (sch s) ! i) = Some c \<Longrightarrow> co_ctx (co_at c s) \<noteq> None"
  by (simp add: owners_started_def kShareStackSize_def)

lemma owners_started_take:
  assumes "owners_started s" "length (stacks (sch s)) = 8" "co_ctx (co_at co s) \<noteq> None" "i < 8"
  shows "owners_started (upd_stack i (\<lambda>x. x\<lparr>st_co := Some co\<rparr>) s)"
  using assms by (auto simp: owners_started_def nth_list_update kShareStackSize_def)

text \<open>Starting a coroutine: with a context at \<open>c\<close>.\<close>

lemma start_co:
  assumes ok: "sched_wf s" and co: "co \<in> used s" "co \<noteq> main_of s" "b \<le> stack_bytes s"
    and st: "st_p (stacks (sch s) ! (co mod 8)) \<noteq> None"
    and own: "\<And>i c. i < 8 \<Longrightarrow> st_co (stacks (sch s) ! i) = Some c \<Longrightarrow> c \<noteq> co \<Longrightarrow> co_ctx (co_at c s) \<noteq> None"
    and run: "running_co (sch s) = Some co"
  shows "entered co s (upd_co co (\<lambda>c. c\<lparr>co_ctx := Some b\<rparr>) s)"
proof -
  note len = used_bounds(1,3) [OF ok co(1)]
  have "sched_wf (upd_co co (\<lambda>c. c\<lparr>co_ctx := Some b\<rparr>) s)"
    using len co(3) st sched_wfD(7) [OF ok len(1)] by (intro sched_wf_co [OF ok co(1)]) (simp_all add: co_wf_def)
  moreover have "owners_started (upd_co co (\<lambda>c. c\<lparr>co_ctx := Some b\<rparr>) s)"
    using own len(2) by (auto simp: owners_started_def nth_list_update kShareStackSize_def)
  ultimately show ?thesis using len(2) run by (simp add: entered_def)
qed

lemma sched_ok_running: "sched_wf (upd_sch (\<lambda>sc. sc\<lparr>running_co := r\<rparr>) s) = sched_wf s"
    "owners_started (upd_sch (\<lambda>sc. sc\<lparr>running_co := r\<rparr>) s) = owners_started s"
  by (rule sched_wf_cong; simp)+

lemma mem_store_lengths: "mem_store m p bs = Inr m' \<Longrightarrow> map length m' = map length m"
  by (auto simp: mem_store_def valid_range_def map_update list_update_same_conv split: if_splits)

lemma enter_new:
  assumes make: "e_make env (stack_bytes s) \<le> stack_bytes s" "length (e_junk env (stack_bytes s)) = stack_bytes s"
    and ok: "sched_wf s" "owners_started s" and co: "co \<in> used s" "co \<noteq> main_of s" "co_ctx (co_at co s) = None"
  shows "\<exists>s1. resume_enter env co s = Inr s1 \<and> entered co s s1"
proof -
  let ?r = "upd_sch (\<lambda>sc. sc\<lparr>running_co := Some co\<rparr>) s" and ?i = "co mod 8"
  let ?start = "upd_co co (\<lambda>c. c\<lparr>co_ctx := Some (e_make env (stack_bytes s))\<rparr>)"
  note b = used_bounds [OF ok(1) co(1)] and len = sched_wfD(3) [OF ok(1)]
  have i: "?i < length (stacks (sch s))" using len by simp
  have okr: "sched_wf ?r" "owners_started ?r" using ok by (simp_all add: sched_ok_running)
  show ?thesis
  proof (cases "st_p (stacks (sch s) ! ?i) = None")
    case True
    let ?a = "upd_stack ?i (\<lambda>_. \<lparr>st_p = Some (length (mem ?r)), st_top = stack_bytes ?r, st_co = Some co\<rparr>)
      (?r\<lparr>mem := mem ?r @ [e_junk env (stack_bytes s)]\<rparr>)"
    have wf: "sched_wf ?a" using True co make(2) by (intro sched_wf_alloc [OF okr(1)]) simp_all
    have "entered co ?a (?start ?a)"
      using okr(2) co make(1) len i
      by (intro start_co [OF wf]) (auto simp: owners_started_def nth_list_update kShareStackSize_def split: if_splits)
    moreover have "resume_enter env co s = Inr (?start ?a)"
      using True co(3) i by (simp add: resume_enter_def b(4) Let_def)
    ultimately show ?thesis using co by (simp add: entered_def)
  next
    case False
    define oc where "oc = st_co (stacks (sch s) ! ?i)"
    have oc: "oc \<noteq> Some co" using owners_startedD [OF ok(2), of ?i co] co(3) by (auto simp: oc_def)
    obtain s3 where s3: "SchedulerImpl_SaveStack oc ?r = Inr s3" "stacks (sch s3) = stacks (sch s)"
      "sched_wf (upd_stack ?i (\<lambda>x. x\<lparr>st_co := Some co\<rparr>) s3)" "used s3 = used s" "main_of s3 = main_of s"
      "stack_size (sch s3) = stack_size (sch s)" "running_co (sch s3) = Some co" "co_at co s3 = co_at co s"
      "\<forall>c. co_ctx (co_at c s3) = co_ctx (co_at c s)"
      using take_over [OF okr, of co oc] co False oc by (auto simp: oc_def)
    let ?t = "upd_stack ?i (\<lambda>x. x\<lparr>st_co := Some co\<rparr>) s3"
    have "entered co ?t (?start ?t)"
      using ok(2) co make(1) len i s3 False
      by (intro start_co [OF s3(3)]) (auto simp: owners_started_def nth_list_update kShareStackSize_def split: if_splits)
    moreover have "resume_enter env co s = Inr (?start ?t)"
      using False co(3) i oc s3(1) by (auto simp: resume_enter_def b(4) Let_def oc_def)
    ultimately show ?thesis using s3 co by (auto simp: entered_def)
  qed
qed

lemma enter_old:
  assumes ok: "sched_wf s" "owners_started s" and co: "co \<in> used s" "co \<noteq> main_of s" "co_ctx (co_at co s) \<noteq> None"
  shows "(\<exists>s1. resume_enter env co s = Inr s1 \<and> entered co s s1) \<or> resume_enter env co s = Inl OutOfBounds"
proof -
  let ?r = "upd_sch (\<lambda>sc. sc\<lparr>running_co := Some co\<rparr>) s" and ?i = "co mod 8"
  note b = used_bounds [OF ok(1) co(1)] and len = sched_wfD(3) [OF ok(1)]
  have i: "?i < length (stacks (sch s))" using len by simp
  have okr: "sched_wf ?r" "owners_started ?r" using ok by (simp_all add: sched_ok_running)
  obtain ctx where ctx: "co_ctx (co_at co s) = Some ctx" using co(3) by blast
  obtain p where p: "st_p (stacks (sch s) ! ?i) = Some p" using wf_frame [OF ok(1) co(1,2) ctx] by blast
  define oc where "oc = st_co (stacks (sch s) ! ?i)"
  show ?thesis
  proof (cases "oc = Some co")
    case True
    then have "resume_enter env co s = Inr ?r"
      using ctx p i by (simp add: resume_enter_def b(4) Let_def oc_def)
    moreover have "entered co s ?r" using okr co by (simp add: entered_def)
    ultimately show ?thesis by blast
  next
    case False
    obtain s3 where s3: "SchedulerImpl_SaveStack oc ?r = Inr s3" "stacks (sch s3) = stacks (sch s)"
      "sched_wf (upd_stack ?i (\<lambda>x. x\<lparr>st_co := Some co\<rparr>) s3)" "used s3 = used s" "main_of s3 = main_of s"
      "stack_size (sch s3) = stack_size (sch s)" "running_co (sch s3) = Some co" "co_at co s3 = co_at co s"
      "\<forall>c. co_ctx (co_at c s3) = co_ctx (co_at c s)"
      using take_over [OF okr, of co oc] co False p by (auto simp: oc_def)
    let ?w = "mem_store (mem s3) (Ptr p (int ctx))
      (take (Stream_size (co_stack (co_at co s3))) (fb_data (buffer (co_stack (co_at co s3)))))"
    have eq: "resume_enter env co s =
        res_bind ?w (\<lambda>m. Inr (upd_stack ?i (\<lambda>x. x\<lparr>st_co := Some co\<rparr>) (s3\<lparr>mem := m\<rparr>)))"
      using ctx p i False s3(1) by (simp add: resume_enter_def b(4) Let_def oc_def)
    show ?thesis
    proof (cases ?w)
      case (Inl e)
      then have "e = OutOfBounds" by (auto simp: mem_store_def split: if_splits)
      with Inl eq show ?thesis by simp
    next
      case (Inr m)
      let ?t = "upd_stack ?i (\<lambda>x. x\<lparr>st_co := Some co\<rparr>) (s3\<lparr>mem := m\<rparr>)"
      have "owners_started s3" using ok(2) s3(2,9) by (simp add: owners_started_def)
      then have "owners_started (upd_stack ?i (\<lambda>x. x\<lparr>st_co := Some co\<rparr>) s3)"
        using s3(2,8) len co(3) by (intro owners_started_take) simp_all
      moreover have "sched_wf ?t = sched_wf (upd_stack ?i (\<lambda>x. x\<lparr>st_co := Some co\<rparr>) s3)"
        "owners_started ?t = owners_started (upd_stack ?i (\<lambda>x. x\<lparr>st_co := Some co\<rparr>) s3)"
        using mem_store_lengths [OF Inr] by (intro sched_wf_cong; simp add: upd_stack_def upd_sch_def)+
      ultimately have "entered co s ?t" using s3 co by (auto simp: entered_def upd_stack_def upd_sch_def)
      with Inr eq show ?thesis by simp
    qed
  qed
qed

section \<open>The end of a turn\<close>

lemma runs_stack:
  assumes "runs co s"
  shows "st_p (stacks (sch s) ! (co mod 8)) \<noteq> None"
  using assms sched_wfD(6) [of s co] by (auto simp: runs_def co_wf_def)

lemma sched_wf_push:
  assumes ok: "sched_wf s" and co: "co \<in> used s" "co \<noteq> main_of s"
    and free: "\<And>i. i < 8 \<Longrightarrow> st_co (stacks (sch s) ! i) \<noteq> Some co"
  shows "sched_wf (upd_sch (\<lambda>sc. sc\<lparr>co_pool := Copoll_Push co (co_pool sc)\<rparr>) s)" (is "sched_wf ?s")
proof (rule sched_wfI)
  have push: "pool_ok (co_pool (sch ?s))" "used ?s = used s - {co}"
    using copool.push_law [OF sched_wfD(1) [OF ok] co(1)] by simp_all
  show "pool_ok (co_pool (sch ?s))" by (rule push(1))
  have pool: "pool (co_pool (sch ?s)) = pool (co_pool (sch s))" by (simp add: Copoll_Push_def)
  show "main_of ?s \<in> used ?s" using sched_wfD(2) [OF ok] co(2) push(2) by simp
  show "stack_wf ?s i" if "i < 8" for i
    using sched_wfD(5) [OF ok that] free [OF that] push(2) unfolding stack_wf_def
    by (auto cong: option.case_cong)
  show "co_wf ?s c" if "c \<in> used ?s" "c \<noteq> main_of ?s" for c
    using sched_wfD(6) [OF ok, of c] that push(2) unfolding co_wf_def pool by (simp cong: option.case_cong)
  show "length (fb_data (buffer (co_stack (co_at c ?s)))) = kSmallBuffer" if "c < kPoolSize" for c
    using sched_wfD(7) [OF ok that] by (simp only: pool)
qed (use sched_wfD(3,4) [OF ok] stacks_apart [OF ok] in simp_all)

text \<open>What a coroutine hands back: nothing when it ended, itself and a context in its stack when it yields.\<close>

definition hands_back :: "co_ptr \<Rightarrow> from_t \<Rightarrow> 'k sys \<Rightarrow> bool" where
  "hands_back co from s \<longleftrightarrow> priv from = None \<or> priv from = Some co \<and> from_ctx from \<le> stack_bytes s"

lemma leave_ok:
  assumes run: "runs co s" and back_: "hands_back co from s"
  shows "\<exists>s'. resume_leave from s = Inr s' \<and> sched_ok s' \<and> main_of s' = main_of s \<and>
    used s' = (if priv from = None then used s - {co} else used s)"
proof -
  note r = run [unfolded runs_def]
  note wf = conjunct1 [OF r]
  have r': "owners_started s" "running_co (sch s) = Some co" "co \<in> used s" "co \<noteq> main_of s"
    "co_ctx (co_at (main_of s) s) \<noteq> None"
    using r by simp_all
  note b = used_bounds [OF wf r'(3)] and st = runs_stack [OF run]
  show ?thesis
  proof (cases "priv from")
    case None
    let ?u = "upd_stack (co mod 8) (\<lambda>x. x\<lparr>st_co := None\<rparr>) s"
    let ?s = "upd_sch (\<lambda>sc. sc\<lparr>co_pool := Copoll_Push co (co_pool sc)\<rparr>) ?u"
    have wfu: "sched_wf ?u" using st by (intro sched_wf_owner [OF wf]) simp_all
    have free: "st_co (stacks (sch ?u) ! i) \<noteq> Some co" if "i < 8" for i
      using sched_wfD(5) [OF wf that] sched_wfD(3) [OF wf] by (auto simp: stack_wf_def nth_list_update)
    have wfs: "sched_wf ?s" using r'(3,4) free by (intro sched_wf_push [OF wfu]) simp_all
    have pool: "pool (co_pool (sch ?s)) = pool (co_pool (sch s))" by (simp add: Copoll_Push_def)
    have main: "main_of ?s = main_of s" by simp
    have "owners_started ?s"
      using r'(1) sched_wfD(3) [OF wf] unfolding owners_started_def pool
      by (auto simp: nth_list_update kShareStackSize_def)
    then have "sched_ok ?s" using wfs r'(5) unfolding sched_ok_def pool main by simp
    moreover have "used ?s = used s - {co}" using copool.push_law [OF sched_wfD(1) [OF wf] r'(3)] by simp
    moreover have "resume_leave from s = Inr ?s"
      using None r'(2,4) by (simp add: resume_leave_def SchedulerImpl_Recycle_def b(4))
    ultimately show ?thesis using None by auto
  next
    case (Some p)
    then have p: "p = co" "from_ctx from \<le> stack_bytes s" using back_ by (simp_all add: hands_back_def)
    let ?s = "upd_co co (\<lambda>c. c\<lparr>co_ctx := Some (from_ctx from)\<rparr>) s"
    have "sched_wf ?s"
      using b(1,3) p(2) st sched_wfD(7) [OF wf b(1)] by (intro sched_wf_co [OF wf r'(3)]) (simp_all add: co_wf_def)
    moreover have "owners_started ?s" using r'(1) b(3) by (auto simp: owners_started_def nth_list_update)
    ultimately have "sched_ok ?s" using r'(4,5) by (simp add: sched_ok_def)
    with Some p(1) r'(2) show ?thesis by (simp add: resume_leave_def)
  qed
qed

section \<open>What the unions hold\<close>

text \<open>Switching leaves the unions of the coroutines alone. A coroutine that is not in use can be given a function if its union holds one.\<close>

definition unions :: "'k sys \<Rightarrow> co_union list" where
  "unions s = map co_union (pool (co_pool (sch s)))"

definition holds_closures :: "'k sys \<Rightarrow> bool" where
  "holds_closures s \<longleftrightarrow> (\<forall>c < kPoolSize. c \<notin> used s \<longrightarrow> (\<exists>f. unions s ! c = Func f))"

lemma unions_at: "c < length (pool (co_pool (sch s))) \<Longrightarrow> unions s ! c = co_union (co_at c s)"
  by (simp add: unions_def)

lemma holds_closures_iff:
  assumes "sched_ok s"
  shows "holds_closures s \<longleftrightarrow> \<not> (\<exists>c < kPoolSize. c \<notin> used s \<and> (\<exists>k. co_union (co_at c s) = Sched k))"
proof -
  have len: "length (pool (co_pool (sch s))) = kPoolSize" using assms by (simp add: sched_ok_def sched_wf_def pool_ok_def)
  have "(\<exists>f. u = Func f) \<longleftrightarrow> \<not> (\<exists>k. u = Sched k)" for u by (cases u) simp_all
  then show ?thesis using len by (auto simp: holds_closures_def unions_at)
qed

lemma unions_upd [simp]:
  "(\<And>c. co_union (g c) = co_union c) \<Longrightarrow> unions (upd_co co g s) = unions s" "unions (upd_stack i h s) = unions s"
  "unions (s\<lparr>mem := m\<rparr>) = unions s" "unions (s\<lparr>ticks := n\<rparr>) = unions s" "unions (s\<lparr>epw := w\<rparr>) = unions s" "unions (s\<lparr>answers := as\<rparr>) = unions s"
  "unions (upd_sch (\<lambda>sc. sc\<lparr>running_co := r\<rparr>) s) = unions s" "unions (upd_sch (\<lambda>sc. sc\<lparr>wait_ms := ms\<rparr>) s) = unions s"
  "unions (upd_sch (\<lambda>sc. sc\<lparr>timer_mgr := tm\<rparr>) s) = unions s" "unions (upd_sch (\<lambda>sc. sc\<lparr>co_pool := Copoll_Push co (co_pool sc)\<rparr>) s) = unions s"
  "unions (upd_sch (\<lambda>sc. sc\<lparr>task_mgr := f sc, epoll := e\<rparr>) s) = unions s" "unions (upd_sch (\<lambda>sc. sc\<lparr>task_mgr := t\<rparr>) s) = unions s"
  by (simp_all add: unions_def upd_co_def upd_stack_def upd_sch_def Copoll_Push_def map_update)
    (metis list_update_id map_update)

lemma SaveStack_unions: "SchedulerImpl_SaveStack oc s = Inr s' \<Longrightarrow> unions s' = unions s"
  by (auto simp: SchedulerImpl_SaveStack_def Let_def res_bind_Inr_conv split: option.splits)

lemma resume_enter_unions: "resume_enter env co s = Inr s' \<Longrightarrow> unions s' = unions s"
  by (auto simp: resume_enter_def Let_def res_bind_Inr_conv dest!: SaveStack_unions split: if_splits option.splits)

lemma resume_leave_unions: "resume_leave from s = Inr s' \<Longrightarrow> unions s' = unions s"
  by (auto simp: resume_leave_def SchedulerImpl_Recycle_def split: option.splits if_splits)

lemma Pop_unions:
  assumes "Copoll_Pop cp = Inr (co, cp')"
  shows "map co_union (pool cp') = map co_union (pool cp) \<and> co < length (pool cp)"
  using assms
  by (auto simp: Copoll_Pop_def Let_def Coroutine_Init_def map_update split: if_splits)
    (metis list_update_id map_update)+

lemma NewCoroutine_Inr:
  "SchedulerImpl_NewCoroutine f s = Inr (co, s') \<longleftrightarrow>
     (\<exists>cp g. Copoll_Pop (co_pool (sch s)) = Inr (co, cp) \<and> co_union (pool cp ! co) = Func g \<and>
        s' = upd_co co (\<lambda>c. c\<lparr>co_union := Func f\<rparr>) (upd_sch (\<lambda>sc. sc\<lparr>co_pool := cp\<rparr>) s))"
proof (cases "Copoll_Pop (co_pool (sch s))")
  case (Inr r)
  obtain c cp where r: "r = (c, cp)" by force
  show ?thesis
    by (cases "co_union (pool cp ! c)") (auto simp: SchedulerImpl_NewCoroutine_def Inr r)
qed (simp add: SchedulerImpl_NewCoroutine_def)

lemma NewCoroutine_unions:
  assumes "SchedulerImpl_NewCoroutine f s = Inr (co, s')"
  shows "unions s' = (unions s)[co := Func f] \<and> co < length (unions s)"
proof -
  obtain cp where cp: "Copoll_Pop (co_pool (sch s)) = Inr (co, cp)"
    "s' = upd_co co (\<lambda>c. c\<lparr>co_union := Func f\<rparr>) (upd_sch (\<lambda>sc. sc\<lparr>co_pool := cp\<rparr>) s)"
    using assms NewCoroutine_Inr by blast
  from Pop_unions [OF cp(1)] show ?thesis by (simp add: cp(2) unions_def upd_co_def upd_sch_def map_update)
qed

text \<open>A coroutine that was suspended, so that its union holds the scheduler, is not usable again: once it has ended,
  the next new task is given this coroutine, and \<open>NewCoroutine\<close> assigns a function to a union that holds none.\<close>

lemma recycled_after_yield:
  assumes "runs co s" "co_union (co_at co s) = Sched k" "priv fr = None" "resume_leave fr s = Inr s'"
  shows "SchedulerImpl_NewCoroutine f s' = Inl InactiveMember"
proof -
  have co: "running_co (sch s) = Some co" "co \<noteq> main_of s" "co < length (pool (co_pool (sch s)))" "unat (co_id (co_at co s)) = co"
    using assms(1) used_bounds [of s co] by (auto simp: runs_def sched_wf_def pool_ok_def kPoolSize_def unat_of_nat_lt)
  have s': "co_pool (sch s') = Copoll_Push co (co_pool (sch s))"
    using assms(3,4) co(1,2) by (auto simp: resume_leave_def SchedulerImpl_Recycle_def upd_sch_def upd_stack_def)
  show ?thesis
    using assms(2) co(3,4) by (simp add: SchedulerImpl_NewCoroutine_def s' Copoll_Pop_def Copoll_Push_def Let_def Coroutine_Init_def)
qed

section \<open>New coroutines\<close>

lemma Pop_others:
  assumes "Copoll_Pop cp = Inr (i, cp')"
  shows "c \<noteq> i \<Longrightarrow> pool cp' ! c = pool cp ! c"
    "length (fb_data (buffer (co_stack (pool cp' ! i)))) = length (fb_data (buffer (co_stack (pool cp ! i))))"
  using assms
  by (auto simp: Copoll_Pop_def Let_def Coroutine_Init_def Stream_reset_def FixedBuffer_reset_def split: if_splits)

lemma NewCoroutine_ok:
  assumes ok: "sched_ok s" and new: "SchedulerImpl_NewCoroutine f s = Inr (co, s')"
  shows "sched_ok s' \<and> co \<notin> used s \<and> used s' = insert co (used s) \<and> main_of s' = main_of s \<and>
    co \<noteq> main_of s \<and> co_ctx (co_at co s') = None"
proof -
  have wf: "sched_wf s" "owners_started s" using ok by (simp_all add: sched_ok_def)
  obtain cp where pop: "Copoll_Pop (co_pool (sch s)) = Inr (co, cp)"
    and s': "s' = upd_co co (\<lambda>c. c\<lparr>co_union := Func f\<rparr>) (upd_sch (\<lambda>sc. sc\<lparr>co_pool := cp\<rparr>) s)" (is "_ = upd_co _ _ ?s1")
    using new NewCoroutine_Inr by blast
  note law = copool.pop_law [OF sched_wfD(1) [OF wf(1)] pop] and others = Pop_others [OF pop]
  have cp: "pool_ok cp" "co \<notin> used s" "in_use cp = insert co (used s)" "co < kPoolSize" "co_ctx (pool cp ! co) = None"
    using law by (simp_all add: co_fresh_def)
  have len: "length (pool cp) = kPoolSize" "co < unat (cp_id cp)" using cp(1,3) by (auto simp: pool_ok_def in_use_def)
  have main: "co \<noteq> main_of s" using sched_wfD(2) [OF wf(1)] cp(2) by auto
  have at: "co_at c s' = (if c = co then (pool cp ! co)\<lparr>co_union := Func f\<rparr> else co_at c s)" for c
    using others(1) [of c] len cp(4) by (simp add: s' nth_list_update)
  have st: "stacks (sch s') = stacks (sch s)" "stack_size (sch s') = stack_size (sch s)" "main_of s' = main_of s"
    "mem s' = mem s" "used s' = insert co (used s)"
    by (simp_all add: s' cp(3))
  have owner: "c \<noteq> co" if "st_co (stacks (sch s) ! i) = Some c" "i < 8" for i c
    using sched_wfD(5) [OF wf(1) that(2)] that(1) cp(2) by (auto simp: stack_wf_def)
  have "sched_wf s'"
  proof (rule sched_wfI)
    have "co_pool (sch s') = cp\<lparr>pool := (pool cp)[co := (pool cp ! co)\<lparr>co_union := Func f\<rparr>]\<rparr>"
      by (simp add: s' upd_co_def upd_sch_def)
    then show "pool_ok (co_pool (sch s'))" using pool_ok_upd(1) [OF cp(1) len(2)] by simp
    show "stack_wf s' i" if "i < 8" for i
      using sched_wfD(5) [OF wf(1) that] unfolding stack_wf_def st by (auto split: option.splits)
    show "co_wf s' c" if "c \<in> used s'" "c \<noteq> main_of s'" for c
      using sched_wfD(6) [OF wf(1), of c] that cp(5) unfolding co_wf_def st at by (cases "c = co") simp_all
    show "length (fb_data (buffer (co_stack (co_at c s')))) = kSmallBuffer" if "c < kPoolSize" for c
      using sched_wfD(7) [OF wf(1) that] others(2) unfolding at by (cases "c = co") simp_all
  qed (use sched_wfD(2-4) [OF wf(1)] stacks_apart [OF wf(1)] in \<open>simp_all add: st\<close>)
  moreover have "owners_started s'"
    using wf(2) owner unfolding owners_started_def st at by (auto simp: kShareStackSize_def)
  ultimately show ?thesis
    using ok cp main unfolding sched_ok_def st at by auto
qed

lemma NewCoroutine_fails:
  assumes "sched_ok s" "SchedulerImpl_NewCoroutine f s = Inl e"
  shows "e = OutOfBounds \<and> card (used s) = kPoolSize \<or> e = InactiveMember \<and> \<not> holds_closures s"
proof (cases "Copoll_Pop (co_pool (sch s))")
  case (Inr r)
  obtain co cp where r: "r = (co, cp)" by force
  have ok: "pool_ok (co_pool (sch s))" using assms(1) by (simp add: sched_ok_def sched_wf_def)
  have "co \<notin> used s" "co < kPoolSize" using copool.pop_law [OF ok Inr [unfolded r]] by (simp_all add: co_fresh_def)
  moreover have u: "unions s ! co = co_union (pool cp ! co)"
    using Pop_unions [OF Inr [unfolded r]] by (metis length_map nth_map unions_def)
  moreover have "e = InactiveMember" "\<exists>k. co_union (pool cp ! co) = Sched k"
    using assms(2) Inr r by (auto simp: SchedulerImpl_NewCoroutine_def split: co_union.splits)
  ultimately show ?thesis by (metis co_union.distinct(1) holds_closures_def)
next
  case (Inl e')
  have ok: "pool_ok (co_pool (sch s))" using assms(1) by (simp add: sched_ok_def sched_wf_def)
  have pop: "Copoll_Pop (co_pool (sch s)) = Inl e"
    using assms(2) Inl by (simp add: SchedulerImpl_NewCoroutine_def)
  then have "\<not> card (used s) < kPoolSize" using copool.pop_total [OF ok] by auto
  moreover have "card (used s) \<le> kPoolSize" using card_in_use [OF ok] ok by (simp add: pool_ok_def)
  moreover have "e = OutOfBounds" using pop by (auto simp: Copoll_Pop_def Let_def split: if_splits)
  ultimately show ?thesis by simp
qed

section \<open>The code of coroutines\<close>

locale coroutine_code =
  fixes env :: "'k env"
    and faults :: "fault set"
  assumes make_law: "e_make env n \<le> n"
    and junk_law: "length (e_junk env n) = n"
    and body_law: "runs co s \<Longrightarrow> e_body env f s = Inr (from, s') \<Longrightarrow>
      runs co s' \<and> used s' = used s \<and> main_of s' = main_of s \<and> hands_back co from s'"
    and body_union: "runs co s \<Longrightarrow> e_body env f s = Inr (from, s') \<Longrightarrow>
      (\<forall>c. c \<noteq> co \<longrightarrow> unions s' ! c = unions s ! c) \<and> (priv from = None \<longrightarrow> unions s' = unions s)"
    and body_fault: "runs co s \<Longrightarrow> e_body env f s = Inl e \<Longrightarrow> e \<in> faults"
    and cont_law: "runs co s \<Longrightarrow> e_cont env co s = Inr (from, s') \<Longrightarrow>
      runs co s' \<and> used s' = used s \<and> main_of s' = main_of s \<and> hands_back co from s'"
    and cont_fault: "runs co s \<Longrightarrow> e_cont env co s = Inl e \<Longrightarrow> e \<in> faults"
begin

lemma MainFunc_runs:
  assumes "entered co s s1" "co \<in> used s" "co \<noteq> main_of s" "co_union (co_at co s) = Func f"
  shows "\<exists>s2. s2 = upd_co (main_of s1) (\<lambda>c. c\<lparr>co_ctx := Some 0\<rparr>) s1 \<and>
    SchedulerImpl_MainFunc env (main_of s1) 0 s1 = e_body env f s2 \<and> runs co s2 \<and> used s2 = used s \<and> main_of s2 = main_of s"
proof -
  let ?s2 = "upd_co (main_of s1) (\<lambda>c. c\<lparr>co_ctx := Some 0\<rparr>) s1"
  have e: "sched_wf s1" "owners_started s1" "running_co (sch s1) = Some co" "used s1 = used s" "main_of s1 = main_of s"
    "co_ctx (co_at co s1) \<noteq> None" "co_union (co_at co s1) = Func f"
    using assms by (simp_all add: entered_def)
  note m = sched_wfD(2) [OF e(1)] and b = used_bounds [OF e(1) sched_wfD(2) [OF e(1)]]
  have ne: "co \<noteq> main_of s1" using assms(3) e(5) by simp
  have "sched_wf ?s2" using sched_wfD(7) [OF e(1) b(1)] by (intro sched_wf_co [OF e(1) m]) simp_all
  moreover have "owners_started ?s2" using e(2) b(3) by (auto simp: owners_started_def nth_list_update)
  ultimately have "runs co ?s2" using e ne b(3) assms(2) by (simp add: runs_def)
  moreover have "SchedulerImpl_MainFunc env (main_of s1) 0 s1 = e_body env f ?s2"
    using e ne by (simp add: SchedulerImpl_MainFunc_def Let_def)
  ultimately show ?thesis using e by auto
qed

text \<open>A turn of a coroutine that is in use: it ends well formed or in a fault of the coroutine's own, and only
  the restoration of a stack can fail besides.\<close>

lemma resume_ok:
  assumes ok: "sched_ok s" and co: "co \<in> used s" "co \<noteq> main_of s"
  shows "(\<exists>s'. SchedulerImpl_Resume env co s = Inr s' \<and> sched_ok s' \<and> main_of s' = main_of s \<and>
      (used s' = used s \<or> used s' = used s - {co})) \<or>
    (\<exists>e. SchedulerImpl_Resume env co s = Inl e \<and> (e \<in> faults \<or> e = OutOfBounds \<and> co_ctx (co_at co s) \<noteq> None))"
proof -
  have wf: "sched_wf s" "owners_started s" using ok by (simp_all add: sched_ok_def)
  have turn: ?thesis
    if e: "entered co s s1" "resume_enter env co s = Inr s1" and r: "runs co s2" "used s2 = used s" "main_of s2 = main_of s"
      and code: "(if co_ctx (co_at co s) = None then SchedulerImpl_MainFunc env (main_co (sch s1)) 0 s1 else e_cont env co s1) = c"
      and law: "\<And>from s'. c = Inr (from, s') \<Longrightarrow>
        runs co s' \<and> used s' = used s2 \<and> main_of s' = main_of s2 \<and> hands_back co from s'"
      and fault: "\<And>x. c = Inl x \<Longrightarrow> x \<in> faults" for s1 s2 c
  proof (cases c)
    case (Inl x)
    then show ?thesis using e(2) code fault by (auto simp: SchedulerImpl_Resume_def)
  next
    case (Inr fs)
    obtain fr s3 where fs: "fs = (fr, s3)" by force
    note l = law [OF Inr [unfolded fs]]
    from leave_ok [of co s3 fr] l obtain s' where "resume_leave fr s3 = Inr s'" "sched_ok s'" "main_of s' = main_of s"
      "used s' = (if priv fr = None then used s - {co} else used s)"
      using r by auto
    moreover have "SchedulerImpl_Resume env co s = resume_leave fr s3"
      using e(2) code Inr fs by (simp add: SchedulerImpl_Resume_def)
    ultimately show ?thesis by auto
  qed
  show ?thesis
  proof (cases "co_ctx (co_at co s) = None")
    case True
    then obtain f where f: "co_union (co_at co s) = Func f"
      using sched_wfD(6) [OF wf(1) co] by (auto simp: co_wf_def)
    obtain s1 where s1: "resume_enter env co s = Inr s1" "entered co s s1"
      using enter_new [OF make_law junk_law wf co True] by blast
    obtain s2 where s2: "SchedulerImpl_MainFunc env (main_of s1) 0 s1 = e_body env f s2" "runs co s2"
      "used s2 = used s" "main_of s2 = main_of s"
      using MainFunc_runs [OF s1(2) co f] by blast
    show ?thesis
      using True s2(1) body_law [OF s2(2)] body_fault [OF s2(2)] by (intro turn [OF s1(2,1) s2(2-4)]) auto
  next
    case False
    from enter_old [OF wf co False, of env] show ?thesis
    proof
      assume "\<exists>s1. resume_enter env co s = Inr s1 \<and> entered co s s1"
      then obtain s1 where s1: "resume_enter env co s = Inr s1" "entered co s s1" by blast
      have r: "runs co s1" using s1(2) co ok False by (auto simp: entered_def runs_def sched_ok_def)
      show ?thesis
        using False s1(2) cont_law [OF r] cont_fault [OF r]
        by (intro turn [OF s1(2,1) r]) (auto simp: entered_def)
    next
      assume "resume_enter env co s = Inl OutOfBounds"
      then show ?thesis using False by (simp add: SchedulerImpl_Resume_def)
    qed
  qed
qed

text \<open>A coroutine that ends before it was ever suspended leaves a function in its union.\<close>

lemma resume_started:
  assumes ok: "sched_ok s" and co: "co \<in> used s" "co \<noteq> main_of s" "co_ctx (co_at co s) = None"
    and r: "SchedulerImpl_Resume env co s = Inr s'"
  shows "\<forall>c. c \<noteq> co \<longrightarrow> unions s' ! c = unions s ! c" "co \<notin> used s' \<Longrightarrow> unions s' = unions s"
proof -
  have wf: "sched_wf s" "owners_started s" using ok by (simp_all add: sched_ok_def)
  obtain f where f: "co_union (co_at co s) = Func f" using sched_wfD(6) [OF wf(1) co(1,2)] co(3) by (auto simp: co_wf_def)
  obtain s1 where s1: "resume_enter env co s = Inr s1" "entered co s s1"
    using enter_new [OF make_law junk_law wf co] by blast
  obtain s2 where s2: "s2 = upd_co (main_of s1) (\<lambda>c. c\<lparr>co_ctx := Some 0\<rparr>) s1"
    "SchedulerImpl_MainFunc env (main_of s1) 0 s1 = e_body env f s2" "runs co s2"
    using MainFunc_runs [OF s1(2) co(1,2) f] by blast
  have u: "unions s2 = unions s" using resume_enter_unions [OF s1(1)] by (simp add: s2(1))
  obtain fr s3 where s3: "e_body env f s2 = Inr (fr, s3)" "resume_leave fr s3 = Inr s'"
    using r s1(1) s2(2) co(3) by (auto simp: SchedulerImpl_Resume_def res_bind_Inr_conv)
  note law = body_law [OF s2(3) s3(1)] and union = body_union [OF s2(3) s3(1)] and leave = resume_leave_unions [OF s3(2)]
  show "\<forall>c. c \<noteq> co \<longrightarrow> unions s' ! c = unions s ! c" using union leave u by simp
  have "priv fr = None" if "co \<notin> used s'"
    using leave_ok [of co s3 fr] law s3(2) that by (auto simp: runs_def split: if_splits)
  then show "unions s' = unions s" if "co \<notin> used s'" using that union leave u by simp
qed

lemma new_holds_closures:
  assumes "sched_ok s" "holds_closures s" "SchedulerImpl_NewCoroutine f s = Inr (co, s1)" "SchedulerImpl_Resume env co s1 = Inr s2"
    and "used s \<subseteq> used s2"
  shows "holds_closures s2"
proof -
  note new = NewCoroutine_ok [OF assms(1,3)] and u = NewCoroutine_unions [OF assms(3)]
  have r: "\<forall>c. c \<noteq> co \<longrightarrow> unions s2 ! c = unions s1 ! c" "co \<notin> used s2 \<Longrightarrow> unions s2 = unions s1"
    using resume_started [OF _ _ _ _ assms(4)] new by auto
  have "\<exists>g. unions s2 ! c = Func g" if "c < kPoolSize" "c \<notin> used s2" for c
  proof (cases "c = co")
    case True
    with r(2) that(2) u show ?thesis by simp
  next
    case False
    then have "unions s2 ! c = unions s ! c" using r(1) u by simp
    with assms(2,5) that show ?thesis unfolding holds_closures_def by auto
  qed
  then show ?thesis by (simp add: holds_closures_def)
qed

lemma resume_new_ok:
  "sched_ok s \<Longrightarrow>
   (\<exists>s'. resume_new env fs s = Inr s' \<and> sched_ok s' \<and> main_of s' = main_of s \<and> used s \<subseteq> used s') \<or>
   (\<exists>e. resume_new env fs s = Inl e \<and> (e \<in> faults \<or> e = OutOfBounds \<and> kPoolSize < card (used s) + length fs \<or>
      e = InactiveMember \<and> \<not> holds_closures s))"
proof (induction fs arbitrary: s)
  case Nil
  then show ?case by simp
next
  case (Cons f fs)
  show ?case
  proof (cases "SchedulerImpl_NewCoroutine f s")
    case (Inl e)
    then show ?thesis using NewCoroutine_fails [OF Cons.prems Inl] by auto
  next
    case (Inr r)
    then obtain co s1 where n: "SchedulerImpl_NewCoroutine f s = Inr (co, s1)" by (cases r) simp
    note new = NewCoroutine_ok [OF Cons.prems n]
    then have "(\<exists>s2. SchedulerImpl_Resume env co s1 = Inr s2 \<and> sched_ok s2 \<and> main_of s2 = main_of s1 \<and>
        (used s2 = used s1 \<or> used s2 = used s1 - {co})) \<or> (\<exists>e. SchedulerImpl_Resume env co s1 = Inl e \<and> e \<in> faults)"
      using resume_ok [of s1 co] by auto
    then show ?thesis
    proof
      assume "\<exists>e. SchedulerImpl_Resume env co s1 = Inl e \<and> e \<in> faults"
      then show ?thesis using n by auto
    next
      assume "\<exists>s2. SchedulerImpl_Resume env co s1 = Inr s2 \<and> sched_ok s2 \<and> main_of s2 = main_of s1 \<and>
        (used s2 = used s1 \<or> used s2 = used s1 - {co})"
      then obtain s2 where s2: "SchedulerImpl_Resume env co s1 = Inr s2" "sched_ok s2" "main_of s2 = main_of s"
        "used s \<subseteq> used s2" "used s2 \<subseteq> insert co (used s)"
        using new by auto
      have "card (used s2) \<le> Suc (card (used s))"
        using card_mono [OF _ s2(5)] card_insert_le_m1 [of "Suc (card (used s))"]
        by (metis card_insert_disjoint finite_in_use_Copoll finite_insert new order_trans order_refl)
      with Cons.IH [OF s2(2)] s2 n new_holds_closures [OF Cons.prems _ n s2(1,4)] show ?thesis by auto
    qed
  qed
qed

lemma resume_all_ok:
  "sched_ok s \<Longrightarrow> distinct cos \<Longrightarrow> set cos \<subseteq> used s - {main_of s} \<Longrightarrow>
   (\<exists>s'. resume_all env cos s = Inr s' \<and> sched_ok s' \<and> main_of s' = main_of s) \<or>
   (\<exists>e. resume_all env cos s = Inl e \<and> (e \<in> faults \<or> e = OutOfBounds \<and> cos \<noteq> []))"
proof (induction cos arbitrary: s)
  case Nil
  then show ?case by simp
next
  case (Cons co cos)
  then have co: "co \<in> used s" "co \<noteq> main_of s" by auto
  from resume_ok [OF Cons.prems(1) co] show ?case
  proof
    assume "\<exists>s'. SchedulerImpl_Resume env co s = Inr s' \<and> sched_ok s' \<and> main_of s' = main_of s \<and>
      (used s' = used s \<or> used s' = used s - {co})"
    then obtain s' where s': "SchedulerImpl_Resume env co s = Inr s'" "sched_ok s'" "main_of s' = main_of s"
      "used s - {co} \<subseteq> used s'" by blast
    have "set cos \<subseteq> used s' - {main_of s'}" using Cons.prems(2,3) s'(3,4) by auto
    with Cons.IH [OF s'(2)] Cons.prems(2) s' show ?thesis by auto
  qed auto
qed

lemma run_tasks_ok:
  assumes ok: "sched_ok s" and tasks: "TaskManager_GetAllTasks [] [] (task_mgr (sch s)) = (news, readies, tm)"
    and live: "distinct readies" "set readies \<subseteq> used s - {main_of s}"
  shows "(\<exists>s'. run_tasks env s = Inr s' \<and> sched_ok s' \<and> main_of s' = main_of s) \<or>
    (\<exists>e. run_tasks env s = Inl e \<and>
      (e \<in> faults \<or> e = OutOfBounds \<and> (readies \<noteq> [] \<or> kPoolSize < card (used s) + length news) \<or>
       e = InactiveMember \<and> news \<noteq> [] \<and> \<not> holds_closures s))"
proof -
  let ?s = "upd_sch (\<lambda>sc. sc\<lparr>task_mgr := tm\<rparr>) s"
  have "sched_wf ?s = sched_wf s" "owners_started ?s = owners_started s" by (intro sched_wf_cong; simp)+
  then have ok': "sched_ok ?s" using ok by (simp add: sched_ok_def)
  have same: "holds_closures ?s = holds_closures s" "news = [] \<Longrightarrow> resume_new env news ?s = Inr ?s"
    by (simp_all add: holds_closures_def)
  from resume_new_ok [OF ok', of news] show ?thesis
  proof
    assume "\<exists>s'. resume_new env news ?s = Inr s' \<and> sched_ok s' \<and> main_of s' = main_of ?s \<and> used ?s \<subseteq> used s'"
    then obtain s1 where s1: "resume_new env news ?s = Inr s1" "sched_ok s1" "main_of s1 = main_of s" "used s \<subseteq> used s1"
      by auto
    have "set readies \<subseteq> used s1 - {main_of s1}" using live(2) s1(3,4) by auto
    from resume_all_ok [OF s1(2) live(1) this] s1 tasks show ?thesis by (auto simp: run_tasks_def)
  qed (use tasks same in \<open>auto simp: run_tasks_def\<close>)
qed

end

section \<open>Coroutines that use the library\<close>

text \<open>A coroutine as the scheduler sees it: a sequence of calls of the scheduler and of writes to its own stack,
  up to the point where it ends, yields or sleeps. The context it leaves lies some bytes below the top of its
  stack.\<close>

datatype co_call =
    Go closure
  | MakeReady co_ptr
  | AddEvent int io_event_t
  | DropEvent int io_event_t
  | DropEvents int
  | SetTimer uint32
  | Poke nat "byte list"

datatype co_exit = Finish | YieldAt nat | SleepAt uint32 nat

fun run_call :: "'k env \<Rightarrow> co_call \<Rightarrow> 'k sys \<Rightarrow> 'k sys res" where
  "run_call env (Go f) s = SchedulerImpl_AddNewTask f s"
| "run_call env (MakeReady co) s = SchedulerImpl_AddReadyTask co s"
| "run_call env (AddEvent fd ev) s = res_bind (SchedulerImpl_AddIoEvent env fd ev s) (\<lambda>(ok, s'). Inr s')"
| "run_call env (DropEvent fd ev) s = SchedulerImpl_DelIoEvent env fd ev s"
| "run_call env (DropEvents fd) s = Inr (SchedulerImpl_DelIoEvent_all env fd s)"
| "run_call env (SetTimer ms) s = SchedulerImpl_AddTimer env ms s"
| "run_call env (Poke i bs) s =
     (case running_co (sch s) of
        None \<Rightarrow> Inl NullDeref
      | Some co \<Rightarrow>
          (case st_p (stacks (sch s) ! stack_of co s) of
             None \<Rightarrow> Inl NullDeref
           | Some p \<Rightarrow> res_bind (mem_store (mem s) (Ptr p (int i)) bs) (\<lambda>m. Inr (s\<lparr>mem := m\<rparr>))))"

fun run_exit :: "'k env \<Rightarrow> co_exit \<Rightarrow> 'k sys \<Rightarrow> (from_t \<times> 'k sys) res" where
  "run_exit env Finish s = Inr (\<lparr>priv = None, from_ctx = 0\<rparr>, s)"
| "run_exit env (YieldAt n) s =
     res_bind (SchedulerImpl_Yield s) (\<lambda>s'. Inr (\<lparr>priv = running_co (sch s'), from_ctx = stack_bytes s' - n\<rparr>, s'))"
| "run_exit env (SleepAt ms n) s =
     res_bind (SchedulerImpl_Sleep env ms s) (\<lambda>s'. Inr (\<lparr>priv = running_co (sch s'), from_ctx = stack_bytes s' - n\<rparr>, s'))"

fun run_script :: "'k env \<Rightarrow> co_call list \<Rightarrow> co_exit \<Rightarrow> 'k sys \<Rightarrow> (from_t \<times> 'k sys) res" where
  "run_script env [] x s = run_exit env x s"
| "run_script env (c # cs) x s = res_bind (run_call env c s) (run_script env cs x)"

text \<open>Every function, and every coroutine that is continued, has such a script. Contexts start where
  \<open>tb_context_make\<close> puts them on x86-64, 56 bytes below the top.\<close>

type_synonym script = "co_call list \<times> co_exit"

definition script_env :: "'k ctl \<Rightarrow> (nat \<Rightarrow> int) \<Rightarrow> byte \<Rightarrow> (closure \<Rightarrow> script) \<Rightarrow> (co_ptr \<Rightarrow> script) \<Rightarrow> 'k env" where
  "script_env ctl clk junk body cont =
     (let base = \<lparr>e_ctl = ctl, e_clk = clk, e_junk = (\<lambda>n. replicate n junk), e_make = (\<lambda>n. n - 56),
        e_body = (\<lambda>f s. Inl NullDeref), e_cont = (\<lambda>co s. Inl NullDeref)\<rparr>
      in base\<lparr>e_body := (\<lambda>f. case_prod (run_script base) (body f)), e_cont := (\<lambda>co. case_prod (run_script base) (cont co))\<rparr>)"

definition script_faults :: "fault set" where
  "script_faults = {OutOfBounds, DanglingIterator, OutOfAnswers}"

definition keeps :: "co_ptr \<Rightarrow> 'k sys \<Rightarrow> 'k sys \<Rightarrow> bool" where
  "keeps co s s' \<longleftrightarrow> runs co s' \<and> used s' = used s \<and> main_of s' = main_of s"

lemma runsD:
  assumes "runs co s"
  shows "sched_wf s" "owners_started s" "running_co (sch s) = Some co" "co \<in> used s" "co \<noteq> main_of s"
    "co_ctx (co_at co s) \<noteq> None" "co_ctx (co_at (main_of s) s) \<noteq> None"
  using assms by (simp_all add: runs_def)

lemma keeps_cong:
  assumes "runs co s" "co_pool (sch s') = co_pool (sch s)" "main_of s' = main_of s" "stacks (sch s') = stacks (sch s)"
    and "stack_size (sch s') = stack_size (sch s)" "map length (mem s') = map length (mem s)"
    and "running_co (sch s') = running_co (sch s)"
  shows "keeps co s s'"
  using assms sched_wf_cong [OF assms(2-6)] by (simp add: keeps_def runs_def)

lemma keeps_co:
  assumes r: "runs co s" and f: "\<And>c. co_id (f c) = co_id c" "\<And>c. co_stack_id (f c) = co_stack_id c"
    "\<And>c. co_stack (f c) = co_stack c" "\<And>c. co_ctx (f c) = co_ctx c"
  shows "keeps co s (upd_co co f s)"
proof -
  note d = runsD [OF r] and b = used_bounds [OF runsD(1,4) [OF r]]
  have "co_wf (upd_co co f s) co"
    using sched_wfD(6) [OF d(1,4,5)] d(6) b(3) f(4) by (auto simp: co_wf_def split: option.splits)
  then have "sched_wf (upd_co co f s)"
    using sched_wfD(7) [OF d(1) b(1)] f by (intro sched_wf_co [OF d(1,4)]) simp_all
  moreover have "owners_started (upd_co co f s)"
    using d(2) b(3) f(4) by (auto simp: owners_started_def nth_list_update)
  ultimately show ?thesis using d b(3) f(4) by (simp add: keeps_def runs_def)
qed

lemma keeps_trans: "keeps co s s' \<Longrightarrow> keeps co s' s'' \<Longrightarrow> keeps co s s''"
  by (simp add: keeps_def)

lemma keeps_runs: "keeps co s s' \<Longrightarrow> runs co s'"
  by (simp add: keeps_def)

text \<open>The result of an operation that keeps the scheduler well formed, or fails as a script may.\<close>

definition fine :: "co_ptr \<Rightarrow> 'k sys \<Rightarrow> 'k sys res \<Rightarrow> bool" where
  "fine co s r \<longleftrightarrow> (case r of Inl e \<Rightarrow> e \<in> script_faults | Inr s' \<Rightarrow> keeps co s s')"

lemma Yield_fine:
  assumes "runs co s"
  shows "fine co s (SchedulerImpl_Yield s)"
proof -
  note d = runsD [OF assms]
  let ?s = "upd_co co (\<lambda>c. c\<lparr>co_union := Sched (unat (s_id (sch s)))\<rparr>) s"
  have "keeps co s ?s" by (rule keeps_co [OF assms]) simp_all
  with d show ?thesis by (auto simp: SchedulerImpl_Yield_def Let_def fine_def)
qed

lemma AddTimer_fine:
  assumes r: "runs co s"
  shows "fine co s (SchedulerImpl_AddTimer env ms s)" "fine co s (SchedulerImpl_Sleep env ms s)"
proof -
  define s1 where "s1 = (if wait_ms (sch s) > ms then upd_sch (\<lambda>sc. sc\<lparr>wait_ms := ms\<rparr>) s else s)"
  have k1: "keeps co s s1" by (rule keeps_cong [OF r]) (simp_all add: s1_def)
  note run1 = runsD(3) [OF keeps_runs [OF k1]]
  show "fine co s (SchedulerImpl_AddTimer env ms s)"
  proof (cases "TimerManager_AddTimer (e_clk env (ticks s1)) ms co (timer_mgr (sch s1))")
    case (Inl e)
    then have "e = DanglingIterator" by (auto simp: TimerManager_AddTimer_def Let_def split: option.splits)
    with Inl run1 show ?thesis
      by (simp add: SchedulerImpl_AddTimer_def s1_def [symmetric] Let_def fine_def script_faults_def)
  next
    case (Inr p)
    obtain n tm where p: "p = (n, tm)" by force
    let ?s2 = "upd_sch (\<lambda>sc. sc\<lparr>timer_mgr := tm\<rparr>) s1"
    let ?s3 = "upd_co co (\<lambda>c. c\<lparr>co_timer_id := Some n\<rparr>) ?s2"
    have k2: "keeps co s1 ?s2" by (rule keeps_cong [OF keeps_runs [OF k1]]) simp_all
    have k3: "keeps co ?s2 ?s3" by (rule keeps_co [OF keeps_runs [OF k2]]) simp_all
    have "keeps co ?s3 (?s3\<lparr>ticks := Suc (ticks s1)\<rparr>)" by (rule keeps_cong [OF keeps_runs [OF k3]]) simp_all
    with keeps_trans [OF keeps_trans [OF keeps_trans [OF k1 k2] k3]] Inr p run1 show ?thesis
      by (simp add: SchedulerImpl_AddTimer_def s1_def [symmetric] Let_def fine_def)
  qed
  show "fine co s (SchedulerImpl_Sleep env ms s)"
  proof (cases "TimerManager_AddTimer (e_clk env (ticks s1)) ms co (timer_mgr (sch s1))")
    case (Inl e)
    then have "e = DanglingIterator" by (auto simp: TimerManager_AddTimer_def Let_def split: option.splits)
    with Inl run1 show ?thesis
      by (simp add: SchedulerImpl_Sleep_def s1_def [symmetric] Let_def fine_def script_faults_def)
  next
    case (Inr p)
    obtain n tm where p: "p = (n, tm)" by force
    let ?s2 = "(upd_sch (\<lambda>sc. sc\<lparr>timer_mgr := tm\<rparr>) s1)\<lparr>ticks := Suc (ticks s1)\<rparr>"
    have k2: "keeps co s1 ?s2" by (rule keeps_cong [OF keeps_runs [OF k1]]) simp_all
    from Yield_fine [OF keeps_runs [OF k2]] keeps_trans [OF keeps_trans [OF k1 k2]] Inr p run1 show ?thesis
      by (auto simp: SchedulerImpl_Sleep_def s1_def [symmetric] Let_def fine_def split: sum.splits)
  qed
qed

lemma run_call_fine:
  assumes r: "runs co s"
  shows "fine co s (run_call env c s)"
proof -
  note d = runsD [OF r]
  have st: "st_p (stacks (sch s) ! stack_of co s) \<noteq> None"
    using runs_stack [OF r] used_bounds(4) [OF d(1,4)] by simp
  show ?thesis
  proof (cases c)
    case (Poke i bs)
    from st obtain p where p: "st_p (stacks (sch s) ! stack_of co s) = Some p" by blast
    show ?thesis
    proof (cases "mem_store (mem s) (Ptr p (int i)) bs")
      case (Inl e)
      then have "e = OutOfBounds" by (auto simp: mem_store_def split: if_splits)
      with Inl p d(3) Poke show ?thesis by (simp add: fine_def script_faults_def)
    next
      case (Inr m)
      have "keeps co s (s\<lparr>mem := m\<rparr>)"
        using mem_store_lengths [OF Inr] by (intro keeps_cong [OF r]) simp_all
      with Inr p d(3) Poke show ?thesis by (simp add: fine_def)
    qed
  next
    case (SetTimer ms)
    with AddTimer_fine(1) [OF r] show ?thesis by simp
  next
    case (Go f)
    then show ?thesis
      by (auto simp: SchedulerImpl_AddNewTask_def fine_def script_faults_def intro!: keeps_cong [OF r] split: option.splits)
  next
    case (MakeReady co')
    then show ?thesis
      by (auto simp: SchedulerImpl_AddReadyTask_def fine_def script_faults_def intro!: keeps_cong [OF r] split: option.splits)
  next
    case (AddEvent fd ev)
    have "keeps co s (s\<lparr>epw := w\<rparr>)" for w by (rule keeps_cong [OF r]) simp_all
    with AddEvent d(3) show ?thesis
      by (simp add: SchedulerImpl_AddIoEvent_def fine_def Let_def split: prod.splits)
  next
    case (DropEvent fd ev)
    have "keeps co s (s\<lparr>epw := w\<rparr>)" for w by (rule keeps_cong [OF r]) simp_all
    with DropEvent d(3) show ?thesis by (simp add: SchedulerImpl_DelIoEvent_def fine_def Let_def)
  next
    case (DropEvents fd)
    have "keeps co s (s\<lparr>epw := w\<rparr>)" for w by (rule keeps_cong [OF r]) simp_all
    with DropEvents show ?thesis by (simp add: SchedulerImpl_DelIoEvent_all_def fine_def)
  qed
qed

text \<open>The same for code that hands the processor back.\<close>

definition fine_exit :: "co_ptr \<Rightarrow> 'k sys \<Rightarrow> (from_t \<times> 'k sys) res \<Rightarrow> bool" where
  "fine_exit co s r \<longleftrightarrow>
     (case r of Inl e \<Rightarrow> e \<in> script_faults | Inr (fr, s') \<Rightarrow> keeps co s s' \<and> hands_back co fr s')"

lemma fine_exit_yield:
  assumes "fine co s r"
  shows "fine_exit co s (res_bind r (\<lambda>s'. Inr (\<lparr>priv = running_co (sch s'), from_ctx = stack_bytes s' - n\<rparr>, s')))"
  using assms runsD(3) [OF keeps_runs, of co s]
  by (cases r) (simp_all add: fine_def fine_exit_def hands_back_def)

lemma fine_exit_bind:
  assumes "fine co s r" "\<And>s'. keeps co s s' \<Longrightarrow> fine_exit co s' (f s')"
  shows "fine_exit co s (res_bind r f)"
proof (cases r)
  case (Inr s')
  then have k: "keeps co s s'" using assms(1) by (simp add: fine_def)
  from assms(2) [OF k] Inr keeps_trans [OF k] show ?thesis by (auto simp: fine_exit_def split: sum.splits)
qed (use assms(1) in \<open>simp add: fine_def fine_exit_def\<close>)

lemma run_exit_fine:
  assumes r: "runs co s"
  shows "fine_exit co s (run_exit env x s)"
proof (cases x)
  case Finish
  have "keeps co s s" by (rule keeps_cong [OF r]) simp_all
  with Finish show ?thesis by (simp add: fine_exit_def hands_back_def)
qed (simp_all add: fine_exit_yield Yield_fine [OF r] AddTimer_fine(2) [OF r])

lemma run_script_fine: "runs co s \<Longrightarrow> fine_exit co s (run_script env cs x s)"
proof (induction cs arbitrary: s)
  case Nil
  then show ?case using run_exit_fine by simp
next
  case (Cons c cs)
  show ?case
    using Cons.IH [OF keeps_runs] by (simp, intro fine_exit_bind run_call_fine [OF Cons.prems])
qed

lemma script_env_fine:
  assumes "runs co s"
  shows "fine_exit co s (e_body (script_env ctl clk junk body cont) f s)"
    "fine_exit co s (e_cont (script_env ctl clk junk body cont) co s)"
  using run_script_fine [OF assms] by (simp_all add: script_env_def Let_def split: prod.splits)

lemma run_call_unions:
  assumes "run_call env c s = Inr s'"
  shows "unions s' = unions s"
proof (cases c)
  case (SetTimer ms)
  with assms show ?thesis by (auto simp: SchedulerImpl_AddTimer_def Let_def res_bind_Inr_conv split: option.splits if_splits)
qed (use assms in \<open>auto simp: SchedulerImpl_AddNewTask_def SchedulerImpl_AddReadyTask_def SchedulerImpl_AddIoEvent_def SchedulerImpl_DelIoEvent_def
  SchedulerImpl_DelIoEvent_all_def Let_def res_bind_Inr_conv split: option.splits prod.splits\<close>)

lemma Yield_unions:
  assumes "SchedulerImpl_Yield s = Inr s'"
  shows "\<exists>co. running_co (sch s) = Some co \<and> running_co (sch s') = Some co \<and> (\<forall>c. c \<noteq> co \<longrightarrow> unions s' ! c = unions s ! c)"
  using assms
  by (auto simp: SchedulerImpl_Yield_def Let_def unions_def upd_co_def upd_sch_def map_update split: option.splits if_splits)

lemma run_exit_unions:
  assumes "run_exit env x s = Inr (fr, s')"
  shows "(\<forall>c. running_co (sch s) \<noteq> Some c \<longrightarrow> unions s' ! c = unions s ! c) \<and> (priv fr = None \<longrightarrow> unions s' = unions s)"
proof (cases x)
  case Finish
  with assms show ?thesis by simp
next
  case (YieldAt n)
  with assms show ?thesis by (auto simp: res_bind_Inr_conv dest: Yield_unions)
next
  case (SleepAt ms n)
  with assms show ?thesis
    by (auto simp: SchedulerImpl_Sleep_def Let_def res_bind_Inr_conv dest!: Yield_unions split: option.splits if_splits)
qed

lemma run_script_unions:
  assumes "runs co s" "run_script env cs x s = Inr (fr, s')"
  shows "(\<forall>c. c \<noteq> co \<longrightarrow> unions s' ! c = unions s ! c) \<and> (priv fr = None \<longrightarrow> unions s' = unions s)"
  using assms
proof (induction cs arbitrary: s)
  case Nil
  then show ?case using run_exit_unions [of env x s fr s'] runsD(3) [OF Nil.prems(1)] by auto
next
  case (Cons c cs)
  then obtain s1 where s1: "run_call env c s = Inr s1" "run_script env cs x s1 = Inr (fr, s')"
    by (auto simp: res_bind_Inr_conv)
  have "runs co s1" using run_call_fine [OF Cons.prems(1), of env c] s1(1) keeps_runs by (simp add: fine_def)
  from Cons.IH [OF this s1(2)] run_call_unions [OF s1(1)] show ?case by simp
qed

interpretation scripts: coroutine_code "script_env ctl clk junk body cont" script_faults
  for ctl clk junk body cont
proof unfold_locales
  let ?env = "script_env ctl clk junk body cont"
  show "e_make ?env n \<le> n" "length (e_junk ?env n) = n" for n by (simp_all add: script_env_def Let_def)
  fix co and s :: "'a sys" assume r: "runs co s"
  note fine = script_env_fine [OF r, of ctl clk junk body cont, unfolded fine_exit_def]
  show "e \<in> script_faults" if "e_body ?env f s = Inl e" for f e
    using that fine(1) [of f] by simp
  show "e \<in> script_faults" if "e_cont ?env co s = Inl e" for e
    using that fine(2) by simp
  show "runs co s' \<and> used s' = used s \<and> main_of s' = main_of s \<and> hands_back co fr s'"
    if "e_body ?env f s = Inr (fr, s')" for f fr s'
    using that fine(1) [of f] by (simp add: keeps_def)
  show "runs co s' \<and> used s' = used s \<and> main_of s' = main_of s \<and> hands_back co fr s'"
    if "e_cont ?env co s = Inr (fr, s')" for fr s'
    using that fine(2) by (simp add: keeps_def)
  show "(\<forall>c. c \<noteq> co \<longrightarrow> unions s' ! c = unions s ! c) \<and> (priv fr = None \<longrightarrow> unions s' = unions s)"
    if "e_body ?env f s = Inr (fr, s')" for f fr s'
    using that run_script_unions [OF r] by (simp add: script_env_def Let_def split: prod.splits)
qed

section \<open>A scheduler stays well formed\<close>

text \<open>A scheduler that was just constructed, with a stack size an \<open>int\<close> can hold.\<close>

lemma constructed_ok:
  assumes "SchedulerImpl_SchedulerImpl e sid num sz = Inr (sch s)" "unat sz < 2 ^ 31"
  shows "sched_ok s \<and> used s = {0} \<and> main_of s = 0 \<and> holds_closures s"
proof -
  obtain sc where "SchedulerImpl_SchedulerImpl e sid num sz = Inr sc" "stack_size sc = sz" "main_co sc = 0"
    "stacks sc = replicate 8 \<lparr>st_p = None, st_top = 0, st_co = None\<rparr>" "pool_ok (co_pool sc)" "in_use (co_pool sc) = {0}"
    using SchedulerImpl_constructed [of e sid num sz] by auto
  then have sc: "stack_size (sch s) = sz" "main_of s = 0" "pool_ok (co_pool (sch s))" "used s = {0}"
    "stacks (sch s) = replicate 8 \<lparr>st_p = None, st_top = 0, st_co = None\<rparr>"
    using assms(1) by auto
  obtain cp where pop: "Copoll_Pop Copoll_init = Inr (0, cp)" "co_pool (sch s) = cp"
  proof -
    obtain cp where "Copoll_Pop Copoll_init = Inr (0, cp)"
      by (simp add: Copoll_Pop_def Copoll_init_def kPoolSize_pos Let_def)
    moreover from this assms(1) have "co_pool (sch s) = cp"
      by (simp add: SchedulerImpl_SchedulerImpl_def) (metis SchedulerImpl.select_convs(10))
    ultimately show ?thesis by (rule that)
  qed
  have buf: "length (fb_data (buffer (co_stack (co_at c s)))) = kSmallBuffer" if "c < kPoolSize" for c
    using Pop_others(1) [OF pop(1), of c] Pop_others(2) [OF pop(1)] that
    by (cases "c = 0") (simp_all add: pop(2) Copoll_init_def Coroutine_init_def FixedBuffer_init_def kPoolSize_pos)
  have "sched_wf s"
    by (rule sched_wfI) (use sc assms(2) buf in \<open>simp_all add: stack_wf_def\<close>)
  moreover have "owners_started s" using sc(5) by (simp add: owners_started_def kShareStackSize_def)
  moreover have "holds_closures s"
    using Pop_unions [OF pop(1)] by (simp add: holds_closures_def unions_def pop(2) Copoll_init_def Coroutine_init_def del: upt_Suc)
  ultimately show ?thesis using sc(2,4) by (simp add: sched_ok_def)
qed


lemma env0_code: "coroutine_code env0 {}"
  by unfold_locales (auto simp: env0_def hands_back_def)


end
