(* ===== verification/Scheduler_Run.thy ===== *)
theory Scheduler_Run
  imports Scheduler_Inv
begin

text \<open>
  The loop of a scheduler at work: programs whose coroutines start other coroutines and end. Every task that is queued is run
  exactly once, in order, and its coroutine goes back to the pool; nothing of the scheduler is used up but the answers of
  the kernel.
\<close>

section \<open>What switching leaves alone\<close>

definition outside :: "'k sys \<Rightarrow> TaskManager \<times> Epoll \<times> TimerManager \<times> bool \<times> answer list" where
  "outside s = (task_mgr (sch s), epoll (sch s), timer_mgr (sch s), stop (sch s), answers s)"

lemma outside_upd [simp]:
  "outside (upd_co co g s) = outside s" "outside (upd_stack i h s) = outside s" "outside (s\<lparr>mem := m\<rparr>) = outside s"
  "outside (upd_sch (\<lambda>sc. sc\<lparr>running_co := r\<rparr>) s) = outside s" "outside (upd_sch (\<lambda>sc. sc\<lparr>co_pool := f sc\<rparr>) s) = outside s"
  by (simp_all add: outside_def upd_co_def upd_stack_def upd_sch_def)

lemma SaveStack_outside: "SchedulerImpl_SaveStack oc s = Inr s' \<Longrightarrow> outside s' = outside s"
  by (auto simp: SchedulerImpl_SaveStack_def Let_def res_bind_Inr_conv split: option.splits)

lemma resume_enter_outside:
  assumes "resume_enter env co s = Inr s'"
  shows "outside s' = outside s"
  using assms
  by (auto simp: resume_enter_def Let_def res_bind_Inr_conv dest!: SaveStack_outside split: if_splits option.splits)

lemma resume_leave_outside: "resume_leave from s = Inr s' \<Longrightarrow> outside s' = outside s"
  by (auto simp: resume_leave_def SchedulerImpl_Recycle_def split: option.splits if_splits)

lemma NewCoroutine_outside: "SchedulerImpl_NewCoroutine f s = Inr (co, s') \<Longrightarrow> outside s' = outside s"
  by (auto simp: NewCoroutine_Inr)

section \<open>Waking up\<close>

text \<open>The kernel answers the calls on the eventfd at once, and answers enough of them: \<open>can_wake k\<close> counts the pending
  notification too.\<close>

definition at_once :: "answer \<Rightarrow> bool" where
  "at_once a \<longleftrightarrow> (\<forall>as. eventfd_loop (a # as) = Some as)"

definition can_wake :: "nat \<Rightarrow> 'k sys \<Rightarrow> bool" where
  "can_wake k s \<longleftrightarrow> list_all at_once (answers s) \<and> k \<le> length (answers s) + (if is_wakeup (epoll (sch s)) = 0 then 0 else 1)"

lemma can_wake_outside: "outside s' = outside s \<Longrightarrow> can_wake k s' = can_wake k s"
  by (simp add: can_wake_def outside_def)

lemma AddNewTask_works:
  assumes "can_wake (Suc k) s"
  shows "\<exists>s'. SchedulerImpl_AddNewTask f s = Inr s' \<and> can_wake (Suc k) s' \<and>
    task_mgr (sch s') = TaskManager_AddNewTasks f (task_mgr (sch s)) \<and>
    wake_up_fd (epoll (sch s')) = wake_up_fd (epoll (sch s)) \<and> timer_mgr (sch s') = timer_mgr (sch s) \<and> stop (sch s') = stop (sch s)"
proof (cases "is_wakeup (epoll (sch s)) = 0")
  case True
  then obtain a as where a: "answers s = a # as" "at_once a" "list_all at_once as" "k \<le> length as"
    using assms by (cases "answers s") (auto simp: can_wake_def)
  then have "Epoll_Wakeup (answers s) (epoll (sch s)) = Some ((epoll (sch s))\<lparr>is_wakeup := 1\<rparr>, as)"
    using True by (simp add: Epoll_Wakeup_def atomic_compare_swap_def compare_exchange_def at_once_def)
  then show ?thesis using a by (simp add: SchedulerImpl_AddNewTask_def can_wake_def)
next
  case False
  then have "Epoll_Wakeup (answers s) (epoll (sch s)) = Some (epoll (sch s), answers s)"
    by (simp add: Epoll_Wakeup_def atomic_compare_swap_def compare_exchange_def)
  then show ?thesis using assms by (simp add: SchedulerImpl_AddNewTask_def can_wake_def)
qed

section \<open>Programs that start coroutines\<close>

text \<open>The function of every closure starts others, in order, and ends.\<close>

definition spawn_env :: "'k ctl \<Rightarrow> (nat \<Rightarrow> int) \<Rightarrow> byte \<Rightarrow> (closure \<Rightarrow> closure list) \<Rightarrow> (co_ptr \<Rightarrow> script) \<Rightarrow> 'k env" where
  "spawn_env ctl clk junk spawn cont = script_env ctl clk junk (\<lambda>f. (map Go (spawn f), Finish)) cont"

text \<open>What the loop sees of a scheduler: new tasks, no ready ones, no timers, not stopped.\<close>

definition has_tasks :: "closure list \<Rightarrow> int \<Rightarrow> nat \<Rightarrow> 'k sys \<Rightarrow> bool" where
  "has_tasks fs fd k s \<longleftrightarrow> task_mgr (sch s) = \<lparr>new_tasks = fs, ready_tasks = []\<rparr> \<and> timer (timer_mgr (sch s)) = [] \<and>
     \<not> stop (sch s) \<and> wake_up_fd (epoll (sch s)) = fd \<and> can_wake k s"

lemma has_tasks_outside: "outside s' = outside s \<Longrightarrow> has_tasks fs fd k s' = has_tasks fs fd k s"
  using can_wake_outside [of s' s k] by (simp add: has_tasks_def) (simp add: outside_def)

lemma run_gos:
  "has_tasks fs fd (Suc k) s \<Longrightarrow>
   \<exists>s'. run_script env (map Go gs) Finish s = Inr (\<lparr>priv = None, from_ctx = 0\<rparr>, s') \<and> has_tasks (fs @ gs) fd (Suc k) s'"
proof (induction gs arbitrary: fs s)
  case (Cons g gs)
  obtain s1 where "SchedulerImpl_AddNewTask g s = Inr s1" "has_tasks (fs @ [g]) fd (Suc k) s1"
    using AddNewTask_works [of k s g] Cons.prems by (auto simp: has_tasks_def TaskManager_AddNewTasks_def)
  with Cons.IH [of "fs @ [g]" s1] show ?case by auto
qed simp

text \<open>The scheduler between two tasks: well formed, with no coroutine in use but the main one, and a function in the
  union of all others.\<close>

definition idle :: "'k sys \<Rightarrow> bool" where
  "idle s \<longleftrightarrow> sched_ok s \<and> used s = {main_of s} \<and> holds_closures s"

lemma run_new_task:
  assumes "idle s" "has_tasks fs fd (Suc k) s"
  shows "\<exists>co s1 s2. SchedulerImpl_NewCoroutine f s = Inr (co, s1) \<and>
    SchedulerImpl_Resume (spawn_env ctl clk junk spawn cont) co s1 = Inr s2 \<and> idle s2 \<and> has_tasks (fs @ spawn f) fd (Suc k) s2"
proof -
  let ?env = "spawn_env ctl clk junk spawn cont"
  have ok: "sched_ok s" and u: "used s = {main_of s}" "holds_closures s" using assms(1) by (simp_all add: idle_def)
  obtain co s1 where new: "SchedulerImpl_NewCoroutine f s = Inr (co, s1)"
  proof (cases "SchedulerImpl_NewCoroutine f s")
    case (Inl e)
    then show ?thesis using NewCoroutine_fails [OF ok Inl] u by (auto simp: kPoolSize_def)
  qed auto
  note n = NewCoroutine_ok [OF ok new]
  have wf: "sched_wf s1" "owners_started s1" and co: "co \<in> used s1" "co \<noteq> main_of s1" "co_ctx (co_at co s1) = None"
    using n by (simp_all add: sched_ok_def)
  have union: "co_union (co_at co s1) = Func f"
    using new used_bounds(3) [OF wf(1) co(1)] by (auto simp: NewCoroutine_Inr)
  obtain s2 where s2: "resume_enter ?env co s1 = Inr s2" "entered co s1 s2"
    using enter_new [OF scripts.make_law scripts.junk_law wf co] unfolding spawn_env_def by blast
  obtain s3 where s3: "s3 = upd_co (main_of s2) (\<lambda>c. c\<lparr>co_ctx := Some 0\<rparr>) s2"
    "SchedulerImpl_MainFunc ?env (main_of s2) 0 s2 = e_body ?env f s3" "runs co s3" "used s3 = used s1" "main_of s3 = main_of s1"
    using scripts.MainFunc_runs [OF s2(2) co(1,2) union] unfolding spawn_env_def by blast
  have "outside s3 = outside s" using s3(1) resume_enter_outside [OF s2(1)] NewCoroutine_outside [OF new] by simp
  then have "has_tasks fs fd (Suc k) s3" using assms(2) has_tasks_outside by blast
  from run_gos [OF this] obtain s4 where s4: "e_body ?env f s3 = Inr (\<lparr>priv = None, from_ctx = 0\<rparr>, s4)"
    "has_tasks (fs @ spawn f) fd (Suc k) s4"
    by (force simp: spawn_env_def script_env_def Let_def)
  have k: "keeps co s3 s4" "hands_back co \<lparr>priv = None, from_ctx = 0\<rparr> s4"
    using script_env_fine(1) [OF s3(3), of ctl clk junk "\<lambda>f. (map Go (spawn f), Finish)" cont f] s4(1)
    by (simp_all add: fine_exit_def spawn_env_def)
  obtain s5 where s5: "resume_leave \<lparr>priv = None, from_ctx = 0\<rparr> s4 = Inr s5" "sched_ok s5" "main_of s5 = main_of s4" "used s5 = used s4 - {co}"
    using leave_ok [OF keeps_runs [OF k(1)] k(2)] by auto
  have r: "SchedulerImpl_Resume ?env co s1 = Inr s5"
    using s2(1) co(3) s3(2) s4(1) s5(1) by (simp add: SchedulerImpl_Resume_def)
  have used: "used s5 = used s" "main_of s5 = main_of s" using s5 k(1) s3 n by (auto simp: keeps_def)
  moreover have "holds_closures s5"
    using scripts.new_holds_closures [OF ok u(2) new r [unfolded spawn_env_def]] used by simp
  ultimately have "idle s5" using s5(2) u by (simp add: idle_def)
  note r
  moreover note \<open>idle s5\<close>
  moreover have "has_tasks (fs @ spawn f) fd (Suc k) s5" using s4(2) resume_leave_outside [OF s5(1)] has_tasks_outside by blast
  ultimately show ?thesis using new by blast
qed

lemma run_new_tasks:
  "idle s \<Longrightarrow> has_tasks fs fd (Suc k) s \<Longrightarrow>
   \<exists>s'. resume_new (spawn_env ctl clk junk spawn cont) gs s = Inr s' \<and> idle s' \<and> has_tasks (fs @ concat (map spawn gs)) fd (Suc k) s'"
proof (induction gs arbitrary: fs s)
  case (Cons g gs)
  from run_new_task [OF Cons.prems, of g ctl clk junk spawn cont] obtain co s1 s2
    where "SchedulerImpl_NewCoroutine g s = Inr (co, s1)"
      "SchedulerImpl_Resume (spawn_env ctl clk junk spawn cont) co s1 = Inr s2" "idle s2" "has_tasks (fs @ spawn g) fd (Suc k) s2"
    by blast
  with Cons.IH [of s2 "fs @ spawn g"] show ?case by auto
qed simp

section \<open>A turn of the loop\<close>

lemma idle_cong:
  assumes "co_pool (sch s') = co_pool (sch s)" "main_of s' = main_of s" "stacks (sch s') = stacks (sch s)"
    and "stack_size (sch s') = stack_size (sch s)" "mem s' = mem s"
  shows "idle s' = idle s"
  using assms sched_wf_cong [of s' s] by (simp add: idle_def sched_ok_def holds_closures_def unions_def)

lemma run_tasks_spawn:
  assumes "idle s" "has_tasks fs fd (Suc k) s"
  shows "\<exists>s'. run_tasks (spawn_env ctl clk junk spawn cont) s = Inr s' \<and> idle s' \<and> has_tasks (concat (map spawn fs)) fd (Suc k) s'"
proof -
  let ?s = "upd_sch (\<lambda>sc. sc\<lparr>task_mgr := \<lparr>new_tasks = [], ready_tasks = []\<rparr>\<rparr>) s"
  have "idle ?s" using assms(1) idle_cong [of ?s s] by simp
  moreover have "has_tasks [] fd (Suc k) ?s" using assms(2) by (simp add: has_tasks_def can_wake_def)
  ultimately obtain s' where "resume_new (spawn_env ctl clk junk spawn cont) fs ?s = Inr s'" "idle s'"
    "has_tasks (concat (map spawn fs)) fd (Suc k) s'"
    using run_new_tasks [of ?s "[]" fd k ctl clk junk spawn cont fs] by auto
  moreover have "TaskManager_GetAllTasks [] [] (task_mgr (sch s)) = (fs, [], \<lparr>new_tasks = [], ready_tasks = []\<rparr>)"
    using assms(2) by (simp add: has_tasks_def TaskManager_GetAllTasks_def)
  ultimately show ?thesis by (auto simp: run_tasks_def)
qed

lemma run_timers_none:
  assumes "idle s" "has_tasks fs fd k s"
  shows "\<exists>s'. run_timers env s = Inr s' \<and> idle s' \<and> has_tasks fs fd k s'"
proof -
  have "timer (timer_mgr (sch s)) = []" using assms(2) by (simp add: has_tasks_def)
  then have r: "run_timers env s = Inr (upd_sch (\<lambda>sc. sc\<lparr>wait_ms := - 1\<rparr>) s)" (is "_ = Inr ?s")
    by (simp add: run_timers_def TimerManager_CollectTimeoutTasks_def upd_sch_def)
  have "idle ?s" using assms(1) idle_cong [of ?s s] by simp
  moreover have "has_tasks fs fd k ?s" using assms(2) by (simp add: has_tasks_def can_wake_def)
  ultimately show ?thesis using r by blast
qed

text \<open>A call of \<open>epoll_wait\<close> that returns nothing or the notification.\<close>

definition quiet :: "int \<Rightarrow> waiter \<Rightarrow> bool" where
  "quiet fd w \<longleftrightarrow> (\<forall>e arr n ms. \<not> wa_stopped (w e arr n ms) \<and>
     (wa_events (w e arr n ms) = 0 \<or>
      wa_events (w e arr n ms) = 1 \<and> wa_array (w e arr n ms) \<noteq> [] \<and> data_fd (hd (wa_array (w e arr n ms))) = fd))"

lemma handle_wakeup:
  assumes "idle s" "has_tasks fs fd (Suc (Suc k)) s" "data_fd ev = fd"
  shows "\<exists>s'. handle_event env ev s = Inr s' \<and> idle s' \<and> has_tasks fs fd k s'"
proof -
  obtain a as where a: "answers s = a # as" "at_once a" "list_all at_once as" "k \<le> length as"
    using assms(2) by (cases "answers s") (auto simp: has_tasks_def can_wake_def split: if_splits)
  let ?s = "(upd_sch (\<lambda>sc. sc\<lparr>epoll := (epoll sc)\<lparr>is_wakeup := 0\<rparr>\<rparr>) s)\<lparr>answers := as\<rparr>"
  have "handle_event env ev s = Inr ?s"
    using a assms(2,3)
    by (simp add: handle_event_def Epoll_is_wakeup_fd_def has_tasks_def Epoll_HandleWakeUpEvent_def atomic_swap_def exchange_def at_once_def
        upd_sch_def)
  moreover have "idle ?s" using assms(1) idle_cong [of ?s s] by simp
  moreover have "has_tasks fs fd k ?s" using assms(2) a by (simp add: has_tasks_def can_wake_def)
  ultimately show ?thesis by blast
qed

lemma has_tasks_mono: "has_tasks fs fd k s \<Longrightarrow> j \<le> k \<Longrightarrow> has_tasks fs fd j s"
  by (auto simp: has_tasks_def can_wake_def)

lemma loop_turn:
  assumes "idle s" "has_tasks fs fd (Suc (Suc (Suc k))) s" "quiet fd w"
  shows "\<exists>s'. loop_body (spawn_env ctl clk junk spawn cont) (Epoll_Wait w (epoll (sch s)) ms) s = Inr s' \<and> idle s' \<and>
    has_tasks (concat (map spawn fs)) fd (Suc k) s'"
proof -
  let ?env = "spawn_env ctl clk junk spawn cont"
  define a where "a = Epoll_Wait w (epoll (sch s)) ms"
  have a: "wa_events a = 0 \<or> wa_events a = 1 \<and> wa_array a \<noteq> [] \<and> data_fd (hd (wa_array a)) = fd"
    using assms(3) by (auto simp: a_def Epoll_Wait_def quiet_def)
  obtain s1 where s1: "handle_events ?env (wa_array a) 0 (nat (wa_events a)) s = Inr s1" "idle s1" "has_tasks fs fd (Suc k) s1"
  proof (cases "wa_events a = 0")
    case True
    then show ?thesis using that [of s] assms(1,2) has_tasks_mono [of fs fd _ s "Suc k"] by simp
  next
    case False
    then have e: "wa_events a = 1" "wa_array a \<noteq> []" "data_fd (wa_array a ! 0) = fd" using a by (auto simp: hd_conv_nth)
    from handle_wakeup [OF assms(1,2) e(3), of ?env] obtain s1 where
      "handle_event ?env (wa_array a ! 0) s = Inr s1" "idle s1" "has_tasks fs fd (Suc k) s1" by blast
    with that [of s1] e show ?thesis by (simp add: Epoll_index_def)
  qed
  obtain s2 where s2: "run_tasks ?env s1 = Inr s2" "idle s2" "has_tasks (concat (map spawn fs)) fd (Suc k) s2"
    using run_tasks_spawn [OF s1(2,3)] by blast
  obtain s3 where s3: "run_timers ?env s2 = Inr s3" "idle s3" "has_tasks (concat (map spawn fs)) fd (Suc k) s3"
    using run_timers_none [OF s2(2,3)] by blast
  let ?s = "upd_sch (\<lambda>sc. sc\<lparr>running_co := None\<rparr>) s3"
  have "loop_body ?env a s = Inr ?s" using a s1(1) s2(1) s3(1) by (auto simp: loop_body_def)
  moreover have "idle ?s" using s3(2) idle_cong [of ?s s3] by simp
  moreover have "has_tasks (concat (map spawn fs)) fd (Suc k) ?s" using s3(3) by (simp add: has_tasks_def can_wake_def)
  ultimately show ?thesis by (auto simp: a_def)
qed

section \<open>All tasks are run\<close>

text \<open>The tasks that are queued after some turns: those the last ones started.\<close>

fun spawned :: "('a \<Rightarrow> 'a list) \<Rightarrow> nat \<Rightarrow> 'a list \<Rightarrow> 'a list" where
  "spawned spawn 0 fs = fs"
| "spawned spawn (Suc n) fs = spawned spawn n (concat (map spawn fs))"

lemma loop_spawned:
  "idle s \<Longrightarrow> has_tasks fs fd (Suc (2 * length ws)) s \<Longrightarrow> list_all (quiet fd) ws \<Longrightarrow>
   \<exists>s'. SchedulerImpl_Loop (spawn_env ctl clk junk spawn cont) ws s = Inr s' \<and> idle s' \<and>
     has_tasks (spawned spawn (length ws) fs) fd 1 s'"
proof (induction ws arbitrary: fs s)
  case (Cons w ws)
  let ?env = "spawn_env ctl clk junk spawn cont"
  have "\<not> wa_stopped (Epoll_Wait w (epoll (sch s)) ms)" for ms
    using Cons.prems(3) by (simp add: Epoll_Wait_def quiet_def)
  moreover have "\<not> stop (sch s)" using Cons.prems(2) by (simp add: has_tasks_def)
  moreover obtain s1 where s1: "loop_body ?env (Epoll_Wait w (epoll (sch s)) (sint (wait_ms (sch s)))) s = Inr s1" "idle s1"
    "has_tasks (concat (map spawn fs)) fd (Suc (2 * length ws)) s1"
    using loop_turn [OF Cons.prems(1), of fs fd "2 * length ws" w ctl clk junk spawn cont] Cons.prems(2,3) by auto
  ultimately have "SchedulerImpl_Loop ?env (w # ws) s = SchedulerImpl_Loop ?env ws s1" by (simp add: Let_def)
  with Cons.IH [OF s1(2,3)] Cons.prems(3) show ?case by simp
qed simp

text \<open>If the program is finite, nothing is left after as many turns as the longest chain of tasks.\<close>

lemma spawned_ends:
  fixes rank :: "'a \<Rightarrow> nat"
  assumes "\<And>f g. g \<in> set (spawn f) \<Longrightarrow> rank g < rank f"
  shows "\<forall>f \<in> set fs. rank f < n \<Longrightarrow> spawned spawn n fs = []"
proof (induction n arbitrary: fs)
  case (Suc n)
  have "\<forall>g \<in> set (concat (map spawn fs)). rank g < n" using Suc.prems assms by fastforce
  then show ?case using Suc.IH by simp
qed (cases fs; simp)

text \<open>C3: the loop runs every task. Take an idle scheduler with tasks \<open>fs\<close> queued whose unused coroutines hold functions in their unions
  (they never yielded), for instance one that was just constructed,
  and a program in which the function of every task queues others, any number of them, and returns. After \<open>n\<close> turns of the
  loop, whose calls of \<open>epoll_wait\<close> return nothing or the notification, and with a kernel that answers the calls on the eventfd, the queue holds exactly the
  tasks that were started by those started \<open>n\<close> generations before, each in the order of their parents: so every task is run once, in the turn after it was
  queued, never twice and never out of order. The scheduler is idle again, with all coroutines back in the pool, however many
  tasks were run, and no fault occurred. When the chains of tasks are shorter than \<open>n\<close>, none is left.\<close>

theorem Loop_runs_all_tasks:
  fixes rank :: "closure \<Rightarrow> nat"
  assumes "sched_ok s" "in_use (co_pool (sch s)) = {main_co (sch s)}" "holds_closures s"
    and "task_mgr (sch s) = \<lparr>new_tasks = fs, ready_tasks = []\<rparr>" "timer (timer_mgr (sch s)) = []" "\<not> stop (sch s)"
    and "list_all (quiet (wake_up_fd (epoll (sch s)))) ws" "can_wake (Suc (2 * length ws)) s"
  shows "\<exists>s'. SchedulerImpl_Loop (script_env ctl clk junk (\<lambda>f. (map Go (spawn f), Finish)) cont) ws s = Inr s' \<and>
    sched_ok s' \<and> in_use (co_pool (sch s')) = {main_co (sch s')} \<and> holds_closures s' \<and>
    task_mgr (sch s') = \<lparr>new_tasks = spawned spawn (length ws) fs, ready_tasks = []\<rparr> \<and>
    ((\<forall>f g. g \<in> set (spawn f) \<longrightarrow> rank g < rank f) \<and> (\<forall>f \<in> set fs. rank f < length ws) \<longrightarrow>
       new_tasks (task_mgr (sch s')) = [])"
proof -
  have "idle s" "has_tasks fs (wake_up_fd (epoll (sch s))) (Suc (2 * length ws)) s" using assms by (simp_all add: idle_def has_tasks_def)
  from loop_spawned [OF this assms(7), of ctl clk junk spawn cont] obtain s' where
    "SchedulerImpl_Loop (script_env ctl clk junk (\<lambda>f. (map Go (spawn f), Finish)) cont) ws s = Inr s'" "idle s'"
    "has_tasks (spawned spawn (length ws) fs) (wake_up_fd (epoll (sch s))) 1 s'"
    unfolding spawn_env_def by blast
  then show ?thesis using spawned_ends [of spawn rank fs "length ws"] by (auto simp: idle_def has_tasks_def)
qed

text \<open>A new scheduler with two tasks, of which the first starts a third.\<close>

definition family :: "closure \<Rightarrow> closure list" where
  "family f = (if f = 1 then [3] else [])"

definition nothing_ready :: waiter where
  "nothing_ready = (\<lambda>e arr n ms. \<lparr>wa_events = 0, wa_array = [], wa_stopped = False\<rparr>)"

theorem Loop_runs_all_tasks_witness:
  "\<exists>sc s'. SchedulerImpl_SchedulerImpl epoll0 0 1 (1024 * 1024) = Inr sc \<and>
     SchedulerImpl_Loop (script_env ref_ctl int NUL (\<lambda>f. (map Go (family f), Finish)) (\<lambda>co. ([], Finish))) [nothing_ready, nothing_ready]
       ((two_cos None None)\<lparr>sch := sc\<lparr>task_mgr := TaskManager_AddNewTasks 2 (TaskManager_AddNewTasks 1 TaskManager_init)\<rparr>,
          answers := replicate 5 (8, 0)\<rparr>) = Inr s' \<and>
     new_tasks (task_mgr (sch s')) = [] \<and> in_use (co_pool (sch s')) = {main_co (sch s')}"
proof -
  obtain sc where sc: "SchedulerImpl_SchedulerImpl epoll0 0 1 (1024 * 1024) = Inr sc"
    using SchedulerImpl_constructed by blast
  let ?u = "(two_cos None None)\<lparr>sch := sc\<rparr>"
  let ?s = "(two_cos None None)\<lparr>sch := sc\<lparr>task_mgr := TaskManager_AddNewTasks 2 (TaskManager_AddNewTasks 1 TaskManager_init)\<rparr>,
    answers := replicate 5 (8, 0)\<rparr>"
  have u: "sched_ok ?u" "used ?u = {0}" "main_of ?u = 0" "holds_closures ?u" using constructed_ok [of epoll0 0 1 _ ?u] sc by simp_all
  then have "idle ?s" using idle_cong [of ?s ?u] by (simp add: idle_def)
  then have ok: "sched_ok ?s" "in_use (co_pool (sch ?s)) = {main_co (sch ?s)}" "holds_closures ?s" by (simp_all add: idle_def)
  have c: "timer (timer_mgr sc) = []" "\<not> stop sc" "epoll sc = epoll0"
    using sc by (auto simp: SchedulerImpl_SchedulerImpl_def res_bind_Inr_conv TimerManager_init_def)
  have "at_once (8, 0)" by (simp add: at_once_def)
  then have w: "can_wake (Suc (2 * length [nothing_ready, nothing_ready])) ?s" by (simp add: can_wake_def eval_nat_numeral)
  have "list_all (quiet fd) [nothing_ready, nothing_ready]" for fd by (simp add: quiet_def nothing_ready_def)
  then obtain s' where
    "SchedulerImpl_Loop (script_env ref_ctl int NUL (\<lambda>f. (map Go (family f), Finish)) (\<lambda>co. ([], Finish))) [nothing_ready, nothing_ready] ?s = Inr s'"
    "in_use (co_pool (sch s')) = {main_co (sch s')}" "new_tasks (task_mgr (sch s')) = []"
    using Loop_runs_all_tasks [OF ok _ _ _ _ w, of "[1, 2]" ref_ctl int NUL family "\<lambda>co. ([], Finish)" "\<lambda>f. if f = 1 then 1 else 0"] c
    by (auto simp: TaskManager_AddNewTasks_def TaskManager_init_def family_def split: if_splits)
  with sc show ?thesis by blast
qed

end
