(* ===== verification/Scheduler_Sleep.thy ===== *)
theory Scheduler_Sleep
  imports Scheduler_Run
begin

text \<open>
  Coroutines that sleep. The loop is followed through any number of turns of a program whose coroutines start others, write to their stacks, set
  timers, register events, and end, yield or sleep, without ever blocking on a channel or a mutex. Timers of such coroutines expire, but
  nothing of what the coroutines would do afterwards is ever run.
\<close>

section \<open>Nobody waits with a context\<close>

text \<open>No coroutine has a wait context, none is ready, and the timers and the running coroutine are those of the pool.\<close>

definition nobody_waits :: "int \<Rightarrow> 'k sys \<Rightarrow> bool" where
  "nobody_waits fd s \<longleftrightarrow>
     ready_tasks (task_mgr (sch s)) = [] \<and> wake_up_fd (epoll (sch s)) = fd \<and>
     length (pool (co_pool (sch s))) = kPoolSize \<and> (\<forall>c < kPoolSize. co_wait_ctx (co_at c s) = None) \<and>
     (\<forall>n \<in> set (timer (timer_mgr (sch s))). node_co n < kPoolSize) \<and>
     (\<forall>co. running_co (sch s) = Some co \<longrightarrow> co < kPoolSize)"

lemma nobody_waits_co:
  assumes "\<And>c. co_wait_ctx (g c) = co_wait_ctx c"
  shows "nobody_waits fd (upd_co co g s) = nobody_waits fd s"
proof -
  have "co_wait_ctx (co_at c (upd_co co g s)) = co_wait_ctx (co_at c s)" for c
    using assms by (cases "co < length (pool (co_pool (sch s)))") (auto simp: nth_list_update list_update_beyond not_less)
  then show ?thesis by (simp add: nobody_waits_def) (simp add: upd_co_def upd_sch_def)
qed

lemma nobody_waits_frame [simp]:
  "nobody_waits fd (upd_stack i h s) = nobody_waits fd s" "nobody_waits fd (s\<lparr>mem := m\<rparr>) = nobody_waits fd s"
  "nobody_waits fd (s\<lparr>epw := w\<rparr>) = nobody_waits fd s" "nobody_waits fd (s\<lparr>answers := as\<rparr>) = nobody_waits fd s"
  "nobody_waits fd (s\<lparr>ticks := t\<rparr>) = nobody_waits fd s" "nobody_waits fd (upd_sch (\<lambda>sc. sc\<lparr>wait_ms := w'\<rparr>) s) = nobody_waits fd s"
  "nobody_waits fd (upd_sch (\<lambda>sc. sc\<lparr>stop := b\<rparr>) s) = nobody_waits fd s"
  by (simp_all add: nobody_waits_def upd_stack_def upd_sch_def)

text \<open>Every operation keeps it.\<close>

lemma SaveStack_nobody: "SchedulerImpl_SaveStack oc s = Inr s' \<Longrightarrow> nobody_waits fd s' = nobody_waits fd s"
  by (auto simp: SchedulerImpl_SaveStack_def Let_def res_bind_Inr_conv nobody_waits_co split: option.splits)

lemma nobody_running: "co < kPoolSize \<Longrightarrow> nobody_waits fd s \<Longrightarrow> nobody_waits fd (upd_sch (\<lambda>sc. sc\<lparr>running_co := Some co\<rparr>) s)"
  "nobody_waits fd s \<Longrightarrow> nobody_waits fd (upd_sch (\<lambda>sc. sc\<lparr>running_co := None\<rparr>) s)"
  by (simp_all add: nobody_waits_def)

lemma resume_enter_nobody:
  assumes "nobody_waits fd s" "co < kPoolSize" "resume_enter env co s = Inr s'"
  shows "nobody_waits fd s'"
proof -
  note r = nobody_running(1) [OF assms(2,1)]
  show ?thesis
    using assms(3) r
    by (auto simp: resume_enter_def Let_def res_bind_Inr_conv nobody_waits_co dest!: SaveStack_nobody [of _ _ _ fd] split: if_splits option.splits)
qed

lemma resume_leave_nobody: "nobody_waits fd s \<Longrightarrow> resume_leave from s = Inr s' \<Longrightarrow> nobody_waits fd s'"
  by (auto simp: resume_leave_def SchedulerImpl_Recycle_def nobody_waits_co split: option.splits if_splits)
    (simp add: nobody_waits_def Copoll_Push_def upd_stack_def upd_sch_def)

lemma NewCoroutine_nobody:
  assumes "nobody_waits fd s" "SchedulerImpl_NewCoroutine f s = Inr (co, s')"
  shows "nobody_waits fd s' \<and> co < kPoolSize"
proof -
  obtain cp where pop: "Copoll_Pop (co_pool (sch s)) = Inr (co, cp)"
    and s': "s' = upd_co co (\<lambda>c. c\<lparr>co_union := Func f\<rparr>) (upd_sch (\<lambda>sc. sc\<lparr>co_pool := cp\<rparr>) s)"
    using assms(2) by (auto simp: NewCoroutine_Inr)
  have "length (pool cp) = length (pool (co_pool (sch s)))" "co < length (pool cp)"
    "co_wait_ctx (pool cp ! c) = co_wait_ctx (co_at c s)" if "c < length (pool cp)" for c
    using pop that by (auto simp: Copoll_Pop_def Let_def Coroutine_Init_def nth_list_update split: if_splits)
  with pop have "length (pool cp) = length (pool (co_pool (sch s)))" "co < length (pool cp)"
    "\<forall>c < length (pool cp). co_wait_ctx (pool cp ! c) = co_wait_ctx (co_at c s)"
    by (auto simp: Copoll_Pop_def Let_def split: if_splits)
  then show ?thesis
    using assms(1) by (simp add: s' nobody_waits_co) (simp add: nobody_waits_def)
qed

text \<open>The calls of the library, other than making another coroutine ready.\<close>

lemma Wakeup_fd: "Epoll_Wakeup as e = Some (e', as') \<Longrightarrow> wake_up_fd e' = wake_up_fd e"
  by (auto simp: Epoll_Wakeup_def split: if_splits option.splits prod.splits)

lemma nobody_timer:
  assumes "nobody_waits fd s" "TimerManager_AddTimer now ms co (timer_mgr (sch s)) = Inr (n, tm)" "co < kPoolSize"
  shows "nobody_waits fd (upd_sch (\<lambda>sc. sc\<lparr>timer_mgr := tm\<rparr>) s)"
proof -
  have "set (timer tm) \<subseteq> insert \<lparr>node_id = next_node (timer_mgr (sch s)), due = now + uint ms, node_co = co\<rparr> (set (timer (timer_mgr (sch s))))"
    using assms(2) by (auto simp: TimerManager_AddTimer_def Let_def dest: in_set_takeD in_set_dropD split: option.splits)
  with assms show ?thesis by (auto simp: nobody_waits_def)
qed

lemma Yield_nobody: "nobody_waits fd s \<Longrightarrow> SchedulerImpl_Yield s = Inr s' \<Longrightarrow> nobody_waits fd s'"
  by (auto simp: SchedulerImpl_Yield_def Let_def nobody_waits_co split: option.splits if_splits)

lemma timers_nobody:
  assumes "nobody_waits fd s"
  shows "SchedulerImpl_AddTimer env ms s = Inr s' \<Longrightarrow> nobody_waits fd s'" "SchedulerImpl_Sleep env ms s = Inr s' \<Longrightarrow> nobody_waits fd s'"
proof -
  define s1 where "s1 = (if wait_ms (sch s) > ms then upd_sch (\<lambda>sc. sc\<lparr>wait_ms := ms\<rparr>) s else s)"
  have n1: "nobody_waits fd s1" using assms by (simp add: s1_def)
  then have r: "running_co (sch s1) = Some co \<Longrightarrow> co < kPoolSize" for co by (simp add: nobody_waits_def)
  show "nobody_waits fd s'" if "SchedulerImpl_AddTimer env ms s = Inr s'"
    using that nobody_timer [OF n1 _ r]
    by (auto simp: SchedulerImpl_AddTimer_def s1_def [symmetric] Let_def res_bind_Inr_conv nobody_waits_co split: option.splits)
  show "nobody_waits fd s'" if "SchedulerImpl_Sleep env ms s = Inr s'"
    using that nobody_timer [OF n1 _ r]
    by (auto simp: SchedulerImpl_Sleep_def s1_def [symmetric] Let_def res_bind_Inr_conv dest!: Yield_nobody [rotated] split: option.splits)
qed

lemma run_call_nobody:
  assumes "nobody_waits fd s" "run_call env c s = Inr s'" "\<And>co. c \<noteq> MakeReady co"
  shows "nobody_waits fd s'"
proof (cases c)
  case (Go f)
  with assms(1,2) show ?thesis
    by (auto simp: SchedulerImpl_AddNewTask_def nobody_waits_def TaskManager_AddNewTasks_def dest: Wakeup_fd split: option.splits)
next
  case (SetTimer ms)
  with assms(1,2) timers_nobody(1) show ?thesis by fastforce
qed (use assms in \<open>auto simp: SchedulerImpl_AddIoEvent_def SchedulerImpl_DelIoEvent_def SchedulerImpl_DelIoEvent_all_def Let_def
  res_bind_Inr_conv split: option.splits prod.splits\<close>)

definition wakes_nobody :: "script \<Rightarrow> bool" where
  "wakes_nobody sc \<longleftrightarrow> (\<forall>co. MakeReady co \<notin> set (fst sc))"

lemma run_script_nobody:
  "nobody_waits fd s \<Longrightarrow> run_script env cs x s = Inr (from, s') \<Longrightarrow> wakes_nobody (cs, x) \<Longrightarrow> nobody_waits fd s'"
proof (induction cs arbitrary: s)
  case Nil
  then show ?case by (cases x) (auto simp: res_bind_Inr_conv dest: Yield_nobody timers_nobody(2))
next
  case (Cons c cs)
  then obtain s1 where s1: "run_call env c s = Inr s1" "run_script env cs x s1 = Inr (from, s')"
    by (auto simp: res_bind_Inr_conv)
  have "nobody_waits fd s1" using run_call_nobody [OF Cons.prems(1) s1(1)] Cons.prems(3) by (auto simp: wakes_nobody_def)
  with Cons.IH s1(2) Cons.prems(3) show ?case by (simp add: wakes_nobody_def)
qed

section \<open>Turns of the loop\<close>

text \<open>Starting a coroutine does not look at what any coroutine would do when it is continued.\<close>

lemma resume_first:
  assumes "co_ctx (co_at co s) = None"
  shows "SchedulerImpl_Resume (script_env ctl clk junk body cont) co s = SchedulerImpl_Resume (script_env ctl clk junk body cont') co s"
proof -
  let ?e = "script_env ctl clk junk body cont" and ?e' = "script_env ctl clk junk body cont'"
  have e: "e_junk ?e = e_junk ?e'" "e_make ?e = e_make ?e'" "e_body ?e = e_body ?e'" by (simp_all add: script_env_def Let_def)
  have "resume_enter ?e co s = resume_enter ?e' co s" by (simp only: resume_enter_def e)
  moreover have "SchedulerImpl_MainFunc ?e p c t = SchedulerImpl_MainFunc ?e' p c t" for p c t by (simp only: SchedulerImpl_MainFunc_def e)
  ultimately show ?thesis using assms by (simp add: SchedulerImpl_Resume_def)
qed

lemma resume_first_nobody:
  assumes "nobody_waits fd s" "co < kPoolSize" "co_ctx (co_at co s) = None" "\<And>f. wakes_nobody (body f)"
    and "SchedulerImpl_Resume (script_env ctl clk junk body cont) co s = Inr s'"
  shows "nobody_waits fd s'"
proof -
  let ?e = "script_env ctl clk junk body cont"
  obtain s1 fr s2 where r: "resume_enter ?e co s = Inr s1" "SchedulerImpl_MainFunc ?e (main_co (sch s1)) 0 s1 = Inr (fr, s2)"
    "resume_leave fr s2 = Inr s'"
    using assms(3,5) by (auto simp: SchedulerImpl_Resume_def res_bind_Inr_conv)
  let ?s1 = "upd_co (main_co (sch s1)) (\<lambda>c. c\<lparr>co_ctx := Some 0\<rparr>) s1"
  have "nobody_waits fd s1" using resume_enter_nobody [OF assms(1,2) r(1)] .
  then have n: "nobody_waits fd ?s1" by (simp add: nobody_waits_co)
  obtain f where "e_body ?e f ?s1 = Inr (fr, s2)"
    using r(2) by (auto simp: SchedulerImpl_MainFunc_def Let_def split: option.splits co_union.splits)
  then obtain env' where "run_script env' (fst (body f)) (snd (body f)) ?s1 = Inr (fr, s2)"
    by (auto simp: script_env_def Let_def case_prod_unfold)
  from run_script_nobody [OF n this] assms(4) have "nobody_waits fd s2" by simp
  with r(3) show ?thesis by (rule resume_leave_nobody [rotated])
qed

text \<open>A scheduler that is well formed, in which nobody waits and the coroutines \<open>U\<close> are in use.\<close>

definition all_asleep :: "int \<Rightarrow> co_ptr set \<Rightarrow> 'k sys \<Rightarrow> bool" where
  "all_asleep fd U s \<longleftrightarrow> sched_ok s \<and> nobody_waits fd s \<and> U \<subseteq> used s"

text \<open>The same result whatever is done afterwards, and if it is a state, nobody waits in it.\<close>

definition same_asleep :: "int \<Rightarrow> co_ptr set \<Rightarrow> 'k sys res \<Rightarrow> 'k sys res \<Rightarrow> bool" where
  "same_asleep fd U r r' \<longleftrightarrow> r = r' \<and> (\<forall>s. r = Inr s \<longrightarrow> all_asleep fd U s)"

lemma same_asleep_bind:
  "same_asleep fd U r r' \<Longrightarrow> (\<And>s. all_asleep fd U s \<Longrightarrow> same_asleep fd U (f s) (f' s)) \<Longrightarrow> same_asleep fd U (res_bind r f) (res_bind r' f')"
  by (cases r) (auto simp: same_asleep_def)

lemma same_asleep_Inr: "all_asleep fd U s \<Longrightarrow> same_asleep fd U (Inr s) (Inr s)"
  by (simp add: same_asleep_def)

lemma all_asleep_cong:
  assumes "all_asleep fd U s" "nobody_waits fd s'" "co_pool (sch s') = co_pool (sch s)" "main_of s' = main_of s" "stacks (sch s') = stacks (sch s)"
    and "stack_size (sch s') = stack_size (sch s)" "mem s' = mem s"
  shows "all_asleep fd U s'"
  using assms sched_wf_cong [of s' s] by (simp add: all_asleep_def sched_ok_def)

lemma resume_new_same:
  assumes "\<And>f. wakes_nobody (body f)"
  shows "all_asleep fd U s \<Longrightarrow>
    same_asleep fd U (resume_new (script_env ctl clk junk body cont) fs s) (resume_new (script_env ctl clk junk body cont') fs s)"
proof (induction fs arbitrary: s)
  case Nil
  then show ?case by (simp add: same_asleep_Inr)
next
  case (Cons f fs)
  let ?e = "script_env ctl clk junk body cont" and ?e' = "script_env ctl clk junk body cont'"
  have ok: "sched_ok s" "nobody_waits fd s" "U \<subseteq> used s" using Cons.prems by (simp_all add: all_asleep_def)
  show ?case
  proof (cases "SchedulerImpl_NewCoroutine f s")
    case (Inl e)
    then show ?thesis by (simp add: same_asleep_def)
  next
    case (Inr p)
    then obtain co s1 where n: "SchedulerImpl_NewCoroutine f s = Inr (co, s1)" by force
    note new = NewCoroutine_ok [OF ok(1) n] NewCoroutine_nobody [OF ok(2) n]
    have ctx: "co_ctx (co_at co s1) = None" and co: "co < kPoolSize" "co \<in> used s1" "co \<noteq> main_of s1" using new by auto
    have "all_asleep fd U s2" if "SchedulerImpl_Resume ?e co s1 = Inr s2" for s2
      using that scripts.resume_ok [OF _ co(2,3), of ctl clk junk body cont] resume_first_nobody [OF _ co(1) ctx assms that] new ok(3)
      by (auto simp: all_asleep_def)
    then have "same_asleep fd U (SchedulerImpl_Resume ?e co s1) (SchedulerImpl_Resume ?e' co s1)"
      using resume_first [OF ctx] by (auto simp: same_asleep_def)
    from same_asleep_bind [OF this Cons.IH] n show ?thesis by simp
  qed
qed

lemma run_tasks_same:
  assumes "\<And>f. wakes_nobody (body f)" "all_asleep fd U s"
  shows "same_asleep fd U (run_tasks (script_env ctl clk junk body cont) s) (run_tasks (script_env ctl clk junk body cont') s)"
proof -
  obtain news tm where t: "TaskManager_GetAllTasks [] [] (task_mgr (sch s)) = (news, [], tm)" "ready_tasks tm = []"
    using assms(2) by (cases "new_tasks (task_mgr (sch s)) = []") (simp_all add: all_asleep_def nobody_waits_def TaskManager_GetAllTasks_def)
  let ?s = "upd_sch (\<lambda>sc. sc\<lparr>task_mgr := tm\<rparr>) s"
  have "all_asleep fd U ?s"
    by (rule all_asleep_cong [OF assms(2)]) (use assms(2) t(2) in \<open>simp_all add: all_asleep_def nobody_waits_def\<close>)
  note r = resume_new_same [OF assms(1) this, where ctl = ctl and clk = clk and junk = junk and cont = cont and cont' = cont' and fs = news]
  have "same_asleep fd U (res_bind (resume_new (script_env ctl clk junk body cont) news ?s) Inr)
    (res_bind (resume_new (script_env ctl clk junk body cont') news ?s) Inr)"
    by (rule same_asleep_bind [OF r same_asleep_Inr])
  moreover have "resume_all env [] = Inr" for env :: "'a env" by (rule ext) simp
  ultimately show ?thesis by (simp add: run_tasks_def t(1))
qed

text \<open>Timers expire, but schedule nobody.\<close>

lemma collect_nobody:
  assumes "\<forall>n \<in> set ns. co_wait_ctx (cs_cos s ! node_co n) = None"
  shows "\<exists>passed rest t'. collect_loop clk t ns s = (passed, rest, t', s) \<and> ns = passed @ rest"
  using assms
proof (induction ns arbitrary: t)
  case (Cons n ns)
  then have "expire (node_co n) s = s" by (simp add: expire_tasks)
  moreover obtain passed rest t' where "collect_loop clk (Suc t) ns s = (passed, rest, t', s)" "ns = passed @ rest"
    using Cons by (metis list.set_intros(2))
  ultimately show ?case by auto
qed simp

lemma CollectTimeoutTasks_nobody:
  assumes "\<forall>n \<in> set (timer tm). co_wait_ctx (cs_cos s ! node_co n) = None"
  obtains ms t' tm' where "TimerManager_CollectTimeoutTasks clk t tm s = (ms, t', tm', s)" "set (timer tm') \<subseteq> set (timer tm)"
proof -
  obtain passed rest t1 where c: "collect_loop clk t (timer tm) s = (passed, rest, t1, s)" "timer tm = passed @ rest"
    using collect_nobody [OF assms] by blast
  obtain ms t' tm' s' where r: "TimerManager_CollectTimeoutTasks clk t tm s = (ms, t', tm', s')" by (rule prod_cases4)
  have "s' = s" "set (timer tm') \<subseteq> set (timer tm)"
    using r c by (auto simp: TimerManager_CollectTimeoutTasks_def Let_def split: if_splits)
  with r show ?thesis by (intro that) simp_all
qed

lemma run_timers_same:
  assumes "all_asleep fd U s"
  shows "same_asleep fd U (run_timers (script_env ctl clk junk body cont) s) (run_timers (script_env ctl clk junk body cont') s)"
proof -
  let ?c = "\<lparr>cs_cos = pool (co_pool (sch s)), cs_ctxs = ctxs s, cs_tasks = []\<rparr>"
  have n: "nobody_waits fd s" using assms by (simp add: all_asleep_def)
  have clk: "e_clk (script_env ctl clk junk body co) = clk" for co by (simp add: script_env_def Let_def)
  have "\<forall>n \<in> set (timer (timer_mgr (sch s))). co_wait_ctx (cs_cos ?c ! node_co n) = None" using n by (simp add: nobody_waits_def)
  then obtain ms t tm where t: "TimerManager_CollectTimeoutTasks clk (ticks s) (timer_mgr (sch s)) ?c = (ms, t, tm, ?c)"
    "set (timer tm) \<subseteq> set (timer (timer_mgr (sch s)))" by (rule CollectTimeoutTasks_nobody)
  let ?s = "(upd_sch (\<lambda>sc. sc\<lparr>wait_ms := ms, timer_mgr := tm, co_pool := (co_pool sc)\<lparr>pool := pool (co_pool (sch s))\<rparr>\<rparr>) s)\<lparr>ctxs := ctxs s, ticks := t\<rparr>"
  have "all_asleep fd U ?s"
    by (rule all_asleep_cong [OF assms]) (use n t(2) in \<open>auto simp: nobody_waits_def\<close>)
  then show ?thesis using t(1) by (simp add: run_timers_def clk Let_def same_asleep_Inr)
qed

lemma handle_wakeup_same:
  assumes "all_asleep fd U s" "data_fd ev = fd"
  shows "same_asleep fd U (handle_event env ev s) (handle_event env' ev s)"
proof -
  have f: "Epoll_is_wakeup_fd (epoll (sch s)) ev" using assms by (simp add: Epoll_is_wakeup_fd_def all_asleep_def nobody_waits_def)
  show ?thesis
  proof (cases "Epoll_HandleWakeUpEvent (answers s) (epoll (sch s))")
    case None
    with f show ?thesis by (simp add: handle_event_def same_asleep_def)
  next
    case (Some p)
    then obtain e as where p: "Epoll_HandleWakeUpEvent (answers s) (epoll (sch s)) = Some (e, as)" by force
    then have "wake_up_fd e = wake_up_fd (epoll (sch s))"
      by (auto simp: Epoll_HandleWakeUpEvent_def split: option.splits if_splits prod.splits)
    then have "all_asleep fd U ((upd_sch (\<lambda>sc. sc\<lparr>epoll := e\<rparr>) s)\<lparr>answers := as\<rparr>)"
      by (intro all_asleep_cong [OF assms(1)]) (use assms(1) in \<open>simp_all add: all_asleep_def nobody_waits_def\<close>)
    with f p show ?thesis by (simp add: handle_event_def same_asleep_Inr)
  qed
qed

lemma loop_body_same:
  assumes "\<And>f. wakes_nobody (body f)" "all_asleep fd U s"
    and "wa_events a = 0 \<or> wa_events a = 1 \<and> wa_array a \<noteq> [] \<and> data_fd (hd (wa_array a)) = fd"
  shows "same_asleep fd U (loop_body (script_env ctl clk junk body cont) a s) (loop_body (script_env ctl clk junk body cont') a s)"
proof -
  let ?e = "script_env ctl clk junk body cont" and ?e' = "script_env ctl clk junk body cont'"
  have "same_asleep fd U (handle_events ?e (wa_array a) 0 (nat (wa_events a)) s) (handle_events ?e' (wa_array a) 0 (nat (wa_events a)) s)"
  proof (cases "wa_events a = 0")
    case True
    with assms(2) show ?thesis by (simp add: same_asleep_Inr)
  next
    case False
    then have e: "wa_events a = 1" "wa_array a \<noteq> []" "data_fd (wa_array a ! 0) = fd" using assms(3) by (auto simp: hd_conv_nth)
    have "handle_events env arr i 0 = Inr" for env :: "'a env" and arr i by (rule ext) simp
    with same_asleep_bind [OF handle_wakeup_same [OF assms(2) e(3)] same_asleep_Inr] e(1,2) show ?thesis
      by (simp add: Epoll_index_def)
  qed
  moreover have "same_asleep fd U (Inr (upd_sch (\<lambda>sc. sc\<lparr>running_co := None\<rparr>) t)) (Inr (upd_sch (\<lambda>sc. sc\<lparr>running_co := None\<rparr>) t))"
    if "all_asleep fd U t" for t :: "'a sys"
    using all_asleep_cong [OF that nobody_running(2) [of fd t]] that by (intro same_asleep_Inr) (simp add: all_asleep_def)
  ultimately show ?thesis
    using assms(3) unfolding loop_body_def
    by (auto intro!: same_asleep_bind run_tasks_same [OF assms(1)] run_timers_same)
qed

section \<open>Sleeping for ever\<close>

lemma Loop_same:
  assumes "\<And>f. wakes_nobody (body f)"
  shows "all_asleep fd U s \<Longrightarrow> list_all (quiet fd) ws \<Longrightarrow>
    same_asleep fd U (SchedulerImpl_Loop (script_env ctl clk junk body cont) ws s) (SchedulerImpl_Loop (script_env ctl clk junk body cont') ws s)"
proof (induction ws arbitrary: s)
  case Nil
  then show ?case by (simp add: same_asleep_Inr)
next
  case (Cons w ws)
  let ?a = "Epoll_Wait w (epoll (sch s)) (sint (wait_ms (sch s)))"
  have a: "\<not> wa_stopped ?a" "wa_events ?a = 0 \<or> wa_events ?a = 1 \<and> wa_array ?a \<noteq> [] \<and> data_fd (hd (wa_array ?a)) = fd"
    using Cons.prems(2) by (auto simp: Epoll_Wait_def quiet_def)
  have "same_asleep fd U (res_bind (loop_body (script_env ctl clk junk body cont) ?a s) (SchedulerImpl_Loop (script_env ctl clk junk body cont) ws))
    (res_bind (loop_body (script_env ctl clk junk body cont') ?a s) (SchedulerImpl_Loop (script_env ctl clk junk body cont') ws))"
    using Cons.prems(2) by (intro same_asleep_bind [OF loop_body_same [OF assms Cons.prems(1) a(2)] Cons.IH]) simp_all
  with a(1) Cons.prems(1) show ?case by (simp add: Let_def same_asleep_Inr)
qed


definition sleeper :: "SchedulerImpl \<Rightarrow> (int \<Rightarrow> epoll_event option) sys" where
  "sleeper sc = (two_cos None None)\<lparr>sch := sc\<lparr>task_mgr := TaskManager_AddNewTasks 1 TaskManager_init\<rparr>\<rparr>"

lemma sleeper_ok:
  assumes "SchedulerImpl_SchedulerImpl epoll0 0 1 (1024 * 1024) = Inr sc"
  shows "sched_ok (sleeper sc)" "ready_tasks (task_mgr (sch (sleeper sc))) = []" "running_co (sch (sleeper sc)) = None"
    "\<forall>c < kPoolSize. co_wait_ctx (pool (co_pool (sch (sleeper sc))) ! c) = None"
    "timer (timer_mgr (sch (sleeper sc))) = []"
proof -
  let ?u = "(two_cos None None)\<lparr>sch := sc\<rparr>"
  have u: "sched_ok ?u" "used ?u = {0}" "main_of ?u = 0" "holds_closures ?u" using constructed_ok [of epoll0 0 1 _ ?u] assms by simp_all
  then have "idle (sleeper sc)" using idle_cong [of "sleeper sc" ?u] by (simp add: idle_def sleeper_def)
  then show "sched_ok (sleeper sc)" by (simp add: idle_def)
  show "ready_tasks (task_mgr (sch (sleeper sc))) = []" "running_co (sch (sleeper sc)) = None"
    "\<forall>c < kPoolSize. co_wait_ctx (pool (co_pool (sch (sleeper sc))) ! c) = None"
    "timer (timer_mgr (sch (sleeper sc))) = []"
    using assms by (auto simp: sleeper_def SchedulerImpl_SchedulerImpl_def Copoll_Pop_def Copoll_init_def kPoolSize_def Let_def
      TaskManager_AddNewTasks_def TaskManager_init_def TimerManager_init_def Coroutine_init_def nth_list_update)
qed

text \<open>A new scheduler and one task, which sleeps for five milliseconds; the clock goes on by a second with each reading. After two turns the
  timer is gone, and so is the coroutine.\<close>

lemma sleeper_loop:
  "\<exists>sc s'. SchedulerImpl_SchedulerImpl epoll0 0 1 (1024 * 1024) = Inr sc \<and>
     SchedulerImpl_Loop (script_env ref_ctl (\<lambda>n. 1000 * int n) NUL (\<lambda>f. ([], SleepAt 5 100)) (\<lambda>co. ([Go 7], Finish)))
       [nothing_ready, nothing_ready] (sleeper sc) = Inr s' \<and>
     timer (timer_mgr (sch s')) = [] \<and> in_use (co_pool (sch s')) = {i. i < 2}"
  by (simp add: sleeper_def SchedulerImpl_SchedulerImpl_def Copoll_Pop_def Copoll_init_def kPoolSize_def Let_def)
    (simp add: Epoll_Wait_def nothing_ready_def loop_body_def run_tasks_def TaskManager_GetAllTasks_def TaskManager_AddNewTasks_def TaskManager_init_def
      SchedulerImpl_NewCoroutine_def Copoll_Pop_def Let_def SchedulerImpl_Resume_def resume_enter_def stack_of_def nth_list_update kShareStackSize_def
      Coroutine_init_def SchedulerImpl_MainFunc_def script_env_def SchedulerImpl_Sleep_def SchedulerImpl_Yield_def TimerManager_AddTimer_def TimerManager_init_def
      insert_pos_def lower_bound_def upper_bound_def resume_leave_def run_timers_def TimerManager_CollectTimeoutTasks_def expire_def in_use_def
      upd_co_def upd_stack_def upd_sch_def two_cos_def)


end
