(* ===== verification/Scaled_Format.thy ===== *)
theory Scaled_Format
  imports Float_Format Complex_Main
begin

text \<open>
  \<open>formatSI\<close> and \<open>formatIEC\<close> of \<open>src/stream.cc\<close>, which divide an integer by a unit in \<open>double\<close> arithmetic and print it with
  \<open>%.2f\<close>, \<open>%.1f\<close> or \<open>%.0f\<close>. Operations round to nearest, to even in a tie; the numbers here are far from the largest and smallest
  \<open>double\<close>.
\<close>

section \<open>Double arithmetic\<close>

fun bitlen :: "nat \<Rightarrow> nat" where
  "bitlen n = (if n = 0 then 0 else Suc (bitlen (n div 2)))"

declare bitlen.simps [simp del]

text \<open>The \<open>double\<close> nearest to a positive fraction that is neither too large nor too small for one with 53 significant bits: the fraction
  is divided by a power of two so that the quotient lies between \<open>2 ^ 52\<close> and \<open>2 ^ 53\<close>, and the quotient is rounded.\<close>

definition double_exp :: "nat \<Rightarrow> nat \<Rightarrow> int" where
  "double_exp a b =
     (let l = int (bitlen a) - int (bitlen b);
          ge = (if 0 \<le> l then b * 2 ^ nat l \<le> a else b \<le> a * 2 ^ nat (- l))
      in if ge then l - 52 else l - 53)"

definition to_double :: "nat \<times> nat \<Rightarrow> nat \<times> nat" where
  "to_double x =
     (case x of (a, b) \<Rightarrow>
        let e = double_exp a b
        in if a = 0 then (0, 1)
           else if 0 \<le> e then (round_div a (b * 2 ^ nat e) * 2 ^ nat e, 1)
           else (round_div (a * 2 ^ nat (- e)) b, 2 ^ nat (- e)))"

definition double_div :: "nat \<times> nat \<Rightarrow> nat \<times> nat \<Rightarrow> nat \<times> nat" where
  "double_div x y = to_double (fst x * snd y, snd x * fst y)"

definition double_mult :: "nat \<times> nat \<Rightarrow> nat \<times> nat \<Rightarrow> nat \<times> nat" where
  "double_mult x y = to_double (fst x * fst y, snd x * snd y)"

definition double_less :: "nat \<times> nat \<Rightarrow> nat \<times> nat \<Rightarrow> bool" where
  "double_less x y \<longleftrightarrow> fst x * snd y < fst y * snd x"

text \<open>\<open>%.pf\<close> of a fraction: \<open>n\<close> is the value in units of the last digit.\<close>

definition text_fixed :: "nat \<Rightarrow> nat \<Rightarrow> string" where
  "text_fixed p n =
     convert (int (n div 10 ^ p)) @
     (if p = 0 then []
      else let ds = convert (int (n mod 10 ^ p)) in CHR ''.'' # replicate (p - length ds) CHR ''0'' @ ds)"

definition printf_f :: "nat \<Rightarrow> nat \<times> nat \<Rightarrow> string" where
  "printf_f p x = text_fixed p (round_div (fst x * 10 ^ p) (snd x))"

section \<open>Scaled integers\<close>

text \<open>\<open>s\<close> is an \<open>int64_t\<close>. The two functions use the quotient only of positive numbers. The powers of ten are exact as \<open>double\<close>s.\<close>

definition formatSI :: "int \<Rightarrow> string" where
  "formatSI s =
     (let n = to_double (nat s, 1); q = (\<lambda>p u. printf_f p (double_div n (10 ^ u, 1)))
      in if s < 1000 then convert s
         else if s < 9995 then q 2 3 @ ''k''
         else if s < 99950 then q 1 3 @ ''k''
         else if s < 999500 then q 0 3 @ ''k''
         else if s < 9995000 then q 2 6 @ ''M''
         else if s < 99950000 then q 1 6 @ ''M''
         else if s < 999500000 then q 0 6 @ ''M''
         else if s < 9995000000 then q 2 9 @ ''G''
         else if s < 99950000000 then q 1 9 @ ''G''
         else if s < 999500000000 then q 0 9 @ ''G''
         else if s < 9995000000000 then q 2 12 @ ''T''
         else if s < 99950000000000 then q 1 12 @ ''T''
         else if s < 999500000000000 then q 0 12 @ ''T''
         else if s < 9995000000000000 then q 2 15 @ ''P''
         else if s < 99950000000000000 then q 1 15 @ ''P''
         else if s < 999500000000000000 then q 0 15 @ ''P''
         else q 2 18 @ ''E'')"

text \<open>The limits are products in \<open>double\<close>; a negative number is smaller than the first.\<close>

definition formatIEC :: "int \<Rightarrow> string" where
  "formatIEC s =
     (let n = to_double (nat s, 1);
          unit = (\<lambda>k. (1024 ^ k, 1));
          less = (\<lambda>k a b. double_less n (double_mult (unit k) (to_double (a, b))));
          q = (\<lambda>p k. printf_f p (double_div n (unit k)))
      in if s < 0 \<or> double_less n (unit 1) then convert s
         else if less 1 9995 1000 then q 2 1 @ ''Ki''
         else if less 1 9995 100 then q 1 1 @ ''Ki''
         else if less 1 10235 10 then q 0 1 @ ''Ki''
         else if less 2 9995 1000 then q 2 2 @ ''Mi''
         else if less 2 9995 100 then q 1 2 @ ''Mi''
         else if less 2 10235 10 then q 0 2 @ ''Mi''
         else if less 3 9995 1000 then q 2 3 @ ''Gi''
         else if less 3 9995 100 then q 1 3 @ ''Gi''
         else if less 3 10235 10 then q 0 3 @ ''Gi''
         else if less 4 9995 1000 then q 2 4 @ ''Ti''
         else if less 4 9995 100 then q 1 4 @ ''Ti''
         else if less 4 10235 10 then q 0 4 @ ''Ti''
         else if less 5 9995 1000 then q 2 5 @ ''Pi''
         else if less 5 9995 100 then q 1 5 @ ''Pi''
         else if less 5 10235 10 then q 0 5 @ ''Pi''
         else if less 6 9995 1000 then q 2 6 @ ''Ei''
         else q 1 6 @ ''Ei'')"

section \<open>Rounding to a double\<close>

lemma bitlen_bounds: "0 < n \<Longrightarrow> 0 < bitlen n \<and> 2 ^ (bitlen n - 1) \<le> n \<and> n < 2 ^ bitlen n"
proof (induction n rule: bitlen.induct)
  case (1 n)
  show ?case
  proof (cases "n div 2 = 0")
    case True
    then have "n = 1" using 1 by auto
    then show ?thesis by (simp add: bitlen.simps [of "Suc 0"] bitlen.simps [of 0])
  next
    case False
    then have IH: "0 < bitlen (n div 2)" "2 ^ (bitlen (n div 2) - 1) \<le> n div 2" "n div 2 < 2 ^ bitlen (n div 2)"
      using 1 by auto
    moreover from IH(1) have "(2 :: nat) ^ bitlen (n div 2) = 2 * 2 ^ (bitlen (n div 2) - 1)" by (cases "bitlen (n div 2)") auto
    moreover have "bitlen n = Suc (bitlen (n div 2))" using 1 by (subst bitlen.simps) simp
    moreover have "n div 2 * 2 \<le> n" "n < (n div 2 + 1) * 2" by simp_all
    ultimately show ?thesis by (simp add: mult.commute) linarith
  qed
qed

lemma double_exp_quotient:
  assumes "0 < a" "0 < b"
  shows "2 ^ 52 * real b * 2 powi double_exp a b \<le> real a"
proof -
  define l where "l = int (bitlen a) - int (bitlen b)"
  define ge where "ge \<longleftrightarrow> (if 0 \<le> l then b * 2 ^ nat l \<le> a else b \<le> a * 2 ^ nat (- l))"
  note ba = bitlen_bounds [OF assms(1)] and bb = bitlen_bounds [OF assms(2)]
  have e: "double_exp a b = (if ge then l - 52 else l - 53)" by (simp add: double_exp_def l_def ge_def)
  have ge: "ge \<longleftrightarrow> real b * 2 powi l \<le> real a"
  proof (cases "0 \<le> l")
    case True
    then have "real b * 2 powi l = real (b * 2 ^ nat l)" by (simp add: power_int_def)
    then show ?thesis using True by (simp only: ge_def of_nat_le_iff if_True)
  next
    case False
    then have "real b * 2 powi l = real b / real (2 ^ nat (- l))"
      by (simp add: power_int_def power_one_over)
    also have "\<dots> \<le> real a \<longleftrightarrow> real b \<le> real (a * 2 ^ nat (- l))" by (simp add: pos_divide_le_eq)
    also have "\<dots> \<longleftrightarrow> b \<le> a * 2 ^ nat (- l)" by (rule of_nat_le_iff)
    finally show ?thesis using False by (simp add: ge_def)
  qed
  show ?thesis
  proof (cases ge)
    case True
    then show ?thesis using ge by (simp add: e power_int_diff)
  next
    case False
    have "2 ^ 52 * real b * 2 powi (l - 53) = real b * 2 powi (l - 1)" by (simp add: power_int_diff)
    also have "\<dots> \<le> real (2 ^ bitlen b) * 2 powi (l - 1)"
      using bb by (intro mult_right_mono) (simp_all only: of_nat_le_iff, simp_all)
    also have "\<dots> = 2 powi (int (bitlen b) + (l - 1))" by (subst power_int_add) simp_all
    also have "int (bitlen b) + (l - 1) = int (bitlen a - 1)" using ba by (simp add: l_def of_nat_diff)
    also have "2 powi int (bitlen a - 1) = real (2 ^ (bitlen a - 1))" by (simp add: power_int_def)
    also have "\<dots> \<le> real a" using ba by (simp only: of_nat_le_iff)
    finally show ?thesis using False by (simp add: e)
  qed
qed

text \<open>The quotient that is rounded, and how the result relates to it.\<close>

lemma to_double_scaled:
  assumes "0 < a" "0 < b" "to_double (a, b) = (a', b')"
  obtains A B where "0 < B" "real A = real a / real b * real B / 2 powi double_exp a b" "2 ^ 52 * B \<le> A"
    "a' * b = round_div A B * B" "a * b' = A" "0 < b'"
proof -
  define e where "e = double_exp a b"
  define A B where "A = (if 0 \<le> e then a else a * 2 ^ nat (- e))" and "B = (if 0 \<le> e then b * 2 ^ nat e else b)"
  have B: "0 < B" using assms(2) by (simp add: B_def)
  have AB: "real A = real a / real b * real B / 2 powi e"
    using assms(2) by (simp add: A_def B_def power_int_def power_one_over field_simps)
  have "2 ^ 52 * real b * 2 powi e \<le> real a" using double_exp_quotient [OF assms(1,2)] by (simp only: e_def)
  then have "2 ^ 52 * real B \<le> real A" using assms(2) B by (simp add: AB field_simps)
  then have "real (2 ^ 52 * B) \<le> real A" by simp
  then have "2 ^ 52 * B \<le> A" by (simp only: of_nat_le_iff)
  moreover have "a' * b = round_div A B * B \<and> a * b' = A \<and> 0 < b'"
    using assms by (auto simp: to_double_def A_def B_def e_def Let_def split: if_splits)
  ultimately show ?thesis using that [of B A] B AB by (simp only: e_def)
qed

text \<open>The relative error of a rounded fraction, in integers.\<close>

lemma to_double_error:
  assumes "0 < a" "0 < b" "to_double (a, b) = (a', b')"
  shows "0 < b'" "2 ^ 53 * \<bar>int a' * int b - int a * int b'\<bar> \<le> int a * int b'"
proof -
  obtain A B where t: "0 < B" "2 ^ 52 * B \<le> A" "a' * b = round_div A B * B" "a * b' = A" "0 < b'"
    by (rule to_double_scaled [OF assms])
  show "0 < b'" by (rule t(5))
  have "int (2 ^ 52 * B) \<le> int A" using t(2) by (simp only: of_nat_le_iff)
  then have "int B * 2 ^ 52 \<le> int A" by simp
  moreover have "2 * \<bar>int (round_div A B) * int B - int A\<bar> \<le> int B"
    using round_div_nearest [OF t(1), of A] by (simp only: abs_mult)
  ultimately have "2 ^ 53 * \<bar>int (round_div A B) * int B - int A\<bar> \<le> int A" by simp
  moreover have "int a' * int b = int (round_div A B) * int B" "int a * int b' = int A" using t(3,4) by (metis of_nat_mult)+
  ultimately show "2 ^ 53 * \<bar>int a' * int b - int a * int b'\<bar> \<le> int a * int b'" by simp
qed

text \<open>A fraction with at most 53 significant bits is not changed.\<close>

lemma round_div_exact: "0 < b \<Longrightarrow> round_div (q * b) b = q"
  by (simp add: round_div_def)

lemma to_double_exact:
  assumes "0 < a" "0 < b" "to_double (a, b) = (a', b')" "real a / real b = real m * 2 powi j" "m < 2 ^ 53"
  shows "0 < b'" "a' * b = a * b'"
proof -
  define e where "e = double_exp a b"
  obtain A B where t: "0 < B" "real A = real a / real b * real B / 2 powi e" "a' * b = round_div A B * B" "a * b' = A" "0 < b'"
    using to_double_scaled [OF assms(1-3)] unfolding e_def by metis
  show "0 < b'" by (rule t(5))
  have "2 ^ 52 * 2 powi e \<le> real a / real b"
    using double_exp_quotient [OF assms(1,2)] assms(2) by (simp add: e_def field_simps)
  also have "\<dots> < 2 ^ 53 * 2 powi j"
  proof -
    have "real m < real (2 ^ 53)" using assms(5) by (simp only: of_nat_less_iff)
    then show ?thesis by (simp add: assms(4))
  qed
  also have "\<dots> = 2 ^ 52 * 2 powi (j + 1)" by (simp add: power_int_add)
  finally have "(2 :: real) powi e < 2 powi (j + 1)" by simp
  then have "e \<le> j" using power_int_increasing [of "j + 1" e "2 :: real"] by force
  then have "(2 :: real) powi j = 2 powi e * 2 ^ nat (j - e)"
    using power_int_add [of "2 :: real" e "j - e"] by (simp add: power_int_def [of 2 "j - e"])
  then have "real A = real (m * 2 ^ nat (j - e) * B)" by (simp add: t(2) assms(4))
  then have "A = m * 2 ^ nat (j - e) * B" by (simp only: of_nat_eq_iff)
  then show "a' * b = a * b'" using t(1,3,4) by (simp add: round_div_exact)
qed

lemma to_double_real:
  assumes "0 < a" "0 < b" "to_double (a, b) = (a', b')"
  shows "0 < b'" "\<bar>real a' / real b' - real a / real b\<bar> \<le> real a / real b / 2 ^ 53"
proof -
  note t = to_double_error [OF assms]
  show b': "0 < b'" by (rule t(1))
  have "real_of_int (2 ^ 53 * \<bar>int a' * int b - int a * int b'\<bar>) \<le> real_of_int (int a * int b')"
    using t(2) by (simp only: of_int_le_iff)
  then have "2 ^ 53 * \<bar>real a' * real b - real a * real b'\<bar> \<le> real a * real b'" by simp
  moreover have "\<bar>real a' / real b' - real a / real b\<bar> = \<bar>real a' * real b - real a * real b'\<bar> / (real b * real b')"
    using assms(2) b' by (simp add: diff_divide_eq_iff abs_divide ac_simps frac_eq_eq) (simp add: field_simps)
  ultimately show "\<bar>real a' / real b' - real a / real b\<bar> \<le> real a / real b / 2 ^ 53"
    using assms(2) b' by (simp add: field_simps)
qed

lemma round_div_real: "0 < b \<Longrightarrow> \<bar>real (round_div a b) - real a / real b\<bar> \<le> 1 / 2"
proof -
  assume b: "0 < b"
  have "2 * \<bar>int (round_div a b) * int b - int a\<bar> \<le> int b" using round_div_nearest [OF b, of a] by (simp only: abs_mult)
  then have "real_of_int (2 * \<bar>int (round_div a b) * int b - int a\<bar>) \<le> real_of_int (int b)" by (simp only: of_int_le_iff)
  then have "2 * \<bar>real (round_div a b) * real b - real a\<bar> \<le> real b" by simp
  moreover have "real (round_div a b) - real a / real b = (real (round_div a b) * real b - real a) / real b"
    using b by (simp add: field_simps)
  ultimately show ?thesis using b by (simp add: abs_divide pos_divide_le_eq)
qed

text \<open>An integer is divided by a unit, with two roundings.\<close>

lemma double_div_error:
  assumes "0 < s" "0 < u" "double_div (to_double (s, 1)) (u, 1) = (a, b)"
  shows "0 < b" "\<bar>real a / real b - real s / real u\<bar> \<le> real s / real u * (3 / 2 ^ 53)"
proof -
  let ?e = "1 / 2 ^ 53 :: real"
  obtain a1 b1 where n: "to_double (s, 1) = (a1, b1)" by force
  note n1 = to_double_real [OF assms(1) _ n, simplified]
  have "0 < real a1" using n1 assms(1) by (cases "a1 = 0") (auto simp: field_simps)
  then have a1: "0 < a1" by simp
  have "to_double (a1, b1 * u) = (a, b)" using assms(3) by (simp add: double_div_def n del: One_nat_def)
  note n2 = to_double_real [OF a1 _ this]
  show "0 < b" using n2(1) n1(1) assms(2) by simp
  define y z x where "y = real s / real u" and "z = real a1 / real b1 / real u" and "x = real a / real b"
  have "z - y = (real a1 / real b1 - real s) / real u" by (simp only: y_def z_def diff_divide_distrib)
  then have "\<bar>z - y\<bar> = \<bar>real a1 / real b1 - real s\<bar> / real u" by (simp only: abs_divide abs_of_nat)
  also have "\<dots> \<le> y * ?e" using n1 assms(2) by (simp add: y_def divide_right_mono field_simps)
  finally have "\<bar>z - y\<bar> \<le> y * ?e" .
  moreover have "\<bar>x - z\<bar> \<le> z * ?e" using n2(2) n1 assms(2) by (simp add: x_def z_def)
  moreover have "(2 :: real) ^ 53 = 9007199254740992" "0 \<le> y" by (simp_all add: y_def)
  ultimately have "\<bar>x - y\<bar> \<le> y * (3 * ?e)" by (simp only:)
  then show "\<bar>real a / real b - real s / real u\<bar> \<le> real s / real u * (3 / 2 ^ 53)" by (simp add: x_def y_def)
qed

text \<open>If at most three digits are printed, the printed number is one of those nearest to the exact quotient.\<close>

lemma printf_scaled:
  assumes "0 < s" "0 < u" "s * 10 ^ p < 1000 * u" "u \<le> 10 ^ 12"
  shows "\<exists>n. printf_f p (double_div (to_double (s, 1)) (u, 1)) = text_fixed p n \<and>
    \<bar>2 * (int n * int u - int s * 10 ^ p)\<bar> \<le> int u"
proof -
  obtain a b where q: "double_div (to_double (s, 1)) (u, 1) = (a, b)" by force
  note q' = double_div_error [OF assms(1,2) q]
  define y n where "y = real s / real u" and "n = round_div (a * 10 ^ p) b"
  have u: "real u * y = real s" using assms(2) by (simp add: y_def)
  have "\<bar>real n - real a / real b * 10 ^ p\<bar> \<le> 1 / 2"
    using round_div_real [OF q'(1), of "a * 10 ^ p"] by (simp add: n_def)
  moreover have "\<bar>real a / real b * 10 ^ p - y * 10 ^ p\<bar> \<le> y * (3 / 2 ^ 53) * 10 ^ p"
  proof -
    have "\<bar>x * 10 ^ p - z * 10 ^ p\<bar> = \<bar>x - z\<bar> * 10 ^ p" for x z :: real by (simp add: abs_mult flip: left_diff_distrib)
    then show ?thesis using mult_right_mono [OF q'(2), of "10 ^ p"] by (simp only: y_def) simp
  qed
  moreover have "\<bar>v - w\<bar> \<le> d \<Longrightarrow> \<bar>w - x\<bar> \<le> e \<Longrightarrow> \<bar>v - x\<bar> \<le> d + e" for v w x d e :: real by linarith
  ultimately have "\<bar>real n - y * 10 ^ p\<bar> \<le> 1 / 2 + y * (3 / 2 ^ 53) * 10 ^ p" by blast
  then have "2 * real u * \<bar>real n - y * 10 ^ p\<bar> \<le> 2 * real u * (1 / 2 + y * (3 / 2 ^ 53) * 10 ^ p)"
    by (rule mult_left_mono) simp
  also have "\<dots> = real u + 6 / 2 ^ 53 * (real s * 10 ^ p)" by (simp add: u [symmetric] algebra_simps)
  also have "\<dots> < real u + 1"
  proof -
    have "real (s * 10 ^ p) < real (1000 * u)" "real u \<le> real (10 ^ 12)"
      using assms(3,4) by (simp_all only: of_nat_less_iff of_nat_le_iff)
    then show ?thesis by simp
  qed
  also have "2 * real u * \<bar>real n - y * 10 ^ p\<bar> = real_of_int \<bar>2 * (int n * int u - int s * 10 ^ p)\<bar>"
  proof -
    have "real u * (real n - y * 10 ^ p) = real n * real u - real s * 10 ^ p" by (simp add: u [symmetric] algebra_simps)
    then have "real u * \<bar>real n - y * 10 ^ p\<bar> = \<bar>real n * real u - real s * 10 ^ p\<bar>" by (metis abs_mult abs_of_nat)
    then show ?thesis by (simp add: abs_mult)
  qed
  finally have "\<bar>2 * (int n * int u - int s * 10 ^ p)\<bar> < int u + 1"
    by (metis of_int_less_iff of_int_add of_int_of_nat_eq of_int_1)
  moreover have "printf_f p (double_div (to_double (s, 1)) (u, 1)) = text_fixed p n"
    by (simp add: printf_f_def q n_def del: One_nat_def)
  ultimately show ?thesis by auto
qed

section \<open>Three digits\<close>

text \<open>What \<open>formatSI\<close> is meant to print: a number \<open>n\<close> of three digits with \<open>p\<close> of them behind the point, in a unit \<open>u\<close> with letter
  \<open>c\<close>, nearest to \<open>s\<close>.\<close>

definition three_digits :: "nat \<Rightarrow> nat \<Rightarrow> char \<Rightarrow> int \<Rightarrow> string \<Rightarrow> bool" where
  "three_digits p u c s t \<longleftrightarrow>
     (\<exists>n. t = text_fixed p n @ [c] \<and> 100 \<le> n \<and> n \<le> 999 \<and> \<bar>2 * (int n * int u - s * 10 ^ p)\<bar> \<le> int u)"

lemma scaled_three_digits:
  assumes "9995 * int u \<le> 100 * (s * 10 ^ p)" "2 * (s * 10 ^ p) < 1999 * int u" "0 < u" "u \<le> 10 ^ 12"
  shows "three_digits p u c s (printf_f p (double_div (to_double (nat s, 1)) (u, 1)) @ [c])"
proof -
  have u: "0 < int u" using assms(3) by simp
  have s: "0 < s"
  proof (rule ccontr)
    assume "\<not> 0 < s"
    then have "100 * (s * 10 ^ p) \<le> 0" by (simp add: mult_nonpos_nonneg)
    then show False using assms(1,3) by linarith
  qed
  have "int (nat s * 10 ^ p) < int (1000 * u)" using assms(2,3) s by simp
  then have "nat s * 10 ^ p < 1000 * u" by (simp only: of_nat_less_iff)
  then obtain n where n: "printf_f p (double_div (to_double (nat s, 1)) (u, 1)) = text_fixed p n"
    "\<bar>2 * (int n * int u - s * 10 ^ p)\<bar> \<le> int u"
    using printf_scaled [of "nat s" u p] s assms(3,4) by auto
  have "2 * (s * 10 ^ p) \<le> int u + 2 * (int n * int u)" "2 * (int n * int u) \<le> int u + 2 * (s * 10 ^ p)"
    using abs_le_D1 [OF n(2)] abs_le_D2 [OF n(2)] by simp_all
  then have "9945 * int u \<le> 100 * (int n * int u)" "int n * int u < 1000 * int u" using assms(1,2) by linarith+
  then have "99 * int u < int n * int u" "int n * int u < 1000 * int u" using u by linarith+
  then have "99 < int n" "int n < 1000" by (simp_all only: mult_less_cancel_right_pos [OF u])
  then have "100 \<le> n" "n \<le> 999" by simp_all
  with n show ?thesis by (auto simp: three_digits_def)
qed

text \<open>The ranges, each with its number of digits behind the point, exponent of the unit and letter.\<close>

definition si_rows :: "(int \<times> int \<times> nat \<times> nat \<times> char) list" where
  "si_rows =
     [(1000, 9995, 2, 3, CHR ''k''), (9995, 99950, 1, 3, CHR ''k''), (99950, 999500, 0, 3, CHR ''k''),
      (999500, 9995000, 2, 6, CHR ''M''), (9995000, 99950000, 1, 6, CHR ''M''), (99950000, 999500000, 0, 6, CHR ''M''),
      (999500000, 9995000000, 2, 9, CHR ''G''), (9995000000, 99950000000, 1, 9, CHR ''G''), (99950000000, 999500000000, 0, 9, CHR ''G''),
      (999500000000, 9995000000000, 2, 12, CHR ''T''), (9995000000000, 99950000000000, 1, 12, CHR ''T''),
      (99950000000000, 999500000000000, 0, 12, CHR ''T'')]"

fun ranges :: "int \<Rightarrow> (int \<times> int \<times> 'a) list \<Rightarrow> int \<Rightarrow> bool" where
  "ranges a [] b \<longleftrightarrow> a = b"
| "ranges a ((lo, hi, x) # rows) b \<longleftrightarrow> lo = a \<and> ranges hi rows b"

lemma ranges_cover: "ranges a rows b \<Longrightarrow> a \<le> s \<Longrightarrow> s < b \<Longrightarrow> \<exists>lo hi x. (lo, hi, x) \<in> set rows \<and> lo \<le> s \<and> s < hi"
proof (induction a rows b rule: ranges.induct)
  case (2 a lo hi x rows b)
  then show ?case by (cases "s < hi") fastforce+
qed simp

lemma formatSI_row:
  assumes "(lo, hi, p, u, c) \<in> set si_rows" "lo \<le> s" "s < hi"
  shows "formatSI s = printf_f p (double_div (to_double (nat s, 1)) (10 ^ u, 1)) @ [c]"
  using assms unfolding si_rows_def formatSI_def Let_def by (simp, elim disjE) simp_all

lemma si_row_bounds:
  assumes "(lo, hi, p, u, c) \<in> set si_rows" "lo \<le> s" "s < hi"
  shows "9995 * 10 ^ u \<le> 100 * (s * 10 ^ p)" "2 * (s * 10 ^ p) < 1999 * 10 ^ u" "p \<le> 2" "u \<in> {3, 6, 9, 12}"
  using assms by (auto simp: si_rows_def)

lemma length_text_fixed:
  assumes "n \<le> 999" "p \<le> 2"
  shows "length (text_fixed p n) \<le> 4"
proof -
  have c: "length (convert (int n)) \<le> Suc k" if "n < 10 ^ Suc k" for n k using that by (rule length_convert_nat)
  consider "p = 0" | "p = 1" | "p = 2" using assms(2) by linarith
  then show ?thesis
  proof cases
    case 1
    then show ?thesis using c [of n 2] assms(1) by (simp add: text_fixed_def)
  next
    case 2
    moreover have "n div 10 < 10 ^ Suc 1" using assms(1) by (simp add: div_less_iff_less_mult)
    ultimately show ?thesis using c [of "n div 10" 1] c [of "n mod 10" 0] by (simp add: text_fixed_def Let_def)
  next
    case 3
    moreover have "n div 100 < 10 ^ Suc 0" using assms(1) by (simp add: div_less_iff_less_mult)
    ultimately show ?thesis using c [of "n div 100" 0] c [of "n mod 100" 1] by (simp add: text_fixed_def Let_def)
  qed
qed

lemma formatSI_edge: "formatSI 99949999999999999 = ''100.0P''"
proof -
  have "double_exp 99949999999999999 1 = 4" by (simp add: double_exp_def bitlen.simps)
  then have n: "to_double (99949999999999999, 1) = (99950000000000000, 1)"
    by (simp add: to_double_def round_div_def Let_def del: One_nat_def)
  have "double_exp 99950000000000000 1000000000000000 = - 46" by (simp add: double_exp_def bitlen.simps)
  then have "to_double (99950000000000000, 1000000000000000) = (7033355980557517, 70368744177664)"
    by (simp add: to_double_def round_div_def Let_def del: One_nat_def)
  then have "formatSI 99949999999999999 = text_fixed 1 (round_div 70333559805575170 70368744177664) @ ''P''"
    using n by (simp add: formatSI_def double_div_def printf_f_def del: One_nat_def)
  then show ?thesis
    by (simp add: round_div_def text_fixed_def Let_def convert_def convert_loop.simps zero_def digits_def signed_divide_int_def
        signed_modulo_int_def)
qed



section \<open>Binary units\<close>

text \<open>Integers below \<open>2 ^ 53\<close> and their quotients by powers of two are exact.\<close>

lemma iec_number:
  assumes "0 < s" "s < 2 ^ 53" "to_double (s, 1) = (a, b)"
  shows "0 < b" "a = s * b"
  using to_double_exact [OF assms(1) _ assms(3), of s 0] assms(2) by simp_all

lemma powi_1024: "(2 :: real) powi (10 * int k) = 1024 ^ k" "(2 :: real) powi (- 10 * int k) = 1 / 1024 ^ k"
proof -
  have "(2 :: real) powi int (10 * k) = (2 ^ 10) ^ k" by (simp only: power_int_of_nat power_mult)
  then show "(2 :: real) powi (10 * int k) = 1024 ^ k" by simp
  then show "(2 :: real) powi (- 10 * int k) = 1 / 1024 ^ k"
    using power_int_minus [of "2 :: real" "10 * int k"] by (simp add: inverse_eq_divide)
qed

lemma iec_less:
  assumes "0 < s" "s < 2 ^ 53" "0 < m" "m < 2 ^ 53"
  shows "double_less (to_double (s, 1)) (double_mult (1024 ^ k, 1) (m, 2 ^ j)) \<longleftrightarrow> s * 2 ^ j < 1024 ^ k * m"
proof -
  obtain a b where n: "to_double (s, 1) = (a, b)" by force
  obtain c d where y: "to_double (1024 ^ k * m, 2 ^ j) = (c, d)" by force
  have "real (1024 ^ k * m) / real (2 ^ j) = real m * 2 powi (10 * int k - int j)"
    by (simp add: power_int_diff powi_1024)
  note y' = to_double_exact [OF _ _ y this assms(4)]
  have d: "0 < d" "c * 2 ^ j = 1024 ^ k * m * d" using y' assms(3) by simp_all
  have "s * d < c \<longleftrightarrow> s * d * 2 ^ j < c * 2 ^ j" by simp
  also have "\<dots> \<longleftrightarrow> s * 2 ^ j * d < 1024 ^ k * m * d" by (simp only: d(2) ac_simps)
  also have "\<dots> \<longleftrightarrow> s * 2 ^ j < 1024 ^ k * m" using d(1) by simp
  finally have "s * d < c \<longleftrightarrow> s * 2 ^ j < 1024 ^ k * m" .
  then show ?thesis
    using iec_number [OF assms(1,2) n] y by (simp add: double_less_def double_mult_def n ac_simps del: One_nat_def)
qed

lemma iec_printed:
  assumes "0 < s" "s < 2 ^ 53"
  shows "\<exists>n. printf_f p (double_div (to_double (s, 1)) (1024 ^ k, 1)) = text_fixed p n \<and>
    \<bar>2 * (int n * 1024 ^ k - int s * 10 ^ p)\<bar> \<le> 1024 ^ k"
proof -
  obtain a b where n: "to_double (s, 1) = (a, b)" by force
  note n' = iec_number [OF assms n]
  obtain c d where q: "to_double (a, b * 1024 ^ k) = (c, d)" by force
  have "real a / real (b * 1024 ^ k) = real s * 2 powi (- 10 * int k)"
    using n' by (simp only: powi_1024) simp
  note q' = to_double_exact [OF _ _ q this assms(2)]
  have d: "0 < d" "c * 1024 ^ k = s * d" using q' n' assms(1) by auto
  define r where "r = round_div (c * 10 ^ p) d"
  have "\<bar>2 * (int r * int d - int c * 10 ^ p)\<bar> \<le> int d" using round_div_nearest [OF d(1), of "c * 10 ^ p"] by (simp add: r_def)
  then have "\<bar>2 * (int r * int d - int c * 10 ^ p)\<bar> * 1024 ^ k \<le> int d * 1024 ^ k" by (rule mult_right_mono) simp
  also have "\<bar>2 * (int r * int d - int c * 10 ^ p)\<bar> * 1024 ^ k = \<bar>2 * (int r * 1024 ^ k - int s * 10 ^ p)\<bar> * int d"
  proof -
    have c: "int c * 1024 ^ k = int s * int d" using d(2) by (metis of_nat_mult of_nat_numeral of_nat_power)
    have "(int r * int d - int c * 10 ^ p) * 1024 ^ k = int r * int d * 1024 ^ k - int c * 1024 ^ k * 10 ^ p"
      by (simp add: algebra_simps)
    also have "\<dots> = (int r * 1024 ^ k - int s * 10 ^ p) * int d" by (simp only: c) (simp add: algebra_simps)
    finally have e: "(int r * int d - int c * 10 ^ p) * 1024 ^ k = (int r * 1024 ^ k - int s * 10 ^ p) * int d" .
    have "\<bar>2 * x\<bar> * 1024 ^ k = \<bar>2 * y\<bar> * int d" if "x * 1024 ^ k = y * int d" for x y :: int
      using arg_cong [OF that, of "\<lambda>z. \<bar>2 * z\<bar>"] by (simp add: abs_mult)
    from this [OF e] show ?thesis .
  qed
  finally have "\<bar>2 * (int r * 1024 ^ k - int s * 10 ^ p)\<bar> \<le> 1024 ^ k" using d(1) by (simp add: mult.commute)
  moreover have "printf_f p (double_div (to_double (s, 1)) (1024 ^ k, 1)) = text_fixed p r"
    by (simp add: printf_f_def double_div_def n q r_def del: One_nat_def)
  ultimately show ?thesis by blast
qed

lemma iec_limits:
  "to_double (9995, 1000) = (5626684784446013, 2 ^ 49)"
  "to_double (9995, 100) = (7033355980557517, 2 ^ 46)"
  "to_double (10235, 10) = (9002801208229888, 2 ^ 43)"
proof -
  have "double_exp 9995 1000 = - 49" "double_exp 9995 100 = - 46" "double_exp 10235 10 = - 43"
    by (simp_all add: double_exp_def bitlen.simps)
  then show "to_double (9995, 1000) = (5626684784446013, 2 ^ 49)" "to_double (9995, 100) = (7033355980557517, 2 ^ 46)"
    "to_double (10235, 10) = (9002801208229888, 2 ^ 43)"
    by (simp_all add: to_double_def round_div_def Let_def)
qed

text \<open>What \<open>formatIEC\<close> is meant to print: \<open>n\<close> with \<open>p\<close> digits behind the point, in units of \<open>1024 ^ k\<close>.\<close>

definition iec_units :: "string list" where
  "iec_units = [''Ki'', ''Mi'', ''Gi'', ''Ti'', ''Pi'']"

definition iec_text :: "nat \<Rightarrow> string \<Rightarrow> bool" where
  "iec_text s t \<longleftrightarrow>
     (\<exists>k < 5. \<exists>p \<le> 2. \<exists>n. t = text_fixed p n @ iec_units ! k \<and> n \<le> (if p = 0 then 1023 else 999) \<and>
        \<bar>2 * (int n * 1024 ^ Suc k - int s * 10 ^ p)\<bar> \<le> 1024 ^ Suc k)"

lemma iec_branch:
  assumes "0 < s" "s < 2 ^ 53" "k < 5" "p \<le> 2" "2 * (int s * 10 ^ p) < (if p = 0 then 2047 else 1999) * 1024 ^ Suc k"
  shows "iec_text s (printf_f p (double_div (to_double (s, 1)) (1024 ^ Suc k, 1)) @ iec_units ! k)"
proof -
  define u :: int where "u = 1024 ^ Suc k"
  obtain n where n: "printf_f p (double_div (to_double (s, 1)) (1024 ^ Suc k, 1)) = text_fixed p n"
    "\<bar>2 * (int n * u - int s * 10 ^ p)\<bar> \<le> u"
    using iec_printed [OF assms(1,2), of p "Suc k"] unfolding u_def by blast
  have u: "0 < u" by (simp add: u_def)
  have "2 * (int n * u) \<le> u + 2 * (int s * 10 ^ p)" using abs_le_D1 [OF n(2)] by simp
  then have "int n * u < (if p = 0 then 1024 else 1000) * u" using assms(5) unfolding u_def [symmetric]
    by (cases "p = 0"; simp only: if_True if_False refl)
  then have "int n < (if p = 0 then 1024 else 1000)" by (simp only: mult_less_cancel_right_pos [OF u])
  then have "n \<le> (if p = 0 then 1023 else 999)" by (simp split: if_splits)
  then show ?thesis using n assms(3,4) unfolding iec_text_def u_def by blast
qed

text \<open>The literal 99.95 is a little too large as a \<open>double\<close>, but no integer lies between the two limits.\<close>

lemma iec_limit_tenths:
  assumes "k < 4" "s * 2 ^ 46 < 1024 ^ Suc k * 7033355980557517"
  shows "2 * (int s * 10) < 1999 * 1024 ^ Suc k"
proof -
  consider "k = 0" | "k = 1" | "k = 2" | "k = 3" using assms(1) by linarith
  then show ?thesis
  proof cases
    case 1
    with assms(2) have "s < 102349" by simp
    with 1 show ?thesis by simp
  next
    case 2
    with assms(2) have "s < 104805172" by simp
    with 2 show ?thesis by simp
  next
    case 3
    with assms(2) have "s < 107320495309" by simp
    with 3 show ?thesis by simp
  next
    case 4
    with assms(2) have "s < 109896187196212" by simp
    with 4 show ?thesis by simp
  qed
qed

lemma iec_limit:
  assumes "s * 2 ^ 49 < 1024 ^ Suc k * 5626684784446013"
  shows "2 * (int s * 100) < 1999 * 1024 ^ Suc k"
proof -
  have "s * 2 ^ 49 * 1000 < 1024 ^ Suc k * 5626684784446013 * 1000" using assms by simp
  also have "\<dots> \<le> 1024 ^ Suc k * (9995 * 2 ^ 49)" by (simp only: mult.assoc) (rule mult_le_mono2, simp)
  finally have "s * 1000 < 9995 * 1024 ^ Suc k" by (simp add: mult.commute mult.left_commute)
  then have "int (s * 1000) < int (9995 * 1024 ^ Suc k)" by (simp only: of_nat_less_iff)
  then show ?thesis by simp
qed

lemma iec_limit_units:
  assumes "s * 2 ^ 43 < 1024 ^ Suc k * 9002801208229888"
  shows "2 * int s < 2047 * 1024 ^ Suc k"
proof -
  have "s * 2 ^ 43 * 2 < 1024 ^ Suc k * 9002801208229888 * 2" using assms by simp
  also have "\<dots> = 1024 ^ Suc k * (2047 * 2 ^ 43)" by (simp only: mult.assoc) simp
  finally have "2 * s < 2047 * 1024 ^ Suc k" by (simp add: mult.commute mult.left_commute)
  then have "int (2 * s) < int (2047 * 1024 ^ Suc k)" by (simp only: of_nat_less_iff)
  then show ?thesis by simp
qed

text \<open>A condition of \<open>formatIEC\<close> that holds leads to a text of its unit.\<close>

lemma iec_step:
  assumes "0 < s" "s < 2 ^ 53"
  defines "lt \<equiv> \<lambda>k a b. double_less (to_double (s, 1)) (double_mult (1024 ^ k, 1) (to_double (a, b)))"
    and "q \<equiv> \<lambda>p k. printf_f p (double_div (to_double (s, 1)) (1024 ^ k, 1))"
  shows "k < 5 \<Longrightarrow> iec_text s t \<Longrightarrow> iec_text s (if lt (Suc k) 9995 1000 then q 2 (Suc k) @ iec_units ! k else t)"
    and "k < 4 \<Longrightarrow> iec_text s t \<Longrightarrow> iec_text s (if lt (Suc k) 9995 100 then q 1 (Suc k) @ iec_units ! k else t)"
    and "k < 5 \<Longrightarrow> iec_text s t \<Longrightarrow> iec_text s (if lt (Suc k) 10235 10 then q 0 (Suc k) @ iec_units ! k else t)"
proof -
  have branch: "iec_text s (q p (Suc k) @ iec_units ! k)"
    if "k < 5" "p \<le> 2" "2 * (int s * 10 ^ p) < (if p = 0 then 2047 else 1999) * 1024 ^ Suc k" for p
    unfolding q_def by (rule iec_branch [OF assms(1,2) that])
  have lt: "lt (Suc k) 9995 1000 \<longleftrightarrow> s * 2 ^ 49 < 1024 ^ Suc k * 5626684784446013"
    "lt (Suc k) 9995 100 \<longleftrightarrow> s * 2 ^ 46 < 1024 ^ Suc k * 7033355980557517"
    "lt (Suc k) 10235 10 \<longleftrightarrow> s * 2 ^ 43 < 1024 ^ Suc k * 9002801208229888"
    unfolding lt_def iec_limits by (rule iec_less [OF assms(1,2)]; simp)+
  have "lt (Suc k) 9995 1000 \<Longrightarrow> 2 * (int s * 10\<^sup>2) < 1999 * 1024 ^ Suc k"
    unfolding lt by (drule iec_limit) simp
  with branch [of 2] show "k < 5 \<Longrightarrow> iec_text s t \<Longrightarrow> iec_text s (if lt (Suc k) 9995 1000 then q 2 (Suc k) @ iec_units ! k else t)"
    by simp
  have "k < 4 \<Longrightarrow> lt (Suc k) 9995 100 \<Longrightarrow> 2 * (int s * 10 ^ 1) < 1999 * 1024 ^ Suc k"
    unfolding lt power_one_right by (rule iec_limit_tenths)
  with branch [of 1] show "k < 4 \<Longrightarrow> iec_text s t \<Longrightarrow> iec_text s (if lt (Suc k) 9995 100 then q 1 (Suc k) @ iec_units ! k else t)"
    by simp
  have "lt (Suc k) 10235 10 \<Longrightarrow> 2 * (int s * 10 ^ 0) < 2047 * 1024 ^ Suc k"
    unfolding lt by (drule iec_limit_units) simp
  with branch [of 0] show "k < 5 \<Longrightarrow> iec_text s t \<Longrightarrow> iec_text s (if lt (Suc k) 10235 10 then q 0 (Suc k) @ iec_units ! k else t)"
    by simp
qed

text \<open>Below \<open>2 ^ 53\<close> bytes, \<open>formatIEC\<close> prints a number under 1024 in full and any other nearest to the exact quotient, with at most three
  digits, or up to 1023 without a point.\<close>

theorem formatIEC_nearest:
  assumes "0 \<le> s" "s < 2 ^ 53"
  shows "if s < 1024 then parse_dec (formatIEC s) = Some s else iec_text (nat s) (formatIEC s)"
proof (cases "s = 0")
  case True
  have "to_double (nat 0, 1) = (0, 1)" by (simp add: to_double_def)
  then have "formatIEC 0 = convert 0" by (simp add: formatIEC_def double_less_def)
  then show ?thesis using True convert_parsed [of 0] by simp
next
  case False
  define m where "m = nat s"
  have m: "0 < m" "m < 2 ^ 53" "s = int m" using assms False by (simp_all add: m_def nat_less_iff)
  define lt where "lt = (\<lambda>k a b. double_less (to_double (m, 1)) (double_mult (1024 ^ k, 1) (to_double (a, b))))"
  define q where "q = (\<lambda>p k. printf_f p (double_div (to_double (m, 1)) (1024 ^ k, 1)))"
  have "double_less (to_double (m, 1)) (1024 ^ 1, 1) \<longleftrightarrow> m < 1024"
    using iec_number [OF m(1,2)] by (cases "to_double (m, 1)") (simp add: double_less_def)
  then have f: "formatIEC s =
    (if m < 1024 then convert (int m)
     else if lt 1 9995 1000 then q 2 1 @ ''Ki'' else if lt 1 9995 100 then q 1 1 @ ''Ki'' else if lt 1 10235 10 then q 0 1 @ ''Ki''
     else if lt 2 9995 1000 then q 2 2 @ ''Mi'' else if lt 2 9995 100 then q 1 2 @ ''Mi'' else if lt 2 10235 10 then q 0 2 @ ''Mi''
     else if lt 3 9995 1000 then q 2 3 @ ''Gi'' else if lt 3 9995 100 then q 1 3 @ ''Gi'' else if lt 3 10235 10 then q 0 3 @ ''Gi''
     else if lt 4 9995 1000 then q 2 4 @ ''Ti'' else if lt 4 9995 100 then q 1 4 @ ''Ti'' else if lt 4 10235 10 then q 0 4 @ ''Ti''
     else if lt 5 9995 1000 then q 2 5 @ ''Pi'' else if lt 5 9995 100 then q 1 5 @ ''Pi'' else if lt 5 10235 10 then q 0 5 @ ''Pi''
     else if lt 6 9995 1000 then q 2 6 @ ''Ei'' else q 1 6 @ ''Ei'')"
    unfolding formatIEC_def Let_def lt_def q_def m(3) by (simp only: nat_int of_nat_less_0_iff simp_thms)
  have top: "lt 5 9995 1000" unfolding lt_def iec_limits using iec_less [OF m(1,2), of 5626684784446013 5 49] m(2) by simp
  have step: "iec_text m t \<Longrightarrow> iec_text m (if lt (Suc k) 9995 1000 then q 2 (Suc k) @ iec_units ! k else t)"
    "iec_text m t \<Longrightarrow> iec_text m (if lt (Suc k) 9995 100 then q 1 (Suc k) @ iec_units ! k else t)"
    "iec_text m t \<Longrightarrow> iec_text m (if lt (Suc k) 10235 10 then q 0 (Suc k) @ iec_units ! k else t)" if "k < 4" for k t
    unfolding lt_def q_def using that iec_step [OF m(1,2), of k t] by simp_all
  have unit: "iec_units ! 0 = ''Ki''" "iec_units ! 1 = ''Mi''" "iec_units ! 2 = ''Gi''" "iec_units ! 3 = ''Ti''"
    and k: "Suc 0 = 1" "Suc 1 = 2" "Suc 2 = 3" "Suc 3 = 4" by (simp_all add: iec_units_def)
  note steps = step [of 0, unfolded unit k, OF zero_less_numeral] step [of 1, unfolded unit k] step [of 2, unfolded unit k] step [of 3, unfolded unit k]
  have "iec_text m (q 2 5 @ ''Pi'')" using iec_branch [OF m(1,2), of 4 2] m(2) by (simp add: q_def iec_units_def)
  with top have "iec_text m (if lt 5 9995 1000 then q 2 5 @ ''Pi'' else t)" for t by simp
  then have "iec_text m (formatIEC s)" if "\<not> m < 1024" unfolding f if_not_P [OF that] by (intro steps) simp_all
  moreover have "parse_dec (formatIEC s) = Some s" if "m < 1024" unfolding f if_P [OF that] by (simp only: convert_parsed m(3))
  ultimately show ?thesis by (simp add: m(3))
qed

end
