(* ===== verification/Log_Stream.thy ===== *)
theory Log_Stream
  imports Stream_Buffer
begin

text \<open>
  The stream of the log messages, \<open>include/log/log_stream.h\<close>: its own buffer class and the operators that are defined in
  the header. The operators on numbers and pointers are only declared there; their code belongs to the
  logging library and is not part of the repository. The one inline operator that calls such an operator, the one on \<open>float\<close>, takes
  it as an argument.
\<close>

section \<open>The buffer\<close>

record LogBuffer =
  lb_data :: "char list"
  lb_cur :: nat
  lb_cookie :: cookie

definition LogBuffer_init :: "char list \<Rightarrow> LogBuffer" where
  "LogBuffer_init mem = \<lparr>lb_data = mem, lb_cur = 0, lb_cookie = cookieStart\<rparr>"

definition LogBuffer_destroy :: "LogBuffer \<Rightarrow> LogBuffer" where
  "LogBuffer_destroy b = b\<lparr>lb_cookie := cookieEnd\<rparr>"

definition LogBuffer_avail :: "LogBuffer \<Rightarrow> int" where
  "LogBuffer_avail b = int (length (lb_data b)) - int (lb_cur b)"

definition LogBuffer_append :: "char list \<Rightarrow> uint64 \<Rightarrow> LogBuffer \<Rightarrow> LogBuffer" where
  "LogBuffer_append buf len b =
     (if word_of_int (LogBuffer_avail b) > len
      then b\<lparr>lb_data := blit (lb_cur b) (take (unat len) buf) (lb_data b), lb_cur := lb_cur b + unat len\<rparr>
      else b)"

definition LogBuffer_length :: "LogBuffer \<Rightarrow> nat" where
  "LogBuffer_length b = lb_cur b"

definition LogBuffer_add :: "nat \<Rightarrow> LogBuffer \<Rightarrow> LogBuffer" where
  "LogBuffer_add len b = b\<lparr>lb_cur := lb_cur b + len\<rparr>"

definition LogBuffer_reset :: "LogBuffer \<Rightarrow> LogBuffer" where
  "LogBuffer_reset b = b\<lparr>lb_cur := 0\<rparr>"

definition LogBuffer_bzero :: "LogBuffer \<Rightarrow> LogBuffer" where
  "LogBuffer_bzero b = b\<lparr>lb_data := memZero (length (lb_data b)) (lb_data b)\<rparr>"

definition LogBuffer_toString :: "LogBuffer \<Rightarrow> string" where
  "LogBuffer_toString b = take (LogBuffer_length b) (lb_data b)"

section \<open>The stream\<close>

record LogStream =
  log_buffer :: LogBuffer

definition LogStream_put_bool :: "bool \<Rightarrow> LogStream \<Rightarrow> LogStream" where
  "LogStream_put_bool v s = s\<lparr>log_buffer := LogBuffer_append (if v then ''1'' else ''0'') 1 (log_buffer s)\<rparr>"

text \<open>A \<open>float\<close> is given by its bits; \<open>put_dbl\<close> is the operator on \<open>double\<close>.\<close>

definition LogStream_put_float :: "(fp \<Rightarrow> LogStream \<Rightarrow> LogStream) \<Rightarrow> uint32 \<Rightarrow> LogStream \<Rightarrow> LogStream" where
  "LogStream_put_float put_dbl v s = put_dbl (float_of_bits v) s"

definition LogStream_put_char :: "char \<Rightarrow> LogStream \<Rightarrow> LogStream" where
  "LogStream_put_char v s = s\<lparr>log_buffer := LogBuffer_append [v] 1 (log_buffer s)\<rparr>"

definition LogStream_put_string :: "string \<Rightarrow> LogStream \<Rightarrow> LogStream" where
  "LogStream_put_string v s = s\<lparr>log_buffer := LogBuffer_append v (of_nat (length v)) (log_buffer s)\<rparr>"

definition LogStream_put_buffer :: "LogBuffer \<Rightarrow> LogStream \<Rightarrow> LogStream" where
  "LogStream_put_buffer v s = LogStream_put_string (LogBuffer_toString v) s"

definition LogStream_append :: "char list \<Rightarrow> int \<Rightarrow> LogStream \<Rightarrow> LogStream" where
  "LogStream_append data len s = s\<lparr>log_buffer := LogBuffer_append data (word_of_int len) (log_buffer s)\<rparr>"

definition LogStream_resetBuffer :: "LogStream \<Rightarrow> LogStream" where
  "LogStream_resetBuffer s = s\<lparr>log_buffer := LogBuffer_reset (log_buffer s)\<rparr>"

definition LogStream_put_cstr :: "char list option \<Rightarrow> LogStream \<Rightarrow> LogStream" where
  "LogStream_put_cstr str s =
     (case str of
        Some m \<Rightarrow> s\<lparr>log_buffer := LogBuffer_append m (of_nat (length (c_str m))) (log_buffer s)\<rparr>
      | None \<Rightarrow> s\<lparr>log_buffer := LogBuffer_append ''(null)'' 6 (log_buffer s)\<rparr>)"

definition LogStream_put_ucstr :: "char list option \<Rightarrow> LogStream \<Rightarrow> LogStream" where
  "LogStream_put_ucstr str s = LogStream_put_cstr str s"

text \<open>The operators whose code is in the header.\<close>

datatype log_arg =
  LogBool bool | LogChar char | LogUCStr "char list option" | LogString string | LogBuf LogBuffer | LogCStr "char list option"

fun LogStream_put :: "log_arg \<Rightarrow> LogStream \<Rightarrow> LogStream" where
  "LogStream_put (LogBool v) = LogStream_put_bool v"
| "LogStream_put (LogChar v) = LogStream_put_char v"
| "LogStream_put (LogUCStr v) = LogStream_put_ucstr v"
| "LogStream_put (LogString v) = LogStream_put_string v"
| "LogStream_put (LogBuf v) = LogStream_put_buffer v"
| "LogStream_put (LogCStr v) = LogStream_put_cstr v"

section \<open>Refinement of the stream\<close>

text \<open>Both headers define the same class: what an operator does to a log stream is what the operator of \<open>include/stream.h\<close> does to the stream with
  the same bytes.\<close>

definition buf_of :: "LogBuffer \<Rightarrow> FixedBuffer" where
  "buf_of b = \<lparr>fb_data = lb_data b, fb_cur = lb_cur b, fb_cookie = lb_cookie b\<rparr>"

definition stream_of :: "LogStream \<Rightarrow> Stream" where
  "stream_of s = \<lparr>buffer = buf_of (log_buffer s)\<rparr>"

fun arg_of :: "log_arg \<Rightarrow> arg" where
  "arg_of (LogBool v) = ArgBool v"
| "arg_of (LogChar v) = ArgChar v"
| "arg_of (LogUCStr v) = ArgUCStr v"
| "arg_of (LogString v) = ArgString v"
| "arg_of (LogBuf v) = ArgBuffer (buf_of v)"
| "arg_of (LogCStr v) = ArgCStr v"

lemma LogBuffer_toString_refines: "LogBuffer_toString b = FixedBuffer_toString (buf_of b)"
  by (simp add: LogBuffer_toString_def LogBuffer_length_def FixedBuffer_toString_def FixedBuffer_length_def buf_of_def)

lemma LogBuffer_append_refines: "buf_of (LogBuffer_append t n b) = FixedBuffer_append t n (buf_of b)"
  by (simp add: LogBuffer_append_def LogBuffer_avail_def FixedBuffer_append_def FixedBuffer_avail_def buf_of_def)

lemma append_c_str:
  assumes "length m < 2 ^ 64"
  shows "FixedBuffer_append m (of_nat (length (c_str m))) b = FixedBuffer_append (c_str m) (of_nat (length (c_str m))) b"
proof -
  have le: "length (c_str m) \<le> length m" unfolding c_str_def by (rule length_takeWhile_le)
  then have "unat (of_nat (length (c_str m)) :: uint64) = length (c_str m)" using assms by (simp add: unat_of_nat_lt)
  moreover have "take (length (c_str m)) m = c_str m" unfolding c_str_def by (rule takeWhile_eq_take [symmetric])
  ultimately have "take (unat (of_nat (length (c_str m)) :: uint64)) m = take (unat (of_nat (length (c_str m)) :: uint64)) (c_str m)"
    by (simp only: take_all)
  then show ?thesis by (simp only: FixedBuffer_append_def)
qed

text \<open>The memory at a pointer is no longer than the address space.\<close>

fun addressable :: "log_arg \<Rightarrow> bool" where
  "addressable (LogUCStr (Some m)) = (length m < 2 ^ 64)"
| "addressable (LogCStr (Some m)) = (length m < 2 ^ 64)"
| "addressable x = (length (arg_text (arg_of x)) < 2 ^ 64)"

lemma LogStream_put_refines:
  assumes "addressable x"
  shows "stream_of (LogStream_put x s) = Stream_put (arg_of x) (stream_of s)"
  using assms
  by (cases x rule: addressable.cases)
    (simp_all add: stream_of_def stream_ops put_string_def LogBuffer_append_refines LogBuffer_toString_refines append_c_str
      LogStream_put_bool_def LogStream_put_char_def LogStream_put_ucstr_def LogStream_put_string_def LogStream_put_buffer_def
      LogStream_put_cstr_def)

lemma LogStream_others_refine:
  "stream_of (LogStream_append t n s) = Stream_append t n (stream_of s)"
  "stream_of (LogStream_resetBuffer s) = Stream_reset (stream_of s)"
  "buf_of (LogBuffer_bzero b) = FixedBuffer_bzero (buf_of b)"
  "buf_of (LogBuffer_add k b) = FixedBuffer_add k (buf_of b)"
  "buf_of (LogBuffer_init mem) = FixedBuffer_init mem"
  "buf_of (LogBuffer_destroy b) = FixedBuffer_destroy (buf_of b)"
  by (simp_all add: stream_of_def buf_of_def LogStream_append_def Stream_append_def LogBuffer_append_refines [unfolded buf_of_def]
      LogStream_resetBuffer_def Stream_reset_def LogBuffer_reset_def FixedBuffer_reset_def LogBuffer_bzero_def FixedBuffer_bzero_def
      LogBuffer_add_def FixedBuffer_add_def LogBuffer_init_def FixedBuffer_init_def LogBuffer_destroy_def FixedBuffer_destroy_def)

section \<open>Log messages\<close>

lemma addressable_text: "addressable x \<Longrightarrow> length (arg_text (arg_of x)) < 2 ^ 64"
  using length_takeWhile_le [of "\<lambda>c. c \<noteq> NUL"]
  by (cases x rule: addressable.cases) (simp_all add: c_str_def le_less_trans [OF length_takeWhile_le])

interpretation log_sink: text_sink LogStream_put "\<lambda>x. arg_text (arg_of x)" "\<lambda>x. arg_need (arg_of x)" addressable
  "\<lambda>s. buffer_ok (buffer (stream_of s))" "\<lambda>s. LogBuffer_toString (log_buffer s)" "\<lambda>s. Stream_room (stream_of s)"
proof
  fix s :: LogStream and x assume ok: "buffer_ok (buffer (stream_of s))" and a: "addressable x"
  have str: "LogBuffer_toString (log_buffer t) = FixedBuffer_toString (buffer (stream_of t))" for t :: LogStream
    by (simp add: stream_of_def LogBuffer_toString_refines)
  show "buffer_ok (buffer (stream_of (LogStream_put x s)))"
    "LogBuffer_toString (log_buffer (LogStream_put x s)) =
       LogBuffer_toString (log_buffer s) @ (if arg_need (arg_of x) \<le> Stream_room (stream_of s) then arg_text (arg_of x) else [])"
    "Stream_room (stream_of (LogStream_put x s)) =
       Stream_room (stream_of s) - (if arg_need (arg_of x) \<le> Stream_room (stream_of s) then length (arg_text (arg_of x)) else 0)"
    using stream_sink.put_ok [OF ok addressable_text [OF a]] stream_sink.put_content [OF ok addressable_text [OF a]]
      stream_sink.put_room [OF ok addressable_text [OF a]]
    by (simp_all add: LogStream_put_refines [OF a] str)
qed

text \<open>A message that is put together from texts comes out whole when it fits the 4000 characters of the buffer.\<close>

theorem log_message_whole:
  assumes "list_all addressable xs" "sum_list (map (\<lambda>x. arg_need (arg_of x)) xs) \<le> kSmallBuffer" "length mem = kSmallBuffer"
  shows "LogBuffer_toString (log_buffer (fold LogStream_put xs \<lparr>log_buffer = LogBuffer_init mem\<rparr>)) =
    concat (map (\<lambda>x. arg_text (arg_of x)) xs)"
proof -
  let ?s = "\<lparr>log_buffer = LogBuffer_init mem\<rparr>"
  have "buffer_ok (buffer (stream_of ?s))" "Stream_room (stream_of ?s) = kSmallBuffer"
    using assms(3) by (simp_all add: stream_of_def LogStream_others_refine buffer_ok_def FixedBuffer_init_def kSmallBuffer_def Stream_room_def)
  moreover have "printed (\<lambda>x. arg_need (arg_of x)) (\<lambda>x. arg_text (arg_of x)) kSmallBuffer xs = xs"
    using assms(2) arg_text_need by (intro printed_all) auto
  ultimately show ?thesis
    using log_sink.puts_spec [of ?s xs] assms(1) by (simp add: LogBuffer_toString_def LogBuffer_length_def LogBuffer_init_def)
qed

end
