(* ===== verification/Io_Event.thy ===== *)
theory Io_Event
  imports Epoll
begin

text \<open>
  Waiting for a descriptor: \<open>IOEvent\<close> of \<open>include/io_event.h\<close> and \<open>src/io_event.cc\<close>, and the state
  the socket operations run on. A socket operation alternates between calls of the kernel, calls
  of its scheduler, and suspensions. What comes back to it, in order, is the list \<open>inputs\<close>: the answer of a system call
  (result, \<open>errno\<close>, bytes received), the answer of \<open>AddIoEvent\<close>, and, when it is resumed after a
  \<open>Yield\<close>, whether the scheduler says it timed out. What it did, in order, with what came back, is the list
  \<open>trace\<close>. An operation has no result when the inputs are used up before it returns.
\<close>

section \<open>Calls\<close>

datatype input = Ret int int "byte list" | Added bool | Resumed bool

text \<open>An address is handed to the kernel as the bytes that \<open>addr\<close> and \<open>addrlen\<close> delimit. The last call is a message to
  the log.\<close>

datatype call =
    CRecv int int | CSend int "byte list" | CRecvfrom int int | CSendto int "byte list" "byte list"
  | CAccept int | CConnect int "byte list" | CClose int | CShutdown int int | CSocket int int int
  | CBind int "byte list" | CListen int int | CGetsockopt int int int | CSetsockopt int int int "byte list" | CFcntl int int int
  | CAddIoEvent int io_event_t | CDelIoEvent int io_event_t | CDelIoEvents int
  | CAddTimer uint32 | CSleep uint32 | CYield | CDelCtxRead int | CDelCtxWrite int
  | CGetsockname int | CGetpeername int | CLogError string

record io_st =
  inputs :: "input list"
  trace :: "(call \<times> input option) list"
  errno :: int

text \<open>A call that returns nothing, and one that takes the next input.\<close>

definition emit :: "call \<Rightarrow> io_st \<Rightarrow> io_st" where
  "emit c st = st\<lparr>trace := trace st @ [(c, None)]\<rparr>"

definition ask :: "call \<Rightarrow> io_st \<Rightarrow> (input \<times> io_st) option" where
  "ask c st =
     (case inputs st of
        [] \<Rightarrow> None
      | i # is \<Rightarrow> Some (i, st\<lparr>inputs := is, trace := trace st @ [(c, Some i)]\<rparr>))"

text \<open>A system call: its result and the bytes it delivered, with \<open>errno\<close> set by it.\<close>

definition syscall :: "call \<Rightarrow> io_st \<Rightarrow> (int \<times> byte list \<times> io_st) option" where
  "syscall c st =
     (case ask c st of
        Some (Ret r e bytes, st') \<Rightarrow> Some (r, bytes, st'\<lparr>errno := (if r = - 1 then e else errno st')\<rparr>)
      | _ \<Rightarrow> None)"

section \<open>The event\<close>

record IOEvent =
  ev_fd :: int
  ev_ev :: io_event_t
  has_ev :: bool

definition IOEvent_IOEvent :: "int \<Rightarrow> io_event_t \<Rightarrow> IOEvent" where
  [model_defs]: "IOEvent_IOEvent fd ev = \<lparr>ev_fd = fd, ev_ev = ev, has_ev = False\<rparr>"

definition IOEvent_destroy :: "IOEvent \<Rightarrow> io_st \<Rightarrow> io_st" where
  [model_defs]: "IOEvent_destroy ev st = (if has_ev ev then emit (CDelIoEvent (ev_fd ev) (ev_ev ev)) st else st)"

text \<open>The suspension: what \<open>is_timeout\<close> says after it.\<close>

definition yield_timeout :: "io_st \<Rightarrow> (bool \<times> io_st) option" where
  "yield_timeout st = (case ask CYield st of Some (Resumed t, st') \<Rightarrow> Some (t, st') | _ \<Rightarrow> None)"

definition wait_registered :: "uint32 \<Rightarrow> io_st \<Rightarrow> (bool \<times> io_st) option" where
  [model_defs]: "wait_registered ms st =
     (if ms \<noteq> - 1
      then (case yield_timeout (emit (CAddTimer ms) st) of
              None \<Rightarrow> None
            | Some (t, st') \<Rightarrow> if \<not> t then Some (True, st') else Some (False, st'\<lparr>errno := ETIMEDOUT\<rparr>))
      else map_option (\<lambda>(t, st'). (True, st')) (yield_timeout st))"

definition IOEvent_wait :: "uint32 \<Rightarrow> IOEvent \<Rightarrow> io_st \<Rightarrow> (bool \<times> IOEvent \<times> io_st) option" where
  [model_defs]: "IOEvent_wait ms ev st =
     (if has_ev ev then map_option (\<lambda>(ok, st'). (ok, ev, st')) (wait_registered ms st)
      else case ask (CAddIoEvent (ev_fd ev) (ev_ev ev)) st of
             Some (Added ok, st') \<Rightarrow>
               (let ev' = ev\<lparr>has_ev := ok\<rparr> in
                if \<not> ok then Some (False, ev', st')
                else map_option (\<lambda>(ok, st''). (ok, ev', st'')) (wait_registered ms st'))
           | _ \<Rightarrow> None)"

section \<open>Facts the socket operations share\<close>

lemma ask_Some:
  "ask c st = Some (i, st') \<Longrightarrow> inputs st = i # inputs st' \<and> trace st' = trace st @ [(c, Some i)] \<and> errno st' = errno st"
  by (auto simp: ask_def split: list.splits)

lemma syscall_Some:
  "syscall c st = Some (r, bs, st') \<Longrightarrow>
     \<exists>e. inputs st = Ret r e bs # inputs st' \<and> trace st' = trace st @ [(c, Some (Ret r e bs))]"
  by (auto simp: syscall_def dest!: ask_Some split: option.splits prod.splits input.splits)

lemma wait_registered_Some:
  assumes "wait_registered ms st = Some (ok, st')"
  shows "\<exists>t. inputs st = Resumed t # inputs st' \<and>
    trace st' = trace st @ (if ms \<noteq> - 1 then [(CAddTimer ms, None)] else []) @ [(CYield, Some (Resumed t))]"
  using assms
  by (auto simp: wait_registered_def yield_timeout_def emit_def dest!: ask_Some
      split: option.splits prod.splits input.splits if_splits)

text \<open>The calls of a wait, none of which is a system call on data.\<close>

definition wait_calls :: "IOEvent \<Rightarrow> (call \<times> input option) list \<Rightarrow> bool" where
  "wait_calls ev tr \<longleftrightarrow> (\<forall>(c, i) \<in> set tr. c = CAddIoEvent (ev_fd ev) (ev_ev ev) \<or> c = CYield \<or> (\<exists>ms. c = CAddTimer ms))"

lemma IOEvent_wait_Some:
  assumes "IOEvent_wait ms ev st = Some (ok, ev', st')"
  shows "length (inputs st') < length (inputs st)" "ev_fd ev' = ev_fd ev" "ev_ev ev' = ev_ev ev"
    and "\<exists>tr. trace st' = trace st @ tr \<and> wait_calls ev tr"
proof -
  have "length (inputs st') < length (inputs st) \<and> ev_fd ev' = ev_fd ev \<and> ev_ev ev' = ev_ev ev \<and>
    (\<exists>tr. trace st' = trace st @ tr \<and> wait_calls ev tr)"
  proof (cases "has_ev ev")
    case True
    with assms obtain st1 where "wait_registered ms st = Some (ok, st')" "ev' = ev"
      by (auto simp: IOEvent_wait_def)
    with wait_registered_Some show ?thesis by (fastforce simp: wait_calls_def)
  next
    case False
    then obtain a st1 where a: "ask (CAddIoEvent (ev_fd ev) (ev_ev ev)) st = Some (Added a, st1)"
      using assms by (auto simp: IOEvent_wait_def split: option.splits input.splits)
    note a' = ask_Some [OF a]
    show ?thesis
    proof (cases a)
      case True
      with assms a False have "wait_registered ms st1 = Some (ok, st')" "ev' = ev\<lparr>has_ev := True\<rparr>"
        by (auto simp: IOEvent_wait_def Let_def)
      with wait_registered_Some [of ms st1 ok st'] a' show ?thesis by (fastforce simp: wait_calls_def)
    next
      case False
      with assms a \<open>\<not> has_ev ev\<close> have "st' = st1" "ev' = ev\<lparr>has_ev := False\<rparr>"
        by (auto simp: IOEvent_wait_def Let_def)
      with a' show ?thesis by (auto simp: wait_calls_def)
    qed
  qed
  then show "length (inputs st') < length (inputs st)" "ev_fd ev' = ev_fd ev" "ev_ev ev' = ev_ev ev"
    "\<exists>tr. trace st' = trace st @ tr \<and> wait_calls ev tr" by simp_all
qed

end
