(* ===== verification/Sock.thy ===== *)
theory Sock
  imports Io_Event
begin

text \<open>
  The socket functions for coroutines: \<open>include/sock.h\<close> and \<open>src/sock.cc\<close>. Each repeats a
  non-blocking system call, waiting for its event when the call would block. The model runs them
  in a coroutine of a scheduler, as their documentation demands, on the state of theory \<open>Io_Event\<close>;
  \<open>close\<close> and \<open>shutdown\<close> also outside of one.
\<close>

section \<open>Repeating a call\<close>

text \<open>What every loop does when a call answered -1: wait for the event if the call would block, go on if it
  was interrupted, give up otherwise. The first component says whether to go on.\<close>

definition io_retry :: "uint32 \<Rightarrow> IOEvent \<Rightarrow> io_st \<Rightarrow> (bool \<times> IOEvent \<times> io_st) option" where
  [model_defs]: "io_retry ms ev st =
     (if errno st = EWOULDBLOCK \<or> errno st = EAGAIN then IOEvent_wait ms ev st
      else Some (errno st = EINTR, ev, st))"

lemma io_retry_length: "io_retry ms ev st = Some (go, ev', st') \<Longrightarrow> length (inputs st') \<le> length (inputs st)"
  by (auto simp: io_retry_def dest: IOEvent_wait_Some(1) split: if_splits)

lemma syscall_length: "syscall c st = Some (r, bs, st') \<Longrightarrow> length (inputs st') < length (inputs st)"
  by (drule syscall_Some) auto

function recv_loop :: "call \<Rightarrow> uint32 \<Rightarrow> IOEvent \<Rightarrow> io_st \<Rightarrow> (int \<times> byte list \<times> IOEvent \<times> io_st) option" where
  "recv_loop c ms ev st =
     (case syscall c st of
        None \<Rightarrow> None
      | Some (r, bs, st1) \<Rightarrow>
          if r \<noteq> - 1 then Some (r, bs, ev, st1)
          else (case io_retry ms ev st1 of
                  None \<Rightarrow> None
                | Some (go, ev1, st2) \<Rightarrow> if go then recv_loop c ms ev1 st2 else Some (- 1, [], ev1, st2)))"
  by pat_completeness auto
termination
  by (relation "measure (\<lambda>(c, ms, ev, st). length (inputs st))")
    (auto dest!: io_retry_length syscall_length)

function recvn_loop :: "int \<Rightarrow> int \<Rightarrow> int \<Rightarrow> byte list \<Rightarrow> uint32 \<Rightarrow> IOEvent \<Rightarrow> io_st \<Rightarrow> (int \<times> byte list \<times> IOEvent \<times> io_st) option" where
  "recvn_loop fd n remain got ms ev st =
     (case syscall (CRecv fd remain) st of
        None \<Rightarrow> None
      | Some (r, bs, st1) \<Rightarrow>
          if r = remain then Some (n, got @ bs, ev, st1)
          else if r = 0 then Some (0, got, ev, st1)
          else if r = - 1 then
            (case io_retry ms ev st1 of
               None \<Rightarrow> None
             | Some (go, ev1, st2) \<Rightarrow> if go then recvn_loop fd n remain got ms ev1 st2 else Some (- 1, got, ev1, st2))
          else recvn_loop fd n (remain - r) (got @ bs) ms ev st1)"
  by pat_completeness auto
termination
  by (relation "measure (\<lambda>(fd, n, remain, got, ms, ev, st). length (inputs st))")
    (auto dest!: io_retry_length syscall_length)

text \<open>\<open>mk s\<close> is the call that offers the bytes \<open>s\<close>: \<open>send\<close> and \<open>sendto\<close> have the same loop.\<close>

function send_loop :: "(byte list \<Rightarrow> call) \<Rightarrow> int \<Rightarrow> int \<Rightarrow> byte list \<Rightarrow> uint32 \<Rightarrow> IOEvent \<Rightarrow> io_st \<Rightarrow> (int \<times> IOEvent \<times> io_st) option" where
  "send_loop mk n remain s ms ev st =
     (case syscall (mk (take (nat remain) s)) st of
        None \<Rightarrow> None
      | Some (r, bs, st1) \<Rightarrow>
          if r = remain then Some (n, ev, st1)
          else if r = - 1 then
            (case io_retry ms ev st1 of
               None \<Rightarrow> None
             | Some (go, ev1, st2) \<Rightarrow> if go then send_loop mk n remain s ms ev1 st2 else Some (- 1, ev1, st2))
          else send_loop mk n (remain - r) (drop (nat r) s) ms ev st1)"
  by pat_completeness auto
termination
  by (relation "measure (\<lambda>(mk, n, remain, s, ms, ev, st). length (inputs st))")
    (auto dest!: io_retry_length syscall_length)

text \<open>\<open>accept\<close> does not look at the result of the wait.\<close>

function accept_loop :: "int \<Rightarrow> IOEvent \<Rightarrow> io_st \<Rightarrow> (int \<times> IOEvent \<times> io_st) option" where
  "accept_loop fd ev st =
     (case syscall (CAccept fd) st of
        None \<Rightarrow> None
      | Some (connfd, _, st1) \<Rightarrow>
          if connfd \<noteq> - 1 then Some (connfd, ev, st1)
          else if errno st1 = EWOULDBLOCK \<or> errno st1 = EAGAIN then
            (case IOEvent_wait (- 1) ev st1 of
               None \<Rightarrow> None
             | Some (ok, ev1, st2) \<Rightarrow> accept_loop fd ev1 st2)
          else if errno st1 \<noteq> EINTR then Some (- 1, ev, st1)
          else accept_loop fd ev st1)"
  by pat_completeness auto
termination
  by (relation "measure (\<lambda>(fd, ev, st). length (inputs st))")
    (auto dest!: IOEvent_wait_Some(1) syscall_length)

definition SOL_SOCKET :: int where "SOL_SOCKET = 1"
definition SO_REUSEADDR :: int where "SO_REUSEADDR = 2"
definition SO_ERROR :: int where "SO_ERROR = 4"
definition SO_SNDBUF :: int where "SO_SNDBUF = 7"
definition SO_RCVBUF :: int where "SO_RCVBUF = 8"
definition SO_KEEPALIVE :: int where "SO_KEEPALIVE = 9"
definition SO_LINGER :: int where "SO_LINGER = 13"
definition IPPROTO_TCP :: int where "IPPROTO_TCP = 6"
definition IPPROTO_UDP :: int where "IPPROTO_UDP = 17"
definition TCP_NODELAY :: int where "TCP_NODELAY = 1"

text \<open>The bytes of a local \<open>int\<close>, as the kernel reads and writes them (little endian).\<close>

definition bytes_int :: "byte list \<Rightarrow> int" where
  "bytes_int bs = sint (word_of_int (horner_sum of_char 256 bs) :: 32 word)"

definition int_bytes :: "int \<Rightarrow> byte list" where
  "int_bytes v = map (\<lambda>k. char_of (take_bit 8 (drop_bit (8 * k) v))) [0..<4]"

definition co_getsockopt :: "int \<Rightarrow> int \<Rightarrow> int \<Rightarrow> io_st \<Rightarrow> (int \<times> byte list \<times> io_st) option" where
  [model_defs]: "co_getsockopt fd lv opt st = syscall (CGetsockopt fd lv opt) st"

definition co_setsockopt :: "int \<Rightarrow> int \<Rightarrow> int \<Rightarrow> byte list \<Rightarrow> io_st \<Rightarrow> (int \<times> io_st) option" where
  [model_defs]: "co_setsockopt fd lv opt v st =
     map_option (\<lambda>(r, _, st'). (r, st')) (syscall (CSetsockopt fd lv opt v) st)"

text \<open>\<open>connect\<close>: the event lives inside the loop.\<close>

function connect_loop :: "int \<Rightarrow> byte list \<Rightarrow> uint32 \<Rightarrow> io_st \<Rightarrow> (int \<times> io_st) option" where
  "connect_loop fd addr ms st =
     (case syscall (CConnect fd addr) st of
        None \<Rightarrow> None
      | Some (r, _, st1) \<Rightarrow>
          if r = 0 then Some (0, st1)
          else if errno st1 = EINPROGRESS then
            (case IOEvent_wait ms (IOEvent_IOEvent fd kEvWrite) st1 of
               None \<Rightarrow> None
             | Some (ok, ev, st2) \<Rightarrow>
                 if \<not> ok then Some (- 1, IOEvent_destroy ev st2)
                 else (case co_getsockopt fd SOL_SOCKET SO_ERROR st2 of
                         None \<Rightarrow> None
                       | Some (r2, err, st3) \<Rightarrow>
                           if r2 \<noteq> 0 then Some (- 1, IOEvent_destroy ev st3)
                           else if bytes_int err = 0 then Some (0, IOEvent_destroy ev st3)
                           else Some (- 1, IOEvent_destroy ev (st3\<lparr>errno := bytes_int err\<rparr>))))
          else if errno st1 \<noteq> EINTR then Some (- 1, st1)
          else connect_loop fd addr ms st1)"
  by pat_completeness auto
termination
  by (relation "measure (\<lambda>(fd, addr, ms, st). length (inputs st))") (auto dest!: syscall_length)

declare recv_loop.simps [simp del] recvn_loop.simps [simp del] send_loop.simps [simp del]
  accept_loop.simps [simp del] connect_loop.simps [simp del]

section \<open>The functions\<close>

text \<open>The time-out is an \<open>int\<close> that becomes the \<open>uint32\<close> of \<open>IOEvent::wait\<close>; the bytes received are
  returned with the result.\<close>

definition co_recv :: "int \<Rightarrow> int \<Rightarrow> int \<Rightarrow> io_st \<Rightarrow> (int \<times> byte list \<times> io_st) option" where
  [model_defs]: "co_recv fd n ms st =
     map_option (\<lambda>(r, bs, ev, st'). (r, bs, IOEvent_destroy ev st'))
       (recv_loop (CRecv fd n) (word_of_int ms) (IOEvent_IOEvent fd kEvRead) st)"

definition co_recvfrom :: "int \<Rightarrow> int \<Rightarrow> int \<Rightarrow> io_st \<Rightarrow> (int \<times> byte list \<times> io_st) option" where
  [model_defs]: "co_recvfrom fd n ms st =
     map_option (\<lambda>(r, bs, ev, st'). (r, bs, IOEvent_destroy ev st'))
       (recv_loop (CRecvfrom fd n) (word_of_int ms) (IOEvent_IOEvent fd kEvRead) st)"

definition co_recvn :: "int \<Rightarrow> int \<Rightarrow> int \<Rightarrow> io_st \<Rightarrow> (int \<times> byte list \<times> io_st) option" where
  [model_defs]: "co_recvn fd n ms st =
     map_option (\<lambda>(r, bs, ev, st'). (r, bs, IOEvent_destroy ev st'))
       (recvn_loop fd n n [] (word_of_int ms) (IOEvent_IOEvent fd kEvRead) st)"

definition co_send :: "int \<Rightarrow> byte list \<Rightarrow> int \<Rightarrow> int \<Rightarrow> io_st \<Rightarrow> (int \<times> io_st) option" where
  [model_defs]: "co_send fd buf n ms st =
     map_option (\<lambda>(r, ev, st'). (r, IOEvent_destroy ev st'))
       (send_loop (CSend fd) n n buf (word_of_int ms) (IOEvent_IOEvent fd kEvWrite) st)"

definition co_sendto :: "int \<Rightarrow> byte list \<Rightarrow> int \<Rightarrow> byte list \<Rightarrow> int \<Rightarrow> io_st \<Rightarrow> (int \<times> io_st) option" where
  [model_defs]: "co_sendto fd buf n dst ms st =
     map_option (\<lambda>(r, ev, st'). (r, IOEvent_destroy ev st'))
       (send_loop (CSendto fd dst) n n buf (word_of_int ms) (IOEvent_IOEvent fd kEvWrite) st)"

definition co_accept :: "int \<Rightarrow> io_st \<Rightarrow> (int \<times> io_st) option" where
  [model_defs]: "co_accept fd st =
     map_option (\<lambda>(r, ev, st'). (r, IOEvent_destroy ev st')) (accept_loop fd (IOEvent_IOEvent fd kEvRead) st)"

definition co_connect :: "int \<Rightarrow> byte list \<Rightarrow> int \<Rightarrow> io_st \<Rightarrow> (int \<times> io_st) option" where
  [model_defs]: "co_connect fd addr ms st = connect_loop fd addr (word_of_int ms) st"

definition SOCK_NONBLOCK :: int where "SOCK_NONBLOCK = 2048"
definition SOCK_CLOEXEC :: int where "SOCK_CLOEXEC = 524288"
definition SOCK_STREAM :: int where "SOCK_STREAM = 1"
definition SOCK_DGRAM :: int where "SOCK_DGRAM = 2"

definition result_of :: "call \<Rightarrow> io_st \<Rightarrow> (int \<times> io_st) option" where
  "result_of c st = map_option (\<lambda>(r, _, st'). (r, st')) (syscall c st)"

definition co_socket :: "int \<Rightarrow> int \<Rightarrow> int \<Rightarrow> io_st \<Rightarrow> (int \<times> io_st) option" where
  [model_defs]: "co_socket domain type protocol =
     result_of (CSocket domain (type OR SOCK_NONBLOCK OR SOCK_CLOEXEC) protocol)"

definition co_tcp_socket :: "int \<Rightarrow> io_st \<Rightarrow> (int \<times> io_st) option" where
  [model_defs]: "co_tcp_socket domain = co_socket domain SOCK_STREAM IPPROTO_TCP"

definition co_udp_socket :: "int \<Rightarrow> io_st \<Rightarrow> (int \<times> io_st) option" where
  [model_defs]: "co_udp_socket domain = co_socket domain SOCK_DGRAM IPPROTO_UDP"

definition co_bind :: "int \<Rightarrow> byte list \<Rightarrow> io_st \<Rightarrow> (int \<times> io_st) option" where
  [model_defs]: "co_bind fd addr = result_of (CBind fd addr)"

definition co_listen :: "int \<Rightarrow> int \<Rightarrow> io_st \<Rightarrow> (int \<times> io_st) option" where
  [model_defs]: "co_listen fd backlog = result_of (CListen fd backlog)"

text \<open>\<open>while ((r = ::close(fd)) != 0 && errno == EINTR);\<close>\<close>

function close_loop :: "int \<Rightarrow> io_st \<Rightarrow> (int \<times> io_st) option" where
  "close_loop fd st =
     (case syscall (CClose fd) st of
        None \<Rightarrow> None
      | Some (r, _, st1) \<Rightarrow> if r \<noteq> 0 \<and> errno st1 = EINTR then close_loop fd st1 else Some (r, st1))"
  by pat_completeness auto
termination
  by (relation "measure (\<lambda>(fd, st). length (inputs st))") (auto dest!: syscall_length)

declare close_loop.simps [simp del]

text \<open>\<open>sched\<close> says whether the calling thread has a scheduler. \<open>Sleep\<close> suspends.\<close>

definition sleep_call :: "uint32 \<Rightarrow> io_st \<Rightarrow> io_st option" where
  "sleep_call ms st = map_option snd (yield_timeout (emit (CSleep ms) st))"

definition co_close :: "bool \<Rightarrow> int \<Rightarrow> int \<Rightarrow> io_st \<Rightarrow> (int \<times> io_st) option" where
  [model_defs]: "co_close sched fd ms st =
     (if fd < 0 then result_of (CClose fd) st
      else
        case (if sched
              then (let st1 = emit (CDelIoEvents fd) st in
                    if ms > 0 then sleep_call (word_of_int ms) st1 else Some st1)
              else Some (emit (CDelCtxWrite fd) (emit (CDelCtxRead fd) st))) of
          None \<Rightarrow> None
        | Some st2 \<Rightarrow> close_loop fd st2)"

definition SHUT_RD :: int where "SHUT_RD = 0"
definition SHUT_WR :: int where "SHUT_WR = 1"
definition SHUT_RDWR :: int where "SHUT_RDWR = 2"

definition co_shutdown :: "bool \<Rightarrow> int \<Rightarrow> char \<Rightarrow> io_st \<Rightarrow> (int \<times> io_st) option" where
  [model_defs]: "co_shutdown sched fd c st =
     (if fd < 0 then result_of (CShutdown fd SHUT_RDWR) st
      else if sched then
        (if c = CHR ''r'' then result_of (CShutdown fd SHUT_RD) (emit (CDelIoEvent fd kEvRead) st)
         else if c = CHR ''w'' then result_of (CShutdown fd SHUT_WR) (emit (CDelIoEvent fd kEvWrite) st)
         else result_of (CShutdown fd SHUT_RDWR) (emit (CDelIoEvents fd) st))
      else
        (if c = CHR ''r'' then result_of (CShutdown fd SHUT_RD) (emit (CDelCtxRead fd) st)
         else if c = CHR ''w'' then result_of (CShutdown fd SHUT_WR) (emit (CDelCtxWrite fd) st)
         else result_of (CShutdown fd SHUT_RDWR) (emit (CDelCtxRead fd) st)))"

definition F_GETFD :: int where "F_GETFD = 1"
definition F_SETFD :: int where "F_SETFD = 2"
definition F_GETFL :: int where "F_GETFL = 3"
definition F_SETFL :: int where "F_SETFL = 4"
definition O_NONBLOCK :: int where "O_NONBLOCK = 2048"
definition FD_CLOEXEC :: int where "FD_CLOEXEC = 1"

definition set_nonblock :: "int \<Rightarrow> io_st \<Rightarrow> (int \<times> io_st) option" where
  [model_defs]: "set_nonblock fd st =
     (case result_of (CFcntl fd F_GETFL 0) st of
        None \<Rightarrow> None
      | Some (fl, st1) \<Rightarrow> result_of (CFcntl fd F_SETFL (fl OR O_NONBLOCK)) st1)"

definition set_cloexec :: "int \<Rightarrow> io_st \<Rightarrow> (int \<times> io_st) option" where
  [model_defs]: "set_cloexec fd st =
     (case result_of (CFcntl fd F_GETFD 0) st of
        None \<Rightarrow> None
      | Some (fl, st1) \<Rightarrow> result_of (CFcntl fd F_SETFD (fl OR FD_CLOEXEC)) st1)"

definition set_reuseaddr :: "int \<Rightarrow> io_st \<Rightarrow> (int \<times> io_st) option" where
  [model_defs]: "set_reuseaddr fd = co_setsockopt fd SOL_SOCKET SO_REUSEADDR (int_bytes 1)"

definition set_send_buffer_size :: "int \<Rightarrow> int \<Rightarrow> io_st \<Rightarrow> (int \<times> io_st) option" where
  [model_defs]: "set_send_buffer_size fd n = co_setsockopt fd SOL_SOCKET SO_SNDBUF (int_bytes n)"

definition set_recv_buffer_size :: "int \<Rightarrow> int \<Rightarrow> io_st \<Rightarrow> (int \<times> io_st) option" where
  [model_defs]: "set_recv_buffer_size fd n = co_setsockopt fd SOL_SOCKET SO_RCVBUF (int_bytes n)"

definition set_tcp_nodelay :: "int \<Rightarrow> io_st \<Rightarrow> (int \<times> io_st) option" where
  [model_defs]: "set_tcp_nodelay fd = co_setsockopt fd IPPROTO_TCP TCP_NODELAY (int_bytes 1)"

definition set_tcp_keepalive :: "int \<Rightarrow> io_st \<Rightarrow> (int \<times> io_st) option" where
  [model_defs]: "set_tcp_keepalive fd = co_setsockopt fd SOL_SOCKET SO_KEEPALIVE (int_bytes 1)"

definition reset_tcp_socket :: "bool \<Rightarrow> int \<Rightarrow> int \<Rightarrow> io_st \<Rightarrow> (int \<times> io_st) option" where
  [model_defs]: "reset_tcp_socket sched fd ms st =
     (case co_setsockopt fd SOL_SOCKET SO_LINGER (int_bytes 1 @ int_bytes 0) st of
        None \<Rightarrow> None
      | Some (_, st1) \<Rightarrow> co_close sched fd ms st1)"

section \<open>What a send sends\<close>

text \<open>The bytes the kernel took, and the answers a kernel can give to an offer: an error or at most
  the bytes offered.\<close>

fun sent :: "call \<times> input option \<Rightarrow> byte list" where
  "sent (CSend fd bs, Some (Ret r e d)) = take (nat r) bs"
| "sent (CSendto fd dst bs, Some (Ret r e d)) = take (nat r) bs"
| "sent _ = []"

fun send_answer_ok :: "call \<times> input option \<Rightarrow> bool" where
  "send_answer_ok (CSend fd bs, Some (Ret r e d)) \<longleftrightarrow> - 1 \<le> r \<and> r \<le> int (length bs)"
| "send_answer_ok (CSendto fd dst bs, Some (Ret r e d)) \<longleftrightarrow> - 1 \<le> r \<and> r \<le> int (length bs)"
| "send_answer_ok _ \<longleftrightarrow> True"

definition sent_all :: "(call \<times> input option) list \<Rightarrow> byte list" where
  "sent_all tr = concat (map sent tr)"

lemma sent_all_append [simp]: "sent_all (xs @ ys) = sent_all xs @ sent_all ys"
  by (simp add: sent_all_def)

lemma wait_calls_sent: "wait_calls ev tr \<Longrightarrow> sent_all tr = []"
  by (induction tr) (auto simp: wait_calls_def sent_all_def)

lemma io_retry_Some:
  assumes "io_retry ms ev st = Some (go, ev', st')"
  shows "\<exists>tr. trace st' = trace st @ tr \<and> wait_calls ev tr" "ev_fd ev' = ev_fd ev" "ev_ev ev' = ev_ev ev"
  using assms IOEvent_wait_Some(2,3,4) [of ms ev st go ev' st']
  by (auto simp: io_retry_def wait_calls_def split: if_splits)

definition sender :: "(byte list \<Rightarrow> call) \<Rightarrow> bool" where
  "sender mk \<longleftrightarrow> (\<exists>fd. mk = CSend fd) \<or> (\<exists>fd dst. mk = CSendto fd dst)"

lemma sender_calls [simp]: "sender (CSend fd)" "sender (CSendto fd dst)"
  by (auto simp: sender_def)

lemma sender_simps:
  "sender mk \<Longrightarrow> sent (mk bs, Some (Ret r e d)) = take (nat r) bs"
  "sender mk \<Longrightarrow> send_answer_ok (mk bs, Some (Ret r e d)) \<longleftrightarrow> - 1 \<le> r \<and> r \<le> int (length bs)"
  by (auto simp: sender_def)

text \<open>One turn of the loop.\<close>

lemma send_loop_cases:
  assumes "send_loop mk n remain s ms ev st = Some (r, ev', st')"
  obtains x e bs st1 where "length (inputs st1) < length (inputs st)"
    and "trace st1 = trace st @ [(mk (take (nat remain) s), Some (Ret x e bs))]"
    and "x = remain \<and> r = n \<and> ev' = ev \<and> st' = st1"
  | x e bs st1 go ev1 st2 w where "length (inputs st2) < length (inputs st)" "x = - 1"
    and "trace st2 = trace st @ (mk (take (nat remain) s), Some (Ret x e bs)) # w"
    and "io_retry ms ev st1 = Some (go, ev1, st2)" "trace st2 = trace st1 @ w" "wait_calls ev w"
    and "if go then send_loop mk n remain s ms ev1 st2 = Some (r, ev', st') else r = - 1 \<and> ev' = ev1 \<and> st' = st2"
  | x e bs st1 where "length (inputs st1) < length (inputs st)" "x \<noteq> - 1"
    and "trace st1 = trace st @ [(mk (take (nat remain) s), Some (Ret x e bs))]"
    and "send_loop mk n (remain - x) (drop (nat x) s) ms ev st1 = Some (r, ev', st')"
proof -
  obtain x bs st1 where sc: "syscall (mk (take (nat remain) s)) st = Some (x, bs, st1)"
    using assms by (auto simp: send_loop.simps [of mk n remain s ms ev st] split: option.splits)
  obtain e where t1: "trace st1 = trace st @ [(mk (take (nat remain) s), Some (Ret x e bs))]"
    using syscall_Some [OF sc] by blast
  note l1 = syscall_length [OF sc]
  consider "x = remain" | "x \<noteq> remain" "x = - 1" | "x \<noteq> remain" "x \<noteq> - 1" by blast
  then show ?thesis
  proof cases
    case 1
    then show ?thesis using assms sc that(1) [OF l1 t1]
      by (simp add: send_loop.simps [of mk n remain s ms ev st])
  next
    case 2
    then obtain go ev1 st2 where rt: "io_retry ms ev st1 = Some (go, ev1, st2)"
      "if go then send_loop mk n remain s ms ev1 st2 = Some (r, ev', st') else r = - 1 \<and> ev' = ev1 \<and> st' = st2"
      using assms sc by (auto simp: send_loop.simps [of mk n remain s ms ev st] split: option.splits if_splits)
    obtain w where w: "trace st2 = trace st1 @ w" "wait_calls ev w" using io_retry_Some(1) [OF rt(1)] by blast
    show ?thesis
      using that(2) [OF _ 2(2) _ rt(1) w rt(2), of e bs] io_retry_length [OF rt(1)] l1 w(1) t1 by simp
  next
    case 3
    then show ?thesis using assms sc that(3) [OF l1 3(2) t1]
      by (simp add: send_loop.simps [of mk n remain s ms ev st])
  qed
qed

lemma send_loop_trace:
  "send_loop mk n remain s ms ev st = Some (r, ev', st') \<Longrightarrow> \<exists>tr. trace st' = trace st @ tr"
proof (induction "length (inputs st)" arbitrary: remain s ev st rule: less_induct)
  case less
  from less.prems show ?case
  proof (cases rule: send_loop_cases)
    case (1 x e bs st1)
    then show ?thesis by simp
  next
    case (2 x e bs st1 go ev1 st2 w)
    show ?thesis
    proof (cases go)
      case True
      with 2 less.hyps [OF 2(1), of remain s ev1] show ?thesis by auto
    qed (use 2 in simp)
  next
    case (3 x e bs st1)
    with less.hyps [OF 3(1), of "remain - x" "drop (nat x) s" ev] show ?thesis by auto
  qed
qed

lemma take_then_take: "take m s @ take k (drop m s) = take (m + k) s"
  by (simp add: take_add)

lemma send_loop_sent:
  "send_loop mk n remain s ms ev st = Some (r, ev', st') \<Longrightarrow> trace st' = trace st @ tr \<Longrightarrow>
   list_all send_answer_ok tr \<Longrightarrow> sender mk \<Longrightarrow> remain = int (length s) \<Longrightarrow>
   (r = n \<and> sent_all tr = s) \<or> (r = - 1 \<and> (\<exists>k \<le> length s. sent_all tr = take k s))"
proof (induction "length (inputs st)" arbitrary: remain s ev st tr rule: less_induct)
  case less
  have all: "take (nat remain) s = s" using less.prems(5) by simp
  note snd = sender_simps [OF less.prems(4)]
  from less.prems(1) show ?case
  proof (cases rule: send_loop_cases)
    case (1 x e bs st1)
    then have "tr = [(mk s, Some (Ret x e bs))]" using less.prems(2) all by simp
    then show ?thesis using 1 less.prems(5) snd(1) by (simp add: sent_all_def)
  next
    case (2 x e bs st1 go ev1 st2 w)
    have x: "sent (mk s, Some (Ret x e bs)) = []" "sent_all w = []"
      using 2 snd(1) wait_calls_sent by simp_all
    show ?thesis
    proof (cases go)
      case True
      with 2 have s2: "send_loop mk n remain s ms ev1 st2 = Some (r, ev', st')" by simp
      from send_loop_trace [OF this] obtain tr2 where tr2: "trace st' = trace st2 @ tr2" by blast
      then have tr: "tr = (mk s, Some (Ret x e bs)) # w @ tr2" using less.prems(2) 2(3) all by simp
      then have "sent_all tr = sent_all tr2" using x by (simp add: sent_all_def)
      with less.hyps [OF 2(1) s2 tr2 _ less.prems(4,5)] less.prems(3) tr show ?thesis by simp
    next
      case False
      then have "tr = (mk s, Some (Ret x e bs)) # w" "r = - 1" using 2 less.prems(2) all by auto
      then show ?thesis using x by (auto simp: sent_all_def intro: exI [of _ 0])
    qed
  next
    case (3 x e bs st1)
    from send_loop_trace [OF 3(4)] obtain tr2 where tr2: "trace st' = trace st1 @ tr2" by blast
    then have tr: "tr = (mk s, Some (Ret x e bs)) # tr2" using less.prems(2) 3(3) all by simp
    then have x: "0 \<le> x" "x \<le> int (length s)" using less.prems(3) snd(2) 3(2) by auto
    have "(r = n \<and> sent_all tr2 = drop (nat x) s) \<or>
        (r = - 1 \<and> (\<exists>k \<le> length (drop (nat x) s). sent_all tr2 = take k (drop (nat x) s)))"
      using less.hyps [OF 3(1,4) tr2 _ less.prems(4)] less.prems(3,5) x tr by simp
    moreover have sent: "sent_all tr = take (nat x) s @ sent_all tr2"
      using tr snd(1) by (simp add: sent_all_def)
    ultimately show ?thesis
    proof (elim disjE conjE exE)
      fix k assume "r = - 1" "k \<le> length (drop (nat x) s)" "sent_all tr2 = take k (drop (nat x) s)"
      with sent x show ?thesis by (intro disjI2 conjI exI [of _ "nat x + k"]) (auto simp: take_then_take)
    qed simp
  qed
qed

text \<open>The events a function registers and deletes.\<close>

fun registers :: "call \<times> input option \<Rightarrow> bool" where
  "registers (CAddIoEvent fd ev, Some (Added True)) = True"
| "registers _ = False"

fun deletes :: "call \<times> input option \<Rightarrow> bool" where
  "deletes (CDelIoEvent fd ev, _) = True"
| "deletes _ = False"

definition cnt :: "('a \<Rightarrow> bool) \<Rightarrow> 'a list \<Rightarrow> nat" where
  "cnt P xs = length (filter P xs)"

lemma cnt_simps [simp]: "cnt P [] = 0" "cnt P (x # xs) = (if P x then 1 else 0) + cnt P xs"
    "cnt P (xs @ ys) = cnt P xs + cnt P ys"
  by (simp_all add: cnt_def)

text \<open>\<open>events ev tr ev'\<close>: the trace registers at most one event, exactly if the event object changes from
  unregistered to registered, and deletes none.\<close>

definition events_ok :: "IOEvent \<Rightarrow> (call \<times> input option) list \<Rightarrow> IOEvent \<Rightarrow> bool" where
  "events_ok ev tr ev' \<longleftrightarrow>
     cnt registers tr + of_bool (has_ev ev) = of_bool (has_ev ev') \<and> cnt deletes tr = 0"

lemma events_ok_trans: "events_ok ev tr ev1 \<Longrightarrow> events_ok ev1 tr2 ev2 \<Longrightarrow> events_ok ev (tr @ tr2) ev2"
  by (simp add: events_ok_def)

lemma wait_registered_events:
  assumes "wait_registered ms st = Some (ok, st')"
  shows "\<exists>tr. trace st' = trace st @ tr \<and> cnt registers tr = 0 \<and> cnt deletes tr = 0"
  using wait_registered_Some [OF assms] by auto

lemma IOEvent_wait_events:
  assumes "IOEvent_wait ms ev st = Some (ok, ev', st')" "trace st' = trace st @ w"
  shows "events_ok ev w ev'"
proof (cases "has_ev ev")
  case True
  with assms have "wait_registered ms st = Some (ok, st')" "ev' = ev" by (auto simp: IOEvent_wait_def)
  with wait_registered_events assms(2) show ?thesis by (fastforce simp: events_ok_def)
next
  case False
  then obtain a st1 where a: "ask (CAddIoEvent (ev_fd ev) (ev_ev ev)) st = Some (Added a, st1)"
    using assms by (auto simp: IOEvent_wait_def split: option.splits input.splits)
  note a' = ask_Some [OF a]
  show ?thesis
  proof (cases a)
    case True
    with assms a False have "wait_registered ms st1 = Some (ok, st')" "ev' = ev\<lparr>has_ev := True\<rparr>"
      by (auto simp: IOEvent_wait_def Let_def)
    with wait_registered_events [of ms st1 ok st'] a' True False assms(2) show ?thesis
      by (auto simp: events_ok_def)
  next
    case F: False
    with assms a False have "st' = st1" "ev' = ev\<lparr>has_ev := False\<rparr>"
      by (auto simp: IOEvent_wait_def Let_def)
    with a' F False assms(2) show ?thesis by (auto simp: events_ok_def)
  qed
qed

lemma io_retry_events:
  assumes "io_retry ms ev st = Some (go, ev', st')" "trace st' = trace st @ w"
  shows "events_ok ev w ev'"
proof (cases "errno st = EWOULDBLOCK \<or> errno st = EAGAIN")
  case True
  with assms IOEvent_wait_events show ?thesis by (simp add: io_retry_def)
next
  case False
  with assms show ?thesis by (auto simp: io_retry_def events_ok_def)
qed

lemma sender_events: "sender mk \<Longrightarrow> \<not> registers (mk bs, i) \<and> \<not> deletes (mk bs, i)"
  by (auto simp: sender_def)

lemma send_loop_events:
  "send_loop mk n remain s ms ev st = Some (r, ev', st') \<Longrightarrow> sender mk \<Longrightarrow>
   \<exists>tr. trace st' = trace st @ tr \<and> events_ok ev tr ev'"
proof (induction "length (inputs st)" arbitrary: remain s ev st rule: less_induct)
  case less
  note nr = sender_events [OF less.prems(2)]
  from less.prems(1) show ?case
  proof (cases rule: send_loop_cases)
    case (1 x e bs st1)
    then show ?thesis using nr by (simp add: events_ok_def)
  next
    case (2 x e bs st1 go ev1 st2 w)
    let ?c = "(mk (take (nat remain) s), Some (Ret x e bs))"
    have ev1: "events_ok ev (?c # w) ev1" using io_retry_events [OF 2(4,5)] nr by (simp add: events_ok_def)
    show ?thesis
    proof (cases go)
      case True
      with 2(7) have "send_loop mk n remain s ms ev1 st2 = Some (r, ev', st')" by simp
      from less.hyps [OF 2(1) this less.prems(2)] obtain tr where
        "trace st' = trace st2 @ tr" "events_ok ev1 tr ev'" by blast
      with 2(3) events_ok_trans [OF ev1] show ?thesis by auto
    qed (use 2 ev1 in auto)
  next
    case (3 x e bs st1)
    let ?c = "(mk (take (nat remain) s), Some (Ret x e bs))"
    from less.hyps [OF 3(1,4) less.prems(2)] obtain tr where "trace st' = trace st1 @ tr" "events_ok ev tr ev'"
      by blast
    moreover have "events_ok ev [?c] ev" using nr by (simp add: events_ok_def)
    ultimately show ?thesis using 3(3) events_ok_trans [of ev "[?c]" ev] by auto
  qed
qed

text \<open>C11: a send either sends everything or fails, and leaves no event behind. For every behaviour of a kernel
  that takes at most what it is offered, with partial writes, interruptions and waits in any number: when
  \<open>send\<close> returns, it returns the size of the buffer and the kernel took exactly the bytes of the buffer,
  in order and each once, or it returns -1 and the kernel took a prefix of them. The event it registered with the
  scheduler, if it had to wait, is deleted before it returns; it registers at most one. The same holds of
  \<open>sendto\<close>.\<close>

theorem co_send_exact:
  assumes "co_send fd buf (int (length buf)) ms st = Some (r, st') \<or> co_sendto fd buf (int (length buf)) dst ms st = Some (r, st')"
    and "trace st' = trace st @ tr" "list_all send_answer_ok tr"
  shows "((r = int (length buf) \<and> sent_all tr = buf) \<or> (r = - 1 \<and> (\<exists>k \<le> length buf. sent_all tr = take k buf))) \<and>
    cnt registers tr = cnt deletes tr \<and> cnt registers tr \<le> 1"
proof -
  let ?ev = "IOEvent_IOEvent fd kEvWrite"
  obtain mk ev' st1 where mk: "sender mk"
    and s: "send_loop mk (int (length buf)) (int (length buf)) buf (word_of_int ms) ?ev st = Some (r, ev', st1)"
    and st': "st' = IOEvent_destroy ev' st1"
  proof -
    from assms(1) consider
      ev' st1 where "send_loop (CSend fd) (int (length buf)) (int (length buf)) buf (word_of_int ms) ?ev st = Some (r, ev', st1)"
        "st' = IOEvent_destroy ev' st1"
    | ev' st1 where "send_loop (CSendto fd dst) (int (length buf)) (int (length buf)) buf (word_of_int ms) ?ev st = Some (r, ev', st1)"
        "st' = IOEvent_destroy ev' st1"
      by (auto simp: co_send_def co_sendto_def)
    then show ?thesis
    proof cases
      case (1 ev' st1)
      then show ?thesis by (intro that [of "CSend fd"]) simp_all
    next
      case (2 ev' st1)
      then show ?thesis by (intro that [of "CSendto fd dst"]) simp_all
    qed
  qed
  from send_loop_events [OF s mk] obtain tr1 where
    tr1: "trace st1 = trace st @ tr1" "events_ok ?ev tr1 ev'" by blast
  have tr: "tr = tr1 @ (if has_ev ev' then [(CDelIoEvent (ev_fd ev') (ev_ev ev'), None)] else [])"
    using assms(2) tr1(1) st' by (auto simp: IOEvent_destroy_def emit_def)
  then have "sent_all tr = sent_all tr1" "list_all send_answer_ok tr1"
    using assms(3) by (auto simp: sent_all_def)
  with send_loop_sent [OF s tr1(1) _ mk] tr1(2) tr show ?thesis
    by (auto simp: events_ok_def IOEvent_IOEvent_def)
qed

text \<open>A send of five bytes that is interrupted, blocks once, and goes in two pieces.\<close>

definition send_script :: io_st where
  "send_script = \<lparr>inputs = [Ret (- 1) EINTR [], Ret 2 0 [], Ret (- 1) EAGAIN [], Added True, Resumed False, Ret 3 0 []],
     trace = [], errno = 0\<rparr>"

lemma send_script_run:
  "\<exists>st'. co_send 5 ''hello'' 5 (- 1) send_script = Some (5, st') \<and> list_all send_answer_ok (trace st')"
  by (simp add: co_send_def send_script_def send_loop.simps syscall_def ask_def io_retry_def IOEvent_wait_def
      IOEvent_IOEvent_def IOEvent_destroy_def emit_def wait_registered_def yield_timeout_def errno_defs)

theorem co_send_exact_witness:
  "\<exists>st'. co_send 5 ''hello'' 5 (- 1) send_script = Some (5, st') \<and> sent_all (trace st') = ''hello''"
proof -
  obtain st' where s: "co_send 5 ''hello'' 5 (- 1) send_script = Some (5, st')" "list_all send_answer_ok (trace st')"
    using send_script_run by blast
  have "trace send_script = []" by (simp add: send_script_def)
  with co_send_exact [of 5 "''hello''" "- 1" send_script 5 st' "[]" "trace st'"] s show ?thesis by auto
qed

section \<open>What a receive receives\<close>

fun received :: "call \<times> input option \<Rightarrow> byte list" where
  "received (CRecv fd n, Some (Ret r e bs)) = (if r = - 1 then [] else bs)"
| "received _ = []"

fun recv_answer_ok :: "call \<times> input option \<Rightarrow> bool" where
  "recv_answer_ok (CRecv fd n, Some (Ret r e bs)) \<longleftrightarrow> r = - 1 \<or> (0 \<le> r \<and> r \<le> n \<and> int (length bs) = r)"
| "recv_answer_ok _ \<longleftrightarrow> True"

definition received_all :: "(call \<times> input option) list \<Rightarrow> byte list" where
  "received_all tr = concat (map received tr)"

lemma received_all_simps [simp]:
  "received_all [] = []" "received_all (x # xs) = received x @ received_all xs"
  "received_all (xs @ ys) = received_all xs @ received_all ys"
  by (simp_all add: received_all_def)

lemma wait_calls_received: "wait_calls ev tr \<Longrightarrow> received_all tr = []"
  by (induction tr) (auto simp: wait_calls_def)

lemma recvn_loop_cases:
  assumes "recvn_loop fd n remain got ms ev st = Some (r, data, ev', st')"
  obtains x e bs st1 where "length (inputs st1) < length (inputs st)"
    and "trace st1 = trace st @ [(CRecv fd remain, Some (Ret x e bs))]" "ev' = ev" "st' = st1"
    and "(x = remain \<and> r = n \<and> data = got @ bs) \<or> (x = 0 \<and> x \<noteq> remain \<and> r = 0 \<and> data = got)"
  | x e bs st1 go ev1 st2 w where "length (inputs st2) < length (inputs st)" "x = - 1" "x \<noteq> remain"
    and "trace st2 = trace st @ (CRecv fd remain, Some (Ret x e bs)) # w"
    and "io_retry ms ev st1 = Some (go, ev1, st2)" "trace st2 = trace st1 @ w" "wait_calls ev w"
    and "if go then recvn_loop fd n remain got ms ev1 st2 = Some (r, data, ev', st')
         else r = - 1 \<and> data = got \<and> ev' = ev1 \<and> st' = st2"
  | x e bs st1 where "length (inputs st1) < length (inputs st)" "x \<noteq> - 1" "x \<noteq> 0" "x \<noteq> remain"
    and "trace st1 = trace st @ [(CRecv fd remain, Some (Ret x e bs))]"
    and "recvn_loop fd n (remain - x) (got @ bs) ms ev st1 = Some (r, data, ev', st')"
proof -
  note unf = recvn_loop.simps [of fd n remain got ms ev st]
  obtain x bs st1 where sc: "syscall (CRecv fd remain) st = Some (x, bs, st1)"
    using assms by (auto simp: unf split: option.splits)
  obtain e where t1: "trace st1 = trace st @ [(CRecv fd remain, Some (Ret x e bs))]"
    using syscall_Some [OF sc] by blast
  note l1 = syscall_length [OF sc]
  consider "x = remain \<or> x = 0" | "x \<noteq> remain" "x = - 1" | "x \<noteq> remain" "x \<noteq> 0" "x \<noteq> - 1" by blast
  then show ?thesis
  proof cases
    case 1
    then show ?thesis using assms sc that(1) [OF l1 t1] by (auto simp: unf split: if_splits)
  next
    case 2
    then obtain go ev1 st2 where rt: "io_retry ms ev st1 = Some (go, ev1, st2)"
      "if go then recvn_loop fd n remain got ms ev1 st2 = Some (r, data, ev', st')
       else r = - 1 \<and> data = got \<and> ev' = ev1 \<and> st' = st2"
      using assms sc by (auto simp: unf split: option.splits if_splits)
    obtain w where w: "trace st2 = trace st1 @ w" "wait_calls ev w" using io_retry_Some(1) [OF rt(1)] by blast
    show ?thesis
      using that(2) [OF _ 2(2,1) _ rt(1) w rt(2), of e bs] io_retry_length [OF rt(1)] l1 w(1) t1 by simp
  next
    case 3
    then show ?thesis using assms sc that(3) [OF l1 3(3,2,1) t1] by (simp add: unf)
  qed
qed

lemma recvn_loop_events:
  "recvn_loop fd n remain got ms ev st = Some (r, data, ev', st') \<Longrightarrow>
   \<exists>tr. trace st' = trace st @ tr \<and> events_ok ev tr ev'"
proof (induction "length (inputs st)" arbitrary: remain got ev st rule: less_induct)
  case less
  from less.prems show ?case
  proof (cases rule: recvn_loop_cases)
    case (1 x e bs st1)
    then show ?thesis by (auto simp: events_ok_def)
  next
    case (2 x e bs st1 go ev1 st2 w)
    let ?c = "(CRecv fd remain, Some (Ret x e bs))"
    have ev1: "events_ok ev (?c # w) ev1" using io_retry_events [OF 2(5,6)] by (simp add: events_ok_def)
    show ?thesis
    proof (cases go)
      case True
      with 2(8) have "recvn_loop fd n remain got ms ev1 st2 = Some (r, data, ev', st')" by simp
      from less.hyps [OF 2(1) this] obtain tr where "trace st' = trace st2 @ tr" "events_ok ev1 tr ev'" by blast
      with 2(4) events_ok_trans [OF ev1] show ?thesis by auto
    qed (use 2 ev1 in auto)
  next
    case (3 x e bs st1)
    let ?c = "(CRecv fd remain, Some (Ret x e bs))"
    from less.hyps [OF 3(1,6)] obtain tr where "trace st' = trace st1 @ tr" "events_ok ev tr ev'" by blast
    with 3(5) show ?thesis by (intro exI [of _ "?c # tr"]) (auto simp: events_ok_def)
  qed
qed

lemma recvn_loop_received:
  "recvn_loop fd n remain got ms ev st = Some (r, data, ev', st') \<Longrightarrow> 0 < remain \<Longrightarrow>
   \<exists>tr. trace st' = trace st @ tr \<and> events_ok ev tr ev' \<and>
     (list_all recv_answer_ok tr \<longrightarrow> data = got @ received_all tr \<and>
        ((r = n \<and> int (length (received_all tr)) = remain) \<or>
         ((r = 0 \<or> r = - 1) \<and> int (length (received_all tr)) < remain)))"
proof (induction "length (inputs st)" arbitrary: remain got ev st rule: less_induct)
  case less
  from less.prems(1) show ?case
  proof (cases rule: recvn_loop_cases)
    case (1 x e bs st1)
    then show ?thesis using less.prems(2)
      by (intro exI [of _ "[(CRecv fd remain, Some (Ret x e bs))]"]) (auto simp: events_ok_def)
  next
    case (2 x e bs st1 go ev1 st2 w)
    let ?c = "(CRecv fd remain, Some (Ret x e bs))"
    have ev1: "events_ok ev (?c # w) ev1" using io_retry_events [OF 2(5,6)] by (simp add: events_ok_def)
    have rc: "received_all (?c # w) = []" using 2(2) wait_calls_received [OF 2(7)] by simp
    show ?thesis
    proof (cases go)
      case True
      with 2(8) have "recvn_loop fd n remain got ms ev1 st2 = Some (r, data, ev', st')" by simp
      from less.hyps [OF 2(1) this less.prems(2)] obtain tr where
        tr: "trace st' = trace st2 @ tr" "events_ok ev1 tr ev'"
          "list_all recv_answer_ok tr \<longrightarrow> data = got @ received_all tr \<and>
            ((r = n \<and> int (length (received_all tr)) = remain) \<or>
             ((r = 0 \<or> r = - 1) \<and> int (length (received_all tr)) < remain))" by blast
      have "trace st' = trace st @ ((?c # w) @ tr)" using tr(1) 2(4) by simp
      moreover have "received_all ((?c # w) @ tr) = received_all tr" using rc by simp
      ultimately show ?thesis
        using events_ok_trans [OF ev1 tr(2)] tr(3) by (metis list_all_append)
    next
      case False
      then show ?thesis using 2 ev1 rc less.prems(2) by (intro exI [of _ "?c # w"]) auto
    qed
  next
    case (3 x e bs st1)
    let ?c = "(CRecv fd remain, Some (Ret x e bs))"
    show ?thesis
    proof (cases "recv_answer_ok ?c")
      case True
      then have x: "0 < x" "x < remain" "int (length bs) = x" using 3(2-4) by auto
      then have "0 < remain - x" by simp
      from less.hyps [OF 3(1,6) this] obtain tr where
        tr: "trace st' = trace st1 @ tr" "events_ok ev tr ev'"
          "list_all recv_answer_ok tr \<longrightarrow> data = (got @ bs) @ received_all tr \<and>
            ((r = n \<and> int (length (received_all tr)) = remain - x) \<or>
             ((r = 0 \<or> r = - 1) \<and> int (length (received_all tr)) < remain - x))" by blast
      have "trace st' = trace st @ (?c # tr)" using tr(1) 3(5) by simp
      moreover have "events_ok ev (?c # tr) ev'" using tr(2) by (simp add: events_ok_def)
      ultimately show ?thesis using tr(3) x 3(2) by (intro exI [of _ "?c # tr"]) auto
    next
      case False
      have "\<exists>tr. trace st' = trace st1 @ tr \<and> events_ok ev tr ev'"
        by (rule recvn_loop_events [OF 3(6)])
      then obtain tr where "trace st' = trace st1 @ tr" "events_ok ev tr ev'" by blast
      then show ?thesis using False 3(5) by (intro exI [of _ "?c # tr"]) (auto simp: events_ok_def)
    qed
  qed
qed

text \<open>C12: \<open>recvn\<close> delivers exactly what arrived. For every behaviour of a kernel that delivers what it says
  and no more than asked for, and a positive size \<open>n\<close>: when \<open>recvn\<close> returns, the buffer starts with the bytes that
  were received, in order and each once; it returns \<open>n\<close> if these are \<open>n\<close> bytes, and 0 (the peer closed) or -1 if they
  are fewer, in which case the caller is not told how many there are. Its event is deleted before it
  returns.\<close>

theorem co_recvn_exact:
  assumes "co_recvn fd n ms st = Some (r, data, st')" "0 < n"
    and "trace st' = trace st @ tr" "list_all recv_answer_ok tr"
  shows "data = received_all tr \<and>
    ((r = n \<and> int (length data) = n) \<or> ((r = 0 \<or> r = - 1) \<and> int (length data) < n)) \<and>
    cnt registers tr = cnt deletes tr \<and> cnt registers tr \<le> 1"
proof -
  let ?ev = "IOEvent_IOEvent fd kEvRead"
  obtain ev' st1 where s: "recvn_loop fd n n [] (word_of_int ms) ?ev st = Some (r, data, ev', st1)"
    and st': "st' = IOEvent_destroy ev' st1"
    using assms(1) by (auto simp: co_recvn_def)
  from recvn_loop_received [OF s assms(2)] obtain tr1 where
    tr1: "trace st1 = trace st @ tr1" "events_ok ?ev tr1 ev'"
      "list_all recv_answer_ok tr1 \<longrightarrow> data = received_all tr1 \<and>
        ((r = n \<and> int (length (received_all tr1)) = n) \<or>
         ((r = 0 \<or> r = - 1) \<and> int (length (received_all tr1)) < n))" by auto
  have tr: "tr = tr1 @ (if has_ev ev' then [(CDelIoEvent (ev_fd ev') (ev_ev ev'), None)] else [])"
    using assms(3) tr1(1) st' by (auto simp: IOEvent_destroy_def emit_def)
  then have "received_all tr = received_all tr1" "list_all recv_answer_ok tr1"
    using assms(4) by auto
  with tr1(2,3) tr show ?thesis
    by (auto simp: events_ok_def IOEvent_IOEvent_def)
qed

text \<open>Four bytes are asked for, two arrive, then the peer closes: the answer is 0.\<close>

definition recv_script :: io_st where
  "recv_script = \<lparr>inputs = [Ret (- 1) EAGAIN [], Added True, Resumed False, Ret 2 0 ''ab'', Ret 0 0 []], trace = [], errno = 0\<rparr>"

theorem co_recvn_exact_witness:
  "\<exists>st'. co_recvn 5 4 1000 recv_script = Some (0, ''ab'', st') \<and> received_all (trace st') = ''ab'' \<and>
     cnt deletes (trace st') = 1"
proof -
  obtain st' where s: "co_recvn 5 4 1000 recv_script = Some (0, ''ab'', st')" "list_all recv_answer_ok (trace st')"
    "cnt registers (trace st') = 1"
    by (simp add: co_recvn_def recv_script_def recvn_loop.simps syscall_def ask_def io_retry_def IOEvent_wait_def
        IOEvent_IOEvent_def IOEvent_destroy_def emit_def wait_registered_def yield_timeout_def errno_defs)
  have "trace recv_script = []" by (simp add: recv_script_def)
  with co_recvn_exact [OF s(1), of "trace st'"] s show ?thesis by auto
qed

section \<open>When a transfer completes\<close>

text \<open>Scripts of a kernel that lets a transfer through, in pieces of any size, with interruptions and with waits
  that end without a time-out: \<open>accepts\<close> for \<open>n\<close> bytes offered, \<open>delivers\<close> for bytes that arrive. The last argument is
  what is left of the inputs; the flag says whether the event is registered.\<close>

inductive accepts :: "uint32 \<Rightarrow> bool \<Rightarrow> nat \<Rightarrow> input list \<Rightarrow> input list \<Rightarrow> bool" for ms where
  accepts_all: "0 < n \<Longrightarrow> accepts ms has n (Ret (int n) e d # rest) rest"
| accepts_part: "0 < k \<Longrightarrow> accepts ms has n is rest \<Longrightarrow> accepts ms has (k + n) (Ret (int k) e d # is) rest"
| accepts_interrupted: "accepts ms has n is rest \<Longrightarrow> accepts ms has n (Ret (- 1) EINTR d # is) rest"
| accepts_again: "accepts ms True n is rest \<Longrightarrow> ms = - 1 \<or> \<not> t \<Longrightarrow>
    accepts ms True n (Ret (- 1) EAGAIN d # Resumed t # is) rest"
| accepts_block: "accepts ms True n is rest \<Longrightarrow> ms = - 1 \<or> \<not> t \<Longrightarrow>
    accepts ms False n (Ret (- 1) EAGAIN d # Added True # Resumed t # is) rest"

inductive delivers :: "uint32 \<Rightarrow> bool \<Rightarrow> byte list \<Rightarrow> input list \<Rightarrow> input list \<Rightarrow> bool" for ms where
  delivers_all: "bs \<noteq> [] \<Longrightarrow> delivers ms has bs (Ret (int (length bs)) e bs # rest) rest"
| delivers_part: "ds \<noteq> [] \<Longrightarrow> delivers ms has bs is rest \<Longrightarrow>
    delivers ms has (ds @ bs) (Ret (int (length ds)) e ds # is) rest"
| delivers_interrupted: "delivers ms has bs is rest \<Longrightarrow> delivers ms has bs (Ret (- 1) EINTR d # is) rest"
| delivers_again: "delivers ms True bs is rest \<Longrightarrow> ms = - 1 \<or> \<not> t \<Longrightarrow>
    delivers ms True bs (Ret (- 1) EAGAIN d # Resumed t # is) rest"
| delivers_block: "delivers ms True bs is rest \<Longrightarrow> ms = - 1 \<or> \<not> t \<Longrightarrow>
    delivers ms False bs (Ret (- 1) EAGAIN d # Added True # Resumed t # is) rest"

lemma accepts_pos: "accepts ms has n is rest \<Longrightarrow> 0 < n"
  by (induction rule: accepts.induct) auto

lemma delivers_nonempty: "delivers ms has bs is rest \<Longrightarrow> bs \<noteq> []"
  by (induction rule: delivers.induct) auto

text \<open>A wait that ends in time.\<close>

lemma wait_registered_in_time:
  assumes "inputs st = Resumed t # is" "ms = - 1 \<or> \<not> t"
  shows "\<exists>st1. wait_registered ms st = Some (True, st1) \<and> inputs st1 = is"
  using assms by (auto simp: wait_registered_def yield_timeout_def ask_def emit_def)

lemma io_retry_resumed:
  assumes "inputs st = Resumed t # is" "ms = - 1 \<or> \<not> t" "has_ev ev" "errno st = EAGAIN"
  shows "\<exists>st1. io_retry ms ev st = Some (True, ev, st1) \<and> inputs st1 = is"
  using wait_registered_in_time [OF assms(1,2)] assms(3,4) by (auto simp: io_retry_def IOEvent_wait_def)

lemma io_retry_added:
  assumes "inputs st = Added True # Resumed t # is" "ms = - 1 \<or> \<not> t" "\<not> has_ev ev" "errno st = EAGAIN"
  shows "\<exists>st1. io_retry ms ev st = Some (True, ev\<lparr>has_ev := True\<rparr>, st1) \<and> inputs st1 = is"
proof -
  obtain st0 where "ask (CAddIoEvent (ev_fd ev) (ev_ev ev)) st = Some (Added True, st0)" "inputs st0 = Resumed t # is"
    using assms(1) by (simp add: ask_def)
  with wait_registered_in_time [of st0 t "is" ms] assms show ?thesis
    by (auto simp: io_retry_def IOEvent_wait_def Let_def)
qed

lemma syscall_fails:
  "inputs st = Ret (- 1) e d # is \<Longrightarrow> \<exists>st1. syscall c st = Some (- 1, d, st1) \<and> inputs st1 = is \<and> errno st1 = e"
  by (simp add: syscall_def ask_def)

lemma syscall_succeeds:
  "inputs st = Ret r e d # is \<Longrightarrow> \<exists>st1. syscall c st = Some (r, d, st1) \<and> inputs st1 = is"
  by (simp add: syscall_def ask_def)

text \<open>The trace grew by answers that a kernel can give to a send.\<close>

definition send_steps :: "io_st \<Rightarrow> io_st \<Rightarrow> bool" where
  "send_steps st st' \<longleftrightarrow> (\<exists>tr. trace st' = trace st @ tr \<and> list_all send_answer_ok tr)"

lemma send_steps_trans: "send_steps st st1 \<Longrightarrow> send_steps st1 st2 \<Longrightarrow> send_steps st st2"
  unfolding send_steps_def by (metis append_assoc list_all_append)

lemma send_steps_syscall:
  "syscall (mk bs) st = Some (r, d, st1) \<Longrightarrow> sender mk \<Longrightarrow> - 1 \<le> r \<Longrightarrow> r \<le> int (length bs) \<Longrightarrow> send_steps st st1"
  by (drule syscall_Some) (auto simp: send_steps_def sender_simps)

lemma wait_calls_ok: "wait_calls ev tr \<Longrightarrow> list_all send_answer_ok tr"
  by (auto simp: wait_calls_def list_all_iff)

lemma send_steps_retry: "io_retry ms ev st = Some (go, ev', st') \<Longrightarrow> send_steps st st'"
  using io_retry_Some(1) [of ms ev st go ev' st'] wait_calls_ok by (auto simp: send_steps_def)

lemma send_loop_retry:
  assumes "inputs st = Ret (- 1) e d # is" "0 < k" "sender mk"
    and "\<And>st1. inputs st1 = is \<Longrightarrow> errno st1 = e \<Longrightarrow> \<exists>st2. io_retry ms ev st1 = Some (True, ev', st2) \<and> inputs st2 = is'"
  shows "\<exists>st2. send_loop mk n (int k) s ms ev st = send_loop mk n (int k) s ms ev' st2 \<and> inputs st2 = is' \<and>
    send_steps st st2"
proof -
  obtain st1 where st1: "syscall (mk (take k s)) st = Some (- 1, d, st1)" "inputs st1 = is" "errno st1 = e"
    using syscall_fails [OF assms(1)] by blast
  obtain st2 where st2: "io_retry ms ev st1 = Some (True, ev', st2)" "inputs st2 = is'"
    using assms(4) [OF st1(2,3)] by blast
  have "send_loop mk n (int k) s ms ev st = send_loop mk n (int k) s ms ev' st2"
    using st1(1) st2(1) assms(2) by (simp add: send_loop.simps [of mk n "int k" s ms ev st])
  moreover have "send_steps st st2"
    using send_steps_trans [OF send_steps_syscall [OF st1(1) assms(3)] send_steps_retry [OF st2(1)]] by simp
  ultimately show ?thesis using st2(2) by blast
qed

lemma send_steps_first:
  assumes "a = b" "send_steps st st1" "\<exists>ev' st'. b = Some (n, ev', st') \<and> inputs st' = rest \<and> send_steps st1 st'"
  shows "\<exists>ev' st'. a = Some (n, ev', st') \<and> inputs st' = rest \<and> send_steps st st'"
  using assms send_steps_trans by blast

lemma send_loop_accepts:
  assumes "accepts ms has k is rest" "inputs st = is" "has_ev ev = has" "k \<le> length s" "sender mk"
  shows "\<exists>ev' st'. send_loop mk n (int k) s ms ev st = Some (n, ev', st') \<and> inputs st' = rest \<and> send_steps st st'"
  using assms(1-4)
proof (induction arbitrary: st ev s rule: accepts.induct)
  case (accepts_all k has e d rest)
  obtain st1 where st1: "syscall (mk (take k s)) st = Some (int k, d, st1)" "inputs st1 = rest"
    using syscall_succeeds [OF accepts_all.prems(1)] by blast
  with send_steps_syscall [OF st1(1) assms(5)] accepts_all.prems(3) show ?case
    by (simp add: send_loop.simps [of mk n "int k"])
next
  case (accepts_part i has k "is" rest e d)
  obtain st1 where st1: "syscall (mk (take (i + k) s)) st = Some (int i, d, st1)" "inputs st1 = is"
    using syscall_succeeds [OF accepts_part.prems(1)] by blast
  have l: "send_loop mk n (int (i + k)) s ms ev st = send_loop mk n (int k) (drop i s) ms ev st1"
    using st1 accepts_pos [OF accepts_part.hyps(2)]
    by (simp add: send_loop.simps [of mk n "int i + int k"] nat_int_add)
  have "send_steps st st1"
    using send_steps_syscall [OF st1(1) assms(5)] accepts_part.prems(3) by simp
  from send_steps_first [OF l this accepts_part.IH] accepts_part.prems st1(2) show ?case by simp
next
  case (accepts_interrupted has k "is" rest d)
  have "\<exists>st2. io_retry ms ev st1 = Some (True, ev, st2) \<and> inputs st2 = is" if "inputs st1 = is" "errno st1 = EINTR" for st1
    using that by (simp add: io_retry_def errno_defs)
  from send_loop_retry [OF accepts_interrupted.prems(1) accepts_pos [OF accepts_interrupted.hyps(1)] assms(5) this]
  obtain st2 where st2: "send_loop mk n (int k) s ms ev st = send_loop mk n (int k) s ms ev st2" "inputs st2 = is"
    "send_steps st st2" by blast
  from send_steps_first [OF st2(1,3) accepts_interrupted.IH] accepts_interrupted.prems st2(2) show ?case by simp
next
  case (accepts_again k "is" rest t d)
  have "\<exists>st2. io_retry ms ev st1 = Some (True, ev, st2) \<and> inputs st2 = is"
    if "inputs st1 = Resumed t # is" "errno st1 = EAGAIN" for st1
    using io_retry_resumed [OF that(1) accepts_again.hyps(2) _ that(2)] accepts_again.prems(2) by simp
  from send_loop_retry [OF accepts_again.prems(1) accepts_pos [OF accepts_again.hyps(1)] assms(5) this]
  obtain st2 where st2: "send_loop mk n (int k) s ms ev st = send_loop mk n (int k) s ms ev st2" "inputs st2 = is"
    "send_steps st st2" by blast
  from send_steps_first [OF st2(1,3) accepts_again.IH] accepts_again.prems st2(2) show ?case by simp
next
  case (accepts_block k "is" rest t d)
  have "\<exists>st2. io_retry ms ev st1 = Some (True, ev\<lparr>has_ev := True\<rparr>, st2) \<and> inputs st2 = is"
    if "inputs st1 = Added True # Resumed t # is" "errno st1 = EAGAIN" for st1
    using io_retry_added [OF that(1) accepts_block.hyps(2) _ that(2)] accepts_block.prems(2) by simp
  from send_loop_retry [OF accepts_block.prems(1) accepts_pos [OF accepts_block.hyps(1)] assms(5) this]
  obtain st2 where st2: "send_loop mk n (int k) s ms ev st = send_loop mk n (int k) s ms (ev\<lparr>has_ev := True\<rparr>) st2"
    "inputs st2 = is" "send_steps st st2" by blast
  from send_steps_first [OF st2(1,3) accepts_block.IH] accepts_block.prems st2(2) show ?case by simp
qed

lemma recvn_loop_retry:
  assumes "inputs st = Ret (- 1) e d # is" "0 < k"
    and "\<And>st1. inputs st1 = is \<Longrightarrow> errno st1 = e \<Longrightarrow> \<exists>st2. io_retry ms ev st1 = Some (True, ev', st2) \<and> inputs st2 = is'"
  shows "\<exists>st2. recvn_loop fd n (int k) got ms ev st = recvn_loop fd n (int k) got ms ev' st2 \<and> inputs st2 = is'"
  using syscall_fails [OF assms(1), of "CRecv fd (int k)"] assms(2,3)
  by (fastforce simp: recvn_loop.simps [of fd n "int k" got ms ev st])

lemma recvn_loop_delivers:
  assumes "delivers ms has bs is rest" "inputs st = is" "has_ev ev = has"
  shows "\<exists>ev' st'. recvn_loop fd n (int (length bs)) got ms ev st = Some (n, got @ bs, ev', st') \<and> inputs st' = rest"
  using assms
proof (induction arbitrary: st ev got rule: delivers.induct)
  case (delivers_all bs has e rest)
  then show ?case using syscall_succeeds [OF delivers_all.prems(1), of "CRecv fd (int (length bs))"]
    by (auto simp: recvn_loop.simps [of _ _ "int (length bs)"])
next
  case (delivers_part ds has bs "is" rest e)
  obtain st1 where st1: "syscall (CRecv fd (int (length (ds @ bs)))) st = Some (int (length ds), ds, st1)" "inputs st1 = is"
    using syscall_succeeds [OF delivers_part.prems(1)] by blast
  then have "recvn_loop fd n (int (length (ds @ bs))) got ms ev st = recvn_loop fd n (int (length bs)) (got @ ds) ms ev st1"
    using delivers_nonempty [OF delivers_part.hyps(2)] delivers_part.hyps(1)
    by (simp add: recvn_loop.simps [of fd n "int (length ds) + int (length bs)"])
  with delivers_part.IH [of st1 ev "got @ ds"] delivers_part.prems st1(2) show ?case by simp
next
  case (delivers_interrupted has bs "is" rest d)
  have "\<exists>st2. io_retry ms ev st1 = Some (True, ev, st2) \<and> inputs st2 = is" if "inputs st1 = is" "errno st1 = EINTR" for st1
    using that by (simp add: io_retry_def errno_defs)
  from recvn_loop_retry [OF delivers_interrupted.prems(1) _ this, of "length bs"]
  obtain st2 where "recvn_loop fd n (int (length bs)) got ms ev st = recvn_loop fd n (int (length bs)) got ms ev st2"
    "inputs st2 = is" using delivers_nonempty [OF delivers_interrupted.hyps(1)] by blast
  with delivers_interrupted.IH [of st2 ev got] delivers_interrupted.prems show ?case by simp
next
  case (delivers_again bs "is" rest t d)
  have "\<exists>st2. io_retry ms ev st1 = Some (True, ev, st2) \<and> inputs st2 = is"
    if "inputs st1 = Resumed t # is" "errno st1 = EAGAIN" for st1
    using io_retry_resumed [OF that(1) delivers_again.hyps(2) _ that(2)] delivers_again.prems(2) by simp
  from recvn_loop_retry [OF delivers_again.prems(1) _ this, of "length bs"]
  obtain st2 where "recvn_loop fd n (int (length bs)) got ms ev st = recvn_loop fd n (int (length bs)) got ms ev st2"
    "inputs st2 = is"
    using delivers_nonempty [OF delivers_again.hyps(1)] by blast
  with delivers_again.IH [of st2 ev got] delivers_again.prems show ?case by simp
next
  case (delivers_block bs "is" rest t d)
  have "\<exists>st2. io_retry ms ev st1 = Some (True, ev\<lparr>has_ev := True\<rparr>, st2) \<and> inputs st2 = is"
    if "inputs st1 = Added True # Resumed t # is" "errno st1 = EAGAIN" for st1
    using io_retry_added [OF that(1) delivers_block.hyps(2) _ that(2)] delivers_block.prems(2) by simp
  from recvn_loop_retry [OF delivers_block.prems(1) _ this, of "length bs"]
  obtain st2 where "recvn_loop fd n (int (length bs)) got ms ev st = recvn_loop fd n (int (length bs)) got ms (ev\<lparr>has_ev := True\<rparr>) st2"
    "inputs st2 = is" using delivers_nonempty [OF delivers_block.hyps(1)] by blast
  with delivers_block.IH [of st2 "ev\<lparr>has_ev := True\<rparr>" got] delivers_block.prems show ?case by simp
qed

lemma inputs_IOEvent_destroy [simp]: "inputs (IOEvent_destroy ev st) = inputs st"
  by (simp add: IOEvent_destroy_def emit_def)

lemma send_steps_destroy: "send_steps st (IOEvent_destroy ev st)"
  by (simp add: send_steps_def IOEvent_destroy_def emit_def)

lemma co_send_accepts:
  assumes "accepts (word_of_int ms) False (length buf) (inputs st) rest"
  shows "\<exists>st' tr. co_send fd buf (int (length buf)) ms st = Some (int (length buf), st') \<and> inputs st' = rest \<and>
    trace st' = trace st @ tr \<and> sent_all tr = buf"
proof -
  obtain ev' st1 where s: "send_loop (CSend fd) (int (length buf)) (int (length buf)) buf (word_of_int ms)
      (IOEvent_IOEvent fd kEvWrite) st = Some (int (length buf), ev', st1)" "inputs st1 = rest" "send_steps st st1"
    using send_loop_accepts [OF assms, of st "IOEvent_IOEvent fd kEvWrite" buf "CSend fd" "int (length buf)"]
    by (auto simp: IOEvent_IOEvent_def)
  let ?st = "IOEvent_destroy ev' st1"
  obtain tr1 where tr1: "trace st1 = trace st @ tr1" "list_all send_answer_ok tr1"
    using s(3) by (auto simp: send_steps_def)
  have "sent_all tr1 = buf"
    using send_loop_sent [OF s(1) tr1 sender_calls(1)] accepts_pos [OF assms] by auto
  moreover have "\<exists>tr2. trace ?st = trace st1 @ tr2 \<and> sent_all tr2 = []"
    by (cases "has_ev ev'") (simp_all add: IOEvent_destroy_def emit_def sent_all_def)
  then obtain tr2 where "trace ?st = trace st1 @ tr2" "sent_all tr2 = []" by blast
  ultimately show ?thesis
    using s tr1(1) by (intro exI [of _ ?st] exI [of _ "tr1 @ tr2"]) (simp add: co_send_def)
qed

lemma co_recvn_delivers:
  assumes "delivers (word_of_int ms) False bs (inputs st) rest"
  shows "\<exists>st'. co_recvn fd (int (length bs)) ms st = Some (int (length bs), bs, st') \<and> inputs st' = rest"
  using recvn_loop_delivers [OF assms, of st "IOEvent_IOEvent fd kEvRead" fd "int (length bs)" "[]"]
  by (auto simp: co_recvn_def IOEvent_IOEvent_def)

text \<open>C13: transfers complete. When the kernel takes the bytes of a buffer, or delivers the bytes asked for, in pieces of any
  size, with interruptions and with waits that do not time out in any number and order, \<open>send\<close> and \<open>recvn\<close> return,
  with the full size; the kernel then took exactly the bytes of the buffer, and \<open>recvn\<close> has exactly the bytes that
  came.\<close>

theorem co_transfers_complete:
  "(accepts (word_of_int ms) False (length buf) (inputs st) rest \<longrightarrow>
      (\<exists>st' tr. co_send fd buf (int (length buf)) ms st = Some (int (length buf), st') \<and> inputs st' = rest \<and>
         trace st' = trace st @ tr \<and> sent_all tr = buf)) \<and>
   (delivers (word_of_int ms) False bs (inputs st) rest \<longrightarrow>
      (\<exists>st'. co_recvn fd (int (length bs)) ms st = Some (int (length bs), bs, st') \<and> inputs st' = rest))"
  using co_send_accepts co_recvn_delivers by blast

theorem co_transfers_complete_witness:
  "(\<exists>st'. co_send 5 ''hello'' 5 (- 1) send_script = Some (5, st')) \<and>
   (\<exists>st'. co_recvn 5 4 1000 \<lparr>inputs = [Ret 1 0 ''a'', Ret (- 1) EAGAIN [], Added True, Resumed False, Ret 3 0 ''bcd''],
      trace = [], errno = 0\<rparr> = Some (4, ''abcd'', st'))"
proof -
  let ?st = "\<lparr>inputs = [Ret 1 0 ''a'', Ret (- 1) EAGAIN [], Added True, Resumed False, Ret 3 0 ''bcd''],
      trace = [], errno = 0\<rparr>"
  have "accepts (- 1) True 3 [Ret 3 0 []] []" using accepts_all [of 3] by simp
  then have "accepts (- 1) False 3 [Ret (- 1) EAGAIN [], Added True, Resumed False, Ret 3 0 []] []"
    by (intro accepts_block) simp_all
  then have "accepts (- 1) False 5 (Ret 2 0 [] # [Ret (- 1) EAGAIN [], Added True, Resumed False, Ret 3 0 []]) []"
    using accepts_part [of 2 "- 1" False 3] by simp
  then have a: "accepts (word_of_int (- 1)) False (length ''hello'') (inputs send_script) []"
    by (simp add: send_script_def accepts_interrupted eval_nat_numeral)
  have "delivers (word_of_int 1000) True ''bcd'' [Ret 3 0 ''bcd''] []" using delivers_all [of "''bcd''"] by simp
  then have "delivers (word_of_int 1000) False ''bcd'' [Ret (- 1) EAGAIN [], Added True, Resumed False, Ret 3 0 ''bcd''] []"
    by (intro delivers_block) simp_all
  from delivers_part [of "''a''", OF _ this, of 0]
  have "delivers (word_of_int 1000) False ''abcd'' (inputs ?st) []" by simp
  with a co_transfers_complete [of "- 1" "''hello''" send_script "[]" 5 "''hello''"]
    co_transfers_complete [of 1000 "''abcd''" ?st "[]" 5 "''abcd''"]
  show ?thesis by auto
qed

text \<open>A negative time-out other than -1 is not "never": it becomes a timer of about 49 days.\<close>

lemma negative_timeout_sets_timer:
  assumes "wait_registered (word_of_int (- 2)) st = Some (ok, st')"
  shows "(CAddTimer 4294967294, None) \<in> set (trace st')"
  using wait_registered_Some [OF assms] by auto

end
