(* ===== verification/Net.thy ===== *)
theory Net
  imports Sock Byte_Order Stream_Buffer
begin

text \<open>
  Addresses, connections, sockets and the accepting server: the address functions at the end of \<open>include/sock.h\<close>,
  \<open>include/net/address.h\<close>, \<open>conn.h\<close>, \<open>socket.h\<close>, \<open>tcp.h\<close> and \<open>src/net/tcp.cc\<close>. The
  operations run on the state of theory \<open>Io_Event\<close>. \<open>inet_pton\<close> and \<open>inet_ntop\<close> are the parameters \<open>pton\<close> (nothing
  when the text is not an address) and \<open>ntop\<close>, \<open>big\<close> is the byte order of the host, and \<open>sched\<close> says
  whether the calling thread has a scheduler. A failed \<open>CHECK\<close> logs at the level that ends the
  program; it is the fault \<open>AssertFail\<close>.
\<close>

type_synonym 'a io = "io_st \<Rightarrow> ('a \<times> io_st) res"

definition lift_io :: "('a \<times> io_st) option \<Rightarrow> ('a \<times> io_st) res" where
  "lift_io x = (case x of None \<Rightarrow> Inl OutOfAnswers | Some y \<Rightarrow> Inr y)"

definition io_bind :: "'a io \<Rightarrow> ('a \<Rightarrow> 'b io) \<Rightarrow> 'b io" where
  "io_bind m f st = res_bind (m st) (\<lambda>(x, st'). f x st')"

definition io_return :: "'a \<Rightarrow> 'a io" where
  "io_return x st = Inr (x, st)"

definition io_check :: "bool \<Rightarrow> unit io" where
  "io_check b st = (if b then Inr ((), st) else Inl AssertFail)"

definition log_error :: "string \<Rightarrow> unit io" where
  "log_error msg st = Inr ((), emit (CLogError msg) st)"

lemma lift_io_simps [simp]: "lift_io None = Inl OutOfAnswers" "lift_io (Some y) = Inr y"
  by (simp_all add: lift_io_def)

lemma lift_io_Inr [simp]: "lift_io x = Inr y \<longleftrightarrow> x = Some y"
  by (cases x) simp_all

section \<open>Addresses\<close>

definition AF_INET :: uint16 where "AF_INET = 2"
definition AF_INET6 :: uint16 where "AF_INET6 = 10"

record sockaddr_in =
  sin_family :: uint16
  sin_port :: uint16
  sin_addr :: "byte list"

record sockaddr_in6 =
  sin6_family :: uint16
  sin6_port :: uint16
  sin6_flowinfo :: "byte list"
  sin6_addr :: "byte list"
  sin6_scope_id :: "byte list"

text \<open>The structures as \<open>memset\<close> leaves them, and their object representation.\<close>

definition sockaddr_in_zero :: sockaddr_in where
  "sockaddr_in_zero = \<lparr>sin_family = 0, sin_port = 0, sin_addr = replicate 4 nul\<rparr>"

definition sockaddr_in6_zero :: sockaddr_in6 where
  "sockaddr_in6_zero = \<lparr>sin6_family = 0, sin6_port = 0, sin6_flowinfo = replicate 4 nul,
     sin6_addr = replicate 16 nul, sin6_scope_id = replicate 4 nul\<rparr>"

definition memory_of :: "bool \<Rightarrow> uint16 \<Rightarrow> byte list" where
  "memory_of big v = map (\<lambda>b. char_of (unat b)) (in_memory big v)"

definition from_memory :: "bool \<Rightarrow> byte list \<Rightarrow> uint16" where
  "from_memory big bs = of_bytes ((if big then rev else id) (map of_char bs))"

definition sockaddr_in_bytes :: "bool \<Rightarrow> sockaddr_in \<Rightarrow> byte list" where
  "sockaddr_in_bytes big a = memory_of big (sin_family a) @ memory_of big (sin_port a) @ sin_addr a @ replicate 8 nul"

definition sockaddr_in6_bytes :: "bool \<Rightarrow> sockaddr_in6 \<Rightarrow> byte list" where
  "sockaddr_in6_bytes big a = memory_of big (sin6_family a) @ memory_of big (sin6_port a) @
     sin6_flowinfo a @ sin6_addr a @ sin6_scope_id a"

definition init_ip_addr :: "bool \<Rightarrow> (uint16 \<Rightarrow> string \<Rightarrow> byte list option) \<Rightarrow> string \<Rightarrow> int \<Rightarrow> bool \<times> sockaddr_in" where
  [model_defs]: "init_ip_addr big pton ip port =
     (let a = sockaddr_in_zero\<lparr>sin_family := AF_INET, sin_port := hton16 big (word_of_int port)\<rparr> in
      case pton AF_INET ip of None \<Rightarrow> (False, a) | Some bs \<Rightarrow> (True, a\<lparr>sin_addr := bs\<rparr>))"

definition init_ip6_addr :: "bool \<Rightarrow> (uint16 \<Rightarrow> string \<Rightarrow> byte list option) \<Rightarrow> string \<Rightarrow> int \<Rightarrow> bool \<times> sockaddr_in6" where
  [model_defs]: "init_ip6_addr big pton ip port =
     (let a = sockaddr_in6_zero\<lparr>sin6_family := AF_INET6, sin6_port := hton16 big (word_of_int port)\<rparr> in
      case pton AF_INET6 ip of None \<Rightarrow> (False, a) | Some bs \<Rightarrow> (True, a\<lparr>sin6_addr := bs\<rparr>))"

definition ip_str :: "(uint16 \<Rightarrow> byte list \<Rightarrow> string) \<Rightarrow> sockaddr_in \<Rightarrow> string" where
  [model_defs]: "ip_str ntop a = ntop AF_INET (sin_addr a)"

definition ip6_str :: "(uint16 \<Rightarrow> byte list \<Rightarrow> string) \<Rightarrow> sockaddr_in6 \<Rightarrow> string" where
  [model_defs]: "ip6_str ntop a = ntop AF_INET6 (sin6_addr a)"

text \<open>\<open>std::to_string\<close> of a number is its decimal text.\<close>

definition sockaddr_to_string :: "bool \<Rightarrow> (uint16 \<Rightarrow> byte list \<Rightarrow> string) \<Rightarrow> sockaddr_in \<Rightarrow> string" where
  [model_defs]: "sockaddr_to_string big ntop a =
     ntop AF_INET (sin_addr a) @ '':'' @ convert (uint (ntoh16 big (sin_port a)))"

subsection \<open>The classes\<close>

datatype Family = kIpv4 | kIpv6

datatype Address = IPv4Address sockaddr_in | IPv6Address sockaddr_in6

definition IPv4Address_init :: Address where
  [model_defs]: "IPv4Address_init = IPv4Address (sockaddr_in_zero\<lparr>sin_family := AF_INET\<rparr>)"

definition IPv6Address_init :: Address where
  [model_defs]: "IPv6Address_init = IPv6Address (sockaddr_in6_zero\<lparr>sin6_family := AF_INET6\<rparr>)"

definition IPv4Address_Create :: "bool \<Rightarrow> (uint16 \<Rightarrow> string \<Rightarrow> byte list option) \<Rightarrow> string \<Rightarrow> uint16 \<Rightarrow> Address io" where
  [model_defs]: "IPv4Address_Create big pton ip port =
     (let a = sockaddr_in_zero\<lparr>sin_family := AF_INET, sin_port := hton16 big port\<rparr> in
      case pton AF_INET ip of
        None \<Rightarrow> io_bind (log_error ''ip transform error'') (\<lambda>_. io_return (IPv4Address a))
      | Some bs \<Rightarrow> io_return (IPv4Address (a\<lparr>sin_addr := bs\<rparr>)))"

definition IPv6Address_Create :: "bool \<Rightarrow> (uint16 \<Rightarrow> string \<Rightarrow> byte list option) \<Rightarrow> string \<Rightarrow> uint16 \<Rightarrow> Address io" where
  [model_defs]: "IPv6Address_Create big pton ip port =
     (let a = sockaddr_in6_zero\<lparr>sin6_family := AF_INET6, sin6_port := hton16 big port\<rparr> in
      case pton AF_INET6 ip of
        None \<Rightarrow> io_bind (log_error ''ip transform error'') (\<lambda>_. io_return (IPv6Address a))
      | Some bs \<Rightarrow> io_return (IPv6Address (a\<lparr>sin6_addr := bs\<rparr>)))"

text \<open>The operations of each class.\<close>

definition IPv4Address_port :: "bool \<Rightarrow> sockaddr_in \<Rightarrow> uint16" where
  [model_defs, simp]: "IPv4Address_port big a = ntoh16 big (sin_port a)"

definition IPv4Address_set_port :: "bool \<Rightarrow> uint16 \<Rightarrow> sockaddr_in \<Rightarrow> sockaddr_in" where
  [model_defs, simp]: "IPv4Address_set_port big port a = a\<lparr>sin_port := hton16 big port\<rparr>"

definition IPv4Address_addrlen :: "sockaddr_in \<Rightarrow> nat" where
  [model_defs, simp]: "IPv4Address_addrlen a = 16"

definition IPv4Address_family :: "sockaddr_in \<Rightarrow> Family" where
  [model_defs, simp]: "IPv4Address_family a = kIpv4"

definition IPv4Address_ToString :: "bool \<Rightarrow> (uint16 \<Rightarrow> byte list \<Rightarrow> string) \<Rightarrow> sockaddr_in \<Rightarrow> string" where
  [model_defs, simp]: "IPv4Address_ToString big ntop a = sockaddr_to_string big ntop a"

definition IPv6Address_port :: "bool \<Rightarrow> sockaddr_in6 \<Rightarrow> uint16" where
  [model_defs, simp]: "IPv6Address_port big a = ntoh16 big (sin6_port a)"

definition IPv6Address_set_port :: "bool \<Rightarrow> uint16 \<Rightarrow> sockaddr_in6 \<Rightarrow> sockaddr_in6" where
  [model_defs, simp]: "IPv6Address_set_port big port a = a\<lparr>sin6_port := hton16 big port\<rparr>"

definition IPv6Address_addrlen :: "sockaddr_in6 \<Rightarrow> nat" where
  [model_defs, simp]: "IPv6Address_addrlen a = 28"

definition IPv6Address_family :: "sockaddr_in6 \<Rightarrow> Family" where
  [model_defs, simp]: "IPv6Address_family a = kIpv6"

definition IPv6Address_ToString :: "sockaddr_in6 \<Rightarrow> string" where
  [model_defs, simp]: "IPv6Address_ToString a = ''ip v6 ...''"

text \<open>\<open>addr\<close> with \<open>addrlen\<close>: the bytes of the structure.\<close>

definition IPv4Address_addr :: "bool \<Rightarrow> sockaddr_in \<Rightarrow> byte list" where
  [model_defs, simp]: "IPv4Address_addr big a = sockaddr_in_bytes big a"

definition IPv6Address_addr :: "bool \<Rightarrow> sockaddr_in6 \<Rightarrow> byte list" where
  [model_defs, simp]: "IPv6Address_addr big a = sockaddr_in6_bytes big a"

text \<open>The virtual functions of \<open>Address\<close>: what is called depends on the class of the object.\<close>

fun Address_port :: "bool \<Rightarrow> Address \<Rightarrow> uint16" where
  "Address_port big (IPv4Address a) = IPv4Address_port big a"
| "Address_port big (IPv6Address a) = IPv6Address_port big a"

fun Address_set_port :: "bool \<Rightarrow> uint16 \<Rightarrow> Address \<Rightarrow> Address" where
  "Address_set_port big port (IPv4Address a) = IPv4Address (IPv4Address_set_port big port a)"
| "Address_set_port big port (IPv6Address a) = IPv6Address (IPv6Address_set_port big port a)"

fun Address_addr :: "bool \<Rightarrow> Address \<Rightarrow> byte list" where
  "Address_addr big (IPv4Address a) = IPv4Address_addr big a"
| "Address_addr big (IPv6Address a) = IPv6Address_addr big a"

fun Address_addrlen :: "Address \<Rightarrow> nat" where
  "Address_addrlen (IPv4Address a) = IPv4Address_addrlen a"
| "Address_addrlen (IPv6Address a) = IPv6Address_addrlen a"

fun Address_family :: "Address \<Rightarrow> Family" where
  "Address_family (IPv4Address a) = IPv4Address_family a"
| "Address_family (IPv6Address a) = IPv6Address_family a"

fun Address_ToString :: "bool \<Rightarrow> (uint16 \<Rightarrow> byte list \<Rightarrow> string) \<Rightarrow> Address \<Rightarrow> string" where
  "Address_ToString big ntop (IPv4Address a) = IPv4Address_ToString big ntop a"
| "Address_ToString big ntop (IPv6Address a) = IPv6Address_ToString a"

text \<open>The kernel writes an address into the structure: at most \<open>addrlen\<close> bytes of it.\<close>

fun Address_written :: "bool \<Rightarrow> byte list \<Rightarrow> Address \<Rightarrow> Address" where
  "Address_written big bs (IPv4Address a) =
     (let m = blit 0 (take 16 bs) (sockaddr_in_bytes big a) in
      IPv4Address \<lparr>sin_family = from_memory big (slice 0 2 m), sin_port = from_memory big (slice 2 2 m),
        sin_addr = slice 4 4 m\<rparr>)"
| "Address_written big bs (IPv6Address a) =
     (let m = blit 0 (take 28 bs) (sockaddr_in6_bytes big a) in
      IPv6Address \<lparr>sin6_family = from_memory big (slice 0 2 m), sin6_port = from_memory big (slice 2 2 m),
        sin6_flowinfo = slice 4 4 m, sin6_addr = slice 8 16 m, sin6_scope_id = slice 24 4 m\<rparr>)"

definition peer :: "bool \<Rightarrow> (uint16 \<Rightarrow> byte list \<Rightarrow> string) \<Rightarrow> int \<Rightarrow> string io" where
  [model_defs]: "peer big ntop fd st =
     (case syscall (CGetpeername fd) st of
        None \<Rightarrow> Inl OutOfAnswers
      | Some (r, bs, st1) \<Rightarrow>
          Inr (if r = 0 \<and> length bs = 16 then Address_ToString big ntop (Address_written big bs (IPv4Address sockaddr_in_zero))
               else [], st1))"

section \<open>Connections\<close>

record TcpConn =
  conn_sock :: int

definition TcpConn_TcpConn :: "int \<Rightarrow> TcpConn" where
  [model_defs]: "TcpConn_TcpConn sock = \<lparr>conn_sock = sock\<rparr>"

definition TcpConn_Recv :: "int \<Rightarrow> int \<Rightarrow> TcpConn \<Rightarrow> (int \<times> byte list) io" where
  [model_defs]: "TcpConn_Recv n ms c st =
     lift_io (map_option (\<lambda>(r, bs, st'). ((r, bs), st')) (co_recv (conn_sock c) n ms st))"

definition TcpConn_Recvn :: "int \<Rightarrow> int \<Rightarrow> TcpConn \<Rightarrow> (int \<times> byte list) io" where
  [model_defs]: "TcpConn_Recvn n ms c st =
     lift_io (map_option (\<lambda>(r, bs, st'). ((r, bs), st')) (co_recvn (conn_sock c) n ms st))"

definition TcpConn_Send :: "byte list \<Rightarrow> int \<Rightarrow> int \<Rightarrow> TcpConn \<Rightarrow> int io" where
  [model_defs]: "TcpConn_Send buf n ms c st = lift_io (co_send (conn_sock c) buf n ms st)"

definition TcpConn_Close :: "bool \<Rightarrow> int \<Rightarrow> TcpConn \<Rightarrow> (int \<times> TcpConn) io" where
  [model_defs]: "TcpConn_Close sched ms c =
     io_bind (if conn_sock c \<noteq> - 1 then (\<lambda>st. lift_io (co_close sched (conn_sock c) ms st)) else io_return 0)
       (\<lambda>r. io_return (r, c\<lparr>conn_sock := - 1\<rparr>))"

definition TcpConn_Reset :: "bool \<Rightarrow> int \<Rightarrow> TcpConn \<Rightarrow> (int \<times> TcpConn) io" where
  [model_defs]: "TcpConn_Reset sched ms c =
     io_bind (if conn_sock c \<noteq> - 1 then (\<lambda>st. lift_io (reset_tcp_socket sched (conn_sock c) ms st)) else io_return 0)
       (\<lambda>r. io_return (r, c\<lparr>conn_sock := - 1\<rparr>))"

definition TcpConn_destroy :: "bool \<Rightarrow> TcpConn \<Rightarrow> unit io" where
  [model_defs]: "TcpConn_destroy sched c = io_bind (TcpConn_Close sched 0 c) (\<lambda>_. io_return ())"

section \<open>Sockets\<close>

definition kInvalidFd :: int where "kInvalidFd = - 1"
definition kMaxConn :: int where "kMaxConn = 4096"

datatype Type = kTcp | kUdp

definition type_value :: "Type \<Rightarrow> int" where
  "type_value t = (case t of kTcp \<Rightarrow> SOCK_STREAM | kUdp \<Rightarrow> SOCK_DGRAM)"

definition family_value :: "Family \<Rightarrow> int" where
  "family_value f = (case f of kIpv4 \<Rightarrow> uint AF_INET | kIpv6 \<Rightarrow> uint AF_INET6)"

record Socket =
  sk_fd :: int
  sk_family :: Family
  sk_type :: Type
  sk_protocol :: int
  sk_conn :: "TcpConn option"
  sk_local_addr :: "Address option"
  sk_remote_addr :: "Address option"
  sk_connected :: bool

definition Socket_Create :: "Family \<Rightarrow> Type \<Rightarrow> int \<Rightarrow> Socket" where
  [model_defs]: "Socket_Create family type protocol =
     \<lparr>sk_fd = kInvalidFd, sk_family = family, sk_type = type, sk_protocol = protocol, sk_conn = None,
      sk_local_addr = None, sk_remote_addr = None, sk_connected = False\<rparr>"

definition Socket_is_valid :: "Socket \<Rightarrow> bool" where
  [model_defs]: "Socket_is_valid s \<longleftrightarrow> sk_fd s \<noteq> kInvalidFd"

text \<open>\<open>getsockname\<close> into a fresh address of the family.\<close>

definition query_sockname :: "bool \<Rightarrow> Family \<Rightarrow> int \<Rightarrow> Address io" where
  "query_sockname big family fd st =
     (let a = (case family of kIpv4 \<Rightarrow> IPv4Address_init | kIpv6 \<Rightarrow> IPv6Address_init) in
      case syscall (CGetsockname fd) st of
        None \<Rightarrow> Inl OutOfAnswers
      | Some (r, bs, st1) \<Rightarrow>
          if r \<noteq> 0 then Inr (a, emit (CLogError ''unknown address'') st1) else Inr (Address_written big bs a, st1))"

definition Socket_InitLocalAddr :: "bool \<Rightarrow> Socket \<Rightarrow> Socket io" where
  [model_defs]: "Socket_InitLocalAddr big s =
     (if sk_local_addr s \<noteq> None then io_return s
      else io_bind (query_sockname big (sk_family s) (sk_fd s)) (\<lambda>a. io_return (s\<lparr>sk_local_addr := Some a\<rparr>)))"

definition Socket_InitRemoteAddr :: "bool \<Rightarrow> Socket \<Rightarrow> Socket io" where
  [model_defs]: "Socket_InitRemoteAddr big s =
     (if sk_remote_addr s \<noteq> None then io_return s
      else io_bind (query_sockname big (sk_family s) (sk_fd s)) (\<lambda>a. io_return (s\<lparr>sk_remote_addr := Some a\<rparr>)))"

text \<open>The connection that was there before loses its owner when the new one is stored.\<close>

definition Socket_Init :: "bool \<Rightarrow> bool \<Rightarrow> int \<Rightarrow> Socket \<Rightarrow> Socket io" where
  [model_defs]: "Socket_Init sched big fd s =
     (if fd = kInvalidFd then io_bind (log_error ''socket create error'') (\<lambda>_. io_return s)
      else
        io_bind (\<lambda>st. lift_io (set_reuseaddr fd st)) (\<lambda>_.
        io_bind (case sk_conn s of None \<Rightarrow> io_return () | Some c \<Rightarrow> TcpConn_destroy sched c) (\<lambda>_.
        io_bind (Socket_InitLocalAddr big
          (s\<lparr>sk_fd := fd, sk_conn := Some (TcpConn_TcpConn fd), sk_connected := True\<rparr>)) (Socket_InitRemoteAddr big))))"

definition Socket_CreateSocket :: "bool \<Rightarrow> bool \<Rightarrow> Socket \<Rightarrow> Socket io" where
  [model_defs]: "Socket_CreateSocket sched big s =
     io_bind (\<lambda>st. lift_io (co_socket (family_value (sk_family s)) (type_value (sk_type s)) (sk_protocol s) st))
       (\<lambda>fd. Socket_Init sched big fd (s\<lparr>sk_fd := fd\<rparr>))"

text \<open>The transfers go to the connection, which is there when \<open>connected_\<close> is set.\<close>

definition with_conn :: "Socket \<Rightarrow> (TcpConn \<Rightarrow> 'a io) \<Rightarrow> 'a io" where
  "with_conn s f =
     io_bind (io_check (sk_connected s)) (\<lambda>_.
       case sk_conn s of None \<Rightarrow> (\<lambda>st. Inl NullDeref) | Some c \<Rightarrow> f c)"

definition Socket_Recv :: "int \<Rightarrow> int \<Rightarrow> Socket \<Rightarrow> (int \<times> byte list) io" where
  [model_defs]: "Socket_Recv n ms s = with_conn s (TcpConn_Recv n ms)"

definition Socket_Recvn :: "int \<Rightarrow> int \<Rightarrow> Socket \<Rightarrow> (int \<times> byte list) io" where
  [model_defs]: "Socket_Recvn n ms s = with_conn s (TcpConn_Recvn n ms)"

definition Socket_Send :: "byte list \<Rightarrow> int \<Rightarrow> int \<Rightarrow> Socket \<Rightarrow> int io" where
  [model_defs]: "Socket_Send buf n ms s = with_conn s (TcpConn_Send buf n ms)"

definition Socket_Close :: "bool \<Rightarrow> int \<Rightarrow> Socket \<Rightarrow> (bool \<times> Socket) io" where
  [model_defs]: "Socket_Close sched ms s =
     (if \<not> sk_connected s then io_return (True, s)
      else case sk_conn s of
             None \<Rightarrow> (\<lambda>st. Inl NullDeref)
           | Some c \<Rightarrow> io_bind (TcpConn_Close sched ms c)
               (\<lambda>(r, c'). io_return (r = 0, s\<lparr>sk_connected := False, sk_conn := Some c'\<rparr>)))"

definition Socket_Reset :: "bool \<Rightarrow> int \<Rightarrow> Socket \<Rightarrow> (int \<times> Socket) io" where
  [model_defs]: "Socket_Reset sched ms s =
     with_conn s (\<lambda>c. io_bind (TcpConn_Reset sched ms c) (\<lambda>(r, c'). io_return (r, s\<lparr>sk_conn := Some c'\<rparr>)))"

definition ensure_socket :: "bool \<Rightarrow> bool \<Rightarrow> Socket \<Rightarrow> Socket io" where
  "ensure_socket sched big s =
     io_bind (if Socket_is_valid s then io_return s else Socket_CreateSocket sched big s)
       (\<lambda>s'. io_bind (io_check (Socket_is_valid s')) (\<lambda>_. io_return s'))"

definition Socket_Bind :: "bool \<Rightarrow> bool \<Rightarrow> Address \<Rightarrow> Socket \<Rightarrow> (bool \<times> Socket) io" where
  [model_defs]: "Socket_Bind sched big addr s =
     io_bind (ensure_socket sched big s) (\<lambda>s'.
       io_bind (\<lambda>st. lift_io (co_bind (sk_fd s') (Address_addr big addr) st)) (\<lambda>r.
         if r \<noteq> 0 then io_bind (log_error ''bind error'') (\<lambda>_. io_return (False, s')) else io_return (True, s')))"

definition Socket_Listen :: "int \<Rightarrow> Socket \<Rightarrow> bool io" where
  [model_defs]: "Socket_Listen backlog s =
     io_bind (io_check (Socket_is_valid s)) (\<lambda>_.
       io_bind (\<lambda>st. lift_io (co_listen (sk_fd s) backlog st)) (\<lambda>r.
         if r \<noteq> 0 then io_bind (log_error ''listen error'') (\<lambda>_. io_return False) else io_return True))"

definition Socket_Accept :: "bool \<Rightarrow> bool \<Rightarrow> Socket \<Rightarrow> Socket io" where
  [model_defs]: "Socket_Accept sched big s =
     io_bind (io_check (Socket_is_valid s)) (\<lambda>_.
       io_bind (\<lambda>st. lift_io (co_accept (sk_fd s) st)) (\<lambda>fd.
         io_bind (if fd < 0 then log_error ''accept error'' else io_return ()) (\<lambda>_.
           Socket_Init sched big fd (Socket_Create (sk_family s) (sk_type s) (sk_protocol s)))))"

text \<open>The time-out is a \<open>uint64\<close> that is narrowed to the \<open>int\<close> of \<open>co::connect\<close>.\<close>

definition Socket_Connect :: "bool \<Rightarrow> bool \<Rightarrow> Address \<Rightarrow> uint64 \<Rightarrow> Socket \<Rightarrow> (bool \<times> Socket) io" where
  [model_defs]: "Socket_Connect sched big addr ms s =
     io_bind (ensure_socket sched big s) (\<lambda>s'.
       io_bind (\<lambda>st. lift_io (co_connect (sk_fd s') (Address_addr big addr) (sint (ucast ms :: uint32)) st)) (\<lambda>r.
         if r \<noteq> 0 then io_bind (log_error ''connect error'') (\<lambda>_. io_return (False, s'))
         else io_bind (Socket_InitLocalAddr big s') (\<lambda>s''.
                io_bind (Socket_InitRemoteAddr big s'') (\<lambda>s3. io_return (True, s3)))))"

section \<open>The accepting server\<close>

text \<open>The delegate's \<open>OnBind\<close> and \<open>OnListen\<close> do nothing in the library's own server, \<open>srv_delegate\<close> says whether one is
  set. The server's coroutine hands each accepted socket to a coroutine of its own.\<close>

record TcpServer =
  srv_addr :: Address
  srv_sock :: Socket
  srv_delegate :: bool
  srv_stop :: bool
  srv_loops :: nat \<comment> \<open>how many coroutines were started on \<open>Loop\<close>\<close>

definition TcpServer_Create :: "Address \<Rightarrow> TcpServer" where
  [model_defs]: "TcpServer_Create addr =
     \<lparr>srv_addr = addr, srv_sock = Socket_Create (Address_family addr) kTcp 0, srv_delegate = False, srv_stop = False,
      srv_loops = 0\<rparr>"

definition TcpServer_set_delegate :: "bool \<Rightarrow> TcpServer \<Rightarrow> TcpServer" where
  [model_defs]: "TcpServer_set_delegate d srv = srv\<lparr>srv_delegate := d\<rparr>"

definition TcpServer_InitSock :: "bool \<Rightarrow> bool \<Rightarrow> TcpServer \<Rightarrow> TcpServer io" where
  [model_defs]: "TcpServer_InitSock sched big srv =
     io_bind (Socket_Bind sched big (srv_addr srv) (srv_sock srv)) (\<lambda>(_, s).
       io_bind (Socket_Listen kMaxConn s) (\<lambda>_. io_return (srv\<lparr>srv_sock := s\<rparr>)))"

text \<open>One turn of \<open>TcpServer::Loop\<close>: the socket that a new coroutine is started for, if any.\<close>

definition accept_turn :: "bool \<Rightarrow> bool \<Rightarrow> TcpServer \<Rightarrow> Socket option io" where
  [model_defs]: "accept_turn sched big srv =
     io_bind (Socket_Accept sched big (srv_sock srv)) (\<lambda>c. io_return (if srv_delegate srv then Some c else None))"

text \<open>\<open>n\<close> turns of the loop, which has no other end: nothing sets \<open>stop_\<close>.\<close>

fun TcpServer_Loop :: "nat \<Rightarrow> bool \<Rightarrow> bool \<Rightarrow> TcpServer \<Rightarrow> Socket list io" where
  "TcpServer_Loop 0 sched big srv = io_return []"
| "TcpServer_Loop (Suc n) sched big srv =
     (if srv_stop srv then io_return []
      else io_bind (accept_turn sched big srv) (\<lambda>c.
             io_bind (TcpServer_Loop n sched big srv) (\<lambda>cs. io_return (case c of None \<Rightarrow> cs | Some s \<Rightarrow> s # cs))))"

text \<open>\<open>Start\<close> does not look at what binding and listening return.\<close>

definition TcpServer_Start :: "bool \<Rightarrow> bool \<Rightarrow> TcpServer \<Rightarrow> TcpServer io" where
  [model_defs]: "TcpServer_Start sched big srv =
     io_bind (TcpServer_InitSock sched big srv) (\<lambda>srv'. io_return (srv'\<lparr>srv_loops := Suc (srv_loops srv')\<rparr>))"

definition TcpServer_Exit :: "TcpServer \<Rightarrow> TcpServer" where
  [model_defs]: "TcpServer_Exit srv = srv"

text \<open>\<open>BaseServer\<close> owns a TCP server and is its delegate.\<close>

record BaseServer =
  bs_server :: "TcpServer option"

definition BaseServer_BaseServer :: BaseServer where
  [model_defs]: "BaseServer_BaseServer = \<lparr>bs_server = None\<rparr>"

definition BaseServer_Bind :: "Address \<Rightarrow> BaseServer \<Rightarrow> BaseServer" where
  [model_defs]: "BaseServer_Bind addr bs = bs\<lparr>bs_server := Some (TcpServer_set_delegate True (TcpServer_Create addr))\<rparr>"

definition BaseServer_Start :: "bool \<Rightarrow> bool \<Rightarrow> BaseServer \<Rightarrow> BaseServer io" where
  [model_defs]: "BaseServer_Start sched big bs =
     (case bs_server bs of
        None \<Rightarrow> (\<lambda>st. Inl NullDeref)
      | Some srv \<Rightarrow> io_bind (TcpServer_Start sched big srv) (\<lambda>srv'. io_return (bs\<lparr>bs_server := Some srv'\<rparr>)))"

definition BaseServer_destroy :: "BaseServer \<Rightarrow> BaseServer" where
  [model_defs]: "BaseServer_destroy bs = bs\<lparr>bs_server := None\<rparr>"

section \<open>What an address says\<close>

lemma byte_lt_256:
  assumes "\<forall>n \<ge> 8. \<not> bit (b :: uint16) n"
  shows "unat b < 256"
proof -
  have "take_bit 8 b = b" using assms by (intro bit_word_eqI) (metis bit_take_bit_iff not_le)
  then have "unat b = unat (take_bit 8 b)" by simp
  also have "\<dots> = take_bit 8 (unat b)" by (simp add: unsigned_take_bit_eq)
  finally show ?thesis using take_bit_nat_less_exp [of 8 "unat b"] by simp
qed

lemma of_char_byte: "\<forall>n \<ge> 8. \<not> bit (b :: uint16) n \<Longrightarrow> of_char (char_of (unat b)) = b"
  using byte_lt_256 [of b] of_nat_of_char [of "char_of (unat b)", where ?'a = "uint16", symmetric]
  by (simp add: word_of_nat_eq_iff)

lemma from_memory_of [simp]: "from_memory big (memory_of big v) = v"
proof -
  have "map of_char (memory_of big v) = in_memory big v"
    using bytes_small [of _ v]
    by (auto simp: memory_of_def in_memory_def intro!: map_idI of_char_byte)
  then show ?thesis
    by (cases big) (simp_all add: from_memory_def in_memory_def of_bytes_bytes)
qed

lemma length_memory_of [simp]: "length (memory_of big v) = 2"
  by (simp add: memory_of_def in_memory_def length_bytes)

lemma memory_of_hton16:
  "memory_of big (hton16 big v) = [char_of (unat (drop_bit 8 v)), char_of (unat (take_bit 8 v))]"
proof -
  have "in_memory big (hton16 big v) = rev (bytes v)" using hton16_network by blast
  moreover have "bytes v = [take_bit 8 v, take_bit 8 (drop_bit 8 v)]" by (simp add: bytes_def upt_rec)
  moreover have "take_bit 8 (drop_bit 8 v) = drop_bit 8 v"
    by (rule bit_word_eqI) (auto simp: bit_take_bit_iff bit_drop_bit_eq dest: bit_imp_le_length)
  ultimately show ?thesis by (simp add: memory_of_def)
qed

lemma sockaddr_in_bytes_written:
  assumes "length (sin_addr a) = 4" "length (sin_addr b) = 4"
  shows "Address_written big (sockaddr_in_bytes big a) (IPv4Address b) = IPv4Address a"
proof -
  have "blit 0 (take 16 (sockaddr_in_bytes big a)) (sockaddr_in_bytes big b) = sockaddr_in_bytes big a"
    using assms by (simp add: blit_def sockaddr_in_bytes_def)
  moreover have "slice 0 2 (sockaddr_in_bytes big a) = memory_of big (sin_family a)"
    "slice 2 2 (sockaddr_in_bytes big a) = memory_of big (sin_port a)"
    "slice 4 4 (sockaddr_in_bytes big a) = sin_addr a"
    using assms by (simp_all add: slice_def sockaddr_in_bytes_def)
  ultimately show ?thesis by (simp add: Let_def)
qed

text \<open>An address carries its port and text through. For a text that \<open>inet_pton\<close> reads as four bytes and
  \<open>inet_ntop\<close> writes back, on a host of either byte order: the address made of it has the port
  it was given, prints as text, colon and decimal port, is 16 bytes long as the kernel sees it with the port
  there most significant byte first, and is read back unchanged when the kernel returns those bytes; changing the port
  changes it and nothing else.\<close>

theorem IPv4Address_roundtrip:
  assumes "pton AF_INET ip = Some bs" "length bs = 4" "ntop AF_INET bs = ip"
  shows "\<exists>a. IPv4Address_Create big pton ip port st = Inr (a, st) \<and> Address_port big a = port \<and>
    Address_ToString big ntop a = ip @ '':'' @ convert (uint port) \<and>
    length (Address_addr big a) = Address_addrlen a \<and>
    slice 2 2 (Address_addr big a) = [char_of (unat (drop_bit 8 port)), char_of (unat (take_bit 8 port))] \<and>
    Address_written big (Address_addr big a) IPv4Address_init = a \<and>
    Address_port big (Address_set_port big p a) = p \<and> Address_set_port big port (Address_set_port big p a) = a"
proof -
  let ?s = "sockaddr_in_zero\<lparr>sin_family := AF_INET, sin_port := hton16 big port, sin_addr := bs\<rparr>"
  have "slice 2 2 (sockaddr_in_bytes big ?s) = memory_of big (hton16 big port)"
    by (simp add: sockaddr_in_bytes_def slice_def)
  moreover have "Address_written big (sockaddr_in_bytes big ?s) IPv4Address_init = IPv4Address ?s"
    unfolding IPv4Address_init_def
    by (rule sockaddr_in_bytes_written) (simp_all add: assms(2) sockaddr_in_zero_def)
  moreover have "length (sockaddr_in_bytes big ?s) = 16" using assms(2) by (simp add: sockaddr_in_bytes_def)
  ultimately show ?thesis
    using assms
    by (intro exI [of _ "IPv4Address ?s"])
      (simp add: IPv4Address_Create_def io_return_def ntoh16_hton16 sockaddr_to_string_def memory_of_hton16)
qed

theorem IPv4Address_roundtrip_witness:
  "\<exists>a. IPv4Address_Create False (\<lambda>f t. if t = ''127.0.0.1'' then Some [CHR 0x7F, nul, nul, CHR 0x01] else None)
      ''127.0.0.1'' 8888 send_script = Inr (a, send_script) \<and> Address_port False a = 8888"
  using IPv4Address_roundtrip [of "\<lambda>f t. if t = ''127.0.0.1'' then Some [CHR 0x7F, nul, nul, CHR 0x01] else None"
    "''127.0.0.1''" "[CHR 0x7F, nul, nul, CHR 0x01]" "\<lambda>f bs. ''127.0.0.1''" False 8888 send_script]
  by auto

section \<open>The life of a connection\<close>

text \<open>The descriptor a call is about.\<close>

fun call_fd :: "call \<Rightarrow> int option" where
  "call_fd (CRecv fd n) = Some fd" | "call_fd (CSend fd bs) = Some fd"
| "call_fd (CRecvfrom fd n) = Some fd" | "call_fd (CSendto fd a bs) = Some fd"
| "call_fd (CAccept fd) = Some fd" | "call_fd (CConnect fd a) = Some fd" | "call_fd (CClose fd) = Some fd"
| "call_fd (CShutdown fd h) = Some fd" | "call_fd (CBind fd a) = Some fd" | "call_fd (CListen fd b) = Some fd"
| "call_fd (CGetsockopt fd l p) = Some fd" | "call_fd (CSetsockopt fd l p v) = Some fd"
| "call_fd (CFcntl fd c a) = Some fd" | "call_fd (CAddIoEvent fd ev) = Some fd" | "call_fd (CDelIoEvent fd ev) = Some fd"
| "call_fd (CDelIoEvents fd) = Some fd" | "call_fd (CDelCtxRead fd) = Some fd" | "call_fd (CDelCtxWrite fd) = Some fd"
| "call_fd (CGetsockname fd) = Some fd" | "call_fd (CGetpeername fd) = Some fd" | "call_fd _ = None"

text \<open>A call about no descriptor or about \<open>fd\<close>, that does not close it; and a \<open>close\<close> that was interrupted, which the loop
  of \<open>co::close\<close> repeats.\<close>

definition data_call :: "int \<Rightarrow> call \<times> input option \<Rightarrow> bool" where
  "data_call fd x \<longleftrightarrow> call_fd (fst x) \<in> {None, Some fd} \<and> fst x \<noteq> CClose fd"

fun interrupted :: "call \<times> input option \<Rightarrow> bool" where
  "interrupted (CClose fd, Some (Ret r e d)) \<longleftrightarrow> r \<noteq> 0 \<and> e = EINTR"
| "interrupted _ \<longleftrightarrow> False"

definition closes :: "call \<times> input option \<Rightarrow> bool" where
  "closes x \<longleftrightarrow> (\<exists>fd. fst x = CClose fd)"

fun close_answer_ok :: "call \<times> input option \<Rightarrow> bool" where
  "close_answer_ok (CClose fd, Some (Ret r e d)) \<longleftrightarrow> r = 0 \<or> r = - 1"
| "close_answer_ok _ \<longleftrightarrow> True"

definition on_fd :: "int \<Rightarrow> call \<times> input option \<Rightarrow> bool" where
  "on_fd fd x \<longleftrightarrow> call_fd (fst x) = Some fd"

lemma data_call_not_closes: "data_call fd x \<Longrightarrow> \<not> closes x"
  by (auto simp: data_call_def closes_def)

lemma wait_calls_data: "wait_calls ev tr \<Longrightarrow> list_all (data_call (ev_fd ev)) tr"
  by (auto simp: wait_calls_def list_all_iff data_call_def)

text \<open>The trace grew by such calls only.\<close>

definition data_steps :: "int \<Rightarrow> io_st \<Rightarrow> io_st \<Rightarrow> bool" where
  "data_steps fd st st' \<longleftrightarrow> (\<exists>tr. trace st' = trace st @ tr \<and> list_all (data_call fd) tr)"

lemma data_steps_trans [trans]: "data_steps fd st st1 \<Longrightarrow> data_steps fd st1 st2 \<Longrightarrow> data_steps fd st st2"
  unfolding data_steps_def by (metis append_assoc list_all_append)

lemma data_steps_syscall: "syscall c st = Some (r, bs, st') \<Longrightarrow> data_call fd (c, None) \<Longrightarrow> data_steps fd st st'"
  by (drule syscall_Some) (auto simp: data_steps_def data_call_def)

lemma data_steps_retry:
  assumes "io_retry ms ev st = Some (go, ev', st')"
  shows "data_steps (ev_fd ev) st st'" "ev_fd ev' = ev_fd ev"
  using io_retry_Some [OF assms] wait_calls_data by (auto simp: data_steps_def)

lemma data_call_simps [simp]:
  "data_call fd (CSend fd bs, i)" "data_call fd (CRecv fd n, i)" "data_call fd (CDelIoEvent fd ev, i)"
  "data_call fd (CDelIoEvents fd, i)" "data_call fd (CDelCtxRead fd, i)" "data_call fd (CDelCtxWrite fd, i)"
  "data_call fd (CSleep ms, i)" "data_call fd (CYield, i)" "data_call fd (CSetsockopt fd l p v, i)"
  by (simp_all add: data_call_def)

lemma send_loop_data:
  "send_loop (CSend fd) n remain s ms ev st = Some (r, ev', st') \<Longrightarrow> ev_fd ev = fd \<Longrightarrow>
   data_steps fd st st' \<and> ev_fd ev' = fd"
proof (induction "length (inputs st)" arbitrary: remain s ev st rule: less_induct)
  case less
  obtain x bs st1 where sc: "syscall (CSend fd (take (nat remain) s)) st = Some (x, bs, st1)"
    using less.prems(1) by (auto simp: send_loop.simps split: option.splits)
  note unf = send_loop.simps [of "CSend fd" n remain s ms ev st]
  have d1: "data_steps fd st st1" by (rule data_steps_syscall [OF sc]) simp
  consider "x = remain" | "x \<noteq> remain" "x \<noteq> - 1" | "x \<noteq> remain" "x = - 1" by blast
  then show ?case
  proof cases
    case 1
    with less.prems sc d1 show ?thesis by (simp add: unf)
  next
    case 2
    with less.prems sc have "send_loop (CSend fd) n (remain - x) (drop (nat x) s) ms ev st1 = Some (r, ev', st')"
      by (simp add: unf)
    from less.hyps [OF syscall_length [OF sc] this less.prems(2)] d1 data_steps_trans show ?thesis by blast
  next
    case 3
    then obtain go ev1 st2 where rt: "io_retry ms ev st1 = Some (go, ev1, st2)"
      "if go then send_loop (CSend fd) n remain s ms ev1 st2 = Some (r, ev', st') else ev' = ev1 \<and> st' = st2"
      using less.prems(1) sc by (auto simp: unf split: option.splits if_splits)
    have l: "length (inputs st2) < length (inputs st)" using syscall_length [OF sc] io_retry_length [OF rt(1)] by simp
    have d2: "data_steps fd st st2" "ev_fd ev1 = fd"
      using data_steps_trans [OF d1] data_steps_retry [OF rt(1)] less.prems(2) by simp_all
    show ?thesis
    proof (cases go)
      case True
      with rt(2) have "send_loop (CSend fd) n remain s ms ev1 st2 = Some (r, ev', st')" by simp
      from less.hyps [OF l this d2(2)] d2(1) data_steps_trans show ?thesis by blast
    qed (use rt(2) d2 in simp)
  qed
qed

text \<open>The same for any property of the calls a receive makes.\<close>

definition steps :: "(call \<times> input option \<Rightarrow> bool) \<Rightarrow> io_st \<Rightarrow> io_st \<Rightarrow> bool" where
  "steps P st st' \<longleftrightarrow> (\<exists>tr. trace st' = trace st @ tr \<and> list_all P tr)"

lemma steps_trans: "steps P st st1 \<Longrightarrow> steps P st1 st2 \<Longrightarrow> steps P st st2"
  unfolding steps_def by (metis append_assoc list_all_append)

lemma data_steps_eq: "data_steps fd = steps (data_call fd)"
  by (intro ext) (simp add: data_steps_def steps_def)

lemma recvn_loop_steps:
  assumes P: "\<And>k i. P (CRecv fd k, i)" "\<And>ev w. ev_fd ev = fd \<Longrightarrow> wait_calls ev w \<Longrightarrow> list_all P w"
  shows "recvn_loop fd n remain got ms ev st = Some (r, data, ev', st') \<Longrightarrow> ev_fd ev = fd \<Longrightarrow>
    steps P st st' \<and> ev_fd ev' = fd"
proof (induction "length (inputs st)" arbitrary: remain got ev st rule: less_induct)
  case less
  obtain x bs st1 where sc: "syscall (CRecv fd remain) st = Some (x, bs, st1)"
    using less.prems(1) by (auto simp: recvn_loop.simps split: option.splits)
  note unf = recvn_loop.simps [of fd n remain got ms ev st]
  have d1: "steps P st st1" using syscall_Some [OF sc] P(1) by (auto simp: steps_def)
  consider "x = remain \<or> x = 0" | "x \<noteq> remain" "x \<noteq> 0" "x \<noteq> - 1" | "x \<noteq> remain" "x = - 1" by blast
  then show ?case
  proof cases
    case 1
    with less.prems sc d1 show ?thesis by (auto simp: unf split: if_splits)
  next
    case 2
    with less.prems sc have "recvn_loop fd n (remain - x) (got @ bs) ms ev st1 = Some (r, data, ev', st')"
      by (simp add: unf)
    from less.hyps [OF syscall_length [OF sc] this less.prems(2)] d1 steps_trans show ?thesis by blast
  next
    case 3
    then obtain go ev1 st2 where rt: "io_retry ms ev st1 = Some (go, ev1, st2)"
      "if go then recvn_loop fd n remain got ms ev1 st2 = Some (r, data, ev', st') else ev' = ev1 \<and> st' = st2"
      using less.prems(1) sc by (auto simp: unf split: option.splits if_splits)
    have l: "length (inputs st2) < length (inputs st)" using syscall_length [OF sc] io_retry_length [OF rt(1)] by simp
    have "steps P st1 st2" using io_retry_Some(1) [OF rt(1)] P(2) [OF less.prems(2)] by (auto simp: steps_def)
    then have d2: "steps P st st2" "ev_fd ev1 = fd"
      using steps_trans [OF d1] io_retry_Some(2) [OF rt(1)] less.prems(2) by simp_all
    show ?thesis
    proof (cases go)
      case True
      with rt(2) have "recvn_loop fd n remain got ms ev1 st2 = Some (r, data, ev', st')" by simp
      from less.hyps [OF l this d2(2)] d2(1) steps_trans show ?thesis by blast
    qed (use rt(2) d2 in simp)
  qed
qed

lemma recvn_loop_data:
  "recvn_loop fd n remain got ms ev st = Some (r, data, ev', st') \<Longrightarrow> ev_fd ev = fd \<Longrightarrow>
   data_steps fd st st' \<and> ev_fd ev' = fd"
  unfolding data_steps_eq by (rule recvn_loop_steps [of "data_call fd" fd]) (use wait_calls_data in \<open>force+\<close>)

lemma recvn_loop_no_send:
  assumes "recvn_loop fd n remain got ms ev st = Some (r, data, ev', st')" "ev_fd ev = fd"
  shows "steps (\<lambda>x. sent x = []) st st'"
proof -
  have "list_all (\<lambda>x. sent x = []) w" if "wait_calls e w" for e w
    using that by (auto simp: wait_calls_def list_all_iff)
  with recvn_loop_steps [of "\<lambda>x. sent x = []" fd, OF _ _ assms] show ?thesis by simp
qed

lemma co_recvn_no_send:
  assumes "co_recvn fd n ms st = Some (r, bs, st')"
  shows "\<exists>tr. trace st' = trace st @ tr \<and> sent_all tr = []"
proof -
  obtain ev' st1 where s: "recvn_loop fd n n [] (word_of_int ms) (IOEvent_IOEvent fd kEvRead) st = Some (r, bs, ev', st1)"
    "st' = IOEvent_destroy ev' st1" using assms by (auto simp: co_recvn_def)
  have "steps (\<lambda>x. sent x = []) st st1" by (rule recvn_loop_no_send [OF s(1)]) (simp add: IOEvent_IOEvent_def)
  moreover have "steps (\<lambda>x. sent x = []) st1 st'"
    by (cases "has_ev ev'") (simp_all add: s(2) IOEvent_destroy_def emit_def steps_def)
  ultimately have "steps (\<lambda>x. sent x = []) st st'" by (rule steps_trans)
  then show ?thesis by (auto simp: steps_def sent_all_def list_all_iff)
qed

lemma recv_loop_data:
  "recv_loop (CRecv fd n) ms ev st = Some (r, data, ev', st') \<Longrightarrow> ev_fd ev = fd \<Longrightarrow>
   data_steps fd st st' \<and> ev_fd ev' = fd"
proof (induction "length (inputs st)" arbitrary: ev st rule: less_induct)
  case less
  obtain x bs st1 where sc: "syscall (CRecv fd n) st = Some (x, bs, st1)"
    using less.prems(1) by (auto simp: recv_loop.simps split: option.splits)
  note unf = recv_loop.simps [of "CRecv fd n" ms ev st]
  have d1: "data_steps fd st st1" by (rule data_steps_syscall [OF sc]) simp
  show ?case
  proof (cases "x = - 1")
    case False
    with less.prems sc d1 show ?thesis by (simp add: unf)
  next
    case True
    with less.prems(1) sc obtain go ev1 st2 where rt: "io_retry ms ev st1 = Some (go, ev1, st2)"
      "if go then recv_loop (CRecv fd n) ms ev1 st2 = Some (r, data, ev', st') else ev' = ev1 \<and> st' = st2"
      by (auto simp: unf split: option.splits if_splits)
    have l: "length (inputs st2) < length (inputs st)" using syscall_length [OF sc] io_retry_length [OF rt(1)] by simp
    have d2: "data_steps fd st st2" "ev_fd ev1 = fd"
      using data_steps_trans [OF d1] data_steps_retry [OF rt(1)] less.prems(2) by simp_all
    show ?thesis
    proof (cases go)
      case True
      with rt(2) have "recv_loop (CRecv fd n) ms ev1 st2 = Some (r, data, ev', st')" by simp
      from less.hyps [OF l this d2(2)] d2(1) data_steps_trans show ?thesis by blast
    qed (use rt(2) d2 in simp)
  qed
qed

lemma data_steps_emit: "data_call fd (c, None) \<Longrightarrow> data_steps fd st (emit c st)"
  by (simp add: data_steps_def emit_def)

lemma data_steps_destroy: "ev_fd ev = fd \<Longrightarrow> data_steps fd st (IOEvent_destroy ev st)"
  by (auto simp: IOEvent_destroy_def data_steps_emit) (simp add: data_steps_def)

lemma co_transfer_data:
  "co_send fd buf n ms st = Some (r, st') \<Longrightarrow> data_steps fd st st'"
  "co_recvn fd n ms st = Some (r, bs, st') \<Longrightarrow> data_steps fd st st'"
  "co_recv fd n ms st = Some (r, bs, st') \<Longrightarrow> data_steps fd st st'"
  by (auto simp: co_send_def co_recvn_def co_recv_def
      dest!: send_loop_data recvn_loop_data recv_loop_data intro: data_steps_trans data_steps_destroy)
   (auto simp: IOEvent_IOEvent_def intro: data_steps_trans data_steps_destroy)

text \<open>\<open>co::close\<close>: calls that do not close, interrupted attempts, and one attempt that is not interrupted.\<close>

definition closed_once :: "int \<Rightarrow> io_st \<Rightarrow> io_st \<Rightarrow> bool" where
  "closed_once fd st st' \<longleftrightarrow> (\<exists>tr cs i. trace st' = trace st @ tr @ cs @ [(CClose fd, i)] \<and> list_all (data_call fd) tr \<and>
     list_all (\<lambda>x. fst x = CClose fd) cs \<and>
     (list_all close_answer_ok (cs @ [(CClose fd, i)]) \<longrightarrow> list_all interrupted cs \<and> \<not> interrupted (CClose fd, i)))"

lemma closed_once_data:
  assumes "data_steps fd st st1" "closed_once fd st1 st2"
  shows "closed_once fd st st2"
proof -
  obtain tr0 where "trace st1 = trace st @ tr0" "list_all (data_call fd) tr0" using assms(1) by (auto simp: data_steps_def)
  moreover obtain tr cs i where "trace st2 = trace st1 @ tr @ cs @ [(CClose fd, i)]" "list_all (data_call fd) tr"
    "list_all (\<lambda>x. fst x = CClose fd) cs"
    "list_all close_answer_ok (cs @ [(CClose fd, i)]) \<longrightarrow> list_all interrupted cs \<and> \<not> interrupted (CClose fd, i)"
    using assms(2) unfolding closed_once_def by blast
  ultimately show ?thesis
    unfolding closed_once_def by (intro exI [of _ "tr0 @ tr"] exI [of _ cs] exI [of _ i]) simp
qed

lemma close_loop_calls:
  "close_loop fd st = Some (r, st') \<Longrightarrow> \<exists>cs i. trace st' = trace st @ cs @ [(CClose fd, i)] \<and> list_all (\<lambda>x. fst x = CClose fd) cs \<and>
     (list_all close_answer_ok (cs @ [(CClose fd, i)]) \<longrightarrow> list_all interrupted cs \<and> \<not> interrupted (CClose fd, i))"
proof (induction "length (inputs st)" arbitrary: st rule: less_induct)
  case less
  obtain x bs st1 where sc: "syscall (CClose fd) st = Some (x, bs, st1)"
    using less.prems by (auto simp: close_loop.simps split: option.splits)
  obtain e where e: "trace st1 = trace st @ [(CClose fd, Some (Ret x e bs))]" "x = - 1 \<longrightarrow> errno st1 = e"
    using sc by (auto simp: syscall_def dest!: ask_Some split: option.splits prod.splits input.splits)
  let ?c = "(CClose fd, Some (Ret x e bs))"
  show ?case
  proof (cases "x \<noteq> 0 \<and> errno st1 = EINTR")
    case True
    with less.prems sc have "close_loop fd st1 = Some (r, st')" by (simp add: close_loop.simps)
    from less.hyps [OF syscall_length [OF sc] this] obtain cs i where
      t: "trace st' = trace st1 @ cs @ [(CClose fd, i)]" "list_all (\<lambda>x. fst x = CClose fd) cs"
        "list_all close_answer_ok (cs @ [(CClose fd, i)]) \<longrightarrow> list_all interrupted cs \<and> \<not> interrupted (CClose fd, i)"
      by blast
    then show ?thesis using e True by (intro exI [of _ "?c # cs"] exI [of _ i]) auto
  next
    case False
    with less.prems sc have "st' = st1" by (simp add: close_loop.simps split: if_splits)
    then show ?thesis using e False by (intro exI [of _ "[]"] exI [of _ "Some (Ret x e bs)"]) auto
  qed
qed

lemma close_loop_closes:
  assumes "close_loop fd st = Some (r, st')"
  shows "closed_once fd st st'"
  unfolding closed_once_def by (rule exI [of _ "[]"]) (use close_loop_calls [OF assms] in simp)

lemma data_steps_refl [simp]: "data_steps fd st st"
  by (simp add: data_steps_def)

lemma data_steps_ask: "ask c st = Some (i, st') \<Longrightarrow> data_call fd (c, None) \<Longrightarrow> data_steps fd st st'"
  by (drule ask_Some) (auto simp: data_steps_def data_call_def)

lemma sleep_call_data: "sleep_call ms st = Some st' \<Longrightarrow> data_steps fd st st'"
  by (auto simp: sleep_call_def yield_timeout_def split: option.splits prod.splits input.splits
      intro!: data_steps_trans [OF data_steps_emit data_steps_ask])

lemma co_close_closes: "co_close sched fd ms st = Some (r, st') \<Longrightarrow> 0 \<le> fd \<Longrightarrow> closed_once fd st st'"
proof -
  assume c: "co_close sched fd ms st = Some (r, st')" "0 \<le> fd"
  have e1: "data_steps fd st (emit (CDelIoEvents fd) st)" by (simp add: data_steps_emit)
  have e2: "data_steps fd st (emit (CDelCtxWrite fd) (emit (CDelCtxRead fd) st))"
    by (rule data_steps_trans [OF data_steps_emit data_steps_emit]) simp_all
  have e3: "data_steps fd st x" if "sleep_call w (emit (CDelIoEvents fd) st) = Some x" for w x
    using data_steps_trans [OF e1 sleep_call_data [OF that]] .
  from c e1 e2 e3 obtain st2 where st2: "close_loop fd st2 = Some (r, st')" "data_steps fd st st2"
    by (auto simp: co_close_def Let_def split: option.splits if_splits)
  from close_loop_closes [OF st2(1)] st2(2) show ?thesis by (rule closed_once_data [rotated])
qed

lemma reset_closes: "reset_tcp_socket sched fd ms st = Some (r, st') \<Longrightarrow> 0 \<le> fd \<Longrightarrow> closed_once fd st st'"
  by (auto simp: reset_tcp_socket_def co_setsockopt_def split: option.splits
      intro: closed_once_data [OF data_steps_syscall co_close_closes])

text \<open>The operations on a connection, in any sequence.\<close>

datatype conn_op = OpRecv int int | OpRecvn int int | OpSend "byte list" int int | OpClose int | OpReset int

fun conn_step :: "bool \<Rightarrow> conn_op \<Rightarrow> TcpConn \<Rightarrow> TcpConn io" where
  "conn_step sched (OpRecv n ms) c = io_bind (TcpConn_Recv n ms c) (\<lambda>_. io_return c)"
| "conn_step sched (OpRecvn n ms) c = io_bind (TcpConn_Recvn n ms c) (\<lambda>_. io_return c)"
| "conn_step sched (OpSend buf n ms) c = io_bind (TcpConn_Send buf n ms c) (\<lambda>_. io_return c)"
| "conn_step sched (OpClose ms) c = io_bind (TcpConn_Close sched ms c) (\<lambda>(r, c'). io_return c')"
| "conn_step sched (OpReset ms) c = io_bind (TcpConn_Reset sched ms c) (\<lambda>(r, c'). io_return c')"

fun conn_run :: "bool \<Rightarrow> conn_op list \<Rightarrow> TcpConn \<Rightarrow> TcpConn io" where
  "conn_run sched [] c = io_return c"
| "conn_run sched (op # ops) c = io_bind (conn_step sched op c) (conn_run sched ops)"

lemmas io_simps = io_bind_def io_return_def res_bind_Inr_conv

lemma conn_step_data:
  assumes "conn_step sched op c st = Inr (c', st')" "\<forall>ms. op \<noteq> OpClose ms" "\<forall>ms. op \<noteq> OpReset ms"
  shows "c' = c \<and> data_steps (conn_sock c) st st'"
  using assms
  by (cases op)
    (auto simp: io_simps TcpConn_Recv_def TcpConn_Recvn_def TcpConn_Send_def dest: co_transfer_data split: prod.splits)

lemma conn_step_close:
  assumes "conn_step sched op c st = Inr (c', st')" "op = OpClose ms \<or> op = OpReset ms"
  shows "conn_sock c' = - 1 \<and> (conn_sock c = - 1 \<longrightarrow> st' = st) \<and> (0 \<le> conn_sock c \<longrightarrow> closed_once (conn_sock c) st st')"
  using assms
  by (auto simp: io_simps TcpConn_Close_def TcpConn_Reset_def split: prod.splits if_splits
      intro: co_close_closes reset_closes)

lemma conn_run_closed:
  "conn_run sched ops c st = Inr (c', st') \<Longrightarrow> conn_sock c = - 1 \<Longrightarrow> conn_sock c' = - 1 \<and> data_steps (- 1) st st'"
proof (induction ops arbitrary: c st)
  case Nil
  then show ?case by (simp add: io_simps)
next
  case (Cons op ops)
  then obtain c1 st1 where s: "conn_step sched op c st = Inr (c1, st1)" "conn_run sched ops c1 st1 = Inr (c', st')"
    by (auto simp: io_simps)
  have "conn_sock c1 = - 1 \<and> data_steps (- 1) st st1"
    using conn_step_data [OF s(1)] conn_step_close [OF s(1)] Cons.prems(2) by (metis data_steps_refl)
  with Cons.IH [OF s(2)] data_steps_trans show ?case by blast
qed

text \<open>Open: only calls that do not close so far. Closed: one final close, and then nothing on the descriptor.\<close>

lemma conn_run_open:
  "conn_run sched ops c st = Inr (c', st') \<Longrightarrow> conn_sock c = fd \<Longrightarrow> 0 \<le> fd \<Longrightarrow>
   (conn_sock c' = fd \<and> data_steps fd st st') \<or>
   (conn_sock c' = - 1 \<and> (\<exists>stm. closed_once fd st stm \<and> data_steps (- 1) stm st'))"
proof (induction ops arbitrary: c st)
  case Nil
  then show ?case by (simp add: io_simps)
next
  case (Cons op ops)
  then obtain c1 st1 where s: "conn_step sched op c st = Inr (c1, st1)" "conn_run sched ops c1 st1 = Inr (c', st')"
    by (auto simp: io_simps)
  show ?case
  proof (cases "\<exists>ms. op = OpClose ms \<or> op = OpReset ms")
    case True
    then have "conn_sock c1 = - 1" "closed_once fd st st1" using conn_step_close [OF s(1)] Cons.prems by blast+
    with conn_run_closed [OF s(2)] show ?thesis by blast
  next
    case False
    then have "c1 = c" "data_steps fd st st1" using conn_step_data [OF s(1)] Cons.prems by auto
    with Cons.IH [OF s(2)] Cons.prems data_steps_trans closed_once_data show ?thesis by blast
  qed
qed

lemma data_steps_not_on:
  assumes "data_steps (- 1) stm st'" "0 \<le> fd"
  shows "\<exists>tr. trace st' = trace stm @ tr \<and> list_all (\<lambda>x. \<not> on_fd fd x \<and> \<not> closes x) tr"
proof -
  obtain tr where tr: "trace st' = trace stm @ tr" "list_all (data_call (- 1)) tr"
    using assms(1) unfolding data_steps_def by blast
  moreover have "\<not> on_fd fd x \<and> \<not> closes x" if "data_call (- 1) x" for x
    using that assms(2) data_call_not_closes [OF that] by (auto simp: data_call_def on_fd_def)
  ultimately show ?thesis unfolding list_all_iff by blast
qed

text \<open>C29: a connection gives up its descriptor with its first \<open>Close\<close> or \<open>Reset\<close>, or else with its destructor. For every sequence of
  receives, sends, closes and resets on a connection, ended by its destructor, and every behaviour of a kernel whose
  \<open>close\<close> answers 0 or -1, the calls made are: calls that close nothing, then calls of \<open>close\<close> on the descriptor, of
  which all but the last were interrupted by a signal (\<open>EINTR\<close>) and the last was not, and then calls that are not on the descriptor
  and close nothing. So there is exactly one call of \<open>close\<close> if that one is not interrupted; one that is interrupted is repeated,
  although on Linux the descriptor is released also then.\<close>

theorem TcpConn_close_is_last:
  assumes "0 \<le> fd" "conn_run sched ops (TcpConn_TcpConn fd) st = Inr (c, st1)"
    and "TcpConn_destroy sched c st1 = Inr ((), st2)"
    and "trace st2 = trace st @ tr" "list_all close_answer_ok tr"
  shows "\<exists>tr1 retried i tr2. tr = tr1 @ retried @ (CClose fd, i) # tr2 \<and>
    list_all (\<lambda>x. fst x = CClose fd \<and> interrupted x) retried \<and> \<not> interrupted (CClose fd, i) \<and>
    list_all (\<lambda>x. \<not> closes x) tr1 \<and> list_all (\<lambda>x. \<not> on_fd fd x \<and> \<not> closes x) tr2"
proof -
  have d: "conn_step sched (OpClose 0) c st1 = Inr (c\<lparr>conn_sock := - 1\<rparr>, st2)"
    using assms(3) by (auto simp: TcpConn_destroy_def TcpConn_Close_def io_simps split: if_splits)
  note close = conn_step_close [OF d, of 0, simplified]
  from conn_run_open [OF assms(2) _ assms(1)] consider
    "conn_sock c = fd" "data_steps fd st st1"
  | stm where "conn_sock c = - 1" "closed_once fd st stm" "data_steps (- 1) stm st1"
    by (auto simp: TcpConn_TcpConn_def)
  then have "\<exists>stm. closed_once fd st stm \<and> data_steps (- 1) stm st2"
  proof cases
    case 1
    with close assms(1) closed_once_data show ?thesis by (intro exI [of _ st2]) auto
  next
    case 2
    with close show ?thesis by auto
  qed
  then obtain stm where m: "closed_once fd st stm" "data_steps (- 1) stm st2" by blast
  from data_steps_not_on [OF m(2) assms(1)] obtain tr2 where
    tr2: "trace st2 = trace stm @ tr2" "list_all (\<lambda>x. \<not> on_fd fd x \<and> \<not> closes x) tr2" by blast
  from m(1) obtain tr1 cs i where t: "trace stm = trace st @ tr1 @ cs @ [(CClose fd, i)]" "list_all (data_call fd) tr1"
    "list_all (\<lambda>x. fst x = CClose fd) cs"
    "list_all close_answer_ok (cs @ [(CClose fd, i)]) \<longrightarrow> list_all interrupted cs \<and> \<not> interrupted (CClose fd, i)"
    unfolding closed_once_def by blast
  have tr: "tr = tr1 @ cs @ (CClose fd, i) # tr2" using assms(4) tr2(1) t(1) by simp
  have "list_all interrupted cs" "\<not> interrupted (CClose fd, i)" using t(4) assms(5) by (simp_all add: tr)
  moreover have "list_all (\<lambda>x. \<not> closes x) tr1" using t(2) data_call_not_closes by (auto simp: list_all_iff)
  ultimately show ?thesis
    using tr t(3) tr2(2) by (intro exI [of _ tr1] exI [of _ cs] exI [of _ i] exI [of _ tr2]) (auto simp: list_all_iff)
qed

text \<open>A receive that reports the end of the stream, an explicit close that is interrupted once, a send on the closed
  connection, and the destructor.\<close>

definition conn_script :: io_st where
  "conn_script = \<lparr>inputs = [Ret 0 0 [], Ret (- 1) EINTR [], Ret 0 0 [], Ret (- 1) EBADF []], trace = [], errno = 0\<rparr>"

lemma conn_script_run:
  "\<exists>st1. conn_run True [OpRecv 10 (- 1), OpClose 0, OpSend ''x'' 1 (- 1)] (TcpConn_TcpConn 7) conn_script =
       Inr (\<lparr>conn_sock = - 1\<rparr>, st1) \<and> trace st1 =
       [(CRecv 7 10, Some (Ret 0 0 [])), (CDelIoEvents 7, None), (CClose 7, Some (Ret (- 1) EINTR [])),
        (CClose 7, Some (Ret 0 0 [])), (CSend (- 1) ''x'', Some (Ret (- 1) EBADF []))]"
  by (simp add: conn_script_def model_defs io_simps io_bind_def recv_loop.simps close_loop.simps send_loop.simps
      syscall_def ask_def emit_def errno_defs Let_def)

theorem TcpConn_close_is_last_witness:
  "\<exists>c st1 st2. conn_run True [OpRecv 10 (- 1), OpClose 0, OpSend ''x'' 1 (- 1)] (TcpConn_TcpConn 7) conn_script = Inr (c, st1) \<and>
     TcpConn_destroy True c st1 = Inr ((), st2) \<and>
     (\<exists>tr1 retried i tr2. trace st2 = tr1 @ retried @ (CClose 7, i) # tr2 \<and>
        list_all (\<lambda>x. fst x = CClose 7 \<and> interrupted x) retried \<and> \<not> interrupted (CClose 7, i) \<and>
        list_all (\<lambda>x. \<not> closes x) tr1 \<and> list_all (\<lambda>x. \<not> on_fd 7 x \<and> \<not> closes x) tr2)"
proof -
  obtain st1 where s: "conn_run True [OpRecv 10 (- 1), OpClose 0, OpSend ''x'' 1 (- 1)] (TcpConn_TcpConn 7) conn_script =
       Inr (\<lparr>conn_sock = - 1\<rparr>, st1)" "list_all close_answer_ok (trace st1)"
    using conn_script_run by auto
  have d: "TcpConn_destroy True \<lparr>conn_sock = - 1\<rparr> st1 = Inr ((), st1)"
    by (simp add: TcpConn_destroy_def TcpConn_Close_def io_simps io_bind_def)
  have tr: "trace st1 = trace conn_script @ trace st1" by (simp add: conn_script_def)
  have "(0 :: int) \<le> 7" by simp
  from s(1) d TcpConn_close_is_last [OF this s(1) d tr s(2)] show ?thesis by blast
qed

end
