(* ===== verification/Rpc_Protocol.thy ===== *)
theory Rpc_Protocol
  imports Net
begin

text \<open>
  The messages of the remote procedure calls and their framing: \<open>include/rpc/protocol.h\<close>,
  \<open>include/rpc/rpc_protocol_handler.h\<close> and \<open>src/rpc/rpc_protocol_handler.cc\<close>. The generated protobuf class
  \<open>BaseProtocolBuf\<close> is a parameter: \<open>ser\<close> is \<open>SerializeAsString\<close>, and \<open>parse\<close> gives the message that
  \<open>ParseFromString\<close> leaves in the buffer, whose result the code ignores. Strings are lists of bytes. Messages to the log
  are left out.
\<close>

section \<open>Messages\<close>

text \<open>An enumeration with a fixed underlying type can hold every value of that type.\<close>

type_synonym MsgType = uint32

definition kHeartBeat :: MsgType where "kHeartBeat = 0"
definition kProvider :: MsgType where "kProvider = 1"
definition kConsumer :: MsgType where "kConsumer = 2"
definition kRequest :: MsgType where "kRequest = 3"
definition kResponse :: MsgType where "kResponse = 4"
definition kRequestCall :: MsgType where "kRequestCall = 5"
definition kResponseCall :: MsgType where "kResponseCall = 6"
definition kRegister :: MsgType where "kRegister = 7"
definition kRegisterResponse :: MsgType where "kRegisterResponse = 8"
definition kDiscover :: MsgType where "kDiscover = 9"
definition kDiscoverResponse :: MsgType where "kDiscoverResponse = 10"

definition kMagic :: uint32 where "kMagic = 0xaa"
definition kVersion :: uint32 where "kVersion = 0x01"
definition kBasicLen :: uint32 where "kBasicLen = 20"

record Protocol =
  p_magic :: uint32
  p_version :: uint32
  p_type :: MsgType
  p_req_id :: uint32
  p_data_len :: uint32
  p_srv_name :: string
  p_data :: string

definition Protocol_Protocol :: "MsgType \<Rightarrow> uint32 \<Rightarrow> string \<Rightarrow> Protocol" where
  [model_defs]: "Protocol_Protocol type req_id data =
     \<lparr>p_magic = kMagic, p_version = kVersion, p_type = type, p_req_id = req_id, p_data_len = kBasicLen,
      p_srv_name = [], p_data = data\<rparr>"

definition Protocol_Create :: "MsgType \<Rightarrow> uint32 \<Rightarrow> string \<Rightarrow> Protocol" where
  [model_defs]: "Protocol_Create type req_id data =
     (Protocol_Protocol type req_id data)\<lparr>p_data_len := of_nat (length data)\<rparr>"

definition Protocol_CreateHeartBeat :: Protocol where
  [model_defs]: "Protocol_CreateHeartBeat = Protocol_Create kHeartBeat 0 []"

definition Protocol_toString :: "Protocol \<Rightarrow> string" where
  [model_defs]: "Protocol_toString p =
     ''|magic='' @ convert (uint (p_magic p)) @ '' version='' @ convert (uint (p_version p)) @
     '' type='' @ convert (uint (p_type p)) @ '' id='' @ convert (uint (p_req_id p)) @
     '' length='' @ convert (uint (p_data_len p)) @ '' content='' @ p_data p @ ''|''"

record BaseProtocolBuf =
  b_magic :: uint32
  b_version :: uint32
  b_type :: uint32
  b_req_id :: uint32
  b_data_len :: uint32
  b_srv_name :: "string option"
  b_data :: string

definition to_buf :: "Protocol \<Rightarrow> BaseProtocolBuf" where
  "to_buf p = \<lparr>b_magic = p_magic p, b_version = p_version p, b_type = p_type p, b_req_id = p_req_id p,
     b_data_len = p_data_len p, b_srv_name = (if p_srv_name p \<noteq> [] then Some (p_srv_name p) else None), b_data = p_data p\<rparr>"

definition SerializerHandler_Serialize :: "(BaseProtocolBuf \<Rightarrow> string) \<Rightarrow> Protocol \<Rightarrow> string" where
  [model_defs]: "SerializerHandler_Serialize ser p = ser (to_buf p)"

definition SerializerHandler_Deserialize :: "(string \<Rightarrow> BaseProtocolBuf) \<Rightarrow> string \<Rightarrow> Protocol" where
  [model_defs]: "SerializerHandler_Deserialize parse stream =
     (let buf = parse stream;
          protocol = Protocol_Create (b_type buf) (b_req_id buf) (b_data buf)
      in case b_srv_name buf of None \<Rightarrow> protocol | Some name \<Rightarrow> protocol\<lparr>p_srv_name := name\<rparr>)"

text \<open>The alternative handler differs by a message to the log.\<close>

definition MySerializerHandler_Serialize :: "(BaseProtocolBuf \<Rightarrow> string) \<Rightarrow> Protocol \<Rightarrow> string" where
  [model_defs]: "MySerializerHandler_Serialize ser p = ser (to_buf p)"

definition MySerializerHandler_Deserialize :: "(string \<Rightarrow> BaseProtocolBuf) \<Rightarrow> string \<Rightarrow> Protocol" where
  [model_defs]: "MySerializerHandler_Deserialize parse stream =
     (let buf = parse stream;
          protocol = Protocol_Create (b_type buf) (b_req_id buf) (b_data buf)
      in case b_srv_name buf of None \<Rightarrow> protocol | Some name \<Rightarrow> protocol\<lparr>p_srv_name := name\<rparr>)"

section \<open>Frames\<close>

definition kDataLen :: int where "kDataLen = 4"
definition kDataMaxLen :: int where "kDataMaxLen = 10000"

text \<open>What \<open>snprintf\<close> with size \<open>n\<close> stores of a text, and the text of \<open>%04d\<close>.\<close>

definition snprintf :: "nat \<Rightarrow> string \<Rightarrow> string" where
  "snprintf n s = take (n - 1) s @ [nul]"

definition pad04 :: "int \<Rightarrow> string" where
  "pad04 v = (let sgn = (if v < 0 then ''-'' else []); d = convert \<bar>v\<bar> in
     sgn @ replicate (4 - (length sgn + length d)) CHR ''0'' @ d)"

text \<open>The array \<open>data_len\<close> has four bytes, and \<open>snprintf\<close> is told that it has five: the terminating zero is stored behind it, on every message
  (\<open>Encode_header_overruns\<close>). That is undefined behaviour which this definition does not make a fault: the byte hit is one of the frame of \<open>Encode\<close>
  that the function does not read, and the model takes the frame it returns to be unaffected. Everything shown of frames and remote calls is under this
  assumption.\<close>

definition RpcProtocol_Encode :: "(BaseProtocolBuf \<Rightarrow> string) \<Rightarrow> Protocol \<Rightarrow> string" where
  [model_defs]: "RpcProtocol_Encode ser p =
     (let buf = SerializerHandler_Serialize ser p;
          buf_len = sint (of_nat (length buf) :: uint32)
      in if buf_len > kDataMaxLen then []
         else take 4 (snprintf 5 (pad04 buf_len)) @ buf)"

text \<open>The text is taken from a C string: it ends at the first zero byte, whatever the size \<open>sz\<close> is.\<close>

definition RpcProtocol_Decode :: "(string \<Rightarrow> BaseProtocolBuf) \<Rightarrow> byte list \<Rightarrow> int \<Rightarrow> Protocol" where
  [model_defs]: "RpcProtocol_Decode parse buf sz = SerializerHandler_Deserialize parse (c_str buf)"

definition is_space :: "char \<Rightarrow> bool" where
  "is_space c \<longleftrightarrow> c = CHR '' '' \<or> (9 \<le> (of_char c :: nat) \<and> (of_char c :: nat) \<le> 13)"

definition atoi :: "string \<Rightarrow> int" where
  "atoi s =
     (let t = dropWhile is_space s; num = (\<lambda>r. int (dec_value (takeWhile is_digit r))) in
      if t \<noteq> [] \<and> hd t = CHR ''-'' then - num (tl t)
      else if t \<noteq> [] \<and> hd t = CHR ''+'' then num (tl t) else num t)"

text \<open>A negative length makes an array of no or negative size.\<close>

definition RpcProtocol_RecvProtocol ::
    "bool \<Rightarrow> (string \<Rightarrow> BaseProtocolBuf) \<Rightarrow> Socket \<Rightarrow> (Protocol option \<times> Socket) io" where
  [model_defs]: "RpcProtocol_RecvProtocol sched parse sock =
     io_bind (Socket_Recvn kDataLen (- 1) sock) (\<lambda>(read, hdr).
       if read = 0 then io_bind (Socket_Close sched (- 1) sock) (\<lambda>(_, sock'). io_return (None, sock'))
       else if read < kDataLen then io_return (None, sock)
       else
         let data_len = atoi (hdr @ [nul]) in
         if data_len = 0 then io_return (None, sock)
         else if data_len < 0 then (\<lambda>st. Inl OutOfBounds)
         else io_bind (Socket_Recvn data_len (- 1) sock) (\<lambda>(n, body).
                if n < data_len then io_return (None, sock)
                else io_return (Some (RpcProtocol_Decode parse (body @ [nul]) data_len), sock)))"

text \<open>The result of \<open>Send\<close> is an \<open>int\<close>, compared with a \<open>uint\<close>: it is converted.\<close>

definition RpcProtocol_SendProtocol ::
    "(BaseProtocolBuf \<Rightarrow> string) \<Rightarrow> Protocol option \<Rightarrow> Socket \<Rightarrow> bool io" where
  [model_defs]: "RpcProtocol_SendProtocol ser protocol sock =
     (case protocol of
        None \<Rightarrow> io_return False
      | Some p \<Rightarrow>
          let buf = RpcProtocol_Encode ser p; buf_len = of_nat (length buf) :: uint32 in
          if buf_len = 0 then io_return False
          else io_bind (Socket_Send buf (sint buf_len) (- 1) sock) (\<lambda>r.
                 io_return (\<not> (word_of_int r :: uint32) < buf_len)))"

section \<open>The length of a frame\<close>

lemma convert_nonneg_digits:
  assumes "0 \<le> v"
  shows "convert v \<noteq> []" "list_all is_digit (convert v)" "int (dec_value (convert v)) = v"
  using convert_loop_spec [of v] assms by (simp_all add: convert_def list_all_iff)

lemma dec_value_zeros: "dec_value (replicate k CHR ''0'' @ ds) = dec_value ds"
  by (induction k) (simp_all add: dec_value_def digit_value_def)

lemma is_digit_not_space: "is_digit c \<Longrightarrow> \<not> is_space c \<and> c \<noteq> CHR ''-'' \<and> c \<noteq> CHR ''+''"
  by (auto simp: is_digit_def is_space_def)

lemma atoi_digits:
  assumes "ds \<noteq> []" "list_all is_digit ds"
  shows "atoi (ds @ [nul]) = int (dec_value ds)"
proof -
  have h: "is_digit (hd ds)" using assms by (cases ds) auto
  have "dropWhile is_space (ds @ [nul]) = ds @ [nul]"
    using assms(1) is_digit_not_space [OF h] by (cases ds) auto
  moreover have "takeWhile is_digit (ds @ [nul]) = ds"
    using assms(2) by (simp add: list_all_iff takeWhile_append2 nul_def is_digit_def)
  moreover have "hd (ds @ [nul]) = hd ds" using assms(1) by simp
  ultimately show ?thesis using assms(1) is_digit_not_space [OF h] by (simp add: atoi_def Let_def)
qed

lemma length_convert_small: "0 \<le> v \<Longrightarrow> v < 10000 \<Longrightarrow> length (convert v) \<le> 4"
  using length_convert_loop [of v 3] by (simp add: convert_def)

lemma pad04_digits:
  assumes "0 \<le> v" "v < 10000"
  shows "length (pad04 v) = 4" "list_all is_digit (pad04 v)" "int (dec_value (pad04 v)) = v"
  using assms convert_nonneg_digits [OF assms(1)] length_convert_small [OF assms]
  by (auto simp: pad04_def Let_def dec_value_zeros list_all_iff is_digit_def)

text \<open>A message of less than 10000 bytes travels with its length in front.\<close>

lemma Encode_frame:
  assumes "length (SerializerHandler_Serialize ser p) < 10000"
  shows "length (take 4 (RpcProtocol_Encode ser p)) = 4"
    "atoi (take 4 (RpcProtocol_Encode ser p) @ [nul]) = int (length (SerializerHandler_Serialize ser p))"
    "drop 4 (RpcProtocol_Encode ser p) = SerializerHandler_Serialize ser p"
proof -
  let ?n = "length (SerializerHandler_Serialize ser p)"
  have n: "sint (of_nat ?n :: uint32) = int ?n"
    using assms sint_word_of_int_small [of "int ?n"] by simp
  note d = pad04_digits [of "int ?n"]
  have e: "RpcProtocol_Encode ser p = pad04 (int ?n) @ SerializerHandler_Serialize ser p"
    using assms n d(1) by (simp add: RpcProtocol_Encode_def Let_def kDataMaxLen_def snprintf_def)
  have "pad04 (int ?n) \<noteq> []" using d(1) assms by auto
  with e d assms show "length (take 4 (RpcProtocol_Encode ser p)) = 4"
    "atoi (take 4 (RpcProtocol_Encode ser p) @ [nul]) = int ?n"
    "drop 4 (RpcProtocol_Encode ser p) = SerializerHandler_Serialize ser p"
    by (simp_all add: atoi_digits)
qed

text \<open>A message of exactly 10000 bytes passes the length check, and its length is cut to four digits.\<close>

lemma Encode_10000_misframed:
  assumes "length (SerializerHandler_Serialize ser p) = 10000"
  shows "take 4 (RpcProtocol_Encode ser p) = ''1000''"
proof -
  have "convert 10000 = ''10000''"
    by (simp add: convert_def convert_loop.simps zero_def digits_def signed_divide_int_def signed_modulo_int_def)
  then have "pad04 10000 = ''10000''" by (simp add: pad04_def Let_def)
  moreover have "sint (10000 :: uint32) = 10000" by simp
  ultimately show ?thesis using assms by (simp add: RpcProtocol_Encode_def Let_def kDataMaxLen_def snprintf_def)
qed

text \<open>The header array has four bytes; \<open>snprintf\<close> stores five.\<close>

lemma Encode_header_overruns: "0 \<le> v \<Longrightarrow> v < 10000 \<Longrightarrow> length (snprintf 5 (pad04 v)) = 5"
  using pad04_digits(1) [of v] by (simp add: snprintf_def)

section \<open>Messages survive the wire\<close>

text \<open>What a receiver makes of a message: one made by \<open>Create\<close>, whose length is that of its payload, perhaps
  with a service name. Messages that the library sends are of this form, but for answers whose payload was
  set afterwards.\<close>

definition as_received :: "Protocol \<Rightarrow> Protocol" where
  "as_received p = (Protocol_Create (p_type p) (p_req_id p) (p_data p))\<lparr>p_srv_name := p_srv_name p\<rparr>"

definition created :: "Protocol \<Rightarrow> bool" where
  "created p \<longleftrightarrow> p = as_received p"

lemma as_received_fields [simp]:
  "p_type (as_received p) = p_type p" "p_req_id (as_received p) = p_req_id p" "p_data (as_received p) = p_data p"
  "p_srv_name (as_received p) = p_srv_name p"
  by (simp_all add: as_received_def Protocol_Create_def Protocol_Protocol_def)

lemma Deserialize_to_buf: "parse s = to_buf p \<Longrightarrow> SerializerHandler_Deserialize parse s = as_received p"
  by (auto simp: SerializerHandler_Deserialize_def to_buf_def as_received_def Protocol_Create_def Protocol_Protocol_def Let_def)

lemma c_str_terminated: "nul \<notin> set b \<Longrightarrow> c_str (b @ [nul]) = b"
  by (induction b) (auto simp: c_str_def nul_def)

lemma Socket_Recvn_delivers:
  assumes "sk_connected s" "sk_conn s = Some c" "delivers (- 1) False bs (inputs st) rest"
  shows "\<exists>st' tr. Socket_Recvn (int (length bs)) (- 1) s st = Inr ((int (length bs), bs), st') \<and> inputs st' = rest \<and>
    trace st' = trace st @ tr \<and> sent_all tr = []"
proof -
  obtain st' where s: "co_recvn (conn_sock c) (int (length bs)) (- 1) st = Some (int (length bs), bs, st')" "inputs st' = rest"
    using co_recvn_delivers [of "- 1" bs st rest "conn_sock c"] assms(3) by auto
  with co_recvn_no_send [OF s(1)] assms(1,2) show ?thesis
    by (auto simp: Socket_Recvn_def with_conn_def io_bind_def io_check_def TcpConn_Recvn_def)
qed

lemma RecvProtocol_received:
  assumes p: "parse (ser (to_buf p)) = to_buf p" "nul \<notin> set (ser (to_buf p))"
    and len: "ser (to_buf p) \<noteq> []" "length (ser (to_buf p)) < 10000"
    and s: "sk_connected s" "sk_conn s = Some c"
    and hdr: "delivers (- 1) False (take 4 (RpcProtocol_Encode ser p)) (inputs st) mid"
    and body: "delivers (- 1) False (drop 4 (RpcProtocol_Encode ser p)) mid rest"
  shows "\<exists>st' tr. RpcProtocol_RecvProtocol sched parse s st = Inr ((Some (as_received p), s), st') \<and> inputs st' = rest \<and>
    trace st' = trace st @ tr \<and> sent_all tr = []"
proof -
  let ?b = "ser (to_buf p)"
  have len': "length (SerializerHandler_Serialize ser p) < 10000" using len by (simp add: SerializerHandler_Serialize_def)
  note f = Encode_frame [OF len', unfolded SerializerHandler_Serialize_def]
  obtain st1 tr1 where st1: "Socket_Recvn 4 (- 1) s st = Inr ((4, take 4 (RpcProtocol_Encode ser p)), st1)" "inputs st1 = mid"
    "trace st1 = trace st @ tr1" "sent_all tr1 = []"
    using Socket_Recvn_delivers [OF s hdr] f(1) by auto
  obtain st2 tr2 where st2: "Socket_Recvn (int (length ?b)) (- 1) s st1 = Inr ((int (length ?b), ?b), st2)" "inputs st2 = rest"
    "trace st2 = trace st1 @ tr2" "sent_all tr2 = []"
    using Socket_Recvn_delivers [OF s, of ?b st1 rest] body st1(2) f(3) by auto
  have "c_str (?b @ [nul]) = ?b" using p(2) by (rule c_str_terminated)
  then have "RpcProtocol_Decode parse (?b @ [nul]) n = as_received p" for n
    using Deserialize_to_buf [of parse ?b p] p(1) by (simp add: RpcProtocol_Decode_def)
  with st1 st2 f(2) len have "RpcProtocol_RecvProtocol sched parse s st = Inr ((Some (as_received p), s), st2)"
    by (auto simp: RpcProtocol_RecvProtocol_def io_bind_def io_return_def kDataLen_def Let_def)
  then show ?thesis using st1 st2 by (intro exI [of _ st2] exI [of _ "tr1 @ tr2"]) simp
qed

lemma RecvProtocol_frame:
  assumes "created p" "parse (ser (to_buf p)) = to_buf p" "nul \<notin> set (ser (to_buf p))"
    and "ser (to_buf p) \<noteq> []" "length (ser (to_buf p)) < 10000" "sk_connected s" "sk_conn s = Some c"
    and "delivers (- 1) False (take 4 (RpcProtocol_Encode ser p)) (inputs st) mid"
    and "delivers (- 1) False (drop 4 (RpcProtocol_Encode ser p)) mid rest"
  shows "\<exists>st' tr. RpcProtocol_RecvProtocol sched parse s st = Inr ((Some p, s), st') \<and> inputs st' = rest \<and>
    trace st' = trace st @ tr \<and> sent_all tr = []"
  using RecvProtocol_received [of parse ser p s c st mid rest sched] assms by (simp add: created_def)

lemma Socket_Send_accepts:
  assumes "sk_connected s" "sk_conn s = Some c" "accepts (- 1) False (length buf) (inputs st) rest"
  shows "\<exists>st' tr. Socket_Send buf (int (length buf)) (- 1) s st = Inr (int (length buf), st') \<and> inputs st' = rest \<and>
    trace st' = trace st @ tr \<and> sent_all tr = buf"
  using co_send_accepts [of "- 1" buf st rest "conn_sock c"] assms
  by (auto simp: Socket_Send_def with_conn_def io_bind_def io_check_def TcpConn_Send_def)

lemma SendProtocol_frame:
  assumes len: "length (ser (to_buf p)) < 10000"
    and s: "sk_connected s" "sk_conn s = Some c"
    and acc: "accepts (- 1) False (length (RpcProtocol_Encode ser p)) (inputs st) rest"
  shows "\<exists>st' tr. RpcProtocol_SendProtocol ser (Some p) s st = Inr (True, st') \<and> inputs st' = rest \<and>
    trace st' = trace st @ tr \<and> sent_all tr = RpcProtocol_Encode ser p"
proof -
  let ?f = "RpcProtocol_Encode ser p"
  have len': "length (SerializerHandler_Serialize ser p) < 10000" using len by (simp add: SerializerHandler_Serialize_def)
  have "length ?f = length (take 4 ?f) + length (drop 4 ?f)" by (metis append_take_drop_id length_append)
  then have l: "length ?f = 4 + length (ser (to_buf p))"
    using Encode_frame(1,3) [OF len'] by (simp add: SerializerHandler_Serialize_def)
  then have n: "sint (of_nat (length ?f) :: uint32) = int (length ?f)" "(of_nat (length ?f) :: uint32) \<noteq> 0"
    using len sint_word_of_int_small [of "int (length ?f)"] of_nat_word_nonzero [of "length ?f", where ?'a = 32] by simp_all
  from Socket_Send_accepts [OF s acc] n show ?thesis
    by (auto simp: RpcProtocol_SendProtocol_def Let_def io_bind_def io_return_def)
qed

text \<open>A message that protobuf parses back and that fits into a frame, and a kernel that delivers a frame in pieces.\<close>

definition wire_ok :: "(BaseProtocolBuf \<Rightarrow> string) \<Rightarrow> (string \<Rightarrow> BaseProtocolBuf) \<Rightarrow> Protocol \<Rightarrow> bool" where
  "wire_ok ser parse p \<longleftrightarrow> parse (ser (to_buf p)) = to_buf p \<and> nul \<notin> set (ser (to_buf p)) \<and>
     ser (to_buf p) \<noteq> [] \<and> length (ser (to_buf p)) < 10000"

definition delivers_frame :: "(BaseProtocolBuf \<Rightarrow> string) \<Rightarrow> Protocol \<Rightarrow> input list \<Rightarrow> input list \<Rightarrow> bool" where
  "delivers_frame ser p ins rest \<longleftrightarrow>
     (\<exists>mid. delivers (- 1) False (take 4 (RpcProtocol_Encode ser p)) ins mid \<and>
       delivers (- 1) False (drop 4 (RpcProtocol_Encode ser p)) mid rest)"

text \<open>C19: a message survives the wire. For a message as the library makes them, whose serialised form is not
  empty, is shorter than 10000 bytes and has no zero byte, and which protobuf parses back, and for kernels that
  take and deliver the bytes in pieces of any size with interruptions and waits: \<open>SendProtocol\<close> succeeds and
  sends exactly its frame, and \<open>RecvProtocol\<close> on the bytes of that frame returns the message,
  with nothing read beyond it and the socket unchanged.\<close>

theorem rpc_message_roundtrip:
  assumes p: "created p" "parse (ser (to_buf p)) = to_buf p" "nul \<notin> set (ser (to_buf p))"
    and len: "ser (to_buf p) \<noteq> []" "length (ser (to_buf p)) < 10000"
    and snd: "sk_connected s" "sk_conn s = Some c" "accepts (- 1) False (length (RpcProtocol_Encode ser p)) (inputs st) rest"
    and rcv: "sk_connected s'" "sk_conn s' = Some c'"
      "delivers (- 1) False (take 4 (RpcProtocol_Encode ser p)) (inputs st') mid"
      "delivers (- 1) False (drop 4 (RpcProtocol_Encode ser p)) mid rest'"
  shows "(\<exists>st1 tr. RpcProtocol_SendProtocol ser (Some p) s st = Inr (True, st1) \<and>
      trace st1 = trace st @ tr \<and> sent_all tr = RpcProtocol_Encode ser p) \<and>
    (\<exists>st2. RpcProtocol_RecvProtocol sched parse s' st' = Inr ((Some p, s'), st2) \<and> inputs st2 = rest')"
  using SendProtocol_frame [of ser p s c st rest] RecvProtocol_frame [of p parse ser s' c' st' mid rest' sched] assms
  by blast

text \<open>A call of service \<open>hello\<close>; the serialiser of the witness knows this one message.\<close>

definition hello_call :: Protocol where
  "hello_call = (Protocol_Create kRequestCall 1 ''data'')\<lparr>p_srv_name := ''hello''\<rparr>"

definition open_socket :: "int \<Rightarrow> Socket" where
  "open_socket fd = (Socket_Create kIpv4 kTcp 0)\<lparr>sk_fd := fd, sk_conn := Some (TcpConn_TcpConn fd), sk_connected := True\<rparr>"

lemma hello_frame: "RpcProtocol_Encode (\<lambda>b. ''message'') hello_call = ''0007message''"
  by (simp add: RpcProtocol_Encode_def SerializerHandler_Serialize_def kDataMaxLen_def pad04_def snprintf_def Let_def
      convert_def convert_loop.simps zero_def digits_def signed_divide_int_def signed_modulo_int_def eval_nat_numeral)

theorem rpc_message_roundtrip_witness:
  "\<exists>st2. RpcProtocol_RecvProtocol True (\<lambda>s. to_buf hello_call) (open_socket 9)
       \<lparr>inputs = [Ret 4 0 ''0007'', Ret 3 0 ''mes'', Ret 4 0 ''sage''], trace = [], errno = 0\<rparr> =
     Inr ((Some hello_call, open_socket 9), st2)"
proof -
  let ?st = "\<lparr>inputs = [Ret 11 0 []], trace = [], errno = 0\<rparr>"
  let ?st' = "\<lparr>inputs = [Ret 4 0 ''0007'', Ret 3 0 ''mes'', Ret 4 0 ''sage''], trace = [], errno = 0\<rparr>"
  have a: "accepts (- 1) False (length (RpcProtocol_Encode (\<lambda>b. ''message'') hello_call)) (inputs ?st) []"
    using accepts_all [of 11 "- 1" False 0 "[]" "[]"] by (simp add: hello_frame eval_nat_numeral)
  have d1: "delivers (- 1) False ''0007'' (inputs ?st') [Ret 3 0 ''mes'', Ret 4 0 ''sage'']"
    using delivers_all [of "''0007''" "- 1" False 0 "[Ret 3 0 ''mes'', Ret 4 0 ''sage'']"] by simp
  have "delivers (- 1) False ''sage'' [Ret 4 0 ''sage''] []"
    using delivers_all [of "''sage''" "- 1" False 0 "[]"] by simp
  from delivers_part [of "''mes''", OF _ this, of 0]
  have d2: "delivers (- 1) False ''message'' [Ret 3 0 ''mes'', Ret 4 0 ''sage''] []" by simp
  have "created hello_call" by (simp add: created_def as_received_def hello_call_def Protocol_Create_def Protocol_Protocol_def)
  with rpc_message_roundtrip [of hello_call "\<lambda>s. to_buf hello_call" "\<lambda>b. ''message''" "open_socket 8" "TcpConn_TcpConn 8" ?st "[]"
      "open_socket 9" "TcpConn_TcpConn 9" ?st' "[Ret 3 0 ''mes'', Ret 4 0 ''sage'']" "[]" True]
    a d1 d2
  show ?thesis by (auto simp: hello_frame nul_def open_socket_def)
qed

section \<open>What a sender is told\<close>

lemma send_loop_result: "send_loop mk n remain s ms ev st = Some (r, ev', st') \<Longrightarrow> r = n \<or> r = - 1"
proof (induction "length (inputs st)" arbitrary: remain s ev st rule: less_induct)
  case less
  from less.prems show ?case
  proof (cases rule: send_loop_cases)
    case (2 x e bs st1 go ev1 st2 w)
    then show ?thesis using less.hyps [OF 2(1)] by (cases go) auto
  next
    case (3 x e bs st1)
    then show ?thesis using less.hyps [OF 3(1,4)] by simp
  qed auto
qed

text \<open>\<open>SendProtocol\<close> does not notice a failed send. The -1 of a failed send is converted to the largest unsigned
  number before it is compared with the length, so that for every message with a frame the result is true, whatever
  the kernel does, and \<open>false\<close> only means that there was no message or that it was too long.\<close>

theorem SendProtocol_ignores_failure:
  assumes "RpcProtocol_SendProtocol ser protocol s st = Inr (ok, st')"
    and "\<forall>p. protocol = Some p \<longrightarrow> length (ser (to_buf p)) < 2 ^ 31 - 4"
  shows "ok \<longleftrightarrow> (\<exists>p. protocol = Some p \<and> length (ser (to_buf p)) \<le> 10000)"
proof (cases protocol)
  case None
  with assms show ?thesis by (auto simp: RpcProtocol_SendProtocol_def io_return_def)
next
  case (Some p)
  let ?b = "ser (to_buf p)" and ?f = "RpcProtocol_Encode ser p"
  have n: "sint (of_nat (length ?b) :: uint32) = int (length ?b)"
    using assms(2) Some sint_word_of_int_small [of "int (length ?b)"] by simp
  have f: "?f = (if length ?b > 10000 then [] else take 4 (snprintf 5 (pad04 (int (length ?b)))) @ ?b)"
    by (simp add: RpcProtocol_Encode_def SerializerHandler_Serialize_def n Let_def kDataMaxLen_def)
  show ?thesis
  proof (cases "length ?b > 10000")
    case True
    with f assms Some show ?thesis by (auto simp: RpcProtocol_SendProtocol_def Let_def io_return_def)
  next
    case False
    have k: "0 < length ?f" "length ?f \<le> 10004" using f False by (auto simp: snprintf_def)
    then have k': "(of_nat (length ?f) :: uint32) \<noteq> 0" "unat (of_nat (length ?f) :: uint32) = length ?f"
      using of_nat_word_nonzero [of "length ?f", where ?'a = 32] unat_of_nat_lt [of "length ?f", where ?'a = 32] by simp_all
    with assms(1) Some obtain r where r: "Socket_Send ?f (sint (of_nat (length ?f) :: uint32)) (- 1) s st = Inr (r, st')"
      "ok \<longleftrightarrow> \<not> (word_of_int r :: uint32) < of_nat (length ?f)"
      by (auto simp: RpcProtocol_SendProtocol_def Let_def io_simps)
    have "r = sint (of_nat (length ?f) :: uint32) \<or> r = - 1"
      using r(1) send_loop_result
      by (fastforce simp: Socket_Send_def with_conn_def io_simps TcpConn_Send_def co_send_def split: option.splits)
    then have "\<not> (word_of_int r :: uint32) < of_nat (length ?f)" by auto
    with r(2) False Some show ?thesis by auto
  qed
qed

theorem SendProtocol_ignores_failure_witness:
  "\<exists>st'. RpcProtocol_SendProtocol (\<lambda>b. ''message'') (Some hello_call) (open_socket 8)
     \<lparr>inputs = [Ret (- 1) EBADF []], trace = [], errno = 0\<rparr> = Inr (True, st') \<and> sent_all (trace st') = []"
proof -
  obtain ok st' where s: "RpcProtocol_SendProtocol (\<lambda>b. ''message'') (Some hello_call) (open_socket 8)
     \<lparr>inputs = [Ret (- 1) EBADF []], trace = [], errno = 0\<rparr> = Inr (ok, st')" "sent_all (trace st') = []"
    by (simp add: RpcProtocol_SendProtocol_def hello_frame open_socket_def Socket_Send_def with_conn_def io_bind_def
        io_return_def io_check_def TcpConn_Send_def TcpConn_TcpConn_def co_send_def send_loop.simps syscall_def ask_def io_retry_def
        IOEvent_destroy_def IOEvent_IOEvent_def errno_defs Let_def sent_all_def)
  with SendProtocol_ignores_failure [OF s(1)] show ?thesis by auto
qed

end
