(* ===== verification/Rpc_Server.thy ===== *)
theory Rpc_Server
  imports Rpc_Protocol
begin

text \<open>
  The serving side of the remote procedure calls: the serialisers of \<open>include/interfaces/serializer_interface.h\<close> and
  \<open>include/rpc/protocols/hello.h\<close>, the protocol manager (\<open>include/rpc/protocol_manager.h\<close>), the protocol handler
  (\<open>include/protocol/protocol_handler.h\<close>), \<open>NetworkServer\<close> of \<open>include/net/server.h\<close> and the provider
  (\<open>include/rpc/rpc_server_provider.h\<close>, \<open>src/rpc/rpc_server_provider.cc\<close>). The protobuf classes of the payloads are
  parameters, collected in a record. One \<open>NetworkServer\<close> serves all connections of its \<open>TcpServer\<close>; the model runs
  the handling of one message at a time, so the socket that both of its handlers share is one value.
\<close>

section \<open>Payloads and their serialisers\<close>

datatype ProtocolInterface = HelloProtocol string | WorldProtocol "32 word"

record payload_codec =
  hello_ser :: "string \<Rightarrow> string"
  hello_parse :: "string \<Rightarrow> string"
  world_ser :: "32 word \<Rightarrow> string"
  world_parse :: "string \<Rightarrow> 32 word"

text \<open>The three instances of the class template. That of \<open>ProtocolInterface\<close> itself has the default handler, which makes
  a \<open>std::string\<close> of a null pointer when it serialises, and deserialises to a null pointer. A handler casts
  its argument without a check.\<close>

datatype Serializer = SerProtocolInterface | SerHello | SerWorld

fun Serializer_Serialize :: "payload_codec \<Rightarrow> Serializer \<Rightarrow> ProtocolInterface option \<Rightarrow> string res" where
  "Serializer_Serialize pc SerProtocolInterface x = Inl NullDeref"
| "Serializer_Serialize pc SerHello (Some (HelloProtocol name)) = Inr (hello_ser pc name)"
| "Serializer_Serialize pc SerHello (Some (WorldProtocol r)) = Inl OutOfBounds"
| "Serializer_Serialize pc SerHello None = Inl NullDeref"
| "Serializer_Serialize pc SerWorld (Some (WorldProtocol r)) = Inr (world_ser pc r)"
| "Serializer_Serialize pc SerWorld (Some (HelloProtocol name)) = Inl OutOfBounds"
| "Serializer_Serialize pc SerWorld None = Inl NullDeref"

fun Serializer_Deserialize :: "payload_codec \<Rightarrow> Serializer \<Rightarrow> string \<Rightarrow> ProtocolInterface option" where
  "Serializer_Deserialize pc SerProtocolInterface stream = None"
| "Serializer_Deserialize pc SerHello stream = Some (HelloProtocol (hello_parse pc stream))"
| "Serializer_Deserialize pc SerWorld stream = Some (WorldProtocol (world_parse pc stream))"

datatype SrvTraits = SrvTraits_default | HelloSrvTraits

fun SrvTraits_req_serializer :: "SrvTraits \<Rightarrow> Serializer" where
  "SrvTraits_req_serializer SrvTraits_default = SerProtocolInterface"
| "SrvTraits_req_serializer HelloSrvTraits = SerHello"

fun SrvTraits_res_serializer :: "SrvTraits \<Rightarrow> Serializer" where
  "SrvTraits_res_serializer SrvTraits_default = SerProtocolInterface"
| "SrvTraits_res_serializer HelloSrvTraits = SerWorld"

section \<open>The protocol manager\<close>

type_synonym ProtocolManager = "string \<rightharpoonup> SrvTraits"

definition ProtocolManager_Register :: "string \<Rightarrow> SrvTraits \<Rightarrow> ProtocolManager \<Rightarrow> ProtocolManager" where
  [model_defs]: "ProtocolManager_Register srv_name traits m = (if m srv_name = None then m(srv_name \<mapsto> traits) else m)"

definition ProtocolManager_Get :: "string \<Rightarrow> ProtocolManager \<Rightarrow> SrvTraits" where
  [model_defs]: "ProtocolManager_Get srv_name m = (case m srv_name of Some traits \<Rightarrow> traits | None \<Rightarrow> SrvTraits_default)"

text \<open>The static object of \<open>hello.h\<close> registers itself.\<close>

definition HelloSrvTraits_register :: "ProtocolManager \<Rightarrow> ProtocolManager" where
  [model_defs]: "HelloSrvTraits_register = ProtocolManager_Register ''hello'' HelloSrvTraits"

section \<open>The server\<close>

text \<open>The members of the two protocol handlers that are used: \<open>req_protocol_\<close>, \<open>state_\<close>, \<open>error_\<close> and the payload of
  the request, \<open>resp_protocol_\<close> and the payload of the response. Only the payload pointers are initialised by a
  constructor.\<close>

record NetworkServer =
  ns_req_protocol :: "Protocol option"
  ns_state :: int
  ns_error :: int
  ns_data_req :: "ProtocolInterface option"
  ns_resp_protocol :: "Protocol option"
  ns_data_resp :: "ProtocolInterface option"

definition NetworkServer_init :: "Protocol option \<Rightarrow> Protocol option \<Rightarrow> int \<Rightarrow> int \<Rightarrow> NetworkServer" where
  [model_defs]: "NetworkServer_init u_req u_resp u_state u_error =
     \<lparr>ns_req_protocol = u_req, ns_state = u_state, ns_error = u_error, ns_data_req = None,
      ns_resp_protocol = u_resp, ns_data_resp = None\<rparr>"

definition ProtocolHandler_Recv ::
    "bool \<Rightarrow> (string \<Rightarrow> BaseProtocolBuf) \<Rightarrow> Socket \<Rightarrow> NetworkServer \<Rightarrow> (NetworkServer \<times> Socket) io" where
  [model_defs]: "ProtocolHandler_Recv sched parse sock ns =
     io_bind (RpcProtocol_RecvProtocol sched parse sock) (\<lambda>(p, sock').
       io_return (case p of
                    None \<Rightarrow> ns\<lparr>ns_req_protocol := None, ns_state := 1, ns_error := 1\<rparr>
                  | Some _ \<Rightarrow> ns\<lparr>ns_req_protocol := p\<rparr>, sock'))"

definition ProtocolHandler_Send :: "(BaseProtocolBuf \<Rightarrow> string) \<Rightarrow> Socket \<Rightarrow> NetworkServer \<Rightarrow> unit io" where
  [model_defs]: "ProtocolHandler_Send ser sock ns =
     io_bind (RpcProtocol_SendProtocol ser (ns_resp_protocol ns) sock) (\<lambda>_. io_return ())"

definition RpcRequest_DeserializeDataReqProtocol :: "payload_codec \<Rightarrow> SrvTraits \<Rightarrow> string \<Rightarrow> NetworkServer \<Rightarrow> NetworkServer" where
  [model_defs]: "RpcRequest_DeserializeDataReqProtocol pc traits raw_data ns =
     ns\<lparr>ns_data_req := Serializer_Deserialize pc (SrvTraits_req_serializer traits) raw_data\<rparr>"

text \<open>\<open>set_data\<close> does not touch the length.\<close>

definition RpcResponse_SerializeDataRespProtocol :: "payload_codec \<Rightarrow> SrvTraits \<Rightarrow> NetworkServer \<Rightarrow> NetworkServer res" where
  [model_defs]: "RpcResponse_SerializeDataRespProtocol pc traits ns =
     res_bind (Serializer_Serialize pc (SrvTraits_res_serializer traits) (ns_data_resp ns)) (\<lambda>data.
       case ns_resp_protocol ns of
         None \<Rightarrow> Inl NullDeref
       | Some p \<Rightarrow> Inr (ns\<lparr>ns_resp_protocol := Some (p\<lparr>p_data := data\<rparr>)\<rparr>))"

text \<open>A service function works on the server: it reads the payload of the request and sets that of the response.\<close>

type_synonym handlers = "string \<rightharpoonup> (NetworkServer \<Rightarrow> NetworkServer)"

definition RpcServerProvider_RegisterHandler :: "string \<Rightarrow> (NetworkServer \<Rightarrow> NetworkServer) \<Rightarrow> handlers \<Rightarrow> handlers" where
  [model_defs]: "RpcServerProvider_RegisterHandler name func hs = hs(name \<mapsto> func)"

text \<open>The provider: a server, bound by the constructor, and the table of functions. There is no registry.\<close>

record RpcServerProvider =
  pv_server :: BaseServer
  pv_handlers :: handlers

definition RpcServerProvider_RpcServerProvider :: "Address \<Rightarrow> RpcServerProvider" where
  [model_defs]: "RpcServerProvider_RpcServerProvider addr =
     \<lparr>pv_server = BaseServer_Bind addr BaseServer_BaseServer, pv_handlers = Map.empty\<rparr>"

definition RpcServerProvider_Start :: "bool \<Rightarrow> bool \<Rightarrow> RpcServerProvider \<Rightarrow> RpcServerProvider io" where
  [model_defs]: "RpcServerProvider_Start sched big pv =
     io_bind (BaseServer_Start sched big (pv_server pv)) (\<lambda>bs. io_return (pv\<lparr>pv_server := bs\<rparr>))"

definition RpcServerProvider_BindRegistry :: "Address \<Rightarrow> RpcServerProvider \<Rightarrow> bool" where
  [model_defs]: "RpcServerProvider_BindRegistry addr pv = False"

definition RpcServerProvider_OnNewConn ::
    "payload_codec \<Rightarrow> ProtocolManager \<Rightarrow> handlers \<Rightarrow> NetworkServer \<Rightarrow> NetworkServer res" where
  [model_defs]: "RpcServerProvider_OnNewConn pc pm hs ns =
     (if ns_error ns = 1 then Inr ns
      else case ns_req_protocol ns of
             None \<Rightarrow> Inl NullDeref
           | Some protocol \<Rightarrow>
               if p_type protocol = kRequestCall then
                 (case hs (p_srv_name protocol) of
                    Some func \<Rightarrow>
                      let traits = ProtocolManager_Get (p_srv_name protocol) pm;
                          ns1 = RpcRequest_DeserializeDataReqProtocol pc traits (p_data protocol) ns;
                          ns2 = func ns1
                      in RpcResponse_SerializeDataRespProtocol pc traits
                           (ns2\<lparr>ns_resp_protocol := Some (Protocol_Create kResponseCall (p_req_id protocol) [])\<rparr>)
                  | None \<Rightarrow>
                      Inr (ns\<lparr>ns_resp_protocol := Some (Protocol_Create kResponseCall (p_req_id protocol) ''other'')\<rparr>))
               else Inr ns)"

definition NetworkServer_OnNewConn ::
    "bool \<Rightarrow> (BaseProtocolBuf \<Rightarrow> string) \<Rightarrow> (string \<Rightarrow> BaseProtocolBuf) \<Rightarrow> payload_codec \<Rightarrow> ProtocolManager \<Rightarrow> handlers \<Rightarrow>
     Socket \<Rightarrow> NetworkServer \<Rightarrow> (NetworkServer \<times> Socket) io" where
  [model_defs]: "NetworkServer_OnNewConn sched ser parse pc pm hs sock ns =
     io_bind (ProtocolHandler_Recv sched parse sock ns) (\<lambda>(ns1, sock1).
       io_bind (\<lambda>st. res_bind (RpcServerProvider_OnNewConn pc pm hs ns1) (\<lambda>ns2. Inr (ns2, st))) (\<lambda>ns2.
         if ns_error ns2 \<noteq> 1 then io_bind (ProtocolHandler_Send ser sock1 ns2) (\<lambda>_. io_return (ns2, sock1))
         else io_return (ns2, sock1)))"

text \<open>The coroutine of a connection: messages until the socket is no longer connected. Each turn uses up
  an input, so the loop has no result only when the inputs end.\<close>

fun serve_conn ::
    "nat \<Rightarrow> bool \<Rightarrow> (BaseProtocolBuf \<Rightarrow> string) \<Rightarrow> (string \<Rightarrow> BaseProtocolBuf) \<Rightarrow> payload_codec \<Rightarrow> ProtocolManager \<Rightarrow> handlers \<Rightarrow>
     Socket \<Rightarrow> NetworkServer \<Rightarrow> (NetworkServer \<times> Socket) io" where
  "serve_conn 0 sched ser parse pc pm hs sock ns = (\<lambda>st. Inl OutOfAnswers)"
| "serve_conn (Suc n) sched ser parse pc pm hs sock ns =
     io_bind (NetworkServer_OnNewConn sched ser parse pc pm hs sock ns) (\<lambda>(ns', sock').
       if \<not> sk_connected sock' then io_return (ns', sock')
       else serve_conn n sched ser parse pc pm hs sock' ns')"

section \<open>Registration\<close>

text \<open>The first registration of a service counts, and others are not touched. \<open>Get\<close> after \<open>Register\<close> finds the
  traits that were there before, or else the new ones; a name that was never registered has the default traits.
  Registering a handler, in contrast, replaces the earlier one.\<close>

theorem registration_laws:
  "ProtocolManager_Get n (ProtocolManager_Register n' t m) =
     (if n = n' \<and> m n = None then t else ProtocolManager_Get n m) \<and>
   ProtocolManager_Get n Map.empty = SrvTraits_default \<and>
   ProtocolManager_Register n' t' (ProtocolManager_Register n' t m) = ProtocolManager_Register n' t m \<and>
   RpcServerProvider_RegisterHandler n f (RpcServerProvider_RegisterHandler n g hs) = RpcServerProvider_RegisterHandler n f hs"
  by (auto simp: model_defs split: option.splits)

section \<open>Answers\<close>

text \<open>What the answer to a call should be.\<close>

definition call_answer :: "payload_codec \<Rightarrow> handlers \<Rightarrow> Protocol \<Rightarrow> NetworkServer \<Rightarrow> string option" where
  "call_answer pc hs p ns =
     (case hs (p_srv_name p) of
        None \<Rightarrow> Some ''other''
      | Some f \<Rightarrow>
          (case ns_data_resp (f (ns\<lparr>ns_data_req := Some (HelloProtocol (hello_parse pc (p_data p)))\<rparr>)) of
             Some (WorldProtocol r) \<Rightarrow> Some (world_ser pc r)
           | _ \<Rightarrow> None))"

text \<open>A well behaved service function leaves the protocol part of the handlers alone.\<close>

definition handler_ok :: "handlers \<Rightarrow> bool" where
  "handler_ok hs \<longleftrightarrow> (\<forall>n f ns. hs n = Some f \<longrightarrow> ns_error (f ns) = ns_error ns \<and> ns_req_protocol (f ns) = ns_req_protocol ns)"

text \<open>The message that carries it; the length field is that of the message before its payload was set.\<close>

definition answer_msg :: "handlers \<Rightarrow> Protocol \<Rightarrow> string \<Rightarrow> Protocol" where
  "answer_msg hs p data =
     (if hs (p_srv_name p) = None then Protocol_Create kResponseCall (p_req_id p) data
      else (Protocol_Create kResponseCall (p_req_id p) [])\<lparr>p_data := data\<rparr>)"

lemma OnNewConn_answers:
  assumes "ns_error ns \<noteq> 1" "ns_req_protocol ns = Some p" "p_type p = kRequestCall"
    and "\<forall>f. hs (p_srv_name p) = Some f \<longrightarrow> pm (p_srv_name p) = Some HelloSrvTraits"
    and "handler_ok hs" "call_answer pc hs p ns = Some data"
  shows "\<exists>ns'. RpcServerProvider_OnNewConn pc pm hs ns = Inr ns' \<and> ns_error ns' \<noteq> 1 \<and>
    ns_resp_protocol ns' = Some (answer_msg hs p data)"
  using assms
  by (auto simp: RpcServerProvider_OnNewConn_def call_answer_def answer_msg_def handler_ok_def model_defs Let_def
      split: option.splits ProtocolInterface.splits)

text \<open>One message on an open socket, from the bytes of the request to the bytes of the answer.\<close>

lemma request_frame_answered:
  assumes p: "created p" "parse (ser (to_buf p)) = to_buf p" "nul \<notin> set (ser (to_buf p))" "p_type p = kRequestCall"
    and len: "ser (to_buf p) \<noteq> []" "length (ser (to_buf p)) < 10000" "length (ser (to_buf (answer_msg hs p data))) < 10000"
    and s: "sk_connected s" "sk_conn s = Some c"
    and ns: "ns_error ns \<noteq> 1" "handler_ok hs" "call_answer pc hs p (ns\<lparr>ns_req_protocol := Some p\<rparr>) = Some data"
      "\<forall>f. hs (p_srv_name p) = Some f \<longrightarrow> pm (p_srv_name p) = Some HelloSrvTraits"
    and wire: "delivers (- 1) False (take 4 (RpcProtocol_Encode ser p)) (inputs st) mid"
      "delivers (- 1) False (drop 4 (RpcProtocol_Encode ser p)) mid mid2"
      "accepts (- 1) False (length (RpcProtocol_Encode ser (answer_msg hs p data))) mid2 rest"
  shows "\<exists>ns' st' tr. NetworkServer_OnNewConn sched ser parse pc pm hs s ns st = Inr ((ns', s), st') \<and>
    inputs st' = rest \<and> trace st' = trace st @ tr \<and> sent_all tr = RpcProtocol_Encode ser (answer_msg hs p data) \<and>
    p_req_id (answer_msg hs p data) = p_req_id p \<and> p_data (answer_msg hs p data) = data"
proof -
  obtain st1 tr1 where r: "RpcProtocol_RecvProtocol sched parse s st = Inr ((Some p, s), st1)" "inputs st1 = mid2"
    "trace st1 = trace st @ tr1" "sent_all tr1 = []"
    using RecvProtocol_frame [of p parse ser s c st mid mid2 sched] p len s wire by blast
  let ?ns = "ns\<lparr>ns_req_protocol := Some p\<rparr>"
  obtain ns' where a: "RpcServerProvider_OnNewConn pc pm hs ?ns = Inr ns'" "ns_error ns' \<noteq> 1"
    "ns_resp_protocol ns' = Some (answer_msg hs p data)"
    using OnNewConn_answers [of ?ns p hs pm pc data] p ns by auto
  obtain st2 tr2 where w: "RpcProtocol_SendProtocol ser (Some (answer_msg hs p data)) s st1 = Inr (True, st2)"
    "inputs st2 = rest" "trace st2 = trace st1 @ tr2" "sent_all tr2 = RpcProtocol_Encode ser (answer_msg hs p data)"
    using SendProtocol_frame [of ser "answer_msg hs p data" s c st1 rest] len s wire(3) r(2) by blast
  have "NetworkServer_OnNewConn sched ser parse pc pm hs s ns st = Inr ((ns', s), st2)"
    using r(1) a w(1)
    by (simp add: NetworkServer_OnNewConn_def ProtocolHandler_Recv_def ProtocolHandler_Send_def io_bind_def io_return_def)
  moreover have "p_req_id (answer_msg hs p data) = p_req_id p" "p_data (answer_msg hs p data) = data"
    by (auto simp: answer_msg_def Protocol_Create_def Protocol_Protocol_def)
  ultimately show ?thesis using r w by (intro exI [of _ ns'] exI [of _ st2] exI [of _ "tr1 @ tr2"]) simp
qed

text \<open>C20: a call is answered. When the frame of a call arrives on an open socket, in pieces of any size, and the
  server is not in its error state, the server sends exactly the frame of one response, with the number of the request,
  whose payload is the serialised result of the service function applied to the deserialised payload of the request,
  or the text \<open>other\<close> when no function is registered under the name. The conditions: request and response are each serialised to
  fewer than 10000 bytes; the request is serialised to something, without a zero byte, and its serialised form is parsed back to it; where a function is
  registered, so are the traits \<open>HelloSrvTraits\<close> of its payloads; and the kernel accepts the bytes of the response.\<close>

theorem rpc_request_answered:
  assumes p: "created p" "parse (ser (to_buf p)) = to_buf p" "nul \<notin> set (ser (to_buf p))" "p_type p = kRequestCall"
    and len: "ser (to_buf p) \<noteq> []" "length (ser (to_buf p)) < 10000" "length (ser (to_buf (answer_msg hs p data))) < 10000"
    and s: "sk_connected s" "sk_conn s = Some c"
    and ns: "ns_error ns \<noteq> 1" "handler_ok hs" "call_answer pc hs p (ns\<lparr>ns_req_protocol := Some p\<rparr>) = Some data"
      "\<forall>f. hs (p_srv_name p) = Some f \<longrightarrow> pm (p_srv_name p) = Some HelloSrvTraits"
    and wire: "delivers (- 1) False (take 4 (RpcProtocol_Encode ser p)) (inputs st) mid"
      "delivers (- 1) False (drop 4 (RpcProtocol_Encode ser p)) mid mid2"
      "accepts (- 1) False (length (RpcProtocol_Encode ser (answer_msg hs p data))) mid2 rest"
  shows "\<exists>ns' st' tr. NetworkServer_OnNewConn sched ser parse pc pm hs s ns st = Inr ((ns', s), st') \<and>
    inputs st' = rest \<and> trace st' = trace st @ tr \<and> sent_all tr = RpcProtocol_Encode ser (answer_msg hs p data) \<and>
    p_req_id (answer_msg hs p data) = p_req_id p \<and> p_data (answer_msg hs p data) = data"
  using request_frame_answered [of p parse ser hs data s c ns pc pm st mid mid2 rest sched] assms by blast

definition hello_handlers :: handlers where
  "hello_handlers = RpcServerProvider_RegisterHandler ''hello''
     (\<lambda>ns. ns\<lparr>ns_data_resp := map_option
        (\<lambda>x. case x of HelloProtocol name \<Rightarrow> WorldProtocol (of_nat (length name)) | WorldProtocol r \<Rightarrow> WorldProtocol r) (ns_data_req ns)\<rparr>)
     Map.empty"

definition plain_codec :: payload_codec where
  "plain_codec = \<lparr>hello_ser = id, hello_parse = id, world_ser = (\<lambda>r. convert (sint r)), world_parse = (\<lambda>s. 0)\<rparr>"

definition call_script :: io_st where
  "call_script = \<lparr>inputs = [Ret 4 0 ''0007'', Ret 7 0 ''message'', Ret 11 0 []], trace = [], errno = 0\<rparr>"

lemma hello_handler_ok: "handler_ok hello_handlers"
  by (auto simp: handler_ok_def hello_handlers_def RpcServerProvider_RegisterHandler_def split: if_splits)

lemma message_frame: "RpcProtocol_Encode (\<lambda>b. ''message'') p = ''0007message''"
  using hello_frame by (simp add: RpcProtocol_Encode_def SerializerHandler_Serialize_def)

lemma hello_answer:
  "call_answer plain_codec hello_handlers hello_call (ns\<lparr>ns_req_protocol := Some hello_call\<rparr>) = Some ''4''"
  by (simp add: call_answer_def hello_handlers_def RpcServerProvider_RegisterHandler_def hello_call_def plain_codec_def
      Protocol_Create_def Protocol_Protocol_def convert_def convert_loop.simps zero_def digits_def
      signed_divide_int_def signed_modulo_int_def)

theorem rpc_request_answered_witness:
  "\<exists>ns' st'. NetworkServer_OnNewConn True (\<lambda>b. ''message'') (\<lambda>s. to_buf hello_call) plain_codec
       (HelloSrvTraits_register Map.empty) hello_handlers (open_socket 9) (NetworkServer_init None None 0 0) call_script =
     Inr ((ns', open_socket 9), st') \<and> sent_all (trace st') = ''0007message''"
proof -
  have d1: "delivers (- 1) False ''0007'' (inputs call_script) [Ret 7 0 ''message'', Ret 11 0 []]"
    using delivers_all [of "''0007''" "- 1" False 0 "[Ret 7 0 ''message'', Ret 11 0 []]"] by (simp add: call_script_def)
  have d2: "delivers (- 1) False ''message'' [Ret 7 0 ''message'', Ret 11 0 []] [Ret 11 0 []]"
    using delivers_all [of "''message''" "- 1" False 0 "[Ret 11 0 []]"] by simp
  have a: "accepts (- 1) False (length ''0007message'') [Ret 11 0 []] []"
    using accepts_all [of 11 "- 1" False 0 "[]" "[]"] by (simp add: eval_nat_numeral)
  have "created hello_call" "p_type hello_call = kRequestCall" "p_srv_name hello_call = ''hello''"
    by (simp_all add: created_def as_received_def hello_call_def Protocol_Create_def Protocol_Protocol_def)
  moreover have "sk_connected (open_socket 9)" "sk_conn (open_socket 9) = Some (TcpConn_TcpConn 9)"
    by (simp_all add: open_socket_def)
  ultimately show ?thesis
    using rpc_request_answered [of hello_call "\<lambda>s. to_buf hello_call" "\<lambda>b. ''message''" hello_handlers "''4''" "open_socket 9"
        "TcpConn_TcpConn 9" "NetworkServer_init None None 0 0" plain_codec "HelloSrvTraits_register Map.empty" call_script
        "[Ret 7 0 ''message'', Ret 11 0 []]" "[Ret 11 0 []]" "[]" True]
      d1 d2 a hello_handler_ok hello_answer [of "NetworkServer_init None None 0 0"]
    by (auto simp: message_frame nul_def NetworkServer_init_def HelloSrvTraits_register_def ProtocolManager_Register_def
        call_script_def)
qed

section \<open>The error state\<close>

text \<open>C28: a server that met an error never answers again. The error flag of the request handler is set when
  no message could be read, which is how every connection ends, and nothing clears it. From then on, for every input, the server only
  reads: handling a message is reading it, the flag stays set, and no response is made or sent, on this
  connection or another.\<close>

theorem server_error_is_final:
  assumes "ns_error ns = 1"
  shows "NetworkServer_OnNewConn sched ser parse pc pm hs sock ns st = ProtocolHandler_Recv sched parse sock ns st \<and>
    (\<forall>ns' sock' st'. ProtocolHandler_Recv sched parse sock ns st = Inr ((ns', sock'), st') \<longrightarrow>
       ns_error ns' = 1 \<and> ns_resp_protocol ns' = ns_resp_protocol ns)"
proof -
  have r: "ns_error ns' = 1 \<and> ns_resp_protocol ns' = ns_resp_protocol ns"
    if "ProtocolHandler_Recv sched parse sock ns st = Inr ((ns', sock'), st')" for ns' sock' st'
    using that assms by (auto simp: ProtocolHandler_Recv_def io_simps split: option.splits)
  moreover have "NetworkServer_OnNewConn sched ser parse pc pm hs sock ns st = ProtocolHandler_Recv sched parse sock ns st"
  proof (cases "ProtocolHandler_Recv sched parse sock ns st")
    case (Inl e)
    then show ?thesis by (simp add: NetworkServer_OnNewConn_def io_bind_def)
  next
    case (Inr b)
    then obtain ns' sock' st' where b: "b = ((ns', sock'), st')" by (metis surj_pair)
    with Inr r show ?thesis
      by (simp add: NetworkServer_OnNewConn_def RpcServerProvider_OnNewConn_def io_bind_def io_return_def)
  qed
  ultimately show ?thesis by blast
qed

text \<open>The server reads the end of one connection; the call that arrives on the next one stays without an answer.\<close>

theorem server_error_is_final_witness:
  "\<exists>ns1 s1 st1 ns2 s2 st2.
     NetworkServer_OnNewConn True (\<lambda>b. ''message'') (\<lambda>s. to_buf hello_call) plain_codec
       (HelloSrvTraits_register Map.empty) hello_handlers (open_socket 8) (NetworkServer_init None None 0 0)
       \<lparr>inputs = [Ret 0 0 [], Ret 0 0 []], trace = [], errno = 0\<rparr> = Inr ((ns1, s1), st1) \<and>
     NetworkServer_OnNewConn True (\<lambda>b. ''message'') (\<lambda>s. to_buf hello_call) plain_codec
       (HelloSrvTraits_register Map.empty) hello_handlers (open_socket 9) ns1 call_script = Inr ((ns2, s2), st2) \<and>
     ns_error ns2 = 1 \<and> length (inputs st2) = 1"
proof -
  let ?on = "NetworkServer_OnNewConn True (\<lambda>b. ''message'') (\<lambda>s. to_buf hello_call) plain_codec
       (HelloSrvTraits_register Map.empty) hello_handlers"
  obtain ns1 s1 st1 where one: "?on (open_socket 8) (NetworkServer_init None None 0 0)
      \<lparr>inputs = [Ret 0 0 [], Ret 0 0 []], trace = [], errno = 0\<rparr> = Inr ((ns1, s1), st1)" "ns_error ns1 = 1"
    by (simp add: model_defs NetworkServer_init_def with_conn_def io_bind_def io_return_def io_check_def open_socket_def
        recvn_loop.simps close_loop.simps syscall_def ask_def emit_def Let_def kDataLen_def)
  note f = server_error_is_final [OF one(2), of True "\<lambda>b. ''message''" "\<lambda>s. to_buf hello_call" plain_codec
      "HelloSrvTraits_register Map.empty" hello_handlers "open_socket 9" call_script]
  obtain ns2 s2 st2 where "ProtocolHandler_Recv True (\<lambda>s. to_buf hello_call) (open_socket 9) ns1 call_script = Inr ((ns2, s2), st2)"
    "length (inputs st2) = 1"
    by (simp add: ProtocolHandler_Recv_def RpcProtocol_RecvProtocol_def Socket_Recvn_def TcpConn_Recvn_def co_recvn_def
        with_conn_def io_bind_def io_return_def io_check_def open_socket_def TcpConn_TcpConn_def call_script_def
        recvn_loop.simps syscall_def ask_def Let_def kDataLen_def IOEvent_destroy_def IOEvent_IOEvent_def
        atoi_def is_space_def is_digit_def dec_value_def digit_value_def nul_def)
  with one f show ?thesis by auto
qed

section \<open>Starting a server\<close>

text \<open>\<open>Start\<close> of a provider starts one accepting loop whenever it returns, whether or not the socket could be bound; the
  delegate is set, so that every accepted socket gets a coroutine.\<close>

lemma provider_start:
  assumes "RpcServerProvider_Start sched big (RpcServerProvider_RpcServerProvider addr) st = Inr (pv, st')"
  shows "\<exists>srv. bs_server (pv_server pv) = Some srv \<and> srv_loops srv = 1 \<and> srv_delegate srv \<and> \<not> srv_stop srv \<and>
    Socket_is_valid (srv_sock srv)"
  using assms
  by (auto simp: RpcServerProvider_Start_def RpcServerProvider_RpcServerProvider_def BaseServer_Start_def BaseServer_Bind_def
      BaseServer_BaseServer_def TcpServer_Start_def TcpServer_InitSock_def TcpServer_set_delegate_def TcpServer_Create_def
      Socket_Listen_def io_simps io_check_def split: if_splits)

text \<open>A failed accept ends the program. When \<open>accept\<close> fails for another reason than an interruption or because it would
  block, the loop of a server with a delegate still hands the socket, which is not connected, to a new coroutine, and the first
  thing that does is to read from it: the check that the socket is connected fails.\<close>

theorem failed_accept_is_fatal:
  assumes "Socket_is_valid (srv_sock srv)" "srv_delegate srv" "inputs st = Ret (- 1) e d # rest"
    and "e \<noteq> EAGAIN" "e \<noteq> EWOULDBLOCK" "e \<noteq> EINTR"
  shows "\<exists>c st'. accept_turn sched big srv st = Inr (Some c, st') \<and> \<not> sk_connected c \<and>
    serve_conn (Suc n) sched ser parse pc pm hs c ns st' = Inl AssertFail"
  using assms
  by (simp add: accept_turn_def Socket_Accept_def Socket_Init_def Socket_Create_def co_accept_def accept_loop.simps syscall_def
      ask_def io_bind_def io_return_def io_check_def log_error_def kInvalidFd_def IOEvent_destroy_def IOEvent_IOEvent_def
      NetworkServer_OnNewConn_def ProtocolHandler_Recv_def RpcProtocol_RecvProtocol_def Socket_Recvn_def with_conn_def)

theorem failed_accept_is_fatal_witness:
  "\<exists>c st'. accept_turn True False (TcpServer_set_delegate True (TcpServer_Create IPv4Address_init)\<lparr>srv_sock := open_socket 3\<rparr>)
       \<lparr>inputs = [Ret (- 1) EBADF []], trace = [], errno = 0\<rparr> = Inr (Some c, st') \<and>
     serve_conn 1 True (\<lambda>b. []) (\<lambda>s. to_buf hello_call) plain_codec Map.empty hello_handlers c (NetworkServer_init None None 0 0) st' =
       Inl AssertFail"
  using failed_accept_is_fatal [of "TcpServer_set_delegate True (TcpServer_Create IPv4Address_init)\<lparr>srv_sock := open_socket 3\<rparr>"
      "\<lparr>inputs = [Ret (- 1) EBADF []], trace = [], errno = 0\<rparr>" EBADF "[]" "[]" True False 0 "\<lambda>b. []" "\<lambda>s. to_buf hello_call"
      plain_codec Map.empty hello_handlers "NetworkServer_init None None 0 0"]
  by (simp add: TcpServer_set_delegate_def Socket_is_valid_def open_socket_def kInvalidFd_def errno_defs) blast

end
