(* ===== verification/Rpc_Client.thy ===== *)
theory Rpc_Client
  imports Rpc_Server
begin

text \<open>
  The calling side: \<open>include/rpc/rpc.h\<close>, \<open>include/rpc/rpc_client.h\<close> and \<open>src/rpc/rpc_client.cc\<close>. A call has three
  parts, between which its coroutine can be suspended: it makes a message with the current number and writes it to the send
  channel, it registers its own channel under the current number and advances the number, and it
  waits for the channel. Channels are handles here; theory \<open>Channel\<close> models their contents. The step relation at the
  end interleaves the parts of several calls with the receiving loop.
\<close>

section \<open>Results\<close>

datatype RpcState = kSuccess | kFail | kNoMethod | kClosed | kTimeout

record Result =
  res_base_proto :: "ProtocolInterface option"
  res_target_proto :: "ProtocolInterface option"
  res_state :: RpcState

definition Result_Result :: "ProtocolInterface option \<Rightarrow> ProtocolInterface option \<Rightarrow> Result" where
  [model_defs]: "Result_Result base target = \<lparr>res_base_proto = base, res_target_proto = target, res_state = kSuccess\<rparr>"

definition Result_set_state :: "RpcState \<Rightarrow> Result \<Rightarrow> Result" where
  [model_defs]: "Result_set_state s r = r\<lparr>res_state := s\<rparr>"

section \<open>The client\<close>

record Params =
  recv_timeout :: uint32
  send_timeout :: uint32
  send_channel_size :: int

definition kDefaultParams :: Params where
  [model_defs]: "kDefaultParams = \<lparr>recv_timeout = - 1, send_timeout = - 1, send_channel_size = 10\<rparr>"

text \<open>The loops that \<open>Connect\<close> starts.\<close>

datatype client_loop = SendLoop | RecvLoop

record 'ch RpcClient =
  cl_req_id :: uint32
  cl_params :: Params
  cl_closed :: bool
  cl_sock :: "Socket option"
  cl_request_map :: "uint32 \<rightharpoonup> 'ch"
  cl_started :: "client_loop list"

definition RpcClient_RpcClient :: "Params \<Rightarrow> 'ch RpcClient" where
  [model_defs]: "RpcClient_RpcClient params =
     \<lparr>cl_req_id = 1, cl_params = params, cl_closed = False, cl_sock = None, cl_request_map = Map.empty, cl_started = []\<rparr>"

definition RpcClient_Connect :: "bool \<Rightarrow> bool \<Rightarrow> Address \<Rightarrow> 'ch RpcClient \<Rightarrow> (bool \<times> 'ch RpcClient) io" where
  [model_defs]: "RpcClient_Connect sched big addr cl =
     io_bind (Socket_Connect sched big addr (- 1) (Socket_Create kIpv4 kTcp 0)) (\<lambda>(ok, sock).
       if \<not> ok then io_return (False, cl)
       else io_return (True, cl\<lparr>cl_sock := Some sock, cl_started := cl_started cl @ [SendLoop, RecvLoop]\<rparr>))"

text \<open>The three parts of \<open>Call\<close>: the message for the send channel, the registration under the mutex, and the result once
  the answer is there or the wait timed out. A result of a time-out or of a missing method has no pointers
  set.\<close>

definition Call_send :: "payload_codec \<Rightarrow> Serializer \<Rightarrow> string \<Rightarrow> ProtocolInterface option \<Rightarrow> 'ch RpcClient \<Rightarrow> Protocol res" where
  [model_defs]: "Call_send pc serializer srv_name req_proto cl =
     res_bind (Serializer_Serialize pc serializer req_proto) (\<lambda>target_data.
       Inr ((Protocol_Create kRequestCall (cl_req_id cl) target_data)\<lparr>p_srv_name := srv_name\<rparr>))"

definition Call_register :: "'ch \<Rightarrow> 'ch RpcClient \<Rightarrow> 'ch RpcClient" where
  [model_defs]: "Call_register ch cl =
     cl\<lparr>cl_request_map := (cl_request_map cl)(cl_req_id cl \<mapsto> ch), cl_req_id := cl_req_id cl + 1\<rparr>"

definition Call_result ::
    "payload_codec \<Rightarrow> Serializer \<Rightarrow> bool \<Rightarrow> Protocol option \<Rightarrow> ProtocolInterface option \<Rightarrow>
     ProtocolInterface option \<times> ProtocolInterface option \<Rightarrow> Result res" where
  [model_defs]: "Call_result pc res_serializer timed_out recv_proto req_proto uninit =
     (if timed_out then Inr \<lparr>res_base_proto = fst uninit, res_target_proto = snd uninit, res_state = kTimeout\<rparr>
      else case recv_proto of
             None \<Rightarrow> Inl NullDeref
           | Some p \<Rightarrow>
               (case Serializer_Deserialize pc res_serializer (p_data p) of
                  None \<Rightarrow> Inr \<lparr>res_base_proto = fst uninit, res_target_proto = snd uninit, res_state = kNoMethod\<rparr>
                | Some res_proto \<Rightarrow> Inr (Result_set_state kSuccess (Result_Result req_proto (Some res_proto)))))"

text \<open>A turn of \<open>SendLoop\<close> on a message taken from the send channel; whether the loop goes on.\<close>

definition SendLoop_turn :: "(BaseProtocolBuf \<Rightarrow> string) \<Rightarrow> bool \<Rightarrow> Protocol option \<Rightarrow> Socket \<Rightarrow> bool io" where
  [model_defs]: "SendLoop_turn ser timed_out protocol sock =
     (if timed_out then io_bind (log_error ''rpc info send timeout'') (\<lambda>_. io_return True)
      else io_bind (RpcProtocol_SendProtocol ser protocol sock) (\<lambda>ok.
             if \<not> ok then io_bind (log_error ''rpc info send error'') (\<lambda>_. io_return False) else io_return True))"

text \<open>A turn of \<open>RecvLoop\<close> on a received message: the channel it is written to. Looking up a number that is
  not there makes a fresh channel, to which nobody listens; that is \<open>None\<close> here.\<close>

definition RecvLoop_turn :: "Protocol \<Rightarrow> 'ch RpcClient \<Rightarrow> 'ch option \<times> 'ch RpcClient" where
  [model_defs]: "RecvLoop_turn p cl =
     (cl_request_map cl (p_req_id p), cl\<lparr>cl_request_map := (cl_request_map cl)(p_req_id p := None)\<rparr>)"

section \<open>Interleaved calls\<close>

text \<open>Each caller makes one call and is named by a number, which is also the handle of its channel. The wire holds the requests that were sent, by
  number and caller, and whose answer has not been received; an answer carries the number of its request.\<close>

datatype phase = Idle | Sent uint32 | Waiting uint32 | Got uint32 nat

record rpc_st =
  st_client :: "nat RpcClient"
  st_phase :: "nat \<Rightarrow> phase"
  st_wire :: "(uint32 \<times> nat) list"

definition st_begin :: "nat \<Rightarrow> rpc_st \<Rightarrow> rpc_st" where
  "st_begin c s = s\<lparr>st_phase := (st_phase s)(c := Sent (cl_req_id (st_client s))),
     st_wire := st_wire s @ [(cl_req_id (st_client s), c)]\<rparr>"

definition st_register :: "nat \<Rightarrow> rpc_st \<Rightarrow> rpc_st" where
  "st_register c s = s\<lparr>st_client := Call_register c (st_client s),
     st_phase := (st_phase s)(c := (case st_phase s c of Sent i \<Rightarrow> Waiting i | ph \<Rightarrow> ph))\<rparr>"

definition st_receive :: "uint32 \<times> nat \<Rightarrow> rpc_st \<Rightarrow> rpc_st" where
  "st_receive r s =
     (let (ch, cl) = RecvLoop_turn (Protocol_Create kResponseCall (fst r) []) (st_client s) in
      s\<lparr>st_client := cl, st_wire := remove1 r (st_wire s),
        st_phase := (case ch of None \<Rightarrow> st_phase s | Some c \<Rightarrow> (st_phase s)(c := Got (fst r) (snd r)))\<rparr>)"

inductive rpc_step :: "rpc_st \<Rightarrow> rpc_st \<Rightarrow> bool" where
  step_begin: "st_phase s c = Idle \<Longrightarrow> rpc_step s (st_begin c s)"
| step_register: "st_phase s c = Sent i \<Longrightarrow> rpc_step s (st_register c s)"
| step_receive: "r \<in> set (st_wire s) \<Longrightarrow> rpc_step s (st_receive r s)"

text \<open>Calls that are not suspended before they are registered: the send channel has room, the mutex is free, and all
  run on one scheduler.\<close>

inductive call_step :: "rpc_st \<Rightarrow> rpc_st \<Rightarrow> bool" where
  call_start: "st_phase s c = Idle \<Longrightarrow> call_step s (st_register c (st_begin c s))"
| call_receive: "r \<in> set (st_wire s) \<Longrightarrow> call_step s (st_receive r s)"

definition rpc_init :: rpc_st where
  "rpc_init = \<lparr>st_client = RpcClient_RpcClient kDefaultParams, st_phase = (\<lambda>c. Idle), st_wire = []\<rparr>"

inductive_simps rpc_step_iff: "rpc_step s s'"
inductive_cases call_stepE: "call_step s s'"

lemma call_step_refines: "call_step s s' \<Longrightarrow> rpc_step\<^sup>*\<^sup>* s s'"
proof (induction rule: call_step.induct)
  case (call_start s c)
  have "rpc_step s (st_begin c s)" using call_start by (rule step_begin)
  moreover have "rpc_step (st_begin c s) (st_register c (st_begin c s))"
    by (rule step_register [where i = "cl_req_id (st_client s)"]) (simp add: st_begin_def)
  ultimately show ?case by (meson converse_rtranclp_into_rtranclp r_into_rtranclp)
next
  case (call_receive r s)
  then show ?case by (meson step_receive r_into_rtranclp)
qed

text \<open>\<open>n\<close> calls were started. Their numbers are 1 to \<open>n\<close>, each used once; a caller waits exactly if its request is on the wire, and
  then it is registered under its number.\<close>

definition calls_inv :: "nat \<Rightarrow> rpc_st \<Rightarrow> bool" where
  "calls_inv n s \<longleftrightarrow>
     cl_req_id (st_client s) = of_nat (Suc n) \<and>
     (\<forall>i c. (i, c) \<in> set (st_wire s) \<longrightarrow> 1 \<le> unat i \<and> unat i \<le> n) \<and>
     distinct (map fst (st_wire s)) \<and>
     (\<forall>i c. st_phase s c = Waiting i \<longleftrightarrow> (i, c) \<in> set (st_wire s)) \<and>
     (\<forall>i c. cl_request_map (st_client s) i = Some c \<longleftrightarrow> (i, c) \<in> set (st_wire s)) \<and>
     (\<forall>i c c'. st_phase s c = Got i c' \<longrightarrow> c' = c) \<and>
     (\<forall>i c. st_phase s c \<noteq> Sent i)"

lemma calls_inv_init: "calls_inv 0 rpc_init"
  by (simp add: calls_inv_def rpc_init_def RpcClient_RpcClient_def)

lemma calls_inv_start:
  assumes inv: "calls_inv n s" and idle: "st_phase s c = Idle" and n: "Suc n < 2 ^ 32 - 1"
  shows "calls_inv (Suc n) (st_register c (st_begin c s))"
proof -
  let ?i = "of_nat (Suc n) :: uint32"
  have u: "unat ?i = Suc n" using n unat_of_nat_lt [of "Suc n", where ?'a = 32] by simp
  have id: "cl_req_id (st_client s) = ?i" using inv by (simp add: calls_inv_def)
  have fresh: "(?i, c') \<notin> set (st_wire s)" for c' using inv u by (fastforce simp: calls_inv_def)
  have notc: "(i, c) \<notin> set (st_wire s)" for i using inv idle by (metis calls_inv_def phase.distinct(3))
  have "distinct (map fst (st_wire s @ [(?i, c)]))" using inv fresh by (force simp: calls_inv_def)
  moreover have "\<forall>i c'. (i, c') \<in> set (st_wire s @ [(?i, c)]) \<longrightarrow> 1 \<le> unat i \<and> unat i \<le> Suc n"
    using inv u by (fastforce simp: calls_inv_def)
  ultimately show ?thesis
    using inv id fresh notc by (auto simp: calls_inv_def st_register_def st_begin_def Call_register_def)
qed

lemma calls_inv_receive:
  assumes inv: "calls_inv n s" and r: "(i, c) \<in> set (st_wire s)"
  shows "calls_inv n (st_receive (i, c) s)" "st_phase (st_receive (i, c) s) c = Got i c"
proof -
  have m: "cl_request_map (st_client s) i = Some c" using inv r by (simp add: calls_inv_def)
  have d: "distinct (map fst (st_wire s))" using inv by (simp add: calls_inv_def)
  let ?w = "remove1 (i, c) (st_wire s)"
  have w: "set ?w = set (st_wire s) - {(i, c)}" using d by (simp add: distinct_map set_remove1_eq)
  have dw: "distinct (map fst ?w)" using d by (metis distinct_map distinct_remove1 inj_on_subset set_remove1_subset)
  have only: "(i, c') \<in> set (st_wire s) \<Longrightarrow> c' = c" for c' using inv r by (metis calls_inv_def option.inject)
  have own: "(i', c) \<in> set (st_wire s) \<Longrightarrow> i' = i" for i' using inv r by (metis calls_inv_def phase.inject(2))
  have s': "st_receive (i, c) s = s\<lparr>st_client := (st_client s)\<lparr>cl_request_map := (cl_request_map (st_client s))(i := None)\<rparr>,
      st_wire := ?w, st_phase := (st_phase s)(c := Got i c)\<rparr>"
    using m by (simp add: st_receive_def RecvLoop_turn_def Protocol_Create_def Protocol_Protocol_def Let_def)
  show "st_phase (st_receive (i, c) s) c = Got i c" by (simp add: s')
  have ph: "st_phase s c' = Waiting i' \<longleftrightarrow> (i', c') \<in> set (st_wire s)" for i' c' using inv by (simp add: calls_inv_def)
  have mp: "cl_request_map (st_client s) i' = Some c' \<longleftrightarrow> (i', c') \<in> set (st_wire s)" for i' c'
    using inv by (simp add: calls_inv_def)
  show "calls_inv n (st_receive (i, c) s)"
    unfolding calls_inv_def s'
  proof (intro conjI)
    show "\<forall>i' c'. st_phase (s\<lparr>st_client := (st_client s)\<lparr>cl_request_map := (cl_request_map (st_client s))(i := None)\<rparr>,
        st_wire := ?w, st_phase := (st_phase s)(c := Got i c)\<rparr>) c' = Waiting i' \<longleftrightarrow>
      (i', c') \<in> set (st_wire (s\<lparr>st_client := (st_client s)\<lparr>cl_request_map := (cl_request_map (st_client s))(i := None)\<rparr>,
        st_wire := ?w, st_phase := (st_phase s)(c := Got i c)\<rparr>))"
      using ph own w by auto
  qed (use inv dw w only mp in \<open>auto simp: calls_inv_def\<close>)
qed

text \<open>Executions of undisturbed calls, with the number of calls started.\<close>

inductive calls_run :: "nat \<Rightarrow> rpc_st \<Rightarrow> bool" where
  run_init: "calls_run 0 rpc_init"
| run_start: "calls_run n s \<Longrightarrow> st_phase s c = Idle \<Longrightarrow> calls_run (Suc n) (st_register c (st_begin c s))"
| run_receive: "calls_run n s \<Longrightarrow> r \<in> set (st_wire s) \<Longrightarrow> calls_run n (st_receive r s)"

lemma calls_run_inv: "calls_run n s \<Longrightarrow> n < 2 ^ 32 - 1 \<Longrightarrow> calls_inv n s"
proof (induction rule: calls_run.induct)
  case run_init
  show ?case by (rule calls_inv_init)
next
  case (run_start n s c)
  then show ?case by (intro calls_inv_start) simp_all
next
  case (run_receive n s r)
  then show ?case using calls_inv_receive(1) [of n s "fst r" "snd r"] by simp
qed

lemma calls_run_reachable: "calls_run n s \<Longrightarrow> call_step\<^sup>*\<^sup>* rpc_init s"
  by (induction rule: calls_run.induct) (auto intro: call_step.intros rtranclp.rtrancl_into_rtrancl)

text \<open>C21: undisturbed calls get their own answers. In every execution in which no call is suspended between making its message and
  registering its channel, with any number of concurrent calls (fewer than \<open>2\<^sup>3\<^sup>2 - 1\<close> in all) and answers in any order: an answer that
  a caller received is the answer to its own request, every caller that waits is registered and its request is
  still to be answered, and when that answer comes the caller gets it.\<close>

theorem rpc_answers_match:
  assumes "calls_run n s" "n < 2 ^ 32 - 1"
  shows "(\<forall>c i c'. st_phase s c = Got i c' \<longrightarrow> c' = c) \<and>
    (\<forall>c i. st_phase s c = Waiting i \<longrightarrow>
       cl_request_map (st_client s) i = Some c \<and> (i, c) \<in> set (st_wire s) \<and>
       st_phase (st_receive (i, c) s) c = Got i c)"
  using calls_run_inv [OF assms] calls_inv_receive(2) by (auto simp: calls_inv_def)

definition two_calls :: rpc_st where
  "two_calls = st_register 5 (st_begin 5 (st_register 4 (st_begin 4 rpc_init)))"

lemma two_calls_run: "calls_run 2 two_calls" "calls_run 2 (st_receive (2, 5) two_calls)"
proof -
  have "calls_run 1 (st_register 4 (st_begin 4 rpc_init))"
    using run_start [OF run_init, of 4] by (simp add: rpc_init_def)
  from run_start [OF this, of 5] show a: "calls_run 2 two_calls"
    by (simp add: two_calls_def st_register_def st_begin_def rpc_init_def numeral_2_eq_2)
  show "calls_run 2 (st_receive (2, 5) two_calls)"
    by (rule run_receive [OF a])
      (simp add: two_calls_def st_register_def st_begin_def rpc_init_def Call_register_def RpcClient_RpcClient_def)
qed

text \<open>Two calls, the second answered first.\<close>

theorem rpc_answers_match_witness:
  "st_phase (st_receive (2, 5) two_calls) 5 = Got 2 5 \<and> st_phase (st_receive (2, 5) two_calls) 4 = Waiting 1 \<and>
   cl_request_map (st_client (st_receive (2, 5) two_calls)) 1 = Some 4"
proof -
  have ph: "st_phase two_calls 5 = Waiting 2" "st_phase two_calls 4 = Waiting 1"
    by (simp_all add: two_calls_def st_register_def st_begin_def rpc_init_def Call_register_def RpcClient_RpcClient_def)
  then have "st_phase (st_receive (2, 5) two_calls) 4 = Waiting 1"
    by (simp add: st_receive_def RecvLoop_turn_def Let_def Protocol_Create_def Protocol_Protocol_def two_calls_def
        st_register_def st_begin_def rpc_init_def Call_register_def RpcClient_RpcClient_def)
  with rpc_answers_match [OF two_calls_run(1)] rpc_answers_match [OF two_calls_run(2)] ph show ?thesis by auto
qed

text \<open>Calls that are suspended before they register lose their answers. The number is read when the message is
  made and advanced only when the call is registered: from the initial state an execution leads to two calls that sent
  the same number, of which one receives the answer to the other's request; and one leads to a call whose answer arrives
  before it is registered, which then waits with nothing left to wake it.\<close>

theorem rpc_calls_mixed_up:
  "(\<exists>s. rpc_step\<^sup>*\<^sup>* rpc_init s \<and> (\<exists>i c c'. st_phase s c = Got i c' \<and> c' \<noteq> c)) \<and>
   (\<exists>s. rpc_step\<^sup>*\<^sup>* rpc_init s \<and> (\<exists>i c. st_phase s c = Waiting i \<and> st_wire s = []))"
proof (intro conjI)
  note defs = st_register_def st_begin_def st_receive_def rpc_init_def Call_register_def RpcClient_RpcClient_def
    RecvLoop_turn_def Protocol_Create_def Protocol_Protocol_def
  note into = rtranclp.rtrancl_into_rtrancl [of rpc_step]
  let ?s1 = "st_begin 4 rpc_init"
  have r1: "rpc_step\<^sup>*\<^sup>* rpc_init ?s1" by (rule into [OF rtranclp.rtrancl_refl step_begin]) (simp add: defs)
  let ?s2 = "st_begin 5 ?s1"
  have r2: "rpc_step\<^sup>*\<^sup>* rpc_init ?s2" by (rule into [OF r1 step_begin]) (simp add: defs)
  let ?s3 = "st_register 4 ?s2"
  have r3: "rpc_step\<^sup>*\<^sup>* rpc_init ?s3" by (rule into [OF r2 step_register [where i = 1]]) (simp add: defs)
  let ?s4 = "st_receive (1, 5) ?s3"
  have r4: "rpc_step\<^sup>*\<^sup>* rpc_init ?s4" by (rule into [OF r3 step_receive]) (simp add: defs)
  have "\<exists>i c c'. st_phase ?s4 c = Got i c' \<and> c' \<noteq> c"
    by (rule exI [of _ 1], rule exI [of _ 4], rule exI [of _ 5]) (simp add: defs Let_def)
  with r4 show "\<exists>s. rpc_step\<^sup>*\<^sup>* rpc_init s \<and> (\<exists>i c c'. st_phase s c = Got i c' \<and> c' \<noteq> c)"
    by blast
  let ?t2 = "st_receive (1, 4) ?s1"
  have t2: "rpc_step\<^sup>*\<^sup>* rpc_init ?t2" by (rule into [OF r1 step_receive]) (simp add: defs)
  let ?t3 = "st_register 4 ?t2"
  have t3: "rpc_step\<^sup>*\<^sup>* rpc_init ?t3" by (rule into [OF t2 step_register [where i = 1]]) (simp add: defs Let_def)
  have "\<exists>i c. st_phase ?t3 c = Waiting i \<and> st_wire ?t3 = []"
    by (rule exI [of _ 1], rule exI [of _ 4]) (simp add: defs Let_def)
  with t3 show "\<exists>s. rpc_step\<^sup>*\<^sup>* rpc_init s \<and> (\<exists>i c. st_phase s c = Waiting i \<and> st_wire s = [])"
    by blast
qed

section \<open>Outcomes of a call\<close>

text \<open>What a call returns. A call that timed out says so; an answer is deserialised with the serialiser of the
  response type: with the answer that the server made of a result, when protobuf parses back what it printed, the call succeeds
  with that result and the request.\<close>

theorem Call_outcome:
  assumes "world_parse pc (world_ser pc v) = v" "p_data p = world_ser pc v"
  shows "Call_result pc SerWorld True recv req u = Inr \<lparr>res_base_proto = fst u, res_target_proto = snd u, res_state = kTimeout\<rparr> \<and>
    Call_result pc SerWorld False (Some p) req u =
      Inr \<lparr>res_base_proto = req, res_target_proto = Some (WorldProtocol v), res_state = kSuccess\<rparr> \<and>
    Call_result pc SerProtocolInterface False (Some p) req u =
      Inr \<lparr>res_base_proto = fst u, res_target_proto = snd u, res_state = kNoMethod\<rparr>"
  using assms by (simp add: Call_result_def Result_Result_def Result_set_state_def)

theorem Call_outcome_witness:
  "Call_result \<lparr>hello_ser = id, hello_parse = id, world_ser = (\<lambda>v. if v = 11 then ''b'' else []), world_parse = (\<lambda>s. 11)\<rparr>
     SerWorld False (Some (Protocol_Create kResponseCall 1 ''b'')) (Some (HelloProtocol ''hello world'')) (None, None) =
   Inr \<lparr>res_base_proto = Some (HelloProtocol ''hello world''), res_target_proto = Some (WorldProtocol 11), res_state = kSuccess\<rparr>"
  using Call_outcome [of "\<lparr>hello_ser = id, hello_parse = id, world_ser = (\<lambda>v. if v = 11 then ''b'' else []), world_parse = (\<lambda>s. 11)\<rparr>"
      11 "Protocol_Create kResponseCall 1 ''b''" None "Some (HelloProtocol ''hello world'')" "(None, None)"]
  by (simp add: Protocol_Create_def Protocol_Protocol_def)

end
