(* ===== verification/Pb_Runtime.thy ===== *)
theory Pb_Runtime
  imports Prelude
begin

unbundle bit_operations_syntax

text \<open>
  What the generated message classes of \<open>include/rpc/protos/gen\<close> have in common. The protobuf library they call is
  not part of the repository: its functions are the fields of a \<open>pb_runtime\<close>, and the locale \<open>pb_wire\<close> has what its
  documentation says of them and of the wire format. A pointer into the bytes that are parsed is the list of the bytes
  from there on, or \<open>None\<close> for a null pointer; a pointer \<open>target\<close> to the output is the list of the bytes
  written so far. A string field of the library's type \<open>ArenaStringPtr\<close> is a string. The loop of \<open>_InternalParse\<close>, with the labels
  \<open>handle_unusual\<close>, \<open>message_done\<close> and \<open>failure\<close>, has the same text in all classes and is here; the classes
  differ in its \<open>switch\<close>.
\<close>

section \<open>The library\<close>

type_synonym ptr = "byte list option"

record 'u pb_runtime =
  rt_Done :: "byte list \<Rightarrow> bool \<times> ptr"
  rt_ReadTag :: "byte list \<Rightarrow> ptr \<times> uint32"
  rt_ReadVarint32 :: "byte list \<Rightarrow> ptr \<times> uint32"
  rt_InlineGreedyStringParser :: "string \<Rightarrow> byte list \<Rightarrow> ptr \<times> string"
  rt_VerifyUTF8 :: "string \<Rightarrow> bool"
  rt_UnknownFieldParse :: "uint32 \<Rightarrow> 'u \<Rightarrow> byte list \<Rightarrow> ptr \<times> 'u"
  rt_WriteUInt32ToArray :: "nat \<Rightarrow> uint32 \<Rightarrow> byte list"
  rt_WriteInt32ToArray :: "nat \<Rightarrow> uint32 \<Rightarrow> byte list"
  rt_WriteStringMaybeAliased :: "nat \<Rightarrow> string \<Rightarrow> byte list"
  rt_WriteBytesMaybeAliased :: "nat \<Rightarrow> string \<Rightarrow> byte list"
  rt_UInt32SizePlusOne :: "uint32 \<Rightarrow> uint64"
  rt_Int32SizePlusOne :: "uint32 \<Rightarrow> uint64"
  rt_StringSize :: "string \<Rightarrow> uint64"
  rt_BytesSize :: "string \<Rightarrow> uint64"
  rt_no_unknown_fields :: 'u
  rt_have_unknown_fields :: "'u \<Rightarrow> bool"
  rt_MergeUnknownFields :: "'u \<Rightarrow> 'u \<Rightarrow> 'u"
  rt_SerializeUnknownFields :: "'u \<Rightarrow> byte list"
  rt_MaybeComputeUnknownFieldsSize :: "'u \<Rightarrow> uint64 \<Rightarrow> uint64 \<times> uint32"
  rt_SerializeAsString :: "uint64 \<Rightarrow> (byte list \<Rightarrow> byte list) \<Rightarrow> string"

text \<open>The base class: the set of unknown fields and the arena that owns the object (0 is the heap).\<close>

record 'u Message =
  internal_metadata :: 'u
  owning_arena :: nat

text \<open>\<open>ParseFromString\<close> is given the methods \<open>Clear\<close> and \<open>_InternalParse\<close> of the object. Its documentation says that it parses the
  message from the bytes in place of what the object held; \<open>clears_and_parses\<close> has the effect on the object.\<close>

type_synonym 'm parse_result = "(ptr \<times> uint32 option \<times> 'm) res"

type_synonym 'm parse_driver = "('m \<Rightarrow> 'm) \<Rightarrow> (byte list \<Rightarrow> 'm \<Rightarrow> 'm parse_result) \<Rightarrow> string \<Rightarrow> 'm \<Rightarrow> (bool \<times> 'm) res"

definition clears_and_parses :: "'m parse_driver \<Rightarrow> bool" where
  "clears_and_parses pfs \<longleftrightarrow> (\<forall>clear parse s m q t m'. parse s (clear m) = Inr (q, t, m') \<longrightarrow>
     (\<exists>ok. pfs clear parse s m = Inr (ok, m') \<and> (q = None \<longrightarrow> \<not> ok)))"

section \<open>The loop of \<open>_InternalParse\<close>\<close>

text \<open>How a case of the \<open>switch\<close> ends: \<open>continue\<close>, \<open>goto failure\<close>, \<open>goto handle_unusual\<close>, or a null pointer is read.\<close>

datatype 'm case_end = Continue "byte list" 'm | Failure 'm | Unusual | ReadsNull

fun parse_loop ::
    "nat \<Rightarrow> 'u pb_runtime \<Rightarrow> (uint32 \<Rightarrow> ptr \<Rightarrow> ('u, 'z) Message_scheme \<Rightarrow> ('u, 'z) Message_scheme case_end) \<Rightarrow>
     byte list \<Rightarrow> ('u, 'z) Message_scheme \<Rightarrow> ('u, 'z) Message_scheme parse_result" where
  "parse_loop 0 rt switch p m = Inl OutOfAnswers"
| "parse_loop (Suc n) rt switch p m =
     (case rt_Done rt p of
        (True, p') \<Rightarrow> Inr (p', None, m)
      | (False, None) \<Rightarrow> Inl NullDeref
      | (False, Some p') \<Rightarrow>
          (case rt_ReadTag rt p' of (ptr, tag) \<Rightarrow>
             (case switch tag ptr m of
                Continue q m' \<Rightarrow> parse_loop n rt switch q m'
              | Failure m' \<Rightarrow> Inr (None, None, m')
              | ReadsNull \<Rightarrow> Inl NullDeref
              | Unusual \<Rightarrow>
                  if tag = 0 \<or> tag AND 7 = 4 then
                    (case ptr of None \<Rightarrow> Inr (None, None, m) | Some q \<Rightarrow> Inr (Some q, Some tag, m))
                  else
                    (case ptr of
                       None \<Rightarrow> Inl NullDeref
                     | Some q \<Rightarrow>
                         (case rt_UnknownFieldParse rt tag (internal_metadata m) q of
                            (None, u) \<Rightarrow> Inr (None, None, m\<lparr>internal_metadata := u\<rparr>)
                          | (Some q', u) \<Rightarrow> parse_loop n rt switch q' (m\<lparr>internal_metadata := u\<rparr>))))))"

text \<open>The two kinds of cases: a field of type \<open>uint32\<close> or \<open>int32\<close>, and a field of type \<open>string\<close> or \<open>bytes\<close>, whose text is checked only
  in the first of these.\<close>

definition varint_case :: "'u pb_runtime \<Rightarrow> (uint32 \<Rightarrow> 'm \<Rightarrow> 'm) \<Rightarrow> ptr \<Rightarrow> 'm \<Rightarrow> 'm case_end" where
  "varint_case rt store ptr m =
     (case ptr of
        None \<Rightarrow> ReadsNull
      | Some q \<Rightarrow>
          (case rt_ReadVarint32 rt q of
             (None, v) \<Rightarrow> Failure (store v m)
           | (Some q', v) \<Rightarrow> Continue q' (store v m)))"

definition string_case ::
    "'u pb_runtime \<Rightarrow> (string \<Rightarrow> bool) \<Rightarrow> ('m \<Rightarrow> string) \<Rightarrow> (string \<Rightarrow> 'm \<Rightarrow> 'm) \<Rightarrow> ptr \<Rightarrow> 'm \<Rightarrow> 'm case_end" where
  "string_case rt verify str store ptr m =
     (case ptr of
        None \<Rightarrow> ReadsNull
      | Some q \<Rightarrow>
          (case rt_InlineGreedyStringParser rt (str m) q of
             (None, s) \<Rightarrow> Failure (store s m)
           | (Some q', s) \<Rightarrow> if verify s then Continue q' (store s m) else Failure (store s m)))"

lemma of_char_char_of_word: "k < 256 \<Longrightarrow> (of_char (char_of (k :: nat) :: char) :: uint32) = of_nat k"
  by (metis mod_less of_char_of of_nat_of_char)

lemma nul_char_of:
  assumes "k < 256"
  shows "nul = char_of k \<longleftrightarrow> k = (0 :: nat)"
proof -
  have "nul = char_of (0 :: nat)" by (simp add: nul_def char_of_def)
  then show ?thesis using assms char_of_quasi_inj [of "0 :: nat" k] by simp
qed

section \<open>What the documentation says\<close>

text \<open>A field is written as a byte with its number and its kind (0 for integers, 2 for strings), followed by its
  contents, from which the reading function of that kind gives back the value, whatever follows. Integers take seven bits of a byte, the lowest first,
  and the last byte is the only one without the top bit: no byte of a number other than 0 is zero. The contents of a string are its length, as such a number, and its bytes. The size functions give the number of the bytes. Reading
  never runs past the end; when it fails, the pointer is null, and the tag is then 0.\<close>

locale pb_wire =
  fixes rt :: "'u pb_runtime"
  assumes Done: "rt_Done rt p = (p = [], Some p)"
    and ReadTag_byte: "0 < (of_char c :: nat) \<Longrightarrow> of_char c < (128 :: nat) \<Longrightarrow> rt_ReadTag rt (c # p) = (Some p, of_char c)"
    and ReadTag_reads: "rt_ReadTag rt p = (Some q, t) \<Longrightarrow> length q < length p"
    and ReadTag_failed: "rt_ReadTag rt p = (None, t) \<Longrightarrow> t = 0"
    and ReadVarint32_reads: "rt_ReadVarint32 rt p = (Some q, v) \<Longrightarrow> length q < length p"
    and InlineGreedyStringParser_reads: "rt_InlineGreedyStringParser rt s p = (Some q, s') \<Longrightarrow> length q < length p"
    and UnknownFieldParse_reads: "rt_UnknownFieldParse rt t u p = (Some q, u') \<Longrightarrow> length q \<le> length p"
    and WriteUInt32: "0 < n \<Longrightarrow> n < 16 \<Longrightarrow> \<exists>bs. rt_WriteUInt32ToArray rt n v = char_of (8 * n) # bs \<and> length bs \<le> 5 \<and>
      rt_UInt32SizePlusOne rt v = 1 + of_nat (length bs) \<and> (v \<noteq> 0 \<longrightarrow> nul \<notin> set bs) \<and>
      (\<forall>p. rt_ReadVarint32 rt (bs @ p) = (Some p, v))"
    and WriteInt32: "0 < n \<Longrightarrow> n < 16 \<Longrightarrow> \<exists>bs. rt_WriteInt32ToArray rt n v = char_of (8 * n) # bs \<and> length bs \<le> 10 \<and>
      rt_Int32SizePlusOne rt v = 1 + of_nat (length bs) \<and> (v \<noteq> 0 \<longrightarrow> nul \<notin> set bs) \<and>
      (\<forall>p. rt_ReadVarint32 rt (bs @ p) = (Some p, v))"
    and WriteString: "0 < n \<Longrightarrow> n < 16 \<Longrightarrow> length s < 2 ^ 31 \<Longrightarrow> \<exists>bs. rt_WriteStringMaybeAliased rt n s = char_of (8 * n + 2) # bs \<and>
      length bs \<le> 5 + length s \<and> rt_StringSize rt s = of_nat (length bs) \<and> (nul \<in> set bs \<longleftrightarrow> s = [] \<or> nul \<in> set s) \<and>
      (\<forall>old p. rt_InlineGreedyStringParser rt old (bs @ p) = (Some p, s))"
    and WriteBytes: "0 < n \<Longrightarrow> n < 16 \<Longrightarrow> length s < 2 ^ 31 \<Longrightarrow> \<exists>bs. rt_WriteBytesMaybeAliased rt n s = char_of (8 * n + 2) # bs \<and>
      length bs \<le> 5 + length s \<and> rt_BytesSize rt s = of_nat (length bs) \<and> (nul \<in> set bs \<longleftrightarrow> s = [] \<or> nul \<in> set s) \<and>
      (\<forall>old p. rt_InlineGreedyStringParser rt old (bs @ p) = (Some p, s))"
    and no_unknown_fields: "\<not> rt_have_unknown_fields rt (rt_no_unknown_fields rt)"
    and MergeUnknownFields_none: "\<not> rt_have_unknown_fields rt u' \<Longrightarrow> rt_MergeUnknownFields rt u u' = u"
    and MaybeComputeUnknownFieldsSize: "fst (rt_MaybeComputeUnknownFieldsSize rt u sz) =
      sz + (if rt_have_unknown_fields rt u then of_nat (length (rt_SerializeUnknownFields rt u)) else 0)"
    and SerializeAsString: "length (f []) < 2 ^ 31 \<Longrightarrow> rt_SerializeAsString rt (of_nat (length (f []))) f = f []"
begin

text \<open>Every input is parsed in as many turns as it has bytes, whatever the \<open>switch\<close> does with the fields it knows, if it reads on
  and leaves a tag of 0 alone.\<close>

lemma parse_loop_returns:
  assumes "\<And>t q m. switch t (Some q) m \<noteq> ReadsNull" "\<And>t q m q' m'. switch t (Some q) m = Continue q' m' \<Longrightarrow> length q' \<le> length q"
    and "\<And>m. switch 0 None m = Unusual" "length p < n"
  shows "\<exists>r. parse_loop n rt switch p m = Inr r"
  using assms(4)
proof (induction n arbitrary: p m)
  case (Suc n)
  obtain ptr tag where t: "rt_ReadTag rt p = (ptr, tag)" by fastforce
  show ?case
  proof (cases ptr)
    case None
    then show ?thesis using t ReadTag_failed [of p tag] assms(3) by (cases "p = []") (simp_all add: Done)
  next
    case (Some q)
    with t have "length q < length p" using ReadTag_reads [of p q tag] by simp
    then have q: "length q < n" "(p = []) = False" using Suc.prems by auto
    show ?thesis
    proof (cases "switch tag (Some q) m")
      case (Continue q' m')
      then show ?thesis using t Some q assms(2) [OF Continue] Suc.IH [of q' m'] by (simp add: Done)
    next
      case Unusual
      obtain p' u where "rt_UnknownFieldParse rt tag (internal_metadata m) q = (p', u)" by fastforce
      then show ?thesis
        using t Some q Unusual UnknownFieldParse_reads [of tag "internal_metadata m" q _ u]
          Suc.IH [of "the p'" "m\<lparr>internal_metadata := u\<rparr>"]
        by (cases p') (auto simp: Done)
    qed (use t Some q assms(1) in \<open>auto simp: Done\<close>)
  qed
qed simp

lemma varint_case_reads: "varint_case rt st (Some q) m = Continue q' m' \<Longrightarrow> length q' \<le> length q"
  using ReadVarint32_reads [of q q'] by (fastforce simp: varint_case_def split: prod.splits option.splits)

lemma string_case_reads: "string_case rt vf str st (Some q) m = Continue q' m' \<Longrightarrow> length q' \<le> length q"
  using InlineGreedyStringParser_reads [of "str m" q q'] by (fastforce simp: string_case_def split: prod.splits option.splits if_splits)

text \<open>A turn of the loop for each kind of field, as the library writes it.\<close>

lemma loop_tag:
  assumes "0 < t" "t < (128 :: nat)"
  shows "parse_loop (Suc k) rt switch (char_of t # p) m =
    (case switch (of_nat t) (Some p) m of
       Continue q m' \<Rightarrow> parse_loop k rt switch q m'
     | Failure m' \<Rightarrow> Inr (None, None, m')
     | ReadsNull \<Rightarrow> Inl NullDeref
     | Unusual \<Rightarrow> parse_loop (Suc k) rt switch (char_of t # p) m)"
proof -
  have "(of_char (char_of t :: char) :: nat) = t" "(of_char (char_of t :: char) :: uint32) = of_nat t"
    using assms by (simp_all add: of_char_char_of_word)
  then show ?thesis using assms ReadTag_byte [of "char_of t" p] by (auto simp: Done split: case_end.splits)
qed

lemma loop_uint32:
  assumes "0 < n" "n < 16" "\<And>q. switch (of_nat (8 * n)) (Some q) m = varint_case rt store (Some q) m"
  shows "parse_loop (Suc k) rt switch (rt_WriteUInt32ToArray rt n v @ p) m = parse_loop k rt switch p (store v m)"
proof -
  obtain bs where "rt_WriteUInt32ToArray rt n v = char_of (8 * n) # bs" "\<And>p. rt_ReadVarint32 rt (bs @ p) = (Some p, v)"
    using WriteUInt32 [of n v] assms(1,2) by auto
  then show ?thesis using assms loop_tag [of "8 * n" k switch "bs @ p" m] by (simp add: varint_case_def)
qed

lemma loop_int32:
  assumes "0 < n" "n < 16" "\<And>q. switch (of_nat (8 * n)) (Some q) m = varint_case rt store (Some q) m"
  shows "parse_loop (Suc k) rt switch (rt_WriteInt32ToArray rt n v @ p) m = parse_loop k rt switch p (store v m)"
proof -
  obtain bs where "rt_WriteInt32ToArray rt n v = char_of (8 * n) # bs" "\<And>p. rt_ReadVarint32 rt (bs @ p) = (Some p, v)"
    using WriteInt32 [of n v] assms(1,2) by auto
  then show ?thesis using assms loop_tag [of "8 * n" k switch "bs @ p" m] by (simp add: varint_case_def)
qed

lemma loop_string:
  assumes "0 < n" "n < 16" "\<And>q. switch (of_nat (8 * n + 2)) (Some q) m = string_case rt verify str store (Some q) m"
    and "length s < 2 ^ 31"
  shows "parse_loop (Suc k) rt switch (rt_WriteStringMaybeAliased rt n s @ p) m =
    (if verify s then parse_loop k rt switch p (store s m) else Inr (None, None, store s m))"
proof -
  obtain bs where "rt_WriteStringMaybeAliased rt n s = char_of (8 * n + 2) # bs"
      "\<And>old p. rt_InlineGreedyStringParser rt old (bs @ p) = (Some p, s)"
    using WriteString [of n s] assms(1,2,4) by auto
  then show ?thesis using assms(1-3) loop_tag [of "8 * n + 2" k switch "bs @ p" m] by (simp add: string_case_def)
qed

lemma loop_bytes:
  assumes "0 < n" "n < 16" "\<And>q. switch (of_nat (8 * n + 2)) (Some q) m = string_case rt (\<lambda>_. True) str store (Some q) m"
    and "length s < 2 ^ 31"
  shows "parse_loop (Suc k) rt switch (rt_WriteBytesMaybeAliased rt n s @ p) m = parse_loop k rt switch p (store s m)"
proof -
  obtain bs where "rt_WriteBytesMaybeAliased rt n s = char_of (8 * n + 2) # bs"
      "\<And>old p. rt_InlineGreedyStringParser rt old (bs @ p) = (Some p, s)"
    using WriteBytes [of n s] assms(1,2,4) by auto
  then show ?thesis using assms(1-3) loop_tag [of "8 * n + 2" k switch "bs @ p" m] by (simp add: string_case_def)
qed

text \<open>The size of a field, and where its bytes can be zero.\<close>

lemma uint32_field:
  assumes "0 < n" "n < 16"
  shows "of_nat (length (rt_WriteUInt32ToArray rt n v)) = rt_UInt32SizePlusOne rt v"
    "length (rt_WriteUInt32ToArray rt n v) \<le> 6" "0 < length (rt_WriteUInt32ToArray rt n v)"
    "v \<noteq> 0 \<Longrightarrow> nul \<notin> set (rt_WriteUInt32ToArray rt n v)"
  using WriteUInt32 [of n v] assms by (auto simp: nul_char_of)

lemma int32_field:
  assumes "0 < n" "n < 16"
  shows "of_nat (length (rt_WriteInt32ToArray rt n v)) = rt_Int32SizePlusOne rt v"
    "length (rt_WriteInt32ToArray rt n v) \<le> 11" "0 < length (rt_WriteInt32ToArray rt n v)"
    "v \<noteq> 0 \<Longrightarrow> nul \<notin> set (rt_WriteInt32ToArray rt n v)"
  using WriteInt32 [of n v] assms by (auto simp: nul_char_of)

lemma string_field:
  assumes "0 < n" "n < 16" "length s < 2 ^ 31"
  shows "of_nat (length (rt_WriteStringMaybeAliased rt n s)) = 1 + rt_StringSize rt s"
    "length (rt_WriteStringMaybeAliased rt n s) \<le> 6 + length s" "0 < length (rt_WriteStringMaybeAliased rt n s)"
    "nul \<in> set (rt_WriteStringMaybeAliased rt n s) \<longleftrightarrow> s = [] \<or> nul \<in> set s"
  using WriteString [of n s] assms by (auto simp: nul_char_of)

lemma bytes_field:
  assumes "0 < n" "n < 16" "length s < 2 ^ 31"
  shows "of_nat (length (rt_WriteBytesMaybeAliased rt n s)) = 1 + rt_BytesSize rt s"
    "length (rt_WriteBytesMaybeAliased rt n s) \<le> 6 + length s" "0 < length (rt_WriteBytesMaybeAliased rt n s)"
    "nul \<in> set (rt_WriteBytesMaybeAliased rt n s) \<longleftrightarrow> s = [] \<or> nul \<in> set s"
  using WriteBytes [of n s] assms by (auto simp: nul_char_of)

end

lemma case_not_null [simp]:
  "varint_case rt st (Some q) m \<noteq> ReadsNull" "string_case rt vf str st' (Some q) m \<noteq> ReadsNull"
  by (auto simp: varint_case_def string_case_def split: prod.splits option.splits)

section \<open>What a generated class promises\<close>

text \<open>A class writes a message as a number of fields, and its loop, one turn for each of them, merges them into the object it parses into.\<close>

locale pb_message =
  fixes parse :: "nat \<Rightarrow> byte list \<Rightarrow> 'm \<Rightarrow> 'm parse_result" and ser :: "'m \<Rightarrow> byte list" and fields :: "'m \<Rightarrow> nat"
    and merge :: "'m \<Rightarrow> 'm \<Rightarrow> 'm" and known :: "'m \<Rightarrow> bool"
  assumes parse_fields: "known a \<Longrightarrow> parse (fields a + n) (ser a @ p) m = parse n p (merge m a)"
    and few_fields: "known a \<Longrightarrow> fields a \<le> length (ser a)"
    and parse_end: "parse (Suc n) [] m = Inr (Some [], None, m)"
begin

lemma parse_messages:
  assumes "\<forall>a \<in> set as. known a" "length (concat (map ser as)) < n"
  shows "parse n (concat (map ser as)) m = Inr (Some [], None, foldl merge m as)"
  using assms
proof (induction as arbitrary: n m)
  case Nil
  then show ?case using parse_end [of "n - 1"] by simp
next
  case (Cons a as)
  let ?rest = "concat (map ser as)"
  have f: "fields a \<le> length (ser a)" "known a" using few_fields Cons.prems by auto
  then obtain k where n: "n = fields a + k" "length ?rest < k"
    using Cons.prems(2) le_Suc_ex [of "fields a" n] by auto
  then show ?case using Cons.IH [of k "merge m a"] Cons.prems parse_fields [OF f(2), of k ?rest m] by simp
qed

lemma parse_message: "known a \<Longrightarrow> length (ser a) < n \<Longrightarrow> parse n (ser a) m = Inr (Some [], None, merge m a)"
  using parse_messages [of "[a]"] by simp

end

end
