(* ===== verification/Pb_Messages.thy ===== *)
theory Pb_Messages
  imports Pb_Runtime
begin

unbundle bit_operations_syntax

text \<open>
  The three generated message classes of \<open>include/rpc/protos/gen\<close>: \<open>BaseProtocolBuf\<close> (\<open>base.pb.h\<close>, \<open>base.pb.cc\<close>), the envelope of
  every remote call, and its payloads \<open>HelloProtocolBuf\<close> (\<open>hello.pb\<close>) and \<open>WorldProtocolBuf\<close> (\<open>world.pb\<close>). An object is
  a value; operations on two objects are modelled for different ones, and for one object where the code
  tells them apart. The descriptors and the reflection of the library are not modelled, nor the branches for
  \<open>PROTOBUF_FORCE_COPY_DEFAULT_STRING\<close> and its like, which are off. Checks of the text of a string
  when it is written only report to the log.
\<close>

section \<open>The envelope\<close>

record 'u BaseProtocolBuf_Impl = "'u Message" +
  i_has_bits :: uint32
  i_cached_size :: uint32
  i_srv_name :: string
  i_data :: string
  i_magic :: uint32
  i_version :: uint32
  i_type :: uint32
  i_req_id :: uint32
  i_data_len :: uint32

definition BaseProtocolBuf_SharedCtor :: "'u pb_runtime \<Rightarrow> nat \<Rightarrow> 'u BaseProtocolBuf_Impl" where
  [model_defs]: "BaseProtocolBuf_SharedCtor rt arena =
     \<lparr>internal_metadata = rt_no_unknown_fields rt, owning_arena = arena, i_has_bits = 0, i_cached_size = 0, i_srv_name = [], i_data = [],
      i_magic = 0, i_version = 0, i_type = 0, i_req_id = 0, i_data_len = 0\<rparr>"

subsection \<open>Accessors\<close>

definition BaseProtocolBuf_magic :: "'u BaseProtocolBuf_Impl \<Rightarrow> uint32" where
  [model_defs, simp]: "BaseProtocolBuf_magic m = i_magic m"
definition BaseProtocolBuf_version :: "'u BaseProtocolBuf_Impl \<Rightarrow> uint32" where
  [model_defs, simp]: "BaseProtocolBuf_version m = i_version m"
definition BaseProtocolBuf_type :: "'u BaseProtocolBuf_Impl \<Rightarrow> uint32" where
  [model_defs, simp]: "BaseProtocolBuf_type m = i_type m"
definition BaseProtocolBuf_req_id :: "'u BaseProtocolBuf_Impl \<Rightarrow> uint32" where
  [model_defs, simp]: "BaseProtocolBuf_req_id m = i_req_id m"
definition BaseProtocolBuf_data_len :: "'u BaseProtocolBuf_Impl \<Rightarrow> uint32" where
  [model_defs, simp]: "BaseProtocolBuf_data_len m = i_data_len m"
definition BaseProtocolBuf_srv_name :: "'u BaseProtocolBuf_Impl \<Rightarrow> string" where
  [model_defs, simp]: "BaseProtocolBuf_srv_name m = i_srv_name m"
definition BaseProtocolBuf_data :: "'u BaseProtocolBuf_Impl \<Rightarrow> string" where
  [model_defs, simp]: "BaseProtocolBuf_data m = i_data m"

definition BaseProtocolBuf_clear_magic :: "'u BaseProtocolBuf_Impl \<Rightarrow> 'u BaseProtocolBuf_Impl" where
  [model_defs]: "BaseProtocolBuf_clear_magic m = m\<lparr>i_magic := 0\<rparr>"
definition BaseProtocolBuf_set_magic :: "uint32 \<Rightarrow> 'u BaseProtocolBuf_Impl \<Rightarrow> 'u BaseProtocolBuf_Impl" where
  [model_defs]: "BaseProtocolBuf_set_magic v m = m\<lparr>i_magic := v\<rparr>"
definition BaseProtocolBuf_clear_version :: "'u BaseProtocolBuf_Impl \<Rightarrow> 'u BaseProtocolBuf_Impl" where
  [model_defs]: "BaseProtocolBuf_clear_version m = m\<lparr>i_version := 0\<rparr>"
definition BaseProtocolBuf_set_version :: "uint32 \<Rightarrow> 'u BaseProtocolBuf_Impl \<Rightarrow> 'u BaseProtocolBuf_Impl" where
  [model_defs]: "BaseProtocolBuf_set_version v m = m\<lparr>i_version := v\<rparr>"
definition BaseProtocolBuf_clear_type :: "'u BaseProtocolBuf_Impl \<Rightarrow> 'u BaseProtocolBuf_Impl" where
  [model_defs]: "BaseProtocolBuf_clear_type m = m\<lparr>i_type := 0\<rparr>"
definition BaseProtocolBuf_set_type :: "uint32 \<Rightarrow> 'u BaseProtocolBuf_Impl \<Rightarrow> 'u BaseProtocolBuf_Impl" where
  [model_defs]: "BaseProtocolBuf_set_type v m = m\<lparr>i_type := v\<rparr>"
definition BaseProtocolBuf_clear_req_id :: "'u BaseProtocolBuf_Impl \<Rightarrow> 'u BaseProtocolBuf_Impl" where
  [model_defs]: "BaseProtocolBuf_clear_req_id m = m\<lparr>i_req_id := 0\<rparr>"
definition BaseProtocolBuf_set_req_id :: "uint32 \<Rightarrow> 'u BaseProtocolBuf_Impl \<Rightarrow> 'u BaseProtocolBuf_Impl" where
  [model_defs]: "BaseProtocolBuf_set_req_id v m = m\<lparr>i_req_id := v\<rparr>"
definition BaseProtocolBuf_clear_data_len :: "'u BaseProtocolBuf_Impl \<Rightarrow> 'u BaseProtocolBuf_Impl" where
  [model_defs]: "BaseProtocolBuf_clear_data_len m = m\<lparr>i_data_len := 0\<rparr>"
definition BaseProtocolBuf_set_data_len :: "uint32 \<Rightarrow> 'u BaseProtocolBuf_Impl \<Rightarrow> 'u BaseProtocolBuf_Impl" where
  [model_defs]: "BaseProtocolBuf_set_data_len v m = m\<lparr>i_data_len := v\<rparr>"

definition BaseProtocolBuf_has_srv_name :: "'u BaseProtocolBuf_Impl \<Rightarrow> bool" where
  "BaseProtocolBuf_has_srv_name m \<longleftrightarrow> i_has_bits m AND 1 \<noteq> 0"

definition BaseProtocolBuf_clear_srv_name :: "'u BaseProtocolBuf_Impl \<Rightarrow> 'u BaseProtocolBuf_Impl" where
  [model_defs]: "BaseProtocolBuf_clear_srv_name m = m\<lparr>i_srv_name := [], i_has_bits := i_has_bits m AND NOT 1\<rparr>"

definition BaseProtocolBuf_set_srv_name :: "string \<Rightarrow> 'u BaseProtocolBuf_Impl \<Rightarrow> 'u BaseProtocolBuf_Impl" where
  [model_defs]: "BaseProtocolBuf_set_srv_name s m = m\<lparr>i_has_bits := i_has_bits m OR 1, i_srv_name := s\<rparr>"

text \<open>A pointer to the string of a field is what the caller does to the string.\<close>

definition BaseProtocolBuf_mutable_srv_name :: "(string \<Rightarrow> string) \<Rightarrow> 'u BaseProtocolBuf_Impl \<Rightarrow> 'u BaseProtocolBuf_Impl" where
  [model_defs]: "BaseProtocolBuf_mutable_srv_name f m = m\<lparr>i_has_bits := i_has_bits m OR 1, i_srv_name := f (i_srv_name m)\<rparr>"

definition BaseProtocolBuf_release_srv_name :: "'u BaseProtocolBuf_Impl \<Rightarrow> string option \<times> 'u BaseProtocolBuf_Impl" where
  [model_defs]: "BaseProtocolBuf_release_srv_name m =
     (if \<not> BaseProtocolBuf_has_srv_name m then (None, m)
      else (Some (i_srv_name m), m\<lparr>i_has_bits := i_has_bits m AND NOT 1, i_srv_name := []\<rparr>))"

definition BaseProtocolBuf_set_allocated_srv_name :: "string option \<Rightarrow> 'u BaseProtocolBuf_Impl \<Rightarrow> 'u BaseProtocolBuf_Impl" where
  [model_defs]: "BaseProtocolBuf_set_allocated_srv_name s m =
     (case s of
        Some t \<Rightarrow> m\<lparr>i_has_bits := i_has_bits m OR 1, i_srv_name := t\<rparr>
      | None \<Rightarrow> m\<lparr>i_has_bits := i_has_bits m AND NOT 1, i_srv_name := []\<rparr>)"

definition BaseProtocolBuf_clear_data :: "'u BaseProtocolBuf_Impl \<Rightarrow> 'u BaseProtocolBuf_Impl" where
  [model_defs]: "BaseProtocolBuf_clear_data m = m\<lparr>i_data := []\<rparr>"

definition BaseProtocolBuf_set_data :: "string \<Rightarrow> 'u BaseProtocolBuf_Impl \<Rightarrow> 'u BaseProtocolBuf_Impl" where
  [model_defs]: "BaseProtocolBuf_set_data s m = m\<lparr>i_data := s\<rparr>"

definition BaseProtocolBuf_mutable_data :: "(string \<Rightarrow> string) \<Rightarrow> 'u BaseProtocolBuf_Impl \<Rightarrow> 'u BaseProtocolBuf_Impl" where
  [model_defs]: "BaseProtocolBuf_mutable_data f m = m\<lparr>i_data := f (i_data m)\<rparr>"

definition BaseProtocolBuf_release_data :: "'u BaseProtocolBuf_Impl \<Rightarrow> string \<times> 'u BaseProtocolBuf_Impl" where
  [model_defs]: "BaseProtocolBuf_release_data m = (i_data m, m\<lparr>i_data := []\<rparr>)"

definition BaseProtocolBuf_set_allocated_data :: "string option \<Rightarrow> 'u BaseProtocolBuf_Impl \<Rightarrow> 'u BaseProtocolBuf_Impl" where
  [model_defs]: "BaseProtocolBuf_set_allocated_data s m = m\<lparr>i_data := (case s of Some t \<Rightarrow> t | None \<Rightarrow> [])\<rparr>"

subsection \<open>Whole messages\<close>

definition BaseProtocolBuf_Clear :: "'u pb_runtime \<Rightarrow> 'u BaseProtocolBuf_Impl \<Rightarrow> 'u BaseProtocolBuf_Impl" where
  [model_defs]: "BaseProtocolBuf_Clear rt m =
     (let m = (if i_has_bits m AND 1 \<noteq> 0 then m\<lparr>i_srv_name := []\<rparr> else m) in
      m\<lparr>i_data := [], i_magic := 0, i_version := 0, i_type := 0, i_req_id := 0, i_data_len := 0, i_has_bits := 0,
        internal_metadata := rt_no_unknown_fields rt\<rparr>)"

definition BaseProtocolBuf_switch ::
    "'u pb_runtime \<Rightarrow> uint32 \<Rightarrow> ptr \<Rightarrow> 'u BaseProtocolBuf_Impl \<Rightarrow> 'u BaseProtocolBuf_Impl case_end" where
  [model_defs]: "BaseProtocolBuf_switch rt tag ptr m =
     (let field = drop_bit 3 tag; low = (ucast tag :: uint8) in
      if field = 1 then (if low = 8 then varint_case rt (\<lambda>v m. m\<lparr>i_magic := v\<rparr>) ptr m else Unusual)
      else if field = 2 then (if low = 16 then varint_case rt (\<lambda>v m. m\<lparr>i_version := v\<rparr>) ptr m else Unusual)
      else if field = 3 then (if low = 24 then varint_case rt (\<lambda>v m. m\<lparr>i_type := v\<rparr>) ptr m else Unusual)
      else if field = 4 then (if low = 32 then varint_case rt (\<lambda>v m. m\<lparr>i_req_id := v\<rparr>) ptr m else Unusual)
      else if field = 5 then (if low = 40 then varint_case rt (\<lambda>v m. m\<lparr>i_data_len := v\<rparr>) ptr m else Unusual)
      else if field = 6 then
        (if low = 50 then
           string_case rt (rt_VerifyUTF8 rt) i_srv_name (\<lambda>s. BaseProtocolBuf_mutable_srv_name (\<lambda>_. s)) ptr m
         else Unusual)
      else if field = 7 then
        (if low = 58 then string_case rt (\<lambda>_. True) i_data (\<lambda>s. BaseProtocolBuf_mutable_data (\<lambda>_. s)) ptr m else Unusual)
      else Unusual)"

text \<open>The local \<open>has_bits\<close> of the function stays 0.\<close>

definition BaseProtocolBuf_InternalParse ::
    "nat \<Rightarrow> 'u pb_runtime \<Rightarrow> byte list \<Rightarrow> 'u BaseProtocolBuf_Impl \<Rightarrow> 'u BaseProtocolBuf_Impl parse_result" where
  [model_defs]: "BaseProtocolBuf_InternalParse n rt p m =
     res_bind (parse_loop n rt (BaseProtocolBuf_switch rt) p m)
       (\<lambda>(ptr, last_tag, m'). Inr (ptr, last_tag, m'\<lparr>i_has_bits := i_has_bits m' OR 0\<rparr>))"

definition BaseProtocolBuf_InternalSerialize :: "'u pb_runtime \<Rightarrow> 'u BaseProtocolBuf_Impl \<Rightarrow> byte list \<Rightarrow> byte list" where
  [model_defs]: "BaseProtocolBuf_InternalSerialize rt m target =
     (let target = (if i_magic m \<noteq> 0 then target @ rt_WriteUInt32ToArray rt 1 (i_magic m) else target);
          target = (if i_version m \<noteq> 0 then target @ rt_WriteUInt32ToArray rt 2 (i_version m) else target);
          target = (if i_type m \<noteq> 0 then target @ rt_WriteUInt32ToArray rt 3 (i_type m) else target);
          target = (if i_req_id m \<noteq> 0 then target @ rt_WriteUInt32ToArray rt 4 (i_req_id m) else target);
          target = (if i_data_len m \<noteq> 0 then target @ rt_WriteUInt32ToArray rt 5 (i_data_len m) else target);
          target = (if BaseProtocolBuf_has_srv_name m then target @ rt_WriteStringMaybeAliased rt 6 (i_srv_name m) else target);
          target = (if i_data m \<noteq> [] then target @ rt_WriteBytesMaybeAliased rt 7 (i_data m) else target)
      in if rt_have_unknown_fields rt (internal_metadata m) then target @ rt_SerializeUnknownFields rt (internal_metadata m)
         else target)"

definition BaseProtocolBuf_ByteSizeLong :: "'u pb_runtime \<Rightarrow> 'u BaseProtocolBuf_Impl \<Rightarrow> uint64 \<times> 'u BaseProtocolBuf_Impl" where
  [model_defs]: "BaseProtocolBuf_ByteSizeLong rt m =
     (let total_size = 0;
          total_size = (if i_has_bits m AND 1 \<noteq> 0 then total_size + (1 + rt_StringSize rt (i_srv_name m)) else total_size);
          total_size = (if i_data m \<noteq> [] then total_size + (1 + rt_BytesSize rt (i_data m)) else total_size);
          total_size = (if i_magic m \<noteq> 0 then total_size + rt_UInt32SizePlusOne rt (i_magic m) else total_size);
          total_size = (if i_version m \<noteq> 0 then total_size + rt_UInt32SizePlusOne rt (i_version m) else total_size);
          total_size = (if i_type m \<noteq> 0 then total_size + rt_UInt32SizePlusOne rt (i_type m) else total_size);
          total_size = (if i_req_id m \<noteq> 0 then total_size + rt_UInt32SizePlusOne rt (i_req_id m) else total_size);
          total_size = (if i_data_len m \<noteq> 0 then total_size + rt_UInt32SizePlusOne rt (i_data_len m) else total_size);
          (size, cached) = rt_MaybeComputeUnknownFieldsSize rt (internal_metadata m) total_size
      in (size, m\<lparr>i_cached_size := cached\<rparr>))"

definition BaseProtocolBuf_SetCachedSize :: "uint32 \<Rightarrow> 'u BaseProtocolBuf_Impl \<Rightarrow> 'u BaseProtocolBuf_Impl" where
  [model_defs]: "BaseProtocolBuf_SetCachedSize sz m = m\<lparr>i_cached_size := sz\<rparr>"

definition BaseProtocolBuf_MergeFrom ::
    "'u pb_runtime \<Rightarrow> 'u BaseProtocolBuf_Impl \<Rightarrow> 'u BaseProtocolBuf_Impl \<Rightarrow> 'u BaseProtocolBuf_Impl" where
  [model_defs]: "BaseProtocolBuf_MergeFrom rt m from =
     (let m = (if BaseProtocolBuf_has_srv_name from then BaseProtocolBuf_set_srv_name (i_srv_name from) m else m);
          m = (if i_data from \<noteq> [] then BaseProtocolBuf_set_data (i_data from) m else m);
          m = (if i_magic from \<noteq> 0 then BaseProtocolBuf_set_magic (i_magic from) m else m);
          m = (if i_version from \<noteq> 0 then BaseProtocolBuf_set_version (i_version from) m else m);
          m = (if i_type from \<noteq> 0 then BaseProtocolBuf_set_type (i_type from) m else m);
          m = (if i_req_id from \<noteq> 0 then BaseProtocolBuf_set_req_id (i_req_id from) m else m);
          m = (if i_data_len from \<noteq> 0 then BaseProtocolBuf_set_data_len (i_data_len from) m else m)
      in m\<lparr>internal_metadata := rt_MergeUnknownFields rt (internal_metadata m) (internal_metadata from)\<rparr>)"

definition BaseProtocolBuf_CopyFrom ::
    "'u pb_runtime \<Rightarrow> 'u BaseProtocolBuf_Impl \<Rightarrow> 'u BaseProtocolBuf_Impl \<Rightarrow> 'u BaseProtocolBuf_Impl" where
  [model_defs]: "BaseProtocolBuf_CopyFrom rt m from = BaseProtocolBuf_MergeFrom rt (BaseProtocolBuf_Clear rt m) from"

definition BaseProtocolBuf_copy :: "'u pb_runtime \<Rightarrow> 'u BaseProtocolBuf_Impl \<Rightarrow> 'u BaseProtocolBuf_Impl" where
  [model_defs]: "BaseProtocolBuf_copy rt from =
     \<lparr>internal_metadata = rt_MergeUnknownFields rt (rt_no_unknown_fields rt) (internal_metadata from), owning_arena = 0,
      i_has_bits = i_has_bits from, i_cached_size = 0,
      i_srv_name = (if BaseProtocolBuf_has_srv_name from then i_srv_name from else []),
      i_data = (if i_data from \<noteq> [] then i_data from else []),
      i_magic = i_magic from, i_version = i_version from, i_type = i_type from, i_req_id = i_req_id from, i_data_len = i_data_len from\<rparr>"

definition BaseProtocolBuf_InternalSwap ::
    "'u BaseProtocolBuf_Impl \<Rightarrow> 'u BaseProtocolBuf_Impl \<Rightarrow> 'u BaseProtocolBuf_Impl \<times> 'u BaseProtocolBuf_Impl" where
  [model_defs]: "BaseProtocolBuf_InternalSwap m other =
     (m\<lparr>internal_metadata := internal_metadata other, i_has_bits := i_has_bits other, i_srv_name := i_srv_name other, i_data := i_data other,
        i_magic := i_magic other, i_version := i_version other, i_type := i_type other, i_req_id := i_req_id other,
        i_data_len := i_data_len other\<rparr>,
      other\<lparr>internal_metadata := internal_metadata m, i_has_bits := i_has_bits m, i_srv_name := i_srv_name m, i_data := i_data m,
        i_magic := i_magic m, i_version := i_version m, i_type := i_type m, i_req_id := i_req_id m, i_data_len := i_data_len m\<rparr>)"

text \<open>\<open>GenericSwap\<close> is a function of the library. In a move assignment the object that is moved from keeps a value.\<close>

definition BaseProtocolBuf_Swap ::
    "('u BaseProtocolBuf_Impl \<Rightarrow> 'u BaseProtocolBuf_Impl \<Rightarrow> 'u BaseProtocolBuf_Impl \<times> 'u BaseProtocolBuf_Impl) \<Rightarrow>
     'u BaseProtocolBuf_Impl \<Rightarrow> 'u BaseProtocolBuf_Impl \<Rightarrow> 'u BaseProtocolBuf_Impl \<times> 'u BaseProtocolBuf_Impl" where
  [model_defs]: "BaseProtocolBuf_Swap GenericSwap m other =
     (if owning_arena m = owning_arena other then BaseProtocolBuf_InternalSwap m other else GenericSwap m other)"

definition BaseProtocolBuf_move_assign ::
    "'u pb_runtime \<Rightarrow> 'u BaseProtocolBuf_Impl \<Rightarrow> 'u BaseProtocolBuf_Impl \<Rightarrow> 'u BaseProtocolBuf_Impl \<times> 'u BaseProtocolBuf_Impl" where
  [model_defs]: "BaseProtocolBuf_move_assign rt m from =
     (if owning_arena m = owning_arena from then BaseProtocolBuf_InternalSwap m from
      else (BaseProtocolBuf_CopyFrom rt m from, from))"

definition BaseProtocolBuf_move :: "'u pb_runtime \<Rightarrow> 'u BaseProtocolBuf_Impl \<Rightarrow> 'u BaseProtocolBuf_Impl \<times> 'u BaseProtocolBuf_Impl" where
  "BaseProtocolBuf_move rt from = BaseProtocolBuf_move_assign rt (BaseProtocolBuf_SharedCtor rt 0) from"

text \<open>The calls that the library makes for \<open>SerializeAsString\<close> and \<open>ParseFromString\<close>. A turn of the loop takes at least
  one byte: the turns suffice.\<close>

definition BaseProtocolBuf_SerializeAsString :: "'u pb_runtime \<Rightarrow> 'u BaseProtocolBuf_Impl \<Rightarrow> string" where
  "BaseProtocolBuf_SerializeAsString rt m =
     rt_SerializeAsString rt (fst (BaseProtocolBuf_ByteSizeLong rt m)) (BaseProtocolBuf_InternalSerialize rt m)"

definition BaseProtocolBuf_ParseFromString ::
    "'u pb_runtime \<Rightarrow> 'u BaseProtocolBuf_Impl parse_driver \<Rightarrow> string \<Rightarrow> 'u BaseProtocolBuf_Impl \<Rightarrow> (bool \<times> 'u BaseProtocolBuf_Impl) res" where
  "BaseProtocolBuf_ParseFromString rt pfs s m =
     pfs (BaseProtocolBuf_Clear rt) (BaseProtocolBuf_InternalParse (Suc (length s)) rt) s m"

section \<open>The payload of a request\<close>

record 'u HelloProtocolBuf_Impl = "'u Message" +
  i_name :: string
  i_hello_cached_size :: uint32

definition HelloProtocolBuf_SharedCtor :: "'u pb_runtime \<Rightarrow> nat \<Rightarrow> 'u HelloProtocolBuf_Impl" where
  [model_defs]: "HelloProtocolBuf_SharedCtor rt arena =
     \<lparr>internal_metadata = rt_no_unknown_fields rt, owning_arena = arena, i_name = [], i_hello_cached_size = 0\<rparr>"

definition HelloProtocolBuf_name :: "'u HelloProtocolBuf_Impl \<Rightarrow> string" where
  [model_defs, simp]: "HelloProtocolBuf_name m = i_name m"

definition HelloProtocolBuf_clear_name :: "'u HelloProtocolBuf_Impl \<Rightarrow> 'u HelloProtocolBuf_Impl" where
  [model_defs]: "HelloProtocolBuf_clear_name m = m\<lparr>i_name := []\<rparr>"

definition HelloProtocolBuf_set_name :: "string \<Rightarrow> 'u HelloProtocolBuf_Impl \<Rightarrow> 'u HelloProtocolBuf_Impl" where
  [model_defs]: "HelloProtocolBuf_set_name s m = m\<lparr>i_name := s\<rparr>"

definition HelloProtocolBuf_mutable_name :: "(string \<Rightarrow> string) \<Rightarrow> 'u HelloProtocolBuf_Impl \<Rightarrow> 'u HelloProtocolBuf_Impl" where
  [model_defs]: "HelloProtocolBuf_mutable_name f m = m\<lparr>i_name := f (i_name m)\<rparr>"

definition HelloProtocolBuf_release_name :: "'u HelloProtocolBuf_Impl \<Rightarrow> string \<times> 'u HelloProtocolBuf_Impl" where
  [model_defs]: "HelloProtocolBuf_release_name m = (i_name m, m\<lparr>i_name := []\<rparr>)"

definition HelloProtocolBuf_set_allocated_name :: "string option \<Rightarrow> 'u HelloProtocolBuf_Impl \<Rightarrow> 'u HelloProtocolBuf_Impl" where
  [model_defs]: "HelloProtocolBuf_set_allocated_name s m = m\<lparr>i_name := (case s of Some t \<Rightarrow> t | None \<Rightarrow> [])\<rparr>"

definition HelloProtocolBuf_Clear :: "'u pb_runtime \<Rightarrow> 'u HelloProtocolBuf_Impl \<Rightarrow> 'u HelloProtocolBuf_Impl" where
  [model_defs]: "HelloProtocolBuf_Clear rt m = m\<lparr>i_name := [], internal_metadata := rt_no_unknown_fields rt\<rparr>"

definition HelloProtocolBuf_switch ::
    "'u pb_runtime \<Rightarrow> uint32 \<Rightarrow> ptr \<Rightarrow> 'u HelloProtocolBuf_Impl \<Rightarrow> 'u HelloProtocolBuf_Impl case_end" where
  [model_defs]: "HelloProtocolBuf_switch rt tag ptr m =
     (if drop_bit 3 tag = 1 then
        (if (ucast tag :: uint8) = 10 then
           string_case rt (rt_VerifyUTF8 rt) i_name (\<lambda>s. HelloProtocolBuf_mutable_name (\<lambda>_. s)) ptr m
         else Unusual)
      else Unusual)"

definition HelloProtocolBuf_InternalParse ::
    "nat \<Rightarrow> 'u pb_runtime \<Rightarrow> byte list \<Rightarrow> 'u HelloProtocolBuf_Impl \<Rightarrow> 'u HelloProtocolBuf_Impl parse_result" where
  [model_defs]: "HelloProtocolBuf_InternalParse n rt p m = parse_loop n rt (HelloProtocolBuf_switch rt) p m"

definition HelloProtocolBuf_InternalSerialize :: "'u pb_runtime \<Rightarrow> 'u HelloProtocolBuf_Impl \<Rightarrow> byte list \<Rightarrow> byte list" where
  [model_defs]: "HelloProtocolBuf_InternalSerialize rt m target =
     (let target = (if i_name m \<noteq> [] then target @ rt_WriteStringMaybeAliased rt 1 (i_name m) else target) in
      if rt_have_unknown_fields rt (internal_metadata m) then target @ rt_SerializeUnknownFields rt (internal_metadata m)
      else target)"

definition HelloProtocolBuf_ByteSizeLong :: "'u pb_runtime \<Rightarrow> 'u HelloProtocolBuf_Impl \<Rightarrow> uint64 \<times> 'u HelloProtocolBuf_Impl" where
  [model_defs]: "HelloProtocolBuf_ByteSizeLong rt m =
     (let total_size = (if i_name m \<noteq> [] then 0 + (1 + rt_StringSize rt (i_name m)) else 0);
          (sz, cached) = rt_MaybeComputeUnknownFieldsSize rt (internal_metadata m) total_size
      in (sz, m\<lparr>i_hello_cached_size := cached\<rparr>))"

definition HelloProtocolBuf_SetCachedSize :: "uint32 \<Rightarrow> 'u HelloProtocolBuf_Impl \<Rightarrow> 'u HelloProtocolBuf_Impl" where
  [model_defs]: "HelloProtocolBuf_SetCachedSize sz m = m\<lparr>i_hello_cached_size := sz\<rparr>"

definition HelloProtocolBuf_MergeFrom ::
    "'u pb_runtime \<Rightarrow> 'u HelloProtocolBuf_Impl \<Rightarrow> 'u HelloProtocolBuf_Impl \<Rightarrow> 'u HelloProtocolBuf_Impl" where
  [model_defs]: "HelloProtocolBuf_MergeFrom rt m from =
     (let m = (if i_name from \<noteq> [] then HelloProtocolBuf_set_name (i_name from) m else m) in
      m\<lparr>internal_metadata := rt_MergeUnknownFields rt (internal_metadata m) (internal_metadata from)\<rparr>)"

definition HelloProtocolBuf_CopyFrom ::
    "'u pb_runtime \<Rightarrow> 'u HelloProtocolBuf_Impl \<Rightarrow> 'u HelloProtocolBuf_Impl \<Rightarrow> 'u HelloProtocolBuf_Impl" where
  [model_defs]: "HelloProtocolBuf_CopyFrom rt m from = HelloProtocolBuf_MergeFrom rt (HelloProtocolBuf_Clear rt m) from"

definition HelloProtocolBuf_copy :: "'u pb_runtime \<Rightarrow> 'u HelloProtocolBuf_Impl \<Rightarrow> 'u HelloProtocolBuf_Impl" where
  [model_defs]: "HelloProtocolBuf_copy rt from =
     \<lparr>internal_metadata = rt_MergeUnknownFields rt (rt_no_unknown_fields rt) (internal_metadata from), owning_arena = 0,
      i_name = (if i_name from \<noteq> [] then i_name from else []), i_hello_cached_size = 0\<rparr>"

definition HelloProtocolBuf_InternalSwap ::
    "'u HelloProtocolBuf_Impl \<Rightarrow> 'u HelloProtocolBuf_Impl \<Rightarrow> 'u HelloProtocolBuf_Impl \<times> 'u HelloProtocolBuf_Impl" where
  [model_defs]: "HelloProtocolBuf_InternalSwap m other =
     (m\<lparr>internal_metadata := internal_metadata other, i_name := i_name other\<rparr>,
      other\<lparr>internal_metadata := internal_metadata m, i_name := i_name m\<rparr>)"

definition HelloProtocolBuf_Swap ::
    "('u HelloProtocolBuf_Impl \<Rightarrow> 'u HelloProtocolBuf_Impl \<Rightarrow> 'u HelloProtocolBuf_Impl \<times> 'u HelloProtocolBuf_Impl) \<Rightarrow>
     'u HelloProtocolBuf_Impl \<Rightarrow> 'u HelloProtocolBuf_Impl \<Rightarrow> 'u HelloProtocolBuf_Impl \<times> 'u HelloProtocolBuf_Impl" where
  [model_defs]: "HelloProtocolBuf_Swap GenericSwap m other =
     (if owning_arena m = owning_arena other then HelloProtocolBuf_InternalSwap m other else GenericSwap m other)"

definition HelloProtocolBuf_move_assign ::
    "'u pb_runtime \<Rightarrow> 'u HelloProtocolBuf_Impl \<Rightarrow> 'u HelloProtocolBuf_Impl \<Rightarrow> 'u HelloProtocolBuf_Impl \<times> 'u HelloProtocolBuf_Impl" where
  [model_defs]: "HelloProtocolBuf_move_assign rt m from =
     (if owning_arena m = owning_arena from then HelloProtocolBuf_InternalSwap m from
      else (HelloProtocolBuf_CopyFrom rt m from, from))"

definition HelloProtocolBuf_move :: "'u pb_runtime \<Rightarrow> 'u HelloProtocolBuf_Impl \<Rightarrow> 'u HelloProtocolBuf_Impl \<times> 'u HelloProtocolBuf_Impl" where
  "HelloProtocolBuf_move rt from = HelloProtocolBuf_move_assign rt (HelloProtocolBuf_SharedCtor rt 0) from"

definition HelloProtocolBuf_SerializeAsString :: "'u pb_runtime \<Rightarrow> 'u HelloProtocolBuf_Impl \<Rightarrow> string" where
  "HelloProtocolBuf_SerializeAsString rt m =
     rt_SerializeAsString rt (fst (HelloProtocolBuf_ByteSizeLong rt m)) (HelloProtocolBuf_InternalSerialize rt m)"

definition HelloProtocolBuf_ParseFromString ::
    "'u pb_runtime \<Rightarrow> 'u HelloProtocolBuf_Impl parse_driver \<Rightarrow> string \<Rightarrow> 'u HelloProtocolBuf_Impl \<Rightarrow> (bool \<times> 'u HelloProtocolBuf_Impl) res" where
  "HelloProtocolBuf_ParseFromString rt pfs s m =
     pfs (HelloProtocolBuf_Clear rt) (HelloProtocolBuf_InternalParse (Suc (length s)) rt) s m"

section \<open>The payload of an answer\<close>

text \<open>The result is a signed number of 32 bits; a word holds its bits.\<close>

record 'u WorldProtocolBuf_Impl = "'u Message" +
  i_result :: uint32
  i_world_cached_size :: uint32

definition WorldProtocolBuf_SharedCtor :: "'u pb_runtime \<Rightarrow> nat \<Rightarrow> 'u WorldProtocolBuf_Impl" where
  [model_defs]: "WorldProtocolBuf_SharedCtor rt arena =
     \<lparr>internal_metadata = rt_no_unknown_fields rt, owning_arena = arena, i_result = 0, i_world_cached_size = 0\<rparr>"

definition WorldProtocolBuf_result :: "'u WorldProtocolBuf_Impl \<Rightarrow> uint32" where
  [model_defs, simp]: "WorldProtocolBuf_result m = i_result m"

definition WorldProtocolBuf_clear_result :: "'u WorldProtocolBuf_Impl \<Rightarrow> 'u WorldProtocolBuf_Impl" where
  [model_defs]: "WorldProtocolBuf_clear_result m = m\<lparr>i_result := 0\<rparr>"

definition WorldProtocolBuf_set_result :: "uint32 \<Rightarrow> 'u WorldProtocolBuf_Impl \<Rightarrow> 'u WorldProtocolBuf_Impl" where
  [model_defs]: "WorldProtocolBuf_set_result v m = m\<lparr>i_result := v\<rparr>"

definition WorldProtocolBuf_Clear :: "'u pb_runtime \<Rightarrow> 'u WorldProtocolBuf_Impl \<Rightarrow> 'u WorldProtocolBuf_Impl" where
  [model_defs]: "WorldProtocolBuf_Clear rt m = m\<lparr>i_result := 0, internal_metadata := rt_no_unknown_fields rt\<rparr>"

definition WorldProtocolBuf_switch ::
    "'u pb_runtime \<Rightarrow> uint32 \<Rightarrow> ptr \<Rightarrow> 'u WorldProtocolBuf_Impl \<Rightarrow> 'u WorldProtocolBuf_Impl case_end" where
  [model_defs]: "WorldProtocolBuf_switch rt tag ptr m =
     (if drop_bit 3 tag = 1 then
        (if (ucast tag :: uint8) = 8 then varint_case rt (\<lambda>v m. m\<lparr>i_result := v\<rparr>) ptr m else Unusual)
      else Unusual)"

definition WorldProtocolBuf_InternalParse ::
    "nat \<Rightarrow> 'u pb_runtime \<Rightarrow> byte list \<Rightarrow> 'u WorldProtocolBuf_Impl \<Rightarrow> 'u WorldProtocolBuf_Impl parse_result" where
  [model_defs]: "WorldProtocolBuf_InternalParse n rt p m = parse_loop n rt (WorldProtocolBuf_switch rt) p m"

definition WorldProtocolBuf_InternalSerialize :: "'u pb_runtime \<Rightarrow> 'u WorldProtocolBuf_Impl \<Rightarrow> byte list \<Rightarrow> byte list" where
  [model_defs]: "WorldProtocolBuf_InternalSerialize rt m target =
     (let target = (if i_result m \<noteq> 0 then target @ rt_WriteInt32ToArray rt 1 (i_result m) else target) in
      if rt_have_unknown_fields rt (internal_metadata m) then target @ rt_SerializeUnknownFields rt (internal_metadata m)
      else target)"

definition WorldProtocolBuf_ByteSizeLong :: "'u pb_runtime \<Rightarrow> 'u WorldProtocolBuf_Impl \<Rightarrow> uint64 \<times> 'u WorldProtocolBuf_Impl" where
  [model_defs]: "WorldProtocolBuf_ByteSizeLong rt m =
     (let total_size = (if i_result m \<noteq> 0 then 0 + rt_Int32SizePlusOne rt (i_result m) else 0);
          (sz, cached) = rt_MaybeComputeUnknownFieldsSize rt (internal_metadata m) total_size
      in (sz, m\<lparr>i_world_cached_size := cached\<rparr>))"

definition WorldProtocolBuf_SetCachedSize :: "uint32 \<Rightarrow> 'u WorldProtocolBuf_Impl \<Rightarrow> 'u WorldProtocolBuf_Impl" where
  [model_defs]: "WorldProtocolBuf_SetCachedSize sz m = m\<lparr>i_world_cached_size := sz\<rparr>"

definition WorldProtocolBuf_MergeFrom ::
    "'u pb_runtime \<Rightarrow> 'u WorldProtocolBuf_Impl \<Rightarrow> 'u WorldProtocolBuf_Impl \<Rightarrow> 'u WorldProtocolBuf_Impl" where
  [model_defs]: "WorldProtocolBuf_MergeFrom rt m from =
     (let m = (if i_result from \<noteq> 0 then WorldProtocolBuf_set_result (i_result from) m else m) in
      m\<lparr>internal_metadata := rt_MergeUnknownFields rt (internal_metadata m) (internal_metadata from)\<rparr>)"

definition WorldProtocolBuf_CopyFrom ::
    "'u pb_runtime \<Rightarrow> 'u WorldProtocolBuf_Impl \<Rightarrow> 'u WorldProtocolBuf_Impl \<Rightarrow> 'u WorldProtocolBuf_Impl" where
  [model_defs]: "WorldProtocolBuf_CopyFrom rt m from = WorldProtocolBuf_MergeFrom rt (WorldProtocolBuf_Clear rt m) from"

definition WorldProtocolBuf_copy :: "'u pb_runtime \<Rightarrow> 'u WorldProtocolBuf_Impl \<Rightarrow> 'u WorldProtocolBuf_Impl" where
  [model_defs]: "WorldProtocolBuf_copy rt from =
     \<lparr>internal_metadata = rt_MergeUnknownFields rt (rt_no_unknown_fields rt) (internal_metadata from), owning_arena = 0,
      i_result = i_result from, i_world_cached_size = 0\<rparr>"

definition WorldProtocolBuf_InternalSwap ::
    "'u WorldProtocolBuf_Impl \<Rightarrow> 'u WorldProtocolBuf_Impl \<Rightarrow> 'u WorldProtocolBuf_Impl \<times> 'u WorldProtocolBuf_Impl" where
  [model_defs]: "WorldProtocolBuf_InternalSwap m other =
     (m\<lparr>internal_metadata := internal_metadata other, i_result := i_result other\<rparr>,
      other\<lparr>internal_metadata := internal_metadata m, i_result := i_result m\<rparr>)"

definition WorldProtocolBuf_Swap ::
    "('u WorldProtocolBuf_Impl \<Rightarrow> 'u WorldProtocolBuf_Impl \<Rightarrow> 'u WorldProtocolBuf_Impl \<times> 'u WorldProtocolBuf_Impl) \<Rightarrow>
     'u WorldProtocolBuf_Impl \<Rightarrow> 'u WorldProtocolBuf_Impl \<Rightarrow> 'u WorldProtocolBuf_Impl \<times> 'u WorldProtocolBuf_Impl" where
  [model_defs]: "WorldProtocolBuf_Swap GenericSwap m other =
     (if owning_arena m = owning_arena other then WorldProtocolBuf_InternalSwap m other else GenericSwap m other)"

definition WorldProtocolBuf_move_assign ::
    "'u pb_runtime \<Rightarrow> 'u WorldProtocolBuf_Impl \<Rightarrow> 'u WorldProtocolBuf_Impl \<Rightarrow> 'u WorldProtocolBuf_Impl \<times> 'u WorldProtocolBuf_Impl" where
  [model_defs]: "WorldProtocolBuf_move_assign rt m from =
     (if owning_arena m = owning_arena from then WorldProtocolBuf_InternalSwap m from
      else (WorldProtocolBuf_CopyFrom rt m from, from))"

definition WorldProtocolBuf_move :: "'u pb_runtime \<Rightarrow> 'u WorldProtocolBuf_Impl \<Rightarrow> 'u WorldProtocolBuf_Impl \<times> 'u WorldProtocolBuf_Impl" where
  "WorldProtocolBuf_move rt from = WorldProtocolBuf_move_assign rt (WorldProtocolBuf_SharedCtor rt 0) from"

definition WorldProtocolBuf_SerializeAsString :: "'u pb_runtime \<Rightarrow> 'u WorldProtocolBuf_Impl \<Rightarrow> string" where
  "WorldProtocolBuf_SerializeAsString rt m =
     rt_SerializeAsString rt (fst (WorldProtocolBuf_ByteSizeLong rt m)) (WorldProtocolBuf_InternalSerialize rt m)"

definition WorldProtocolBuf_ParseFromString ::
    "'u pb_runtime \<Rightarrow> 'u WorldProtocolBuf_Impl parse_driver \<Rightarrow> string \<Rightarrow> 'u WorldProtocolBuf_Impl \<Rightarrow> (bool \<times> 'u WorldProtocolBuf_Impl) res" where
  "WorldProtocolBuf_ParseFromString rt pfs s m =
     pfs (WorldProtocolBuf_Clear rt) (WorldProtocolBuf_InternalParse (Suc (length s)) rt) s m"

end
