(* ===== verification/Pb_Codec.thy ===== *)
theory Pb_Codec
  imports Pb_Messages
begin

unbundle bit_operations_syntax

text \<open>
  The generated classes of theory \<open>Pb_Messages\<close> keep the contract \<open>pb_message\<close> on every library that keeps \<open>pb_wire\<close>: what one object writes,
  another parses by merging it in. From this follow the round trips of the three messages; further, the sizes are those of the bytes, every
  input is parsed to an end, and bytes of a message are zero only inside its strings.
\<close>

section \<open>Fields that are written and fields that are read\<close>

definition base_fields :: "'u BaseProtocolBuf_Impl \<Rightarrow> nat" where
  "base_fields m = of_bool (i_magic m \<noteq> 0) + (of_bool (i_version m \<noteq> 0) + (of_bool (i_type m \<noteq> 0) + (of_bool (i_req_id m \<noteq> 0) +
     (of_bool (i_data_len m \<noteq> 0) + (of_bool (BaseProtocolBuf_has_srv_name m) + of_bool (i_data m \<noteq> []))))))"

text \<open>A message without unknown fields, whose strings have the sizes the library allows, and whose name is text.\<close>

definition base_sized :: "'u pb_runtime \<Rightarrow> 'u BaseProtocolBuf_Impl \<Rightarrow> bool" where
  "base_sized rt m \<longleftrightarrow> \<not> rt_have_unknown_fields rt (internal_metadata m) \<and> length (i_srv_name m) < 2 ^ 31 \<and> length (i_data m) < 2 ^ 31"

definition base_known :: "'u pb_runtime \<Rightarrow> 'u BaseProtocolBuf_Impl \<Rightarrow> bool" where
  "base_known rt m \<longleftrightarrow> base_sized rt m \<and> (BaseProtocolBuf_has_srv_name m \<longrightarrow> rt_VerifyUTF8 rt (i_srv_name m))"

lemma base_known_sized: "base_known rt m \<Longrightarrow> base_sized rt m"
  by (simp add: base_known_def)

definition hello_known :: "'u pb_runtime \<Rightarrow> 'u HelloProtocolBuf_Impl \<Rightarrow> bool" where
  "hello_known rt m \<longleftrightarrow> \<not> rt_have_unknown_fields rt (internal_metadata m) \<and> length (i_name m) < 2 ^ 31 \<and>
     (i_name m \<noteq> [] \<longrightarrow> rt_VerifyUTF8 rt (i_name m))"

definition world_known :: "'u pb_runtime \<Rightarrow> 'u WorldProtocolBuf_Impl \<Rightarrow> bool" where
  "world_known rt m \<longleftrightarrow> \<not> rt_have_unknown_fields rt (internal_metadata m)"

lemma if_append: "(if c then t @ x else t) = t @ (if c then x else [])"
  by simp

lemma base_pieces:
  "BaseProtocolBuf_InternalSerialize rt m t = t @
     (if i_magic m \<noteq> 0 then rt_WriteUInt32ToArray rt 1 (i_magic m) else []) @
     (if i_version m \<noteq> 0 then rt_WriteUInt32ToArray rt 2 (i_version m) else []) @
     (if i_type m \<noteq> 0 then rt_WriteUInt32ToArray rt 3 (i_type m) else []) @
     (if i_req_id m \<noteq> 0 then rt_WriteUInt32ToArray rt 4 (i_req_id m) else []) @
     (if i_data_len m \<noteq> 0 then rt_WriteUInt32ToArray rt 5 (i_data_len m) else []) @
     (if BaseProtocolBuf_has_srv_name m then rt_WriteStringMaybeAliased rt 6 (i_srv_name m) else []) @
     (if i_data m \<noteq> [] then rt_WriteBytesMaybeAliased rt 7 (i_data m) else []) @
     (if rt_have_unknown_fields rt (internal_metadata m) then rt_SerializeUnknownFields rt (internal_metadata m) else [])"
  unfolding BaseProtocolBuf_InternalSerialize_def Let_def if_append append_assoc ..

lemma hello_pieces:
  "HelloProtocolBuf_InternalSerialize rt m t = t @
     (if i_name m \<noteq> [] then rt_WriteStringMaybeAliased rt 1 (i_name m) else []) @
     (if rt_have_unknown_fields rt (internal_metadata m) then rt_SerializeUnknownFields rt (internal_metadata m) else [])"
  unfolding HelloProtocolBuf_InternalSerialize_def Let_def if_append append_assoc ..

lemma world_pieces:
  "WorldProtocolBuf_InternalSerialize rt m t = t @
     (if i_result m \<noteq> 0 then rt_WriteInt32ToArray rt 1 (i_result m) else []) @
     (if rt_have_unknown_fields rt (internal_metadata m) then rt_SerializeUnknownFields rt (internal_metadata m) else [])"
  unfolding WorldProtocolBuf_InternalSerialize_def Let_def if_append append_assoc ..

text \<open>Each tag that is written leads to the case of its field.\<close>

lemma base_switch:
  "BaseProtocolBuf_switch rt (of_nat (8 * 1)) q m = varint_case rt (\<lambda>v m. m\<lparr>i_magic := v\<rparr>) q m"
  "BaseProtocolBuf_switch rt (of_nat (8 * 2)) q m = varint_case rt (\<lambda>v m. m\<lparr>i_version := v\<rparr>) q m"
  "BaseProtocolBuf_switch rt (of_nat (8 * 3)) q m = varint_case rt (\<lambda>v m. m\<lparr>i_type := v\<rparr>) q m"
  "BaseProtocolBuf_switch rt (of_nat (8 * 4)) q m = varint_case rt (\<lambda>v m. m\<lparr>i_req_id := v\<rparr>) q m"
  "BaseProtocolBuf_switch rt (of_nat (8 * 5)) q m = varint_case rt (\<lambda>v m. m\<lparr>i_data_len := v\<rparr>) q m"
  "BaseProtocolBuf_switch rt (of_nat (8 * 6 + 2)) q m =
     string_case rt (rt_VerifyUTF8 rt) i_srv_name (\<lambda>s. BaseProtocolBuf_mutable_srv_name (\<lambda>_. s)) q m"
  "BaseProtocolBuf_switch rt (of_nat (8 * 7 + 2)) q m =
     string_case rt (\<lambda>_. True) i_data (\<lambda>s. BaseProtocolBuf_mutable_data (\<lambda>_. s)) q m"
  by (simp_all add: BaseProtocolBuf_switch_def Let_def)

lemma payload_switch:
  "HelloProtocolBuf_switch rt (of_nat (8 * 1 + 2)) q m' =
     string_case rt (rt_VerifyUTF8 rt) i_name (\<lambda>s. HelloProtocolBuf_mutable_name (\<lambda>_. s)) q m'"
  "WorldProtocolBuf_switch rt (of_nat (8 * 1)) q m'' = varint_case rt (\<lambda>v m. m\<lparr>i_result := v\<rparr>) q m''"
  by (simp_all add: HelloProtocolBuf_switch_def WorldProtocolBuf_switch_def)

lemma base_parse_loop: "BaseProtocolBuf_InternalParse n rt p m = parse_loop n rt (BaseProtocolBuf_switch rt) p m"
  by (cases "parse_loop n rt (BaseProtocolBuf_switch rt) p m") (auto simp: BaseProtocolBuf_InternalParse_def)

context pb_wire
begin

lemma loop_opt_uint32:
  assumes "0 < n" "n < 16" "\<And>q. switch (of_nat (8 * n)) (Some q) m = varint_case rt store (Some q) m"
  shows "parse_loop (of_bool (v \<noteq> 0) + k) rt switch ((if v \<noteq> 0 then rt_WriteUInt32ToArray rt n v else []) @ p) m =
    parse_loop k rt switch p (if v \<noteq> 0 then store v m else m)"
  using loop_uint32 [of n switch m store k v p] assms by simp

lemma base_loop_numbers:
  "parse_loop (of_bool (v \<noteq> 0) + k) rt (BaseProtocolBuf_switch rt) ((if v \<noteq> 0 then rt_WriteUInt32ToArray rt 1 v else []) @ p) m =
     parse_loop k rt (BaseProtocolBuf_switch rt) p (if v \<noteq> 0 then BaseProtocolBuf_set_magic v m else m)"
  "parse_loop (of_bool (v \<noteq> 0) + k) rt (BaseProtocolBuf_switch rt) ((if v \<noteq> 0 then rt_WriteUInt32ToArray rt 2 v else []) @ p) m =
     parse_loop k rt (BaseProtocolBuf_switch rt) p (if v \<noteq> 0 then BaseProtocolBuf_set_version v m else m)"
  "parse_loop (of_bool (v \<noteq> 0) + k) rt (BaseProtocolBuf_switch rt) ((if v \<noteq> 0 then rt_WriteUInt32ToArray rt 3 v else []) @ p) m =
     parse_loop k rt (BaseProtocolBuf_switch rt) p (if v \<noteq> 0 then BaseProtocolBuf_set_type v m else m)"
  "parse_loop (of_bool (v \<noteq> 0) + k) rt (BaseProtocolBuf_switch rt) ((if v \<noteq> 0 then rt_WriteUInt32ToArray rt 4 v else []) @ p) m =
     parse_loop k rt (BaseProtocolBuf_switch rt) p (if v \<noteq> 0 then BaseProtocolBuf_set_req_id v m else m)"
  "parse_loop (of_bool (v \<noteq> 0) + k) rt (BaseProtocolBuf_switch rt) ((if v \<noteq> 0 then rt_WriteUInt32ToArray rt 5 v else []) @ p) m =
     parse_loop k rt (BaseProtocolBuf_switch rt) p (if v \<noteq> 0 then BaseProtocolBuf_set_data_len v m else m)"
  using
    loop_opt_uint32 [of 1 "BaseProtocolBuf_switch rt" m "\<lambda>v m. m\<lparr>i_magic := v\<rparr>" v k p]
    loop_opt_uint32 [of 2 "BaseProtocolBuf_switch rt" m "\<lambda>v m. m\<lparr>i_version := v\<rparr>" v k p]
    loop_opt_uint32 [of 3 "BaseProtocolBuf_switch rt" m "\<lambda>v m. m\<lparr>i_type := v\<rparr>" v k p]
    loop_opt_uint32 [of 4 "BaseProtocolBuf_switch rt" m "\<lambda>v m. m\<lparr>i_req_id := v\<rparr>" v k p]
    loop_opt_uint32 [of 5 "BaseProtocolBuf_switch rt" m "\<lambda>v m. m\<lparr>i_data_len := v\<rparr>" v k p]
  by (simp_all add: base_switch [simplified] model_defs del: BaseProtocolBuf_switch_def)

lemma base_loop_strings:
  assumes "base_known rt a"
  shows "parse_loop (of_bool (BaseProtocolBuf_has_srv_name a) + k) rt (BaseProtocolBuf_switch rt)
      ((if BaseProtocolBuf_has_srv_name a then rt_WriteStringMaybeAliased rt 6 (i_srv_name a) else []) @ p) m =
    parse_loop k rt (BaseProtocolBuf_switch rt) p (if BaseProtocolBuf_has_srv_name a then BaseProtocolBuf_set_srv_name (i_srv_name a) m else m)"
  "parse_loop (of_bool (i_data a \<noteq> []) + k) rt (BaseProtocolBuf_switch rt)
      ((if i_data a \<noteq> [] then rt_WriteBytesMaybeAliased rt 7 (i_data a) else []) @ p) m =
    parse_loop k rt (BaseProtocolBuf_switch rt) p (if i_data a \<noteq> [] then BaseProtocolBuf_set_data (i_data a) m else m)"
  using assms
    loop_string [of 6 "BaseProtocolBuf_switch rt" m "rt_VerifyUTF8 rt" i_srv_name "\<lambda>s. BaseProtocolBuf_mutable_srv_name (\<lambda>_. s)" "i_srv_name a" k p]
    loop_bytes [of 7 "BaseProtocolBuf_switch rt" m i_data "\<lambda>s. BaseProtocolBuf_mutable_data (\<lambda>_. s)" "i_data a" k p]
  by (simp_all add: base_switch [simplified] base_known_def base_sized_def BaseProtocolBuf_mutable_srv_name_def BaseProtocolBuf_set_srv_name_def
      BaseProtocolBuf_mutable_data_def BaseProtocolBuf_set_data_def)

lemma base_parse_fields:
  assumes "base_known rt a"
  shows "BaseProtocolBuf_InternalParse (base_fields a + n) rt (BaseProtocolBuf_InternalSerialize rt a [] @ p) m =
    BaseProtocolBuf_InternalParse n rt p (BaseProtocolBuf_MergeFrom rt m a)"
proof -
  have u: "\<not> rt_have_unknown_fields rt (internal_metadata a)" using assms by (simp add: base_known_def base_sized_def)
  let ?m = "if i_magic a \<noteq> 0 then BaseProtocolBuf_set_magic (i_magic a) m else m"
  let ?m = "if i_version a \<noteq> 0 then BaseProtocolBuf_set_version (i_version a) ?m else ?m"
  let ?m = "if i_type a \<noteq> 0 then BaseProtocolBuf_set_type (i_type a) ?m else ?m"
  let ?m = "if i_req_id a \<noteq> 0 then BaseProtocolBuf_set_req_id (i_req_id a) ?m else ?m"
  let ?m = "if i_data_len a \<noteq> 0 then BaseProtocolBuf_set_data_len (i_data_len a) ?m else ?m"
  let ?m = "if BaseProtocolBuf_has_srv_name a then BaseProtocolBuf_set_srv_name (i_srv_name a) ?m else ?m"
  let ?m = "if i_data a \<noteq> [] then BaseProtocolBuf_set_data (i_data a) ?m else ?m"
  have "BaseProtocolBuf_MergeFrom rt m a = ?m"
    using MergeUnknownFields_none [OF u]
    by (intro BaseProtocolBuf_Impl.equality) (simp_all add: BaseProtocolBuf_MergeFrom_def Let_def model_defs)
  then show ?thesis
    unfolding base_parse_loop base_pieces base_fields_def add.assoc append_assoc append_Nil
      base_loop_numbers base_loop_strings [OF assms]
    using u by simp
qed

lemma hello_parse_fields:
  assumes "hello_known rt a"
  shows "HelloProtocolBuf_InternalParse (of_bool (i_name a \<noteq> []) + n) rt (HelloProtocolBuf_InternalSerialize rt a [] @ p) m =
    HelloProtocolBuf_InternalParse n rt p (HelloProtocolBuf_MergeFrom rt m a)"
  using assms MergeUnknownFields_none [of "internal_metadata a" "internal_metadata m"]
    loop_string [of 1 "HelloProtocolBuf_switch rt" m "rt_VerifyUTF8 rt" i_name "\<lambda>s. HelloProtocolBuf_mutable_name (\<lambda>_. s)" "i_name a" n p]
  by (simp add: hello_known_def hello_pieces HelloProtocolBuf_InternalParse_def HelloProtocolBuf_MergeFrom_def payload_switch [simplified]
      HelloProtocolBuf_mutable_name_def HelloProtocolBuf_set_name_def)

lemma world_parse_fields:
  assumes "world_known rt a"
  shows "WorldProtocolBuf_InternalParse (of_bool (i_result a \<noteq> 0) + n) rt (WorldProtocolBuf_InternalSerialize rt a [] @ p) m =
    WorldProtocolBuf_InternalParse n rt p (WorldProtocolBuf_MergeFrom rt m a)"
  using assms MergeUnknownFields_none [of "internal_metadata a" "internal_metadata m"]
    loop_int32 [of 1 "WorldProtocolBuf_switch rt" m "\<lambda>v m. m\<lparr>i_result := v\<rparr>" n "i_result a" p]
  by (simp add: world_known_def world_pieces WorldProtocolBuf_InternalParse_def WorldProtocolBuf_MergeFrom_def payload_switch [simplified]
      WorldProtocolBuf_set_result_def)

text \<open>The sizes of messages, and their bytes that are zero.\<close>

lemma opt_length:
  "0 < n \<Longrightarrow> n < 16 \<Longrightarrow> of_bool (v \<noteq> 0) \<le> length (if v \<noteq> 0 then rt_WriteUInt32ToArray rt n v else [])"
  "0 < n \<Longrightarrow> n < 16 \<Longrightarrow> length (if v \<noteq> 0 then rt_WriteUInt32ToArray rt n v else []) \<le> 6"
  "0 < n \<Longrightarrow> n < 16 \<Longrightarrow> nul \<notin> set (if v \<noteq> 0 then rt_WriteUInt32ToArray rt n v else [])"
  using uint32_field(2-4) [of n v] by (auto simp: Suc_le_eq)

lemma base_few_fields:
  assumes "base_sized rt a"
  shows "base_fields a \<le> length (BaseProtocolBuf_InternalSerialize rt a [])"
proof -
  have "of_bool (BaseProtocolBuf_has_srv_name a) \<le>
      length (if BaseProtocolBuf_has_srv_name a then rt_WriteStringMaybeAliased rt 6 (i_srv_name a) else [])"
    "of_bool (i_data a \<noteq> []) \<le> length (if i_data a \<noteq> [] then rt_WriteBytesMaybeAliased rt 7 (i_data a) else [])"
    using assms string_field(3) [of 6 "i_srv_name a"] bytes_field(3) [of 7 "i_data a"] by (auto simp: base_sized_def Suc_le_eq)
  then show ?thesis
    unfolding base_fields_def base_pieces append_Nil length_append
    by (intro add_mono opt_length(1) trans_le_add1) simp_all
qed

lemma payload_few_fields:
  "hello_known rt h \<Longrightarrow> of_bool (i_name h \<noteq> []) \<le> length (HelloProtocolBuf_InternalSerialize rt h [])"
  "world_known rt w \<Longrightarrow> of_bool (i_result w \<noteq> 0) \<le> length (WorldProtocolBuf_InternalSerialize rt w [])"
  using string_field(3) [of 1 "i_name h"] int32_field(3) [of 1 "i_result w"]
  by (auto simp: hello_pieces hello_known_def world_pieces world_known_def Suc_le_eq)

lemma parse_ends:
  "BaseProtocolBuf_InternalParse (Suc n) rt [] m = Inr (Some [], None, m)"
  "HelloProtocolBuf_InternalParse (Suc n) rt [] m' = Inr (Some [], None, m')"
  "WorldProtocolBuf_InternalParse (Suc n) rt [] m'' = Inr (Some [], None, m'')"
  by (simp_all add: base_parse_loop HelloProtocolBuf_InternalParse_def WorldProtocolBuf_InternalParse_def Done)

lemma base_size:
  assumes "base_sized rt m"
  shows "fst (BaseProtocolBuf_ByteSizeLong rt m) = of_nat (length (BaseProtocolBuf_InternalSerialize rt m []))"
    "length (BaseProtocolBuf_InternalSerialize rt m []) \<le> 42 + length (i_srv_name m) + length (i_data m)"
proof -
  have l: "length (i_srv_name m) < 2 ^ 31" "length (i_data m) < 2 ^ 31" using assms by (simp_all add: base_sized_def)
  note s = string_field [of 6, OF _ _ l(1), simplified] bytes_field [of 7, OF _ _ l(2), simplified]
  show "fst (BaseProtocolBuf_ByteSizeLong rt m) = of_nat (length (BaseProtocolBuf_InternalSerialize rt m []))"
    using s(1,5) uint32_field(1) [of 1] uint32_field(1) [of 2] uint32_field(1) [of 3] uint32_field(1) [of 4] uint32_field(1) [of 5]
    by (simp add: BaseProtocolBuf_ByteSizeLong_def base_pieces BaseProtocolBuf_has_srv_name_def Let_def case_prod_unfold
        MaybeComputeUnknownFieldsSize if_distrib [of length] if_distrib [of of_nat] cong: if_cong)
  have "length (BaseProtocolBuf_InternalSerialize rt m []) \<le>
      6 + (6 + (6 + (6 + (6 + ((6 + length (i_srv_name m)) + ((6 + length (i_data m)) + 0))))))"
    unfolding base_pieces append_Nil length_append
    by (intro add_mono opt_length(2)) (use s(2,6) assms in \<open>auto simp: base_sized_def\<close>)
  then show "length (BaseProtocolBuf_InternalSerialize rt m []) \<le> 42 + length (i_srv_name m) + length (i_data m)" by simp
qed

lemma base_zero_bytes:
  assumes "base_sized rt m"
  shows "nul \<in> set (BaseProtocolBuf_InternalSerialize rt m []) \<longleftrightarrow>
    BaseProtocolBuf_has_srv_name m \<and> (i_srv_name m = [] \<or> nul \<in> set (i_srv_name m)) \<or> nul \<in> set (i_data m)"
proof -
  have l: "length (i_srv_name m) < 2 ^ 31" "length (i_data m) < 2 ^ 31" using assms by (simp_all add: base_sized_def)
  note s = string_field(4) [of 6, OF _ _ l(1), simplified] bytes_field(4) [of 7, OF _ _ l(2), simplified]
  have n: "nul \<notin> set (if i_magic m \<noteq> 0 then rt_WriteUInt32ToArray rt 1 (i_magic m) else [])"
    "nul \<notin> set (if i_version m \<noteq> 0 then rt_WriteUInt32ToArray rt 2 (i_version m) else [])"
    "nul \<notin> set (if i_type m \<noteq> 0 then rt_WriteUInt32ToArray rt 3 (i_type m) else [])"
    "nul \<notin> set (if i_req_id m \<noteq> 0 then rt_WriteUInt32ToArray rt 4 (i_req_id m) else [])"
    "nul \<notin> set (if i_data_len m \<noteq> 0 then rt_WriteUInt32ToArray rt 5 (i_data_len m) else [])"
    by (rule opt_length(3); simp)+
  show ?thesis
    unfolding base_pieces append_Nil set_append Un_iff
    by (simp only: n simp_thms) (use s assms in \<open>auto simp: base_sized_def\<close>)
qed

lemma hello_size:
  assumes "hello_known rt m"
  shows "fst (HelloProtocolBuf_ByteSizeLong rt m) = of_nat (length (HelloProtocolBuf_InternalSerialize rt m []))"
    "length (HelloProtocolBuf_InternalSerialize rt m []) \<le> 6 + length (i_name m)"
    "nul \<in> set (HelloProtocolBuf_InternalSerialize rt m []) \<longleftrightarrow> nul \<in> set (i_name m)"
proof -
  have "length (i_name m) < 2 ^ 31" using assms by (simp add: hello_known_def)
  note s = string_field [of 1, OF _ _ this, simplified]
  show "fst (HelloProtocolBuf_ByteSizeLong rt m) = of_nat (length (HelloProtocolBuf_InternalSerialize rt m []))"
    "length (HelloProtocolBuf_InternalSerialize rt m []) \<le> 6 + length (i_name m)"
    "nul \<in> set (HelloProtocolBuf_InternalSerialize rt m []) \<longleftrightarrow> nul \<in> set (i_name m)"
    using assms s
    by (simp_all add: HelloProtocolBuf_ByteSizeLong_def hello_pieces hello_known_def Let_def case_prod_unfold MaybeComputeUnknownFieldsSize) auto
qed

lemma world_size:
  assumes "world_known rt m"
  shows "fst (WorldProtocolBuf_ByteSizeLong rt m) = of_nat (length (WorldProtocolBuf_InternalSerialize rt m []))"
    "length (WorldProtocolBuf_InternalSerialize rt m []) \<le> 11"
    "nul \<notin> set (WorldProtocolBuf_InternalSerialize rt m [])"
  using assms int32_field [of 1 "i_result m"]
  by (auto simp: WorldProtocolBuf_ByteSizeLong_def world_pieces world_known_def Let_def case_prod_unfold MaybeComputeUnknownFieldsSize)

text \<open>Any bytes are parsed to an end.\<close>

lemma base_parse_returns: "length p < n \<Longrightarrow> \<exists>r. BaseProtocolBuf_InternalParse n rt p m = Inr r"
  unfolding base_parse_loop
  by (rule parse_loop_returns)
    (auto simp: BaseProtocolBuf_switch_def Let_def split: if_splits dest: varint_case_reads string_case_reads)

lemma hello_parse_returns: "length p < n \<Longrightarrow> \<exists>r. HelloProtocolBuf_InternalParse n rt p m = Inr r"
  unfolding HelloProtocolBuf_InternalParse_def
  by (rule parse_loop_returns) (auto simp: HelloProtocolBuf_switch_def split: if_splits dest: string_case_reads)

lemma world_parse_returns: "length p < n \<Longrightarrow> \<exists>r. WorldProtocolBuf_InternalParse n rt p m = Inr r"
  unfolding WorldProtocolBuf_InternalParse_def
  by (rule parse_loop_returns) (auto simp: WorldProtocolBuf_switch_def split: if_splits dest: varint_case_reads)

end

sublocale pb_wire \<subseteq> base: pb_message "\<lambda>n. BaseProtocolBuf_InternalParse n rt" "\<lambda>m. BaseProtocolBuf_InternalSerialize rt m []" base_fields
    "BaseProtocolBuf_MergeFrom rt" "base_known rt"
  by unfold_locales (simp_all add: base_parse_fields base_few_fields parse_ends, simp add: base_few_fields base_known_def)

sublocale pb_wire \<subseteq> hello: pb_message "\<lambda>n. HelloProtocolBuf_InternalParse n rt" "\<lambda>m. HelloProtocolBuf_InternalSerialize rt m []"
    "\<lambda>m. of_bool (i_name m \<noteq> [])" "HelloProtocolBuf_MergeFrom rt" "hello_known rt"
  by unfold_locales (simp_all add: hello_parse_fields payload_few_fields parse_ends)

sublocale pb_wire \<subseteq> world: pb_message "\<lambda>n. WorldProtocolBuf_InternalParse n rt" "\<lambda>m. WorldProtocolBuf_InternalSerialize rt m []"
    "\<lambda>m. of_bool (i_result m \<noteq> 0)" "WorldProtocolBuf_MergeFrom rt" "world_known rt"
  by unfold_locales (simp_all add: world_parse_fields payload_few_fields parse_ends)

context pb_wire
begin

lemmas base_parse_messages = base.parse_messages
lemmas hello_parse_message = hello.parse_message
lemmas world_parse_message = world.parse_message

end

end
