(* ===== verification/Pb_Reference.thy ===== *)
theory Pb_Reference
  imports Pb_Codec
begin

text \<open>
  A small library that keeps the laws of \<open>pb_wire\<close>, after the published description of the wire format: it shows that the laws are
  consistent, and theorems about every library are evaluated on it. Integers are written in groups of seven bits, the lowest first; a string follows its length; a
  negative \<open>int32\<close> is extended to 64 bits; unknown fields are kept as bytes. Of texts, it accepts those of ASCII characters.
\<close>

section \<open>Integers of variable length\<close>

function varint :: "nat \<Rightarrow> byte list" where
  "varint n = (if n < 128 then [char_of n] else char_of (128 + n mod 128) # varint (n div 128))"
  by auto
termination
  by (relation "measure id") auto

declare varint.simps [simp del]

fun read_varint :: "nat \<Rightarrow> byte list \<Rightarrow> (byte list \<times> nat) option" where
  "read_varint 0 p = None"
| "read_varint (Suc k) [] = None"
| "read_varint (Suc k) (c # p) =
     (let b = of_char c in
      if b < 128 then Some (p, b)
      else map_option (\<lambda>(q, v). (q, b - 128 + 128 * v)) (read_varint k p))"

lemma read_varint_small: "n < 128 \<Longrightarrow> read_varint (Suc k) (varint n @ p) = Some (p, n)"
  by (subst varint.simps) (simp add: Let_def)

lemma read_varint_varint: "n < 128 ^ Suc k \<Longrightarrow> read_varint (Suc k) (varint n @ p) = Some (p, n)"
proof (induction k arbitrary: n)
  case (Suc k)
  have b: "(of_char (char_of (128 + n mod 128) :: char) :: nat) = 128 + n mod 128" by simp
  have "read_varint (Suc k) (varint (n div 128) @ p) = Some (p, n div 128)"
    using Suc.prems by (intro Suc.IH) (simp add: less_mult_imp_div_less mult.commute)
  with b show ?case
    by (cases "n < 128") (simp_all add: read_varint_small varint.simps [of n] Let_def)
qed (simp add: read_varint_small)

lemma length_varint: "n < 128 ^ Suc k \<Longrightarrow> length (varint n) \<le> Suc k"
proof (induction k arbitrary: n)
  case (Suc k)
  then have "n div 128 < 128 ^ Suc k" by (simp add: less_mult_imp_div_less mult.commute)
  then show ?case using Suc.IH [of "n div 128"] by (subst varint.simps) simp
qed (subst varint.simps, simp)

lemma varint_nonzero: "0 < n \<Longrightarrow> nul \<notin> set (varint n)"
proof (induction n rule: varint.induct)
  case (1 n)
  have "n mod 128 < 128" by simp
  then have "128 + n mod 128 < 256" by linarith
  then show ?case
    using 1 nul_char_of [of n] nul_char_of [of "128 + n mod 128"] by (subst varint.simps) (auto simp: Suc_le_eq)
qed

lemma read_varint_reads: "read_varint k p = Some (q, v) \<Longrightarrow> length q < length p"
  by (induction k p arbitrary: q v rule: read_varint.induct) (fastforce simp: Let_def split: if_splits)+

section \<open>The library\<close>

definition wire_number :: "nat \<Rightarrow> byte list \<Rightarrow> ptr \<times> uint32" where
  "wire_number k p = (case read_varint k p of None \<Rightarrow> (None, 0) | Some (q, v) \<Rightarrow> (Some q, of_nat v))"

definition wire_string :: "string \<Rightarrow> byte list \<Rightarrow> ptr \<times> string" where
  "wire_string old p =
     (case read_varint 5 p of
        None \<Rightarrow> (None, old)
      | Some (q, n) \<Rightarrow> if n \<le> length q then (Some (drop n q), take n q) else (None, old))"

definition wire_unknown :: "uint32 \<Rightarrow> byte list \<Rightarrow> byte list \<Rightarrow> ptr \<times> byte list" where
  "wire_unknown tag u p =
     (let keep = (\<lambda>q. (Some q, u @ varint (unat tag) @ take (length p - length q) p)); kind = unat tag mod 8 in
      if kind = 0 then (case read_varint 10 p of None \<Rightarrow> (None, u) | Some (q, _) \<Rightarrow> keep q)
      else if kind = 1 \<and> 8 \<le> length p then keep (drop 8 p)
      else if kind = 2 then (case wire_string [] p of (None, _) \<Rightarrow> (None, u) | (Some q, _) \<Rightarrow> keep q)
      else if kind = 5 \<and> 4 \<le> length p then keep (drop 4 p)
      else (None, u))"

definition ascii :: "string \<Rightarrow> bool" where
  "ascii s \<longleftrightarrow> list_all (\<lambda>c. of_char c < (128 :: nat)) s"

definition wire_field :: "nat \<Rightarrow> nat \<Rightarrow> byte list \<Rightarrow> byte list" where
  "wire_field n kind bs = char_of (8 * n + kind) # bs"

definition wire_runtime :: "byte list pb_runtime" where
  "wire_runtime =
     \<lparr>rt_Done = (\<lambda>p. (p = [], Some p)), rt_ReadTag = wire_number 5, rt_ReadVarint32 = wire_number 10,
      rt_InlineGreedyStringParser = wire_string, rt_VerifyUTF8 = ascii, rt_UnknownFieldParse = wire_unknown,
      rt_WriteUInt32ToArray = (\<lambda>n v. wire_field n 0 (varint (unat v))),
      rt_WriteInt32ToArray = (\<lambda>n v. wire_field n 0 (varint (unat (scast v :: uint64)))),
      rt_WriteStringMaybeAliased = (\<lambda>n s. wire_field n 2 (varint (length s) @ s)),
      rt_WriteBytesMaybeAliased = (\<lambda>n s. wire_field n 2 (varint (length s) @ s)),
      rt_UInt32SizePlusOne = (\<lambda>v. 1 + of_nat (length (varint (unat v)))),
      rt_Int32SizePlusOne = (\<lambda>v. 1 + of_nat (length (varint (unat (scast v :: uint64))))),
      rt_StringSize = (\<lambda>s. of_nat (length (varint (length s) @ s))), rt_BytesSize = (\<lambda>s. of_nat (length (varint (length s) @ s))),
      rt_no_unknown_fields = [], rt_have_unknown_fields = (\<lambda>u. u \<noteq> []), rt_MergeUnknownFields = (@),
      rt_SerializeUnknownFields = id, rt_MaybeComputeUnknownFieldsSize = (\<lambda>u n. (n + of_nat (length u), ucast (n + of_nat (length u)))),
      rt_SerializeAsString = (\<lambda>n f. f [])\<rparr>"

lemma wire_number_varint: "n < 128 ^ 10 \<Longrightarrow> wire_number 10 (varint n @ p) = (Some p, of_nat n)"
  using read_varint_varint [of n 9 p] by (simp add: wire_number_def)

lemma wire_string_written:
  assumes "length s < 2 ^ 31"
  shows "wire_string old (varint (length s) @ s @ p) = (Some p, s)"
proof -
  have "read_varint 5 (varint (length s) @ s @ p) = Some (s @ p, length s)"
    using assms read_varint_varint [of "length s" 4 "s @ p"] by simp
  then show ?thesis by (simp add: wire_string_def)
qed

lemma wire_reads:
  "wire_number k p = (Some q, v) \<Longrightarrow> length q < length p"
  "wire_string s p = (Some q, s') \<Longrightarrow> length q < length p"
  "wire_unknown t u p = (Some q, u') \<Longrightarrow> length q \<le> length p"
proof -
  show n: "wire_number k p = (Some q, v) \<Longrightarrow> length q < length p"
    by (auto simp: wire_number_def dest: read_varint_reads split: option.splits)
  show s: "wire_string s p = (Some q, s') \<Longrightarrow> length q < length p" for s s' q
    by (auto simp: wire_string_def dest!: read_varint_reads split: option.splits if_splits)
  show "wire_unknown t u p = (Some q, u') \<Longrightarrow> length q \<le> length p"
    by (auto simp: wire_unknown_def Let_def dest!: read_varint_reads s split: option.splits if_splits prod.splits)
qed

lemma scast_back: "(of_nat (unat (scast (v :: uint32) :: uint64)) :: uint32) = v"
  by transfer (simp add: take_bit_signed_take_bit)

lemma unat_word_bounds: "unat (v :: uint32) < 128 ^ 5" "unat (w :: uint64) < 128 ^ 10"
  using unat_lt2p [of v] unat_lt2p [of w] by simp_all

lemma wire_tag: "0 < (of_char c :: nat) \<Longrightarrow> of_char c < (128 :: nat) \<Longrightarrow> wire_number 5 (c # p) = (Some p, of_char c)"
  by (simp add: wire_number_def eval_nat_numeral Let_def of_nat_of_char)

lemma wire_failed: "wire_number k p = (None, t) \<Longrightarrow> t = 0"
  by (auto simp: wire_number_def split: option.splits)

lemma wire_writes_number:
  assumes "n < 128 ^ Suc k"
  shows "length (varint n) \<le> Suc k" "n \<noteq> 0 \<Longrightarrow> nul \<notin> set (varint n)"
  using assms length_varint [of n k] varint_nonzero [of n] by auto

lemma wire_writes_string:
  assumes "length s < 2 ^ 31"
  shows "length (varint (length s) @ s) \<le> 5 + length s" "nul \<in> set (varint (length s) @ s) \<longleftrightarrow> s = [] \<or> nul \<in> set s"
  using assms length_varint [of "length s" 4] varint_nonzero [of "length s"]
  by (auto simp: varint.simps [of 0] nul_def char_of_def)

interpretation wire: pb_wire wire_runtime
proof
  note defs = wire_runtime_def wire_field_def
  fix n :: nat and v :: uint32 assume n: "0 < n" "n < 16"
  let ?u = "varint (unat v)" and ?i = "varint (unat (scast v :: uint64))"
  have "length ?u \<le> 5" "v \<noteq> 0 \<longrightarrow> nul \<notin> set ?u" "wire_number 10 (?u @ p) = (Some p, v)" for p
    using wire_writes_number [of "unat v" 4] wire_number_varint [of "unat v" p] unat_word_bounds(1) [of v] by (simp_all add: unat_eq_zero)
  then show "\<exists>bs. rt_WriteUInt32ToArray wire_runtime n v = char_of (8 * n) # bs \<and> length bs \<le> 5 \<and>
      rt_UInt32SizePlusOne wire_runtime v = 1 + of_nat (length bs) \<and> (v \<noteq> 0 \<longrightarrow> nul \<notin> set bs) \<and>
      (\<forall>p. rt_ReadVarint32 wire_runtime (bs @ p) = (Some p, v))"
    by (intro exI [of _ ?u]) (simp add: defs)
  have "(scast v :: uint64) = 0 \<longleftrightarrow> v = 0" by (metis scast_back of_nat_0 unat_0 scast_0)
  then have "length ?i \<le> 10" "v \<noteq> 0 \<longrightarrow> nul \<notin> set ?i" "wire_number 10 (?i @ p) = (Some p, v)" for p
    using wire_writes_number [of "unat (scast v :: uint64)" 9] wire_number_varint [of "unat (scast v :: uint64)" p]
      unat_word_bounds(2) [of "scast v"] scast_back [of v] by (simp_all add: unat_eq_zero)
  then show "\<exists>bs. rt_WriteInt32ToArray wire_runtime n v = char_of (8 * n) # bs \<and> length bs \<le> 10 \<and>
      rt_Int32SizePlusOne wire_runtime v = 1 + of_nat (length bs) \<and> (v \<noteq> 0 \<longrightarrow> nul \<notin> set bs) \<and>
      (\<forall>p. rt_ReadVarint32 wire_runtime (bs @ p) = (Some p, v))"
    by (intro exI [of _ ?i]) (simp add: defs)
next
  note defs = wire_runtime_def wire_field_def
  fix n :: nat and s :: string assume "0 < n" "n < 16" and s: "length s < 2 ^ 31"
  let ?bs = "varint (length s) @ s"
  note w = wire_writes_string [OF s] wire_string_written [OF s]
  show "\<exists>bs. rt_WriteStringMaybeAliased wire_runtime n s = char_of (8 * n + 2) # bs \<and>
      length bs \<le> 5 + length s \<and> rt_StringSize wire_runtime s = of_nat (length bs) \<and> (nul \<in> set bs \<longleftrightarrow> s = [] \<or> nul \<in> set s) \<and>
      (\<forall>old p. rt_InlineGreedyStringParser wire_runtime old (bs @ p) = (Some p, s))"
    by (intro exI [of _ ?bs]) (use w in \<open>simp add: defs\<close>)
  show "\<exists>bs. rt_WriteBytesMaybeAliased wire_runtime n s = char_of (8 * n + 2) # bs \<and>
      length bs \<le> 5 + length s \<and> rt_BytesSize wire_runtime s = of_nat (length bs) \<and> (nul \<in> set bs \<longleftrightarrow> s = [] \<or> nul \<in> set s) \<and>
      (\<forall>old p. rt_InlineGreedyStringParser wire_runtime old (bs @ p) = (Some p, s))"
    by (intro exI [of _ ?bs]) (use w in \<open>simp add: defs\<close>)
qed (auto simp: wire_runtime_def wire_tag dest: wire_reads wire_failed)

end
