(* ===== verification/Rpc_Wire.thy ===== *)
theory Rpc_Wire
  imports Rpc_Client Rpc_Server Pb_Reference
begin

unbundle bit_operations_syntax

text \<open>
  The serialisers of the remote calls on the generated classes. Theory \<open>Rpc_Protocol\<close> takes the serialisation of an envelope, seen as the
  values of its accessors, as a parameter, and \<open>Rpc_Server\<close> that of the payloads. Here the parameters are what the code does with the
  classes of theory \<open>Pb_Messages\<close>, and the laws that the other theories ask of them are derived from those of the
  protobuf library. The driver \<open>pfs\<close> is the library's \<open>ParseFromString\<close>.
\<close>

section \<open>What the accessors of an envelope return\<close>

definition buf_view :: "'u BaseProtocolBuf_Impl \<Rightarrow> BaseProtocolBuf" where
  "buf_view m =
     \<lparr>b_magic = BaseProtocolBuf_magic m, b_version = BaseProtocolBuf_version m, b_type = BaseProtocolBuf_type m, b_req_id = BaseProtocolBuf_req_id m,
      b_data_len = BaseProtocolBuf_data_len m, b_srv_name = (if BaseProtocolBuf_has_srv_name m then Some (BaseProtocolBuf_srv_name m) else None),
      b_data = BaseProtocolBuf_data m\<rparr>"

text \<open>An envelope as it is new, and what merging does to the values.\<close>

definition buf_empty :: BaseProtocolBuf where
  "buf_empty = \<lparr>b_magic = 0, b_version = 0, b_type = 0, b_req_id = 0, b_data_len = 0, b_srv_name = None, b_data = []\<rparr>"

definition buf_merge :: "BaseProtocolBuf \<Rightarrow> BaseProtocolBuf \<Rightarrow> BaseProtocolBuf" where
  "buf_merge b c =
     \<lparr>b_magic = (if b_magic c \<noteq> 0 then b_magic c else b_magic b), b_version = (if b_version c \<noteq> 0 then b_version c else b_version b),
      b_type = (if b_type c \<noteq> 0 then b_type c else b_type b), b_req_id = (if b_req_id c \<noteq> 0 then b_req_id c else b_req_id b),
      b_data_len = (if b_data_len c \<noteq> 0 then b_data_len c else b_data_len b),
      b_srv_name = (if b_srv_name c \<noteq> None then b_srv_name c else b_srv_name b),
      b_data = (if b_data c \<noteq> [] then b_data c else b_data b)\<rparr>"

lemma has_bit: "(x OR 1) AND 1 = (1 :: uint32)" "(x AND NOT 1) AND 1 = (0 :: uint32)"
  by (rule bit_word_eqI; auto simp: bit_simps)+

lemma has_srv_name_simps:
  "BaseProtocolBuf_has_srv_name (m\<lparr>i_has_bits := x OR 1\<rparr>)" "\<not> BaseProtocolBuf_has_srv_name (m\<lparr>i_has_bits := x AND NOT 1\<rparr>)"
  "\<not> BaseProtocolBuf_has_srv_name (m\<lparr>i_has_bits := 0\<rparr>)"
  using has_bit [of x] by (simp_all add: BaseProtocolBuf_has_srv_name_def)

lemma has_srv_name_other [simp]:
  "BaseProtocolBuf_has_srv_name (m\<lparr>i_magic := v\<rparr>) = BaseProtocolBuf_has_srv_name m"
  "BaseProtocolBuf_has_srv_name (m\<lparr>i_version := v\<rparr>) = BaseProtocolBuf_has_srv_name m"
  "BaseProtocolBuf_has_srv_name (m\<lparr>i_type := v\<rparr>) = BaseProtocolBuf_has_srv_name m"
  "BaseProtocolBuf_has_srv_name (m\<lparr>i_req_id := v\<rparr>) = BaseProtocolBuf_has_srv_name m"
  "BaseProtocolBuf_has_srv_name (m\<lparr>i_data_len := v\<rparr>) = BaseProtocolBuf_has_srv_name m"
  "BaseProtocolBuf_has_srv_name (m\<lparr>i_data := s\<rparr>) = BaseProtocolBuf_has_srv_name m"
  "BaseProtocolBuf_has_srv_name (m\<lparr>i_srv_name := s\<rparr>) = BaseProtocolBuf_has_srv_name m"
  "BaseProtocolBuf_has_srv_name (m\<lparr>internal_metadata := u\<rparr>) = BaseProtocolBuf_has_srv_name m"
  by (simp_all add: BaseProtocolBuf_has_srv_name_def)

lemma view_fields [simp]:
  "buf_view (BaseProtocolBuf_set_magic v m) = (buf_view m)\<lparr>b_magic := v\<rparr>"
  "buf_view (BaseProtocolBuf_set_version v m) = (buf_view m)\<lparr>b_version := v\<rparr>"
  "buf_view (BaseProtocolBuf_set_type v m) = (buf_view m)\<lparr>b_type := v\<rparr>"
  "buf_view (BaseProtocolBuf_set_req_id v m) = (buf_view m)\<lparr>b_req_id := v\<rparr>"
  "buf_view (BaseProtocolBuf_set_data_len v m) = (buf_view m)\<lparr>b_data_len := v\<rparr>"
  "buf_view (BaseProtocolBuf_set_data s m) = (buf_view m)\<lparr>b_data := s\<rparr>"
  "buf_view (BaseProtocolBuf_set_srv_name s m) = (buf_view m)\<lparr>b_srv_name := Some s\<rparr>"
  "buf_view (m\<lparr>internal_metadata := u\<rparr>) = buf_view m"
  by (simp_all add: buf_view_def model_defs has_srv_name_simps)

lemma view_merge: "buf_view (BaseProtocolBuf_MergeFrom rt m a) = buf_merge (buf_view m) (buf_view a)"
  unfolding BaseProtocolBuf_MergeFrom_def Let_def by (simp add: if_distrib [of buf_view]) (simp add: buf_merge_def buf_view_def)

lemma view_clear: "buf_view (BaseProtocolBuf_Clear rt m) = buf_empty"
  by (simp add: buf_view_def BaseProtocolBuf_Clear_def Let_def buf_empty_def BaseProtocolBuf_has_srv_name_def)

lemma merge_empty [simp]: "buf_merge buf_empty b = b"
  by (simp add: buf_merge_def buf_empty_def)

text \<open>C18: the class \<open>BaseProtocolBuf\<close>, whose optional service name is a string and a bit of \<open>_has_bits_\<close>, implements a record of values with
  an optional name: construction, the setters, the operations on the name (set, clear, release, set from an allocated string), clearing, merging,
  copying, moving and swapping change what the accessors return as they change the record. Clearing gives the values of a new object; merging takes over the values of the other object that are set; copies, by construction, by assignment or by
  a move, have the values of the original; swapping exchanges them.\<close>

theorem BaseProtocolBuf_refines:
  "buf_view (BaseProtocolBuf_SharedCtor rt arena) = buf_empty \<and>
   buf_view (BaseProtocolBuf_Clear rt m) = buf_empty \<and>
   buf_view (BaseProtocolBuf_set_magic v m) = (buf_view m)\<lparr>b_magic := v\<rparr> \<and>
   buf_view (BaseProtocolBuf_set_version v m) = (buf_view m)\<lparr>b_version := v\<rparr> \<and>
   buf_view (BaseProtocolBuf_set_type v m) = (buf_view m)\<lparr>b_type := v\<rparr> \<and>
   buf_view (BaseProtocolBuf_set_req_id v m) = (buf_view m)\<lparr>b_req_id := v\<rparr> \<and>
   buf_view (BaseProtocolBuf_set_data_len v m) = (buf_view m)\<lparr>b_data_len := v\<rparr> \<and>
   buf_view (BaseProtocolBuf_set_srv_name s m) = (buf_view m)\<lparr>b_srv_name := Some s\<rparr> \<and>
   buf_view (BaseProtocolBuf_clear_srv_name m) = (buf_view m)\<lparr>b_srv_name := None\<rparr> \<and>
   buf_view (BaseProtocolBuf_set_allocated_srv_name x m) = (buf_view m)\<lparr>b_srv_name := x\<rparr> \<and>
   fst (BaseProtocolBuf_release_srv_name m) = b_srv_name (buf_view m) \<and>
   buf_view (snd (BaseProtocolBuf_release_srv_name m)) = (buf_view m)\<lparr>b_srv_name := None\<rparr> \<and>
   buf_view (BaseProtocolBuf_set_data s m) = (buf_view m)\<lparr>b_data := s\<rparr> \<and>
   buf_view (BaseProtocolBuf_MergeFrom rt m a) = buf_merge (buf_view m) (buf_view a) \<and>
   buf_view (BaseProtocolBuf_CopyFrom rt m a) = buf_view a \<and>
   buf_view (BaseProtocolBuf_copy rt a) = buf_view a \<and>
   buf_view (fst (BaseProtocolBuf_move_assign rt m a)) = buf_view a \<and>
   buf_view (fst (BaseProtocolBuf_move rt a)) = buf_view a \<and>
   map_prod buf_view buf_view (BaseProtocolBuf_InternalSwap m a) = (buf_view a, buf_view m)"
proof -
  have swap: "map_prod buf_view buf_view (BaseProtocolBuf_InternalSwap m a) = (buf_view a, buf_view m)" for m
    by (simp add: BaseProtocolBuf_InternalSwap_def buf_view_def BaseProtocolBuf_has_srv_name_def)
  then have "buf_view (fst (BaseProtocolBuf_InternalSwap m a)) = buf_view a" for m by (metis fst_conv fst_map_prod)
  then have "buf_view (fst (BaseProtocolBuf_move_assign rt m a)) = buf_view a" for m
    by (simp add: BaseProtocolBuf_move_assign_def BaseProtocolBuf_CopyFrom_def view_merge view_clear)
  moreover have "buf_view (BaseProtocolBuf_copy rt a) = buf_view a"
    by (simp add: BaseProtocolBuf_copy_def buf_view_def BaseProtocolBuf_has_srv_name_def)
  moreover have "buf_view (BaseProtocolBuf_clear_srv_name m) = (buf_view m)\<lparr>b_srv_name := None\<rparr>"
    "buf_view (BaseProtocolBuf_set_allocated_srv_name x m) = (buf_view m)\<lparr>b_srv_name := x\<rparr>"
    "fst (BaseProtocolBuf_release_srv_name m) = b_srv_name (buf_view m)"
    "buf_view (snd (BaseProtocolBuf_release_srv_name m)) = (buf_view m)\<lparr>b_srv_name := None\<rparr>"
    by (simp_all add: buf_view_def BaseProtocolBuf_clear_srv_name_def BaseProtocolBuf_set_allocated_srv_name_def
        BaseProtocolBuf_release_srv_name_def has_srv_name_simps has_srv_name_simps(2) [simplified] split: option.split)
  moreover have "buf_view (BaseProtocolBuf_SharedCtor rt arena) = buf_empty"
    by (simp add: buf_view_def buf_empty_def BaseProtocolBuf_SharedCtor_def BaseProtocolBuf_has_srv_name_def)
  ultimately show ?thesis
    using swap by (simp add: view_merge view_clear BaseProtocolBuf_CopyFrom_def BaseProtocolBuf_move_def)
qed

section \<open>Bytes\<close>

text \<open>A driver for the examples, and two envelopes: a request, and one that changes its number.\<close>

definition plain_driver :: "'m parse_driver" where
  "plain_driver clear parse s m = res_bind (parse s (clear m)) (\<lambda>(q, t, m'). Inr (q \<noteq> None, m'))"

lemma plain_driver_parses: "clears_and_parses plain_driver"
  by (simp add: clears_and_parses_def plain_driver_def)

definition request_envelope :: "byte list BaseProtocolBuf_Impl" where
  "request_envelope =
     BaseProtocolBuf_set_srv_name ''hello'' (BaseProtocolBuf_set_data ''data'' (BaseProtocolBuf_set_type kRequestCall
       (BaseProtocolBuf_set_req_id 1 (BaseProtocolBuf_SharedCtor wire_runtime 0))))"

definition number_envelope :: "byte list BaseProtocolBuf_Impl" where
  "number_envelope = BaseProtocolBuf_set_req_id 300 (BaseProtocolBuf_SharedCtor wire_runtime 0)"

lemma envelopes_known:
  "base_known wire_runtime request_envelope" "base_known wire_runtime number_envelope" "base_sized wire_runtime request_envelope"
  "length (i_srv_name request_envelope) = 5" "length (i_data request_envelope) = 4"
  "i_srv_name number_envelope = []" "i_data number_envelope = []" "BaseProtocolBuf_has_srv_name request_envelope"
  by (simp_all add: request_envelope_def number_envelope_def base_known_def base_sized_def wire_runtime_def ascii_def model_defs
      BaseProtocolBuf_has_srv_name_def)

lemma envelopes_view:
  "buf_view request_envelope = buf_empty\<lparr>b_type := kRequestCall, b_req_id := 1, b_srv_name := Some ''hello'', b_data := ''data''\<rparr>"
  "buf_view number_envelope = buf_empty\<lparr>b_req_id := 300\<rparr>"
  by (simp_all add: request_envelope_def number_envelope_def buf_view_def buf_empty_def model_defs BaseProtocolBuf_has_srv_name_def)

lemma base_SerializeAsString:
  assumes "pb_wire rt" "base_sized rt m" "length (i_srv_name m) + length (i_data m) < 2 ^ 31 - 42"
  shows "BaseProtocolBuf_SerializeAsString rt m = BaseProtocolBuf_InternalSerialize rt m []"
proof -
  note s = pb_wire.base_size [OF assms(1,2)]
  have "length (BaseProtocolBuf_InternalSerialize rt m []) < 2 ^ 31" using s(2) assms(3) by simp
  then show ?thesis
    using s(1) pb_wire.SerializeAsString [OF assms(1), of "BaseProtocolBuf_InternalSerialize rt m"]
    by (simp add: BaseProtocolBuf_SerializeAsString_def)
qed

lemma parsed_from_string:
  assumes "clears_and_parses pfs" "parse s (clear m) = Inr (q, t, m')"
  shows "\<exists>ok. pfs clear parse s m = Inr (ok, m') \<and> (q = None \<longrightarrow> \<not> ok)"
  using assms by (simp add: clears_and_parses_def)

lemma base_ParseFromString:
  assumes "clears_and_parses pfs" "BaseProtocolBuf_InternalParse (Suc (length s)) rt s (BaseProtocolBuf_Clear rt m) = Inr (q, t, m')"
  shows "\<exists>ok. BaseProtocolBuf_ParseFromString rt pfs s m = Inr (ok, m') \<and> (q = None \<longrightarrow> \<not> ok)"
  using parsed_from_string [of pfs "BaseProtocolBuf_InternalParse (Suc (length s)) rt"] assms
  by (simp add: BaseProtocolBuf_ParseFromString_def)

lemma hello_ParseFromString:
  assumes "clears_and_parses pfs" "HelloProtocolBuf_InternalParse (Suc (length s)) rt s (HelloProtocolBuf_Clear rt m) = Inr (q, t, m')"
  shows "\<exists>ok. HelloProtocolBuf_ParseFromString rt pfs s m = Inr (ok, m') \<and> (q = None \<longrightarrow> \<not> ok)"
  using parsed_from_string [of pfs "HelloProtocolBuf_InternalParse (Suc (length s)) rt"] assms
  by (simp add: HelloProtocolBuf_ParseFromString_def)

lemma world_ParseFromString:
  assumes "clears_and_parses pfs" "WorldProtocolBuf_InternalParse (Suc (length s)) rt s (WorldProtocolBuf_Clear rt m) = Inr (q, t, m')"
  shows "\<exists>ok. WorldProtocolBuf_ParseFromString rt pfs s m = Inr (ok, m') \<and> (q = None \<longrightarrow> \<not> ok)"
  using parsed_from_string [of pfs "WorldProtocolBuf_InternalParse (Suc (length s)) rt"] assms
  by (simp add: WorldProtocolBuf_ParseFromString_def)

lemma foldl_view: "buf_view (foldl (BaseProtocolBuf_MergeFrom rt) m as) = foldl buf_merge (buf_view m) (map buf_view as)"
  by (induction as arbitrary: m) (simp_all add: view_merge)

text \<open>C15: what envelopes are serialised to, others are parsed from, with every library that keeps to the wire format: \<open>ParseFromString\<close> on the
  concatenation of what \<open>SerializeAsString\<close> returns for any number of objects, into an object with any contents, leaves in it the values
  of all of them merged in order. For one object these are its values. The objects have no unknown fields, a name that is set is valid UTF-8 text
  (parsing stops behind one that is not), and name and payload together are more than 42 bytes shorter than \<open>2 ^ 31\<close>.\<close>

theorem serialized_messages_merge:
  assumes "pb_wire rt" "clears_and_parses pfs"
    and "\<forall>a \<in> set as. base_known rt a \<and> length (i_srv_name a) + length (i_data a) < 2 ^ 31 - 42"
  shows "\<exists>ok m. BaseProtocolBuf_ParseFromString rt pfs (concat (map (BaseProtocolBuf_SerializeAsString rt) as)) old = Inr (ok, m) \<and>
    buf_view m = foldl buf_merge buf_empty (map buf_view as)"
proof -
  let ?s = "concat (map (\<lambda>a. BaseProtocolBuf_InternalSerialize rt a []) as)" and ?m = "BaseProtocolBuf_Clear rt old"
  have s: "concat (map (BaseProtocolBuf_SerializeAsString rt) as) = ?s"
    using assms(3) base_SerializeAsString [OF assms(1) base_known_sized] by (simp cong: map_cong)
  have "BaseProtocolBuf_InternalParse (Suc (length ?s)) rt ?s ?m = Inr (Some [], None, foldl (BaseProtocolBuf_MergeFrom rt) ?m as)"
    using assms(3) by (intro pb_wire.base_parse_messages [OF assms(1)]) auto
  from base_ParseFromString [OF assms(2) this] show ?thesis
    unfolding s by (auto simp: foldl_view view_clear)
qed

theorem serialized_messages_merge_witness:
  "\<exists>ok m. BaseProtocolBuf_ParseFromString wire_runtime plain_driver
     (BaseProtocolBuf_SerializeAsString wire_runtime request_envelope @ BaseProtocolBuf_SerializeAsString wire_runtime number_envelope)
     number_envelope = Inr (ok, m) \<and> b_req_id (buf_view m) = 300 \<and> b_srv_name (buf_view m) = Some ''hello''"
proof -
  have "\<forall>a \<in> set [request_envelope, number_envelope]. base_known wire_runtime a \<and> length (i_srv_name a) + length (i_data a) < 2 ^ 31 - 42"
    by (simp add: envelopes_known)
  from serialized_messages_merge [OF wire.pb_wire_axioms plain_driver_parses this, of number_envelope] show ?thesis
    by (auto simp: envelopes_view buf_merge_def buf_empty_def)
qed

text \<open>C17: parsing ends on every input. Whatever bytes arrive and whatever an object holds, \<open>ParseFromString\<close> of each of the three generated classes returns: its loop takes
  at most as many turns as there are bytes, and it never reads through a null pointer.\<close>

theorem parse_any_bytes:
  assumes "pb_wire rt" "clears_and_parses pfb" "clears_and_parses pfh" "clears_and_parses pfw"
  shows "(\<exists>r. BaseProtocolBuf_ParseFromString rt pfb s b = Inr r) \<and> (\<exists>r. HelloProtocolBuf_ParseFromString rt pfh s h = Inr r) \<and>
    (\<exists>r. WorldProtocolBuf_ParseFromString rt pfw s w = Inr r)"
proof -
  have n: "length s < Suc (length s)" by simp
  obtain rb rh rw where r: "BaseProtocolBuf_InternalParse (Suc (length s)) rt s (BaseProtocolBuf_Clear rt b) = Inr rb"
    "HelloProtocolBuf_InternalParse (Suc (length s)) rt s (HelloProtocolBuf_Clear rt h) = Inr rh"
    "WorldProtocolBuf_InternalParse (Suc (length s)) rt s (WorldProtocolBuf_Clear rt w) = Inr rw"
    using pb_wire.base_parse_returns [OF assms(1) n] pb_wire.hello_parse_returns [OF assms(1) n]
      pb_wire.world_parse_returns [OF assms(1) n] by metis
  show ?thesis
    using base_ParseFromString [OF assms(2), of s rt b] hello_ParseFromString [OF assms(3), of s rt h]
      world_ParseFromString [OF assms(4), of s rt w] r by (metis prod_cases3)
qed

theorem parse_any_bytes_witness:
  "\<exists>r. BaseProtocolBuf_ParseFromString wire_runtime plain_driver [CHR 0x3A, CHR 0xFF, CHR 0x00] number_envelope = Inr r"
  using parse_any_bytes [OF wire.pb_wire_axioms plain_driver_parses plain_driver_parses plain_driver_parses] by blast

text \<open>C16: the size of an envelope is known before it is written: \<open>ByteSizeLong\<close> is the number of bytes that \<open>_InternalSerialize\<close> writes, which is at
  most 42 more than the strings have. A zero byte, at which the receiver would cut the message off, occurs in them exactly if there is one inside the name or the payload, or if the name is
  set but empty, since its length is then written as a zero byte: numbers that are zero are left out, and no other number has a zero byte. The envelope has no unknown
  fields, and its strings are shorter than \<open>2 ^ 31\<close> bytes.\<close>

theorem serialized_size:
  assumes "pb_wire rt" "base_sized rt m"
  shows "fst (BaseProtocolBuf_ByteSizeLong rt m) = of_nat (length (BaseProtocolBuf_InternalSerialize rt m [])) \<and>
    length (BaseProtocolBuf_InternalSerialize rt m []) \<le> 42 + length (i_srv_name m) + length (i_data m) \<and>
    (nul \<in> set (BaseProtocolBuf_InternalSerialize rt m []) \<longleftrightarrow>
      BaseProtocolBuf_has_srv_name m \<and> (i_srv_name m = [] \<or> nul \<in> set (i_srv_name m)) \<or> nul \<in> set (i_data m))"
  using pb_wire.base_size [OF assms(1,2)] pb_wire.base_zero_bytes [OF assms(1,2)] by blast

theorem serialized_size_witness:
  "length (BaseProtocolBuf_InternalSerialize wire_runtime request_envelope []) \<le> 51 \<and>
   nul \<notin> set (BaseProtocolBuf_InternalSerialize wire_runtime request_envelope [])"
proof -
  have "i_srv_name request_envelope = ''hello''" "i_data request_envelope = ''data''"
    by (simp_all add: request_envelope_def model_defs)
  then show ?thesis
    using serialized_size [OF wire.pb_wire_axioms envelopes_known(3)] by (simp add: nul_def)
qed

section \<open>The serialisers\<close>

text \<open>\<open>SerializerHandler<Protocol>\<close>: the setters that \<open>Serialize\<close> calls on a new envelope, and the accessors that \<open>Deserialize\<close> reads after
  \<open>ParseFromString\<close>.\<close>

definition envelope :: "'u pb_runtime \<Rightarrow> Protocol \<Rightarrow> 'u BaseProtocolBuf_Impl" where
  "envelope rt p =
     (let buf = BaseProtocolBuf_SharedCtor rt 0;
          buf = BaseProtocolBuf_set_magic (p_magic p) buf;
          buf = BaseProtocolBuf_set_version (p_version p) buf;
          buf = BaseProtocolBuf_set_type (p_type p) buf;
          buf = BaseProtocolBuf_set_data_len (p_data_len p) buf;
          buf = BaseProtocolBuf_set_data (p_data p) buf;
          buf = BaseProtocolBuf_set_req_id (p_req_id p) buf
      in if p_srv_name p \<noteq> [] then BaseProtocolBuf_set_srv_name (p_srv_name p) buf else buf)"

text \<open>The parameters of the other theories: an envelope with given values is serialised, and the values of the envelope that is parsed are returned.\<close>

definition pb_object :: "'u pb_runtime \<Rightarrow> BaseProtocolBuf \<Rightarrow> 'u BaseProtocolBuf_Impl" where
  "pb_object rt b =
     \<lparr>internal_metadata = rt_no_unknown_fields rt, owning_arena = 0, i_has_bits = (if b_srv_name b = None then 0 else 1), i_cached_size = 0,
      i_srv_name = (case b_srv_name b of None \<Rightarrow> [] | Some s \<Rightarrow> s), i_data = b_data b, i_magic = b_magic b, i_version = b_version b,
      i_type = b_type b, i_req_id = b_req_id b, i_data_len = b_data_len b\<rparr>"

definition pb_ser :: "'u pb_runtime \<Rightarrow> BaseProtocolBuf \<Rightarrow> string" where
  "pb_ser rt b = BaseProtocolBuf_SerializeAsString rt (pb_object rt b)"

definition pb_parse :: "'u pb_runtime \<Rightarrow> 'u BaseProtocolBuf_Impl parse_driver \<Rightarrow> string \<Rightarrow> BaseProtocolBuf" where
  "pb_parse rt pfs s =
     (case BaseProtocolBuf_ParseFromString rt pfs s (BaseProtocolBuf_SharedCtor rt 0) of
        Inr (ok, m) \<Rightarrow> buf_view m
      | Inl _ \<Rightarrow> buf_empty)"

definition pb_codec ::
    "'u pb_runtime \<Rightarrow> 'u HelloProtocolBuf_Impl parse_driver \<Rightarrow> 'u WorldProtocolBuf_Impl parse_driver \<Rightarrow> payload_codec" where
  "pb_codec rt pfh pfw =
     \<lparr>hello_ser = (\<lambda>name. HelloProtocolBuf_SerializeAsString rt (HelloProtocolBuf_set_name name (HelloProtocolBuf_SharedCtor rt 0))),
      hello_parse = (\<lambda>s. case HelloProtocolBuf_ParseFromString rt pfh s (HelloProtocolBuf_SharedCtor rt 0) of
         Inr (ok, m) \<Rightarrow> HelloProtocolBuf_name m | Inl _ \<Rightarrow> []),
      world_ser = (\<lambda>result. WorldProtocolBuf_SerializeAsString rt (WorldProtocolBuf_set_result result (WorldProtocolBuf_SharedCtor rt 0))),
      world_parse = (\<lambda>s. case WorldProtocolBuf_ParseFromString rt pfw s (WorldProtocolBuf_SharedCtor rt 0) of
         Inr (ok, m) \<Rightarrow> WorldProtocolBuf_result m | Inl _ \<Rightarrow> 0)\<rparr>"

lemma envelope_object: "envelope rt p = pb_object rt (to_buf p)"
  by (simp add: envelope_def pb_object_def to_buf_def Let_def model_defs)

lemma view_object: "buf_view (pb_object rt b) = b"
  by (cases "b_srv_name b") (simp_all add: pb_object_def buf_view_def BaseProtocolBuf_has_srv_name_def)

lemma Serialize_envelope: "SerializerHandler_Serialize (pb_ser rt) p = BaseProtocolBuf_SerializeAsString rt (envelope rt p)"
  by (simp add: SerializerHandler_Serialize_def pb_ser_def envelope_object)

text \<open>A message that protobuf can carry: its name is text, and its strings have at most 9900 bytes, none of them zero.\<close>

definition carried :: "'u pb_runtime \<Rightarrow> Protocol \<Rightarrow> bool" where
  "carried rt p \<longleftrightarrow> (p_srv_name p \<noteq> [] \<longrightarrow> rt_VerifyUTF8 rt (p_srv_name p)) \<and> length (p_srv_name p) + length (p_data p) \<le> 9900 \<and>
     nul \<notin> set (p_srv_name p) \<and> nul \<notin> set (p_data p) \<and> p_magic p \<noteq> 0"

lemma pb_roundtrip:
  assumes "pb_wire rt" "clears_and_parses pfs" and a: "base_known rt (pb_object rt b)"
    "length (i_srv_name (pb_object rt b)) + length (b_data b) < 2 ^ 31 - 42"
  shows "pb_parse rt pfs (pb_ser rt b) = b"
proof -
  let ?a = "pb_object rt b" and ?m = "BaseProtocolBuf_Clear rt (BaseProtocolBuf_SharedCtor rt 0)"
  have s: "pb_ser rt b = BaseProtocolBuf_InternalSerialize rt ?a []"
    unfolding pb_ser_def using a by (intro base_SerializeAsString base_known_sized assms(1)) (simp_all add: pb_object_def)
  have "BaseProtocolBuf_InternalParse (Suc (length (pb_ser rt b))) rt (pb_ser rt b) ?m =
      Inr (Some [], None, BaseProtocolBuf_MergeFrom rt ?m ?a)"
    using pb_wire.base_parse_messages [OF assms(1), of "[?a]" "Suc (length (pb_ser rt b))" ?m] a(1) by (simp add: s)
  from base_ParseFromString [OF assms(2) this] show ?thesis
    by (auto simp: pb_parse_def view_merge view_clear view_object)
qed

lemma carried_known: "pb_wire rt \<Longrightarrow> carried rt p \<Longrightarrow> base_known rt (pb_object rt (to_buf p))"
  using pb_wire.no_unknown_fields [of rt]
  by (auto simp: carried_def base_known_def base_sized_def pb_object_def to_buf_def BaseProtocolBuf_has_srv_name_def)

lemma pb_wire_ok:
  assumes "pb_wire rt" "clears_and_parses pfs" "carried rt p"
  shows "wire_ok (pb_ser rt) (pb_parse rt pfs) p"
proof -
  let ?a = "pb_object rt (to_buf p)"
  note k = carried_known [OF assms(1,3)]
  have f: "i_srv_name ?a = p_srv_name p" "i_data ?a = p_data p" "i_magic ?a = p_magic p" "b_data (to_buf p) = p_data p"
    "BaseProtocolBuf_has_srv_name ?a \<longleftrightarrow> p_srv_name p \<noteq> []"
    by (simp_all add: pb_object_def to_buf_def BaseProtocolBuf_has_srv_name_def)
  have c: "length (p_srv_name p) + length (p_data p) \<le> 9900" "nul \<notin> set (p_srv_name p)" "nul \<notin> set (p_data p)" "p_magic p \<noteq> 0"
    using assms(3) by (simp_all add: carried_def)
  have s: "pb_ser rt (to_buf p) = BaseProtocolBuf_InternalSerialize rt ?a []"
    unfolding pb_ser_def using c f by (intro base_SerializeAsString base_known_sized assms(1) k) simp
  have "0 < length (rt_WriteUInt32ToArray rt 1 (p_magic p))" using pb_wire.uint32_field(3) [OF assms(1), of 1] by simp
  then have "BaseProtocolBuf_InternalSerialize rt ?a [] \<noteq> []" using c(4) f(3) by (simp add: base_pieces)
  moreover have "length (BaseProtocolBuf_InternalSerialize rt ?a []) < 10000"
    using pb_wire.base_size(2) [OF assms(1) base_known_sized [OF k]] c(1) f by simp
  moreover have "nul \<notin> set (BaseProtocolBuf_InternalSerialize rt ?a [])"
    using pb_wire.base_zero_bytes [OF assms(1) base_known_sized [OF k]] c f by simp
  moreover have "pb_parse rt pfs (pb_ser rt (to_buf p)) = to_buf p"
    using c(1) f by (intro pb_roundtrip assms(1,2) k) simp
  ultimately show ?thesis by (simp add: wire_ok_def s)
qed

lemma pb_payloads:
  assumes "pb_wire rt" "clears_and_parses pfh" "clears_and_parses pfw" and arg: "rt_VerifyUTF8 rt arg" "length arg < 2 ^ 31 - 6"
  shows "hello_parse (pb_codec rt pfh pfw) (hello_ser (pb_codec rt pfh pfw) arg) = arg"
    "length (hello_ser (pb_codec rt pfh pfw) arg) \<le> 6 + length arg"
    "nul \<in> set (hello_ser (pb_codec rt pfh pfw) arg) \<longleftrightarrow> nul \<in> set arg"
    "world_parse (pb_codec rt pfh pfw) (world_ser (pb_codec rt pfh pfw) v) = v"
    "length (world_ser (pb_codec rt pfh pfw) v) \<le> 11" "nul \<notin> set (world_ser (pb_codec rt pfh pfw) v)"
proof -
  let ?h = "HelloProtocolBuf_set_name arg (HelloProtocolBuf_SharedCtor rt 0)"
  let ?w = "WorldProtocolBuf_set_result v (WorldProtocolBuf_SharedCtor rt 0)"
  have k: "hello_known rt ?h" "world_known rt ?w"
    using arg pb_wire.no_unknown_fields [OF assms(1)]
    by (simp_all add: hello_known_def world_known_def HelloProtocolBuf_set_name_def HelloProtocolBuf_SharedCtor_def
        WorldProtocolBuf_set_result_def WorldProtocolBuf_SharedCtor_def)
  note hs = pb_wire.hello_size [OF assms(1) k(1)] and ws = pb_wire.world_size [OF assms(1) k(2)]
  have n: "i_name ?h = arg" by (simp add: HelloProtocolBuf_set_name_def)
  have h: "hello_ser (pb_codec rt pfh pfw) arg = HelloProtocolBuf_InternalSerialize rt ?h []"
    using hs(1,2) arg(2) n pb_wire.SerializeAsString [OF assms(1), of "HelloProtocolBuf_InternalSerialize rt ?h"]
    by (simp add: pb_codec_def HelloProtocolBuf_SerializeAsString_def)
  have w: "world_ser (pb_codec rt pfh pfw) v = WorldProtocolBuf_InternalSerialize rt ?w []"
    using ws(1,2) pb_wire.SerializeAsString [OF assms(1), of "WorldProtocolBuf_InternalSerialize rt ?w"]
    by (simp add: pb_codec_def WorldProtocolBuf_SerializeAsString_def)
  show "length (hello_ser (pb_codec rt pfh pfw) arg) \<le> 6 + length arg"
    "nul \<in> set (hello_ser (pb_codec rt pfh pfw) arg) \<longleftrightarrow> nul \<in> set arg"
    "length (world_ser (pb_codec rt pfh pfw) v) \<le> 11" "nul \<notin> set (world_ser (pb_codec rt pfh pfw) v)"
    using hs ws n by (simp_all add: h w)
  show "hello_parse (pb_codec rt pfh pfw) (hello_ser (pb_codec rt pfh pfw) arg) = arg"
    using hello_ParseFromString [OF assms(2) pb_wire.hello_parse_message [OF assms(1) k(1) lessI], of "HelloProtocolBuf_SharedCtor rt 0"] n
    unfolding h by (auto simp: pb_codec_def HelloProtocolBuf_MergeFrom_def HelloProtocolBuf_set_name_def HelloProtocolBuf_Clear_def Let_def)
  show "world_parse (pb_codec rt pfh pfw) (world_ser (pb_codec rt pfh pfw) v) = v"
    using world_ParseFromString [OF assms(3) pb_wire.world_parse_message [OF assms(1) k(2) lessI], of "WorldProtocolBuf_SharedCtor rt 0"]
    unfolding w by (auto simp: pb_codec_def WorldProtocolBuf_MergeFrom_def WorldProtocolBuf_set_result_def WorldProtocolBuf_Clear_def Let_def)
qed

section \<open>A name that is not text\<close>

lemma base_parse_bad_name:
  assumes "pb_wire rt" "base_sized rt a" and a: "BaseProtocolBuf_has_srv_name a" "\<not> rt_VerifyUTF8 rt (i_srv_name a)"
  shows "\<exists>m'. BaseProtocolBuf_InternalParse (base_fields a + n) rt (BaseProtocolBuf_InternalSerialize rt a []) m = Inr (None, None, m') \<and>
    buf_view m' = buf_merge (buf_view m) ((buf_view a)\<lparr>b_data := []\<rparr>)"
proof -
  let ?m = "if i_magic a \<noteq> 0 then BaseProtocolBuf_set_magic (i_magic a) m else m"
  let ?m = "if i_version a \<noteq> 0 then BaseProtocolBuf_set_version (i_version a) ?m else ?m"
  let ?m = "if i_type a \<noteq> 0 then BaseProtocolBuf_set_type (i_type a) ?m else ?m"
  let ?m = "if i_req_id a \<noteq> 0 then BaseProtocolBuf_set_req_id (i_req_id a) ?m else ?m"
  let ?m = "if i_data_len a \<noteq> 0 then BaseProtocolBuf_set_data_len (i_data_len a) ?m else ?m"
  have f: "parse_loop (Suc k) rt (BaseProtocolBuf_switch rt) (rt_WriteStringMaybeAliased rt 6 (i_srv_name a) @ p) ?m =
      Inr (None, None, BaseProtocolBuf_set_srv_name (i_srv_name a) ?m)" for k p
    using pb_wire.loop_string [OF assms(1), of 6 "BaseProtocolBuf_switch rt" ?m "rt_VerifyUTF8 rt" i_srv_name
        "\<lambda>s. BaseProtocolBuf_mutable_srv_name (\<lambda>_. s)" "i_srv_name a" k p] a(2) assms(2)
    by (simp add: base_switch [simplified] base_sized_def BaseProtocolBuf_mutable_srv_name_def BaseProtocolBuf_set_srv_name_def del: if_split)
  have "BaseProtocolBuf_InternalParse (base_fields a + n) rt (BaseProtocolBuf_InternalSerialize rt a []) m =
      Inr (None, None, BaseProtocolBuf_set_srv_name (i_srv_name a) ?m)"
    unfolding base_parse_loop base_pieces base_fields_def add.assoc append_assoc append_Nil pb_wire.base_loop_numbers [OF assms(1)]
    using a(1) f by (simp del: if_split parse_loop.simps)
  moreover have "buf_view (BaseProtocolBuf_set_srv_name (i_srv_name a) ?m) = buf_merge (buf_view m) ((buf_view a)\<lparr>b_data := []\<rparr>)"
    using a(1) by (simp add: if_distrib [of buf_view]) (simp add: buf_merge_def buf_view_def)
  ultimately show ?thesis by blast
qed

text \<open>C40: a service name that is not valid text costs the payload. \<open>SerializeAsString\<close> writes such a name all the same; \<open>ParseFromString\<close> on the other side fails
  behind it and before the payload, and \<open>Deserialize\<close> does not look at its result: the receiver gets a message with the type, the number and the name
  of the original and an empty payload.\<close>

theorem invalid_name_loses_payload:
  assumes "pb_wire rt" "clears_and_parses pfs" and p: "p_srv_name p \<noteq> []" "\<not> rt_VerifyUTF8 rt (p_srv_name p)"
    "length (p_srv_name p) + length (p_data p) < 2 ^ 31 - 42"
  shows "SerializerHandler_Deserialize (pb_parse rt pfs) (SerializerHandler_Serialize (pb_ser rt) p) = as_received (p\<lparr>p_data := []\<rparr>) \<and>
    (\<exists>m. BaseProtocolBuf_ParseFromString rt pfs (SerializerHandler_Serialize (pb_ser rt) p) old = Inr (False, m))"
proof -
  let ?a = "pb_object rt (to_buf p)" and ?s = "SerializerHandler_Serialize (pb_ser rt) p"
  have f: "i_srv_name ?a = p_srv_name p" "i_data ?a = p_data p" "BaseProtocolBuf_has_srv_name ?a"
    using p by (simp_all add: pb_object_def to_buf_def BaseProtocolBuf_has_srv_name_def)
  have z: "base_sized rt ?a" using p(3) f pb_wire.no_unknown_fields [OF assms(1)] by (simp add: base_sized_def) (simp add: pb_object_def)
  have s: "?s = BaseProtocolBuf_InternalSerialize rt ?a []"
    using base_SerializeAsString [OF assms(1) z] p(3) f by (simp add: SerializerHandler_Serialize_def pb_ser_def)
  obtain n where n: "Suc (length ?s) = base_fields ?a + n"
    using pb_wire.base_few_fields [OF assms(1) z] le_Suc_ex [of "base_fields ?a" "Suc (length ?s)"] s by auto
  have "\<exists>m. BaseProtocolBuf_ParseFromString rt pfs ?s b = Inr (False, m) \<and> buf_view m = (to_buf p)\<lparr>b_data := []\<rparr>" for b
  proof -
    obtain m where m: "BaseProtocolBuf_InternalParse (Suc (length ?s)) rt ?s (BaseProtocolBuf_Clear rt b) = Inr (None, None, m)"
        "buf_view m = (to_buf p)\<lparr>b_data := []\<rparr>"
      using base_parse_bad_name [OF assms(1) z, of n "BaseProtocolBuf_Clear rt b"] p(2) f unfolding s n [unfolded s]
      by (auto simp: view_clear view_object)
    from base_ParseFromString [OF assms(2) m(1)] m(2) show ?thesis by auto
  qed
  note parsed = this
  from parsed [of "BaseProtocolBuf_SharedCtor rt 0"] have "pb_parse rt pfs ?s = to_buf (p\<lparr>p_data := []\<rparr>)"
    by (auto simp: pb_parse_def to_buf_def)
  then have "SerializerHandler_Deserialize (pb_parse rt pfs) ?s = as_received (p\<lparr>p_data := []\<rparr>)" by (rule Deserialize_to_buf)
  then show ?thesis using parsed [of old] by blast
qed

theorem invalid_name_loses_payload_witness:
  "p_data (SerializerHandler_Deserialize (pb_parse wire_runtime plain_driver)
     (SerializerHandler_Serialize (pb_ser wire_runtime) (hello_call\<lparr>p_srv_name := [CHR 0xFF]\<rparr>))) = []"
proof -
  have "\<not> rt_VerifyUTF8 wire_runtime [CHR 0xFF]" by (simp add: wire_runtime_def ascii_def)
  then show ?thesis
    using invalid_name_loses_payload [OF wire.pb_wire_axioms plain_driver_parses, of "hello_call\<lparr>p_srv_name := [CHR 0xFF]\<rparr>" number_envelope]
    by (simp add: hello_call_def Protocol_Create_def Protocol_Protocol_def)
qed

end
