(* ===== verification/Server_Sharing.thy ===== *)
theory Server_Sharing
  imports Rpc_Server
begin

text \<open>
  Several connections of one server. \<open>NetworkServer\<close> (\<open>include/net/server.h\<close>) has one request handler and one
  response handler, and the coroutine of every connection uses them: it stores its socket in both, reads a message
  through the one and answers through the other. A coroutine can be suspended wherever it waits for bytes, and the
  handlers may then hold the socket of another connection when it goes on.

  A state holds the shared handlers, the sockets stored in them (connections are numbers), for each connection where
  its coroutine is, the bytes that have arrived, and whether its socket is connected, and the messages sent so far with the connection they
  were sent on. The steps are the parts of a turn between two points of suspension; reading is one step once the bytes
  are there. What happens to a single connection is modelled in full in theory \<open>Rpc_Server\<close>.
\<close>

section \<open>The shared server\<close>

text \<open>The program around the server: serialisers, traits and service functions.\<close>

record server_code =
  sc_ser :: "BaseProtocolBuf \<Rightarrow> string"
  sc_parse :: "string \<Rightarrow> BaseProtocolBuf"
  sc_pc :: payload_codec
  sc_pm :: ProtocolManager
  sc_hs :: handlers

text \<open>Where the coroutine of a connection is: before a turn, waiting for a header or for a body of some length from the
  connection whose socket it found in the request handler, or finished.\<close>

datatype conn_phase = Turn | Header nat | Body nat nat | Finished

record server_st =
  sv_ns :: NetworkServer
  sv_req_sock :: nat
  sv_resp_sock :: nat
  sv_phase :: "nat \<Rightarrow> conn_phase"
  sv_in :: "nat \<Rightarrow> byte list"
  sv_open :: "nat \<Rightarrow> bool"
  sv_out :: "(nat \<times> Protocol) list"

text \<open>The end of a turn: \<open>if (!client_sock->connected()) break;\<close>.\<close>

definition sv_finish :: "nat \<Rightarrow> server_st \<Rightarrow> server_st" where
  "sv_finish c s = s\<lparr>sv_phase := (sv_phase s)(c := (if sv_open s c then Turn else Finished))\<rparr>"

definition sv_begin :: "nat \<Rightarrow> server_st \<Rightarrow> server_st" where
  "sv_begin c s = s\<lparr>sv_req_sock := c, sv_resp_sock := c, sv_phase := (sv_phase s)(c := Header c)\<rparr>"

text \<open>No message: the request handler is left in its error state, in which the callback and \<open>OnNewConn\<close> do nothing.\<close>

definition sv_fail :: "nat \<Rightarrow> server_st \<Rightarrow> server_st" where
  "sv_fail c s = sv_finish c (s\<lparr>sv_ns := (sv_ns s)\<lparr>ns_req_protocol := None, ns_state := 1, ns_error := 1\<rparr>\<rparr>)"

text \<open>The header has been read from \<open>d\<close>; the body is read from the socket the handler holds now.\<close>

definition sv_header :: "nat \<Rightarrow> nat \<Rightarrow> server_st \<Rightarrow> server_st res" where
  "sv_header c d s =
     (let data_len = atoi (take 4 (sv_in s d) @ [nul]); s1 = s\<lparr>sv_in := (sv_in s)(d := drop 4 (sv_in s d))\<rparr> in
      if data_len = 0 then Inr (sv_fail c s1)
      else if data_len < 0 then Inl OutOfBounds
      else Inr (s1\<lparr>sv_phase := (sv_phase s)(c := Body (sv_req_sock s) (nat data_len))\<rparr>))"

text \<open>The peer of \<open>d\<close> has closed: the socket the handler holds now is closed.\<close>

definition sv_eof :: "nat \<Rightarrow> server_st \<Rightarrow> server_st" where
  "sv_eof c s = sv_fail c (s\<lparr>sv_open := (sv_open s)(sv_req_sock s := False)\<rparr>)"

text \<open>The body has been read from \<open>d\<close>: the message is dispatched and the answer, if there is one, is sent on the socket
  the response handler holds now.\<close>

definition sv_body :: "server_code \<Rightarrow> nat \<Rightarrow> nat \<Rightarrow> nat \<Rightarrow> server_st \<Rightarrow> server_st res" where
  "sv_body k c d n s =
     (let p = RpcProtocol_Decode (sc_parse k) (take n (sv_in s d) @ [nul]) (int n);
          ns = (sv_ns s)\<lparr>ns_req_protocol := Some p\<rparr>
      in res_bind (RpcServerProvider_OnNewConn (sc_pc k) (sc_pm k) (sc_hs k) ns) (\<lambda>ns'.
           Inr (sv_finish c (s\<lparr>sv_ns := ns', sv_in := (sv_in s)(d := drop n (sv_in s d)),
             sv_out := sv_out s @
               (case ns_resp_protocol ns' of
                  Some r \<Rightarrow> if ns_error ns' \<noteq> 1 \<and> RpcProtocol_Encode (sc_ser k) r \<noteq> [] then [(sv_resp_sock s, r)] else []
                | None \<Rightarrow> [])\<rparr>))))"

inductive srv_step :: "server_code \<Rightarrow> server_st \<Rightarrow> server_st \<Rightarrow> bool" for k where
  srv_begin: "sv_phase s c = Turn \<Longrightarrow> srv_step k s (sv_begin c s)"
| srv_header: "sv_phase s c = Header d \<Longrightarrow> 4 \<le> length (sv_in s d) \<Longrightarrow> sv_header c d s = Inr s' \<Longrightarrow> srv_step k s s'"
| srv_eof: "sv_phase s c = Header d \<Longrightarrow> sv_in s d = [] \<Longrightarrow> srv_step k s (sv_eof c s)"
| srv_body: "sv_phase s c = Body d n \<Longrightarrow> n \<le> length (sv_in s d) \<Longrightarrow> sv_body k c d n s = Inr s' \<Longrightarrow> srv_step k s s'"
| srv_fail: "sv_phase s c = Header d \<or> sv_phase s c = Body d n \<Longrightarrow> srv_step k s (sv_fail c s)"

section \<open>Turns that do not overlap\<close>

definition sv_turn :: "server_code \<Rightarrow> nat \<Rightarrow> server_st \<Rightarrow> server_st res" where
  "sv_turn k c s =
     res_bind (sv_header c c (sv_begin c s)) (\<lambda>s1.
       case sv_phase s1 c of Body d n \<Rightarrow> sv_body k c d n s1 | _ \<Rightarrow> Inr s1)"

primrec run_turns :: "server_code \<Rightarrow> nat list \<Rightarrow> server_st \<Rightarrow> server_st res" where
  "run_turns k [] s = Inr s"
| "run_turns k (c # cs) s = res_bind (sv_turn k c s) (run_turns k cs)"

text \<open>A call that can be answered, with the payload of its answer.\<close>

definition good_call :: "server_code \<Rightarrow> (Protocol \<Rightarrow> string) \<Rightarrow> Protocol \<Rightarrow> bool" where
  "good_call k ans p \<longleftrightarrow>
     created p \<and> sc_parse k (sc_ser k (to_buf p)) = to_buf p \<and> nul \<notin> set (sc_ser k (to_buf p)) \<and>
     sc_ser k (to_buf p) \<noteq> [] \<and> length (sc_ser k (to_buf p)) < 10000 \<and> p_type p = kRequestCall \<and>
     (\<forall>ns. call_answer (sc_pc k) (sc_hs k) p ns = Some (ans p)) \<and>
     (\<forall>f. sc_hs k (p_srv_name p) = Some f \<longrightarrow> sc_pm k (p_srv_name p) = Some HelloSrvTraits) \<and>
     length (sc_ser k (to_buf (answer_msg (sc_hs k) p (ans p)))) < 10000"

lemma Encode_not_empty: "length (ser (to_buf p)) < 10000 \<Longrightarrow> RpcProtocol_Encode ser p \<noteq> []"
  using Encode_frame(1) [of ser p] by (auto simp: SerializerHandler_Serialize_def)

lemma turn_answers:
  assumes g: "good_call k ans p" "handler_ok (sc_hs k)" and c: "sv_open s c" "ns_error (sv_ns s) \<noteq> 1"
    and wire: "sv_in s c = RpcProtocol_Encode (sc_ser k) p @ rest"
  shows "\<exists>ns. sv_turn k c s = Inr (s\<lparr>sv_ns := ns, sv_req_sock := c, sv_resp_sock := c,
      sv_phase := (sv_phase s)(c := Turn), sv_in := (sv_in s)(c := rest),
      sv_out := sv_out s @ [(c, answer_msg (sc_hs k) p (ans p))]\<rparr>) \<and> ns_error ns \<noteq> 1"
proof -
  let ?b = "sc_ser k (to_buf p)" and ?f = "RpcProtocol_Encode (sc_ser k) p"
  have len: "length (SerializerHandler_Serialize (sc_ser k) p) < 10000" "?b \<noteq> []"
    using g(1) by (simp_all add: good_call_def SerializerHandler_Serialize_def)
  note f = Encode_frame [OF len(1), unfolded SerializerHandler_Serialize_def]
  let ?ns = "(sv_ns s)\<lparr>ns_req_protocol := Some p\<rparr>"
  obtain ns where ns: "RpcServerProvider_OnNewConn (sc_pc k) (sc_pm k) (sc_hs k) ?ns = Inr ns" "ns_error ns \<noteq> 1"
    "ns_resp_protocol ns = Some (answer_msg (sc_hs k) p (ans p))"
    using OnNewConn_answers [of ?ns p "sc_hs k" "sc_pm k" "sc_pc k" "ans p"] g c(2) by (auto simp: good_call_def)
  let ?s1 = "(sv_begin c s)\<lparr>sv_in := (sv_in s)(c := ?b @ rest), sv_phase := (sv_phase s)(c := Body c (length ?b))\<rparr>"
  have hdr: "sv_header c c (sv_begin c s) = Inr ?s1"
    using wire f len(2) by (simp add: sv_header_def sv_begin_def Let_def)
  have dec: "RpcProtocol_Decode (sc_parse k) (?b @ [nul]) n = p" for n
    using c_str_terminated [of ?b] Deserialize_to_buf [of "sc_parse k" ?b p] g(1)
    by (simp add: good_call_def RpcProtocol_Decode_def created_def)
  have enc: "RpcProtocol_Encode (sc_ser k) (answer_msg (sc_hs k) p (ans p)) \<noteq> []"
    using g(1) by (intro Encode_not_empty) (simp add: good_call_def)
  have "sv_turn k c s = sv_body k c c (length ?b) ?s1" by (simp add: sv_turn_def hdr)
  then show ?thesis
    using ns enc c(1) by (intro exI [of _ ns]) (simp add: sv_body_def dec sv_begin_def sv_finish_def Let_def)
qed

lemma turn_steps:
  assumes "sv_turn k c s = Inr s'" "sv_phase s c = Turn" "4 \<le> length (sv_in s c)"
    and "\<And>s1 d n. sv_header c c (sv_begin c s) = Inr s1 \<Longrightarrow> sv_phase s1 c = Body d n \<Longrightarrow> n \<le> length (sv_in s1 d)"
  shows "(srv_step k)\<^sup>*\<^sup>* s s'"
proof -
  have 1: "srv_step k s (sv_begin c s)" by (rule srv_begin [OF assms(2)])
  obtain s1 where s1: "sv_header c c (sv_begin c s) = Inr s1"
    and s': "(case sv_phase s1 c of Body d n \<Rightarrow> sv_body k c d n s1 | _ \<Rightarrow> Inr s1) = Inr s'"
    using assms(1) by (auto simp: sv_turn_def res_bind_Inr_conv)
  have 2: "srv_step k (sv_begin c s) s1"
    by (rule srv_header [OF _ _ s1]) (use assms(3) in \<open>simp_all add: sv_begin_def\<close>)
  have "(srv_step k)\<^sup>*\<^sup>* s1 s'"
  proof (cases "sv_phase s1 c")
    case (Body d n)
    with s' assms(4) [OF s1 Body] show ?thesis by (intro r_into_rtranclp srv_body [of s1 c d n]) simp_all
  qed (use s' in auto)
  with 1 2 show ?thesis by (meson converse_rtranclp_into_rtranclp)
qed

text \<open>What was sent on a connection.\<close>

definition sent_on :: "nat \<Rightarrow> server_st \<Rightarrow> Protocol list" where
  "sent_on c s = map snd (filter (\<lambda>x. fst x = c) (sv_out s))"

text \<open>C26: connections whose turns do not overlap are answered correctly. Let the bytes that arrive on each connection be the
  frames of its calls, and let the server, not in its error state, handle any sequence of whole turns of any connections. Then
  each connection is sent exactly the answers to the calls of its turns, in the order of its calls.\<close>

theorem server_turns_answered:
  assumes "handler_ok (sc_hs k)" "ns_error (sv_ns s) \<noteq> 1"
    and "\<And>c. sv_in s c = concat (map (RpcProtocol_Encode (sc_ser k)) (calls c))"
    and "\<And>c. c \<in> set cs \<Longrightarrow> sv_open s c \<and> count_list cs c \<le> length (calls c)"
    and "\<And>c p. p \<in> set (calls c) \<Longrightarrow> good_call k ans p"
  shows "\<exists>s'. run_turns k cs s = Inr s' \<and>
    (\<forall>c. sent_on c s' = sent_on c s @ map (\<lambda>p. answer_msg (sc_hs k) p (ans p)) (take (count_list cs c) (calls c)))"
  using assms(2-)
proof (induction cs arbitrary: s calls)
  case Nil
  then show ?case by simp
next
  case (Cons c cs)
  note prems = Cons.prems
  obtain p ps where calls: "calls c = p # ps" using prems(3) [of c] by (cases "calls c") auto
  obtain ns where ns: "ns_error ns \<noteq> 1" "sv_turn k c s = Inr (s\<lparr>sv_ns := ns, sv_req_sock := c, sv_resp_sock := c,
      sv_phase := (sv_phase s)(c := Turn), sv_in := (sv_in s)(c := concat (map (RpcProtocol_Encode (sc_ser k)) ps)),
      sv_out := sv_out s @ [(c, answer_msg (sc_hs k) p (ans p))]\<rparr>)" (is "_ = Inr ?s1")
    using turn_answers [OF prems(4) [of p c] assms(1), of s c] prems calls by auto
  let ?calls = "calls(c := ps)"
  have "\<exists>s'. run_turns k cs ?s1 = Inr s' \<and>
    (\<forall>d. sent_on d s' = sent_on d ?s1 @ map (\<lambda>p. answer_msg (sc_hs k) p (ans p)) (take (count_list cs d) (?calls d)))"
  proof (rule Cons.IH)
    show "sv_in ?s1 d = concat (map (RpcProtocol_Encode (sc_ser k)) (?calls d))" for d using prems(2) by simp
    show "sv_open ?s1 d \<and> count_list cs d \<le> length (?calls d)" if "d \<in> set cs" for d
      using prems(3) [of d] that calls by (auto split: if_splits)
    show "good_call k ans q" if "q \<in> set (?calls d)" for d q
      using prems(4) [of q d] that calls by (auto split: if_splits)
  qed (use ns(1) in simp)
  then obtain s' where s': "run_turns k cs ?s1 = Inr s'"
    "\<And>d. sent_on d s' = sent_on d ?s1 @ map (\<lambda>p. answer_msg (sc_hs k) p (ans p)) (take (count_list cs d) (?calls d))"
    by blast
  have "sent_on d s' = sent_on d s @ map (\<lambda>p. answer_msg (sc_hs k) p (ans p)) (take (count_list (c # cs) d) (calls d))" for d
    using s'(2) [of d] calls by (auto simp: sent_on_def)
  with s'(1) ns(2) show ?case by auto
qed

section \<open>Turns that overlap\<close>

text \<open>C27: connections whose turns overlap get each other's answers. Whenever two connections are between turns and a call has
  arrived on one of them, there is an execution in which its answer is sent on the other connection and nothing is sent on its own;
  and there is one in which the coroutine of the first connection reads the body of its message from the second.\<close>

theorem overlapping_turns_misdirect:
  assumes "good_call k ans p" "handler_ok (sc_hs k)" "ns_error (sv_ns s) \<noteq> 1"
    and "sv_phase s c = Turn" "sv_phase s d = Turn" "c \<noteq> d" "sv_in s c = RpcProtocol_Encode (sc_ser k) p @ rest"
  shows "(\<exists>s'. (srv_step k)\<^sup>*\<^sup>* s s' \<and> sv_out s' = sv_out s @ [(d, answer_msg (sc_hs k) p (ans p))]) \<and>
    (\<exists>s'. (srv_step k)\<^sup>*\<^sup>* s s' \<and> sv_phase s' c = Body d (length (sc_ser k (to_buf p))))"
proof -
  let ?b = "sc_ser k (to_buf p)" and ?m = "answer_msg (sc_hs k) p (ans p)"
  have len: "length (SerializerHandler_Serialize (sc_ser k) p) < 10000" "?b \<noteq> []"
    using assms(1) by (simp_all add: good_call_def SerializerHandler_Serialize_def)
  note f = Encode_frame [OF len(1), unfolded SerializerHandler_Serialize_def]
  have long: "4 \<le> length (RpcProtocol_Encode (sc_ser k) p)" using f(1) by simp
  let ?ns = "(sv_ns s)\<lparr>ns_req_protocol := Some p\<rparr>"
  obtain ns where ns: "RpcServerProvider_OnNewConn (sc_pc k) (sc_pm k) (sc_hs k) ?ns = Inr ns" "ns_error ns \<noteq> 1"
    "ns_resp_protocol ns = Some ?m"
    using OnNewConn_answers [of ?ns p "sc_hs k" "sc_pm k" "sc_pc k" "ans p"] assms(1-3) by (auto simp: good_call_def)
  have dec: "RpcProtocol_Decode (sc_parse k) (?b @ [nul]) n = p" for n
    using c_str_terminated [of ?b] Deserialize_to_buf [of "sc_parse k" ?b p] assms(1)
    by (simp add: good_call_def RpcProtocol_Decode_def created_def)
  have enc: "RpcProtocol_Encode (sc_ser k) ?m \<noteq> []"
    using assms(1) by (intro Encode_not_empty) (simp add: good_call_def)
  let ?s1 = "sv_begin c s"
  have b1: "srv_step k s ?s1" by (rule srv_begin [OF assms(4)])
  let ?s2 = "?s1\<lparr>sv_in := (sv_in s)(c := ?b @ rest), sv_phase := (sv_phase s)(c := Body c (length ?b))\<rparr>"
  have b2: "srv_step k ?s1 ?s2"
    by (rule srv_header [where c = c and d = c])
      (use assms(7) f len(2) long in \<open>simp_all add: sv_header_def sv_begin_def Let_def\<close>)
  have b3: "srv_step k ?s2 (sv_begin d ?s2)" by (rule srv_begin) (use assms(5,6) in simp)
  obtain s4 where s4: "sv_body k c c (length ?b) (sv_begin d ?s2) = Inr s4" "sv_out s4 = sv_out s @ [(d, ?m)]"
    using ns enc by (simp add: sv_body_def dec sv_begin_def sv_finish_def Let_def)
  have b4: "srv_step k (sv_begin d ?s2) s4"
    by (rule srv_body [OF _ _ s4(1)]) (use assms(6) in \<open>simp_all add: sv_begin_def\<close>)
  have "(srv_step k)\<^sup>*\<^sup>* s s4" using b1 b2 b3 b4 by (meson converse_rtranclp_into_rtranclp rtranclp.rtrancl_refl)
  moreover
  let ?t2 = "sv_begin d ?s1"
  have t2: "srv_step k ?s1 ?t2" by (rule srv_begin) (use assms(5,6) in \<open>simp add: sv_begin_def\<close>)
  obtain t3 where t3: "sv_header c c ?t2 = Inr t3" "sv_phase t3 c = Body d (length ?b)"
    using assms(7) f len(2) long by (simp add: sv_header_def sv_begin_def Let_def)
  have "srv_step k ?t2 t3"
    by (rule srv_header [OF _ _ t3(1)]) (use assms(6,7) long in \<open>simp_all add: sv_begin_def\<close>)
  then have "(srv_step k)\<^sup>*\<^sup>* s t3" using b1 t2 by (meson converse_rtranclp_into_rtranclp rtranclp.rtrancl_refl)
  ultimately show ?thesis using s4(2) t3(2) by blast
qed

section \<open>An example\<close>

text \<open>Two connections, 1 and 2, and the service \<open>hello\<close>. Each connection has sent one call; the serialiser of the
  example names a call by its number.\<close>

definition call_no :: "uint32 \<Rightarrow> Protocol" where
  "call_no i = (Protocol_Create kRequestCall i ''data'')\<lparr>p_srv_name := ''hello''\<rparr>"

definition no_ser :: "BaseProtocolBuf \<Rightarrow> string" where
  "no_ser b = (if b = to_buf (call_no 2) then ''second'' else ''first.'')"

definition no_parse :: "string \<Rightarrow> BaseProtocolBuf" where
  "no_parse t = (if t = ''second'' then to_buf (call_no 2) else to_buf (call_no 1))"

definition two_code :: server_code where
  "two_code = \<lparr>sc_ser = no_ser, sc_parse = no_parse, sc_pc = plain_codec, sc_pm = HelloSrvTraits_register Map.empty,
     sc_hs = hello_handlers\<rparr>"

definition two_conns :: server_st where
  "two_conns = \<lparr>sv_ns = NetworkServer_init None None 0 0, sv_req_sock = 0, sv_resp_sock = 0, sv_phase = (\<lambda>c. Turn),
     sv_in = (\<lambda>c. if c = 1 then ''0006first.'' else if c = 2 then ''0006second'' else []), sv_open = (\<lambda>c. c = 1 \<or> c = 2),
     sv_out = []\<rparr>"

lemma to_buf_call_no: "to_buf (call_no 1) \<noteq> to_buf (call_no 2)"
  by (simp add: to_buf_def call_no_def Protocol_Create_def Protocol_Protocol_def)

lemma good_calls: "good_call two_code (\<lambda>p. ''4'') (call_no i)" if "i = 1 \<or> i = 2"
proof -
  have "call_no i = hello_call\<lparr>p_req_id := i\<rparr>"
    by (simp add: call_no_def hello_call_def Protocol_Create_def Protocol_Protocol_def)
  then have "call_answer plain_codec hello_handlers (call_no i) ns = Some ''4''" for ns
    by (simp add: call_answer_def hello_handlers_def RpcServerProvider_RegisterHandler_def hello_call_def plain_codec_def
      Protocol_Create_def Protocol_Protocol_def convert_def convert_loop.simps zero_def digits_def
      signed_divide_int_def signed_modulo_int_def)
  moreover have "created (call_no i)" "p_type (call_no i) = kRequestCall" "p_srv_name (call_no i) = ''hello''"
    by (simp_all add: created_def as_received_def call_no_def Protocol_Create_def Protocol_Protocol_def)
  ultimately show ?thesis
    using that to_buf_call_no
    by (auto simp: good_call_def two_code_def no_ser_def no_parse_def nul_def HelloSrvTraits_register_def
        ProtocolManager_Register_def)
qed

lemma no_frames:
  "RpcProtocol_Encode no_ser (call_no 1) = ''0006first.''" "RpcProtocol_Encode no_ser (call_no 2) = ''0006second''"
  using to_buf_call_no
  by (simp_all add: no_ser_def RpcProtocol_Encode_def SerializerHandler_Serialize_def kDataMaxLen_def pad04_def snprintf_def Let_def
      convert_def convert_loop.simps zero_def digits_def signed_divide_int_def signed_modulo_int_def eval_nat_numeral)

theorem server_turns_answered_witness:
  "\<exists>s'. run_turns two_code [2, 1] two_conns = Inr s' \<and>
     map p_req_id (sent_on 1 s') = [1] \<and> map p_req_id (sent_on 2 s') = [2]"
proof -
  let ?calls = "\<lambda>c :: nat. if c = 1 then [call_no 1] else if c = 2 then [call_no 2] else []"
  have "\<exists>s'. run_turns two_code [2, 1] two_conns = Inr s' \<and>
    (\<forall>c. sent_on c s' = sent_on c two_conns @
       map (\<lambda>p. answer_msg (sc_hs two_code) p ''4'') (take (count_list [2, 1] c) (?calls c)))"
    by (rule server_turns_answered)
      (auto simp: two_conns_def two_code_def no_frames hello_handler_ok NetworkServer_init_def
        good_calls [unfolded two_code_def] split: if_splits)
  then obtain s' where s': "run_turns two_code [2, 1] two_conns = Inr s'"
    "\<And>c. sent_on c s' = sent_on c two_conns @
       map (\<lambda>p. answer_msg (sc_hs two_code) p ''4'') (take (count_list [2, 1] c) (?calls c))"
    by blast
  have e: "sent_on c two_conns = []" for c by (simp add: sent_on_def two_conns_def)
  have "sent_on 1 s' = [answer_msg (sc_hs two_code) (call_no 1) ''4'']"
    "sent_on 2 s' = [answer_msg (sc_hs two_code) (call_no 2) ''4'']"
    by (simp_all only: s'(2) e) simp_all
  moreover have "p_req_id (answer_msg hs (call_no i) x) = i" for hs i x
    by (simp add: answer_msg_def call_no_def Protocol_Create_def Protocol_Protocol_def)
  ultimately show ?thesis using s'(1) by auto
qed

theorem overlapping_turns_misdirect_witness:
  "\<exists>s'. (srv_step two_code)\<^sup>*\<^sup>* two_conns s' \<and> map (\<lambda>(c, p). (c, p_req_id p)) (sv_out s') = [(2, 1)]"
proof -
  have "sv_in two_conns 1 = RpcProtocol_Encode (sc_ser two_code) (call_no 1) @ []"
    by (simp add: two_conns_def two_code_def no_frames)
  moreover have "handler_ok (sc_hs two_code)" by (simp add: two_code_def hello_handler_ok)
  moreover have "ns_error (sv_ns two_conns) \<noteq> 1" "sv_phase two_conns c = Turn" "sv_out two_conns = []" for c
    by (simp_all add: two_conns_def NetworkServer_init_def)
  moreover have "p_req_id (answer_msg hs (call_no 1) x) = 1" for hs x
    by (simp add: answer_msg_def call_no_def Protocol_Create_def Protocol_Protocol_def)
  ultimately show ?thesis
    using overlapping_turns_misdirect [OF good_calls, of 1 two_conns 1 2 "[]"] by fastforce
qed

end
