(* ===== verification/Time_Util.thy ===== *)
theory Time_Util
  imports Syscall
begin

text \<open>
  Clocks and sleeping: \<open>include/t_time.h\<close> and \<open>src/t_time.cc\<close>. What the kernel's clocks show is an argument (a
  \<open>timespec\<close> or \<open>timeval\<close>); the readings are \<open>int64\<close>, written as integers since no clock comes near
  the range.
\<close>

record timespec =
  tv_sec :: int
  tv_nsec :: int

record timeval =
  tval_sec :: int
  tval_usec :: int

definition now_ms :: "timespec \<Rightarrow> int" where
  [model_defs]: "now_ms t = tv_sec t * 1000 + tv_nsec t div 1000000"

definition now_us :: "timespec \<Rightarrow> int" where
  [model_defs]: "now_us t = tv_sec t * 1000000 + tv_nsec t div 1000"

definition epoch_ms :: "timeval \<Rightarrow> int" where
  [model_defs]: "epoch_ms t = tval_sec t * 1000 + tval_usec t div 1000"

definition epoch_us :: "timeval \<Rightarrow> int" where
  [model_defs]: "epoch_us t = tval_sec t * 1000000 + tval_usec t"

section \<open>Sleeping\<close>

text \<open>The loop around \<open>nanosleep\<close>: each answer says whether the call failed, with which error, and what it stored as
  the remaining time. The result is the list of requests that were made.\<close>

fun nanosleep_loop :: "timespec \<Rightarrow> (int \<times> int \<times> timespec) list \<Rightarrow> timespec list option" where
  "nanosleep_loop ts [] = None"
| "nanosleep_loop ts ((r, errno, rem) # as) =
     (if r = - 1 \<and> errno = EINTR then map_option (Cons ts) (nanosleep_loop rem as) else Some [ts])"

definition sleep_ms_request :: "uint32 \<Rightarrow> timespec" where
  [model_defs]: "sleep_ms_request n = \<lparr>tv_sec = uint (n div 1000), tv_nsec = uint (n mod 1000 * 1000000)\<rparr>"

definition sleep_ms :: "uint32 \<Rightarrow> (int \<times> int \<times> timespec) list \<Rightarrow> timespec list option" where
  [model_defs]: "sleep_ms n = nanosleep_loop (sleep_ms_request n)"

definition sleep_sec :: "uint32 \<Rightarrow> (int \<times> int \<times> timespec) list \<Rightarrow> timespec list option" where
  [model_defs]: "sleep_sec n = nanosleep_loop \<lparr>tv_sec = uint n, tv_nsec = 0\<rparr>"

section \<open>Timer\<close>

record Timer =
  timer_start :: int

definition Timer_Timer :: "timespec \<Rightarrow> Timer" where
  [model_defs]: "Timer_Timer t = \<lparr>timer_start = now_us t\<rparr>"

definition Timer_restart :: "timespec \<Rightarrow> Timer \<Rightarrow> Timer" where
  [model_defs]: "Timer_restart t tm = tm\<lparr>timer_start := now_us t\<rparr>"

definition Timer_us :: "timespec \<Rightarrow> Timer \<Rightarrow> int" where
  [model_defs]: "Timer_us t tm = now_us t - timer_start tm"

text \<open>The division of C++ truncates towards zero.\<close>

definition Timer_ms :: "timespec \<Rightarrow> Timer \<Rightarrow> int" where
  [model_defs]: "Timer_ms t tm = (let us = Timer_us t tm in if us < 0 then - ((- us) div 1000) else us div 1000)"

section \<open>Properties\<close>

definition normal :: "timespec \<Rightarrow> bool" where
  "normal t \<longleftrightarrow> 0 \<le> tv_nsec t \<and> tv_nsec t < 1000000000"

definition nanos :: "timespec \<Rightarrow> int" where
  "nanos t = tv_sec t * 1000000000 + tv_nsec t"

lemma now_us_nanos: "now_us t = nanos t div 1000"
proof -
  have "nanos t = tv_nsec t + tv_sec t * 1000000 * 1000" by (simp add: nanos_def)
  then show ?thesis by (simp only: div_mult_self1) (simp add: now_us_def)
qed

lemma now_ms_nanos: "now_ms t = nanos t div 1000000"
proof -
  have "nanos t = tv_nsec t + tv_sec t * 1000 * 1000000" by (simp add: nanos_def)
  then show ?thesis by (simp only: div_mult_self1) (simp add: now_ms_def)
qed

text \<open>The clocks agree, do not run backwards, and an interval is rounded down. When the kernel's clock does
  not go back, neither do the millisecond and microsecond readings; the millisecond reading is the
  microsecond reading divided by 1000; and a timer started at one reading shows at a later one the elapsed
  microseconds, and in milliseconds that number divided by 1000, never negative.\<close>

theorem clocks_agree:
  assumes "nanos t \<le> nanos t'"
  shows "now_ms t \<le> now_ms t' \<and> now_us t \<le> now_us t' \<and> now_ms t = now_us t div 1000 \<and>
    0 \<le> Timer_us t' (Timer_Timer t) \<and> Timer_us t' (Timer_Timer t) = now_us t' - now_us t \<and>
    Timer_ms t' (Timer_Timer t) = Timer_us t' (Timer_Timer t) div 1000 \<and> 0 \<le> Timer_ms t' (Timer_Timer t)"
proof -
  have ms: "now_ms t \<le> now_ms t'" using assms by (simp add: now_ms_nanos zdiv_mono1)
  have us: "now_us t \<le> now_us t'" using assms by (simp add: now_us_nanos zdiv_mono1)
  have "now_ms t = now_us t div 1000"
    using zdiv_zmult2_eq [of 1000 "nanos t" 1000] by (simp add: now_ms_nanos now_us_nanos)
  with ms us show ?thesis
    by (simp add: Timer_us_def Timer_Timer_def Timer_ms_def Let_def pos_imp_zdiv_nonneg_iff)
qed

theorem clocks_agree_witness:
  "now_ms \<lparr>tv_sec = 1, tv_nsec = 999999999\<rparr> \<le> now_ms \<lparr>tv_sec = 2, tv_nsec = 0\<rparr>"
  using clocks_agree [of "\<lparr>tv_sec = 1, tv_nsec = 999999999\<rparr>" "\<lparr>tv_sec = 2, tv_nsec = 0\<rparr>"]
  by (simp add: nanos_def)

text \<open>A sleep asks for the right time. The request that \<open>sleep::ms\<close> makes is a valid \<open>timespec\<close> of
  exactly \<open>n\<close> milliseconds for every 32 bit \<open>n\<close>, without wrap-around; an interrupted sleep goes on with the time the
  kernel says is left, and the sleep ends at the first answer that is not an interruption.\<close>

theorem sleep_ms_exact:
  "normal (sleep_ms_request n) \<and> nanos (sleep_ms_request n) = uint n * 1000000 \<and>
   sleep_ms n (map (\<lambda>rem. (- 1, EINTR, rem)) rems @ [(0, e, x)]) = Some (sleep_ms_request n # rems)"
proof -
  have m: "unat (n mod 1000) < 1000" by (simp add: unat_mod)
  then have p: "unat (n mod 1000 * 1000000) = unat n mod 1000 * 1000000"
    by (simp add: unat_mult_lem [THEN iffD1] unat_mod)
  then have "uint (n mod 1000 * 1000000) = int (unat n mod 1000 * 1000000)" by (metis uint_nat)
  moreover have "uint (n div 1000) = int (unat n div 1000)" by (simp add: uint_nat unat_div)
  moreover have "int (unat n div 1000) * 1000000000 + int (unat n mod 1000 * 1000000) = uint n * 1000000"
    using div_mult_mod_eq [of "unat n" 1000] by (simp only: uint_nat)
  moreover have "nanosleep_loop ts (map (\<lambda>rem. (- 1, EINTR, rem)) rems @ [(0, e, x)]) = Some (ts # rems)" for ts
    by (induction rems arbitrary: ts) simp_all
  ultimately show ?thesis
    by (simp add: normal_def nanos_def sleep_ms_request_def sleep_ms_def)
qed

end
