(* ===== verification/Os_Signals.thy ===== *)
theory Os_Signals
  imports Syscall
begin

text \<open>
  Signals: \<open>include/os.h\<close> and \<open>src/os.cc\<close>, and the error names of \<open>include/co_error.h\<close>. The state is the table of signal
  dispositions the kernel keeps for the process and the handlers that the failure handler saved. \<open>bad\<close> says for
  which signal numbers \<open>sigaction\<close> fails.
\<close>

section \<open>Handlers and dispositions\<close>

datatype sig_handler_t = SIG_DFL | SIG_IGN | SIG_ERR | on_signal_h | on_failure_h | user_handler nat

definition SIGINT :: int where "SIGINT = 2"
definition SIGQUIT :: int where "SIGQUIT = 3"
definition SIGILL :: int where "SIGILL = 4"
definition SIGABRT :: int where "SIGABRT = 6"
definition SIGBUS :: int where "SIGBUS = 7"
definition SIGFPE :: int where "SIGFPE = 8"
definition SIGSEGV :: int where "SIGSEGV = 11"
definition SIGPIPE :: int where "SIGPIPE = 13"
definition SIGTERM :: int where "SIGTERM = 15"

lemmas sig_defs = SIGINT_def SIGQUIT_def SIGILL_def SIGABRT_def SIGBUS_def SIGFPE_def SIGSEGV_def SIGPIPE_def SIGTERM_def

definition SA_RESTART_ONSTACK :: int where "SA_RESTART_ONSTACK = 0x18000000"

record os_st =
  disposition :: "int \<Rightarrow> sig_handler_t \<times> int"
  raised :: "int list"

definition co_signal :: "(int \<Rightarrow> bool) \<Rightarrow> int \<Rightarrow> sig_handler_t \<Rightarrow> int \<Rightarrow> os_st \<Rightarrow> sig_handler_t \<times> os_st" where
  [model_defs]: "co_signal bad sig handler flag os =
     (if bad sig then (SIG_ERR, os)
      else (fst (disposition os sig),
            os\<lparr>disposition := (disposition os)(sig := (handler, if flag > 0 then flag else 0))\<rparr>))"

text \<open>\<open>_old_handlers\<close>; reading a key that is not there makes an entry with a null pointer, which is \<open>SIG_DFL\<close>.\<close>

record FailureHandler =
  old_handlers :: "int \<rightharpoonup> sig_handler_t"

definition save_signal :: "(int \<Rightarrow> bool) \<Rightarrow> int \<Rightarrow> sig_handler_t \<Rightarrow> int \<Rightarrow> FailureHandler \<times> os_st \<Rightarrow> FailureHandler \<times> os_st" where
  "save_signal bad sig handler flag s =
     (case co_signal bad sig handler flag (snd s) of
        (old, os) \<Rightarrow> ((fst s)\<lparr>old_handlers := (old_handlers (fst s))(sig \<mapsto> old)\<rparr>, os))"

definition FailureHandler_FailureHandler :: "(int \<Rightarrow> bool) \<Rightarrow> os_st \<Rightarrow> FailureHandler \<times> os_st" where
  [model_defs]: "FailureHandler_FailureHandler bad os =
     (let s = fold (\<lambda>(sig, h, flag). save_signal bad sig h flag)
        [(SIGINT, on_signal_h, 0), (SIGTERM, on_signal_h, 0), (SIGQUIT, on_signal_h, 0),
         (SIGABRT, on_failure_h, SA_RESTART_ONSTACK), (SIGSEGV, on_failure_h, SA_RESTART_ONSTACK),
         (SIGFPE, on_failure_h, SA_RESTART_ONSTACK), (SIGBUS, on_failure_h, SA_RESTART_ONSTACK),
         (SIGILL, on_failure_h, SA_RESTART_ONSTACK)]
        (\<lparr>old_handlers = Map.empty\<rparr>, os)
      in (fst s, snd (co_signal bad SIGPIPE SIG_IGN 0 (snd s))))"

definition FailureHandler_destroy :: "(int \<Rightarrow> bool) \<Rightarrow> os_st \<Rightarrow> os_st" where
  [model_defs]: "FailureHandler_destroy bad os =
     fold (\<lambda>sig os. snd (co_signal bad sig SIG_DFL 0 os)) [SIGINT, SIGTERM, SIGABRT, SIGSEGV, SIGFPE, SIGBUS, SIGILL] os"

definition raise_signal :: "int \<Rightarrow> os_st \<Rightarrow> os_st" where
  "raise_signal sig os = os\<lparr>raised := raised os @ [sig]\<rparr>"

definition old_handler :: "int \<Rightarrow> FailureHandler \<Rightarrow> sig_handler_t" where
  "old_handler sig fh = (case old_handlers fh sig of Some h \<Rightarrow> h | None \<Rightarrow> SIG_DFL)"

definition FailureHandler_on_signal :: "(int \<Rightarrow> bool) \<Rightarrow> int \<Rightarrow> FailureHandler \<Rightarrow> os_st \<Rightarrow> os_st" where
  [model_defs]: "FailureHandler_on_signal bad sig fh os =
     raise_signal sig (snd (co_signal bad sig (old_handler sig fh) 0 os))"

text \<open>\<open>on_failure\<close> first logs, at the level that ends the program; \<open>None\<close> when it does, so that the rest is
  not reached, which depends on the logging library.\<close>

definition failure_message :: "int \<Rightarrow> string" where
  [model_defs]: "failure_message sig =
     (if sig = SIGABRT then ''SIGABRT: aborted'' else if sig = SIGSEGV then ''SIGSEGV: segmentation fault''
      else if sig = SIGFPE then ''SIGFPE: floating point exception'' else if sig = SIGBUS then ''SIGBUS: bus error''
      else if sig = SIGILL then ''SIGILL: illegal instruction'' else ''caught unexpected signal'')"

definition FailureHandler_on_failure :: "bool \<Rightarrow> (int \<Rightarrow> bool) \<Rightarrow> int \<Rightarrow> FailureHandler \<Rightarrow> os_st \<Rightarrow> string \<times> os_st option" where
  [model_defs]: "FailureHandler_on_failure fatal_ends bad sig fh os =
     (failure_message sig,
      if fatal_ends then None
      else Some (raise_signal sig (snd (co_signal bad sig (old_handler sig fh) 0 os))))"

section \<open>Error names\<close>

definition stderror :: "int \<Rightarrow> string" where
  [model_defs]: "stderror e =
     (if e = EAGAIN then ''EAGAIN'' else if e = EWOULDBLOCK then ''EWOULDBLOCK'' else if e = EBADF then ''EBADF''
      else if e = 89 then ''EDESTADDRREQ'' else if e = 122 then ''EDQUOT'' else if e = 14 then ''EFAULT''
      else if e = 27 then ''EFBIG'' else if e = EINTR then ''EINTR'' else if e = 22 then ''EINVAL''
      else if e = 5 then ''EIO'' else if e = 28 then ''ENOSPC'' else if e = 1 then ''EPERM''
      else if e = 32 then ''EPIPE'' else ''unknown error'')"

text \<open>On Linux the second test is never reached with a different outcome.\<close>

lemma stderror_wouldblock: "stderror EWOULDBLOCK = ''EAGAIN''"
  by (simp add: stderror_def errno_defs)

section \<open>What the handler catches and what it gives back\<close>

definition caught :: "int set" where
  "caught = {SIGINT, SIGTERM, SIGQUIT, SIGABRT, SIGSEGV, SIGFPE, SIGBUS, SIGILL}"

lemma caught_disposition:
  assumes "\<And>s. \<not> bad s" "FailureHandler_FailureHandler bad os = (fh, os')" "sig \<in> caught"
  shows "fst (disposition os' sig) = (if sig \<in> {SIGINT, SIGTERM, SIGQUIT} then on_signal_h else on_failure_h)"
    and "old_handlers fh sig = Some (fst (disposition os sig))"
  using assms by (auto simp: model_defs save_signal_def sig_defs caught_def)

text \<open>A caught signal is handed to the handler that was there before: the first delivery restores that disposition and raises the
  signal again.\<close>

lemma on_signal_restores:
  assumes "\<And>s. \<not> bad s" "FailureHandler_FailureHandler bad os = (fh, os')" "sig \<in> caught"
  shows "fst (disposition (FailureHandler_on_signal bad sig fh os') sig) = fst (disposition os sig)"
    and "raised (FailureHandler_on_signal bad sig fh os') = raised os' @ [sig]"
  using assms caught_disposition(2) [OF assms] by (simp_all add: model_defs raise_signal_def old_handler_def)

text \<open>The destructor resets every caught signal but one: the handler of \<open>SIGQUIT\<close> stays, and then uses the destroyed object.\<close>

lemma destroy_forgets_SIGQUIT:
  assumes "\<And>s. \<not> bad s" "FailureHandler_FailureHandler bad os = (fh, os')"
  shows "fst (disposition (FailureHandler_destroy bad os') SIGQUIT) = on_signal_h"
    and "sig \<in> caught - {SIGQUIT} \<Longrightarrow> fst (disposition (FailureHandler_destroy bad os') sig) = SIG_DFL"
  using assms by (auto simp: model_defs save_signal_def sig_defs caught_def)

end
