(* ===== verification/Base_Sync.thy ===== *)
theory Base_Sync
  imports Prelude
begin

text \<open>
  The thread mutex and the singletons of \<open>include/base\<close>: \<open>mutex.h\<close>, \<open>singleton.h\<close> and \<open>thread_local_singleton.h\<close>. The
  pthread objects are modelled by their documented behaviour: a recursive mutex has an owner and a count, a
  lock by another thread blocks (no result), and \<open>pthread_once\<close> runs its function the first time. Threads are their ids,
  which are not 0.
\<close>

section \<open>MutexLock\<close>

record pthread_mutex =
  pm_owner :: nat
  pm_count :: nat

record MutexLock =
  ml_mutex :: pthread_mutex
  ml_holder :: nat

text \<open>The type attribute is set on an attribute object that was never initialised; the model takes it as set.\<close>

definition MutexLock_MutexLock :: MutexLock where
  [model_defs]: "MutexLock_MutexLock = \<lparr>ml_mutex = \<lparr>pm_owner = 0, pm_count = 0\<rparr>, ml_holder = 0\<rparr>"

definition MutexLock_destroy :: "MutexLock \<Rightarrow> unit res" where
  [model_defs]: "MutexLock_destroy m = (if ml_holder m = 0 \<and> pm_count (ml_mutex m) = 0 then Inr () else Inl AssertFail)"

definition MutexLock_IsLockedByThisThread :: "nat \<Rightarrow> MutexLock \<Rightarrow> bool" where
  [model_defs]: "MutexLock_IsLockedByThisThread t m \<longleftrightarrow> ml_holder m = t"

definition MutexLock_AssertLocked :: "nat \<Rightarrow> MutexLock \<Rightarrow> unit res" where
  [model_defs]: "MutexLock_AssertLocked t m = (if MutexLock_IsLockedByThisThread t m then Inr () else Inl AssertFail)"

definition pthread_mutex_lock :: "nat \<Rightarrow> pthread_mutex \<Rightarrow> pthread_mutex option" where
  "pthread_mutex_lock t pm =
     (if pm_count pm = 0 \<or> pm_owner pm = t then Some \<lparr>pm_owner = t, pm_count = Suc (pm_count pm)\<rparr> else None)"

definition pthread_mutex_unlock :: "nat \<Rightarrow> pthread_mutex \<Rightarrow> pthread_mutex res" where
  "pthread_mutex_unlock t pm =
     (if pm_count pm > 0 \<and> pm_owner pm = t then Inr (pm\<lparr>pm_count := pm_count pm - 1\<rparr>) else Inl AssertFail)"

definition MutexLock_AssignHolder :: "nat \<Rightarrow> MutexLock \<Rightarrow> MutexLock" where
  [model_defs]: "MutexLock_AssignHolder t m = m\<lparr>ml_holder := t\<rparr>"

definition MutexLock_UnassignHolder :: "MutexLock \<Rightarrow> MutexLock" where
  [model_defs]: "MutexLock_UnassignHolder m = m\<lparr>ml_holder := 0\<rparr>"

definition MutexLock_Lock :: "nat \<Rightarrow> MutexLock \<Rightarrow> MutexLock option" where
  [model_defs]: "MutexLock_Lock t m =
     map_option (\<lambda>pm. MutexLock_AssignHolder t (m\<lparr>ml_mutex := pm\<rparr>)) (pthread_mutex_lock t (ml_mutex m))"

definition MutexLock_UnLock :: "nat \<Rightarrow> MutexLock \<Rightarrow> MutexLock res" where
  [model_defs]: "MutexLock_UnLock t m =
     (let m1 = MutexLock_UnassignHolder m in
      res_bind (pthread_mutex_unlock t (ml_mutex m1)) (\<lambda>pm. Inr (m1\<lparr>ml_mutex := pm\<rparr>)))"

definition MutexLockGuard_MutexLockGuard :: "nat \<Rightarrow> MutexLock \<Rightarrow> MutexLock option" where
  [model_defs]: "MutexLockGuard_MutexLockGuard t m = MutexLock_Lock t m"

definition MutexLockGuard_destroy :: "nat \<Rightarrow> MutexLock \<Rightarrow> MutexLock res" where
  [model_defs]: "MutexLockGuard_destroy t m = MutexLock_UnLock t m"

text \<open>The holder is right as long as no thread locks twice.\<close>

definition mutex_ok :: "MutexLock \<Rightarrow> bool" where
  [inv_defs]: "mutex_ok m \<longleftrightarrow> pm_count (ml_mutex m) \<le> 1 \<and>
     ml_holder m = (if pm_count (ml_mutex m) = 1 then pm_owner (ml_mutex m) else 0)"

lemma mutex_ok_lock:
  assumes "mutex_ok m" "t \<noteq> 0" "\<not> MutexLock_IsLockedByThisThread t m" "MutexLock_Lock t m = Some m'"
  shows "mutex_ok m' \<and> MutexLock_IsLockedByThisThread t m' \<and> pm_count (ml_mutex m) = 0"
  using assms by (auto simp: model_defs inv_defs pthread_mutex_lock_def split: if_splits)

lemma mutex_ok_unlock:
  assumes "mutex_ok m" "t \<noteq> 0" "MutexLock_IsLockedByThisThread t m"
  shows "\<exists>m'. MutexLock_UnLock t m = Inr m' \<and> mutex_ok m' \<and> MutexLock_destroy m' = Inr ()"
  using assms by (auto simp: model_defs inv_defs pthread_mutex_unlock_def Let_def split: if_splits)

text \<open>A thread that locked twice and unlocked once still owns the mutex, but is no longer said to hold it.\<close>

lemma recursive_unlock_forgets_holder:
  assumes "t \<noteq> 0" "MutexLock_Lock t MutexLock_MutexLock = Some m1" "MutexLock_Lock t m1 = Some m2" "MutexLock_UnLock t m2 = Inr m3"
  shows "pm_count (ml_mutex m3) = 1 \<and> pm_owner (ml_mutex m3) = t \<and> \<not> MutexLock_IsLockedByThisThread t m3"
proof -
  have "m1 = \<lparr>ml_mutex = \<lparr>pm_owner = t, pm_count = 1\<rparr>, ml_holder = t\<rparr>"
    using assms(2) by (simp add: model_defs pthread_mutex_lock_def)
  with assms(3) have "m2 = \<lparr>ml_mutex = \<lparr>pm_owner = t, pm_count = 2\<rparr>, ml_holder = t\<rparr>"
    by (simp add: model_defs pthread_mutex_lock_def numeral_2_eq_2)
  with assms(4) have "m3 = \<lparr>ml_mutex = \<lparr>pm_owner = t, pm_count = 1\<rparr>, ml_holder = 0\<rparr>"
    by (simp add: model_defs pthread_mutex_unlock_def Let_def)
  with assms(1) show ?thesis by (simp add: model_defs)
qed

section \<open>Singletons\<close>

text \<open>\<open>ponce_\<close> and \<open>value_\<close>, and what is to be destroyed at the exit of the program.\<close>

record 'a Singleton =
  sg_once :: bool
  sg_value :: "'a option"
  sg_at_exit :: bool

definition Singleton_start :: "'a Singleton" where
  [model_defs]: "Singleton_start = \<lparr>sg_once = False, sg_value = None, sg_at_exit = False\<rparr>"

definition Singleton_init :: "bool \<Rightarrow> 'a \<Rightarrow> 'a Singleton \<Rightarrow> 'a Singleton" where
  [model_defs]: "Singleton_init no_destroy new sg = sg\<lparr>sg_value := Some new, sg_at_exit := \<not> no_destroy\<rparr>"

definition Singleton_instance :: "bool \<Rightarrow> 'a \<Rightarrow> 'a Singleton \<Rightarrow> ('a \<times> 'a Singleton) res" where
  [model_defs]: "Singleton_instance no_destroy new sg =
     (let sg' = (if sg_once sg then sg else (Singleton_init no_destroy new sg)\<lparr>sg_once := True\<rparr>) in
      case sg_value sg' of None \<Rightarrow> Inl AssertFail | Some v \<Rightarrow> Inr (v, sg'))"

definition Singleton_destroy :: "'a Singleton \<Rightarrow> 'a Singleton" where
  [model_defs]: "Singleton_destroy sg = sg\<lparr>sg_value := None\<rparr>"

text \<open>All uses share the object of the first one; after it was destroyed there is no other.\<close>

lemma Singleton_shared:
  assumes "Singleton_instance nd a Singleton_start = Inr (v, sg)"
  shows "v = a" "Singleton_instance nd b sg = Inr (a, sg)" "Singleton_instance nd b (Singleton_destroy sg) = Inl AssertFail"
  using assms by (auto simp: model_defs Let_def)

text \<open>One value per thread, and the thread-specific slot from which it is destroyed when the thread ends.\<close>

record 'a ThreadLocalSingleton =
  tl_value :: "nat \<rightharpoonup> 'a"
  tl_specific :: "nat \<rightharpoonup> 'a"

text \<open>No thread has a value, and \<open>Deleter\<close> creates the key with empty slots.\<close>

definition ThreadLocalSingleton_start :: "'a ThreadLocalSingleton" where
  [model_defs]: "ThreadLocalSingleton_start = \<lparr>tl_value = Map.empty, tl_specific = Map.empty\<rparr>"

definition Deleter_set :: "nat \<Rightarrow> 'a \<Rightarrow> 'a ThreadLocalSingleton \<Rightarrow> 'a ThreadLocalSingleton res" where
  [model_defs]: "Deleter_set t newObj ts =
     (if tl_specific ts t \<noteq> None then Inl AssertFail else Inr (ts\<lparr>tl_specific := (tl_specific ts)(t \<mapsto> newObj)\<rparr>))"

definition ThreadLocalSingleton_instance :: "nat \<Rightarrow> 'a \<Rightarrow> 'a ThreadLocalSingleton \<Rightarrow> ('a \<times> 'a ThreadLocalSingleton) res" where
  [model_defs]: "ThreadLocalSingleton_instance t new ts =
     (case tl_value ts t of
        Some v \<Rightarrow> Inr (v, ts)
      | None \<Rightarrow>
          res_bind (Deleter_set t new (ts\<lparr>tl_value := (tl_value ts)(t \<mapsto> new)\<rparr>)) (\<lambda>ts1. Inr (new, ts1)))"

definition ThreadLocalSingleton_pointer :: "nat \<Rightarrow> 'a ThreadLocalSingleton \<Rightarrow> 'a option" where
  [model_defs]: "ThreadLocalSingleton_pointer t ts = tl_value ts t"

text \<open>At the end of a thread the slot is cleared before the destructor is called with its old value.\<close>

definition ThreadLocalSingleton_destructor :: "nat \<Rightarrow> 'a ThreadLocalSingleton \<Rightarrow> 'a ThreadLocalSingleton res" where
  [model_defs]: "ThreadLocalSingleton_destructor t ts =
     (case tl_specific ts t of
        None \<Rightarrow> Inr ts
      | Some obj \<Rightarrow>
          if tl_value ts t = Some obj
          then Inr (ts\<lparr>tl_value := (tl_value ts)(t := None), tl_specific := (tl_specific ts)(t := None)\<rparr>)
          else Inl AssertFail)"

definition tl_ok :: "'a ThreadLocalSingleton \<Rightarrow> bool" where
  [inv_defs]: "tl_ok ts \<longleftrightarrow> tl_value ts = tl_specific ts"

lemma tl_ok_start: "tl_ok ThreadLocalSingleton_start"
  by (simp add: model_defs inv_defs)

lemma tl_ok_ops:
  assumes "tl_ok ts"
  shows "\<exists>v ts'. ThreadLocalSingleton_instance t new ts = Inr (v, ts') \<and> tl_ok ts' \<and>
      ThreadLocalSingleton_instance t new' ts' = Inr (v, ts') \<and>
      (\<forall>t'. t' \<noteq> t \<longrightarrow> ThreadLocalSingleton_pointer t' ts' = ThreadLocalSingleton_pointer t' ts)"
    and "\<exists>ts'. ThreadLocalSingleton_destructor t ts = Inr ts' \<and> tl_ok ts' \<and> ThreadLocalSingleton_pointer t ts' = None"
proof -
  show "\<exists>v ts'. ThreadLocalSingleton_instance t new ts = Inr (v, ts') \<and> tl_ok ts' \<and>
      ThreadLocalSingleton_instance t new' ts' = Inr (v, ts') \<and>
      (\<forall>t'. t' \<noteq> t \<longrightarrow> ThreadLocalSingleton_pointer t' ts' = ThreadLocalSingleton_pointer t' ts)"
    using assms by (cases "tl_value ts t") (simp_all add: model_defs inv_defs)
  show "\<exists>ts'. ThreadLocalSingleton_destructor t ts = Inr ts' \<and> tl_ok ts' \<and> ThreadLocalSingleton_pointer t ts' = None"
    using assms by (auto simp: model_defs inv_defs split: option.splits)
qed

end
