(* ===== verification/Spec2Isabelle.thy ===== *)
theory Spec2Isabelle
  imports Wakeup Co_Mutex Channel_Handle Context_X64 Context_ARM64 Context_X86 Context_ARM Context_MIPS Arch Scheduler_Sleep Scaled_Format Log_Stream Rpc_Client Rpc_Wire Server_Sharing Time_Util Os_Signals Base_Sync
begin

text \<open>
  A verification development for tit-co, a library of stackful coroutines for Linux in C++ with sockets, channels,
  mutexes and a small remote procedure call layer on top.

  \<^bold>\<open>The program and its parts.\<close>
  A program hands closures to \<open>go\<close>. A \<open>SchedulerManager\<close> spreads them over schedulers, each a thread that runs
  \<open>SchedulerImpl::Loop\<close>: it waits in \<open>epoll_wait\<close>, resumes the coroutines whose descriptors are ready, then the new
  and the ready tasks that other threads queued with its \<open>TaskManager\<close>, then the coroutines whose timers in its
  \<open>TimerManager\<close> are due. Coroutines come from a pool (\<open>Copoll\<close>) and run on eight shared stacks; when two of them need the
  same stack, the frame of one is copied to a private buffer (a \<open>Stream\<close>). Switching is done in assembly. A thread that queues a task wakes the
  scheduler up through an eventfd (\<open>Epoll\<close>). Coroutines block on channels, mutexes, timers and \<open>IOEvent\<close>s;
  the functions of \<open>sock.cc\<close> turn non-blocking system calls into blocking ones that way. Connections, sockets, addresses and a TCP
  server are built on these, and the RPC layer on those: messages are framed by a decimal length, a server dispatches
  calls to registered functions, and a client matches answers to calls by number.

  \<^bold>\<open>The theories.\<close>
  Paths are relative to \<open>src/\<close>; an operation \<open>m\<close> of a class \<open>C\<close> is the definition \<open>C_m\<close>, a constructor \<open>C_C\<close> or \<open>C_init\<close>, a destructor
  \<open>C_destroy\<close>. Objects are records with the fields of the class.

    \<^item> \<open>Prelude\<close>: machine types (\<open>include/def.h\<close>) as words, faults, the result type, blocks of memory. \<open>Fifo\<close>: the interfaces
      \<open>op_invariant\<close> and \<open>fifo\<close> of components that are used by sequences of operations. \<open>Syscall\<close>: answers of the kernel.
    \<^item> \<open>Task_Manager\<close> (\<open>task_manager\<close>), \<open>Co_Pool\<close> (\<open>coroutine\<close>, \<open>co_poll\<close>; interface \<open>resource_pool\<close>), \<open>Decimal\<close>,
      \<open>Float_Format\<close>, \<open>Scaled_Format\<close>, \<open>Stream_Buffer\<close> (\<open>stream\<close>: integers and floating point numbers as text, the buffer), \<open>Log_Stream\<close> (\<open>include/log/log_stream.h\<close>; both
      streams with the interface \<open>text_sink\<close> of \<open>Text_Sink\<close>), \<open>Timer_Manager\<close> (\<open>timer_manager\<close>), \<open>Atomic\<close> (\<open>include/atomic.h\<close>, \<open>base/atomic_int.h\<close>; interface
      \<open>atomic_cell\<close>), \<open>Epoll\<close> (\<open>epoll\<close>, \<open>sock_ctx\<close>): the parts a scheduler is made of.
    \<^item> \<open>Scheduler\<close> (\<open>scheduler\<close>): construction, start and stop, switching on shared stacks, the calls coroutines make, the loop, the manager.
      \<open>Scheduler_Inv\<close>: the well-formedness of a scheduler and the interface \<open>coroutine_code\<close> of the code it runs.
      \<open>Scheduler_Run\<close>: the loop on programs whose coroutines start others. \<open>Scheduler_Sleep\<close>: the loop on programs whose coroutines sleep. \<open>Wakeup\<close>: threads that queue tasks interleaved with the
      scheduler thread, step by step.
    \<^item> \<open>Memory\<close>, \<open>Context_Switch\<close>: memory of bytes with addresses of any width, and the contract of the context switch for any number of
      contexts, the interface \<open>context_switch\<close>. \<open>Context_X64\<close>, \<open>Context_ARM64\<close>, \<open>Context_X86\<close>, \<open>Context_ARM\<close>, \<open>Context_MIPS\<close> (\<open>src/context/context_x64.S\<close>,
      \<open>context_arm64.S\<close>, \<open>context_x86.S\<close>, \<open>context_arm.S\<close>, \<open>context_mips.S\<close>): the routines of the five machines, instruction by instruction.
      \<open>Arch\<close> (\<open>src/context/arch.h\<close>, \<open>context.S\<close>): which of them a build assembles.
    \<^item> \<open>Wait_Ctx\<close>, \<open>Ring\<close>, \<open>Channel\<close> (\<open>channel\<close>): memory with pointers, the ring buffer, reading and writing with waiting
      partners. \<open>Channel_Handle\<close>: the objects that share a channel. \<open>Co_Mutex\<close> (\<open>mutex\<close>): the operations and their interleaving.
    \<^item> \<open>Io_Event\<close> (\<open>io_event\<close>), \<open>Sock\<close> (\<open>sock\<close>), \<open>Net\<close> (\<open>include/net\<close>, \<open>src/net\<close>), \<open>Byte_Order\<close> (\<open>include/byte_order.h\<close>): input and
      output. A state holds the answers the kernel and the scheduler will give and the trace of the calls made.
    \<^item> \<open>Rpc_Protocol\<close>, \<open>Rpc_Server\<close>, \<open>Server_Sharing\<close>, \<open>Rpc_Client\<close> (\<open>include/rpc\<close>, \<open>src/rpc\<close>, \<open>include/protocol\<close>, \<open>include/net/server.h\<close>):
      messages and frames, a connection of a server, several connections of a server, and the client.
    \<^item> \<open>Pb_Runtime\<close>, \<open>Pb_Messages\<close>, \<open>Pb_Codec\<close>, \<open>Pb_Reference\<close>, \<open>Rpc_Wire\<close> (\<open>include/rpc/protos/gen\<close> and the serialisers of
      \<open>include/rpc/protocol.h\<close> and \<open>include/rpc/protocols/hello.h\<close>): the laws of the protobuf library, the generated message classes over them, the contract these
      keep, a small library that keeps the laws, and the serialisers of the remote calls on the classes.
    \<^item> \<open>Time_Util\<close> (\<open>t_time\<close>), \<open>Os_Signals\<close> (\<open>os\<close>), \<open>Base_Sync\<close> (\<open>base/mutex.h\<close>, \<open>base/singleton.h\<close>,
      \<open>base/thread_local_singleton.h\<close>, \<open>co_error.h\<close>): the rest.

  \<^bold>\<open>How the code is modelled.\<close>
  Undefined behaviour and failing assertions are values of type \<open>fault\<close>, so that a theorem says where they can occur and
  where not. The union of a coroutine, which holds its function or its scheduler, has the member that was written last, and to use it as the other is a
  fault; what overwriting a function that is being executed does to the variables it captured is left to the code of coroutines. One
  undefined behaviour is not a fault: \<open>RpcProtocol::Encode\<close> stores a byte behind an array of four on every message, and the model takes the frame to be
  unaffected (\<open>Encode_header_overruns\<close>). What is not in the repository is a parameter: the kernel (as functions with documented laws, \<open>epoll_laws\<close>, or as the list of
  its answers), clocks, fresh memory, the protobuf library (\<open>pb_wire\<close>), and the code of coroutines between two switches. The main steps of
  components that several threads or coroutines share are also \<open>inductive\<close> step relations, at the granularity of the accesses that
  another party can see.

  \<^bold>\<open>What the theorems show.\<close>
    \<^item> Concurrency: no wake-up is lost and every queued task is delivered; a mutex admits one coroutine, hands the lock over in
      order and forgets no waiter; a channel is a queue, hands blocks over to a partner whose variable is not on a coroutine stack, and objects that share
      one behave as references to it.
    \<^item> Scheduling: a scheduler stays well formed, and running tasks can fail only in named ways (the pool is exhausted, a stack is restored, a coroutine that had yielded is used for a new task); the loop runs every task of a spawning program once, in order,
      and gives all coroutines back; starting a coroutine saves the frame
      it finds; tasks are spread round-robin; timers fire when due, and not before; a context switch returns like a call, whatever
      other contexts did in between.
    \<^item> Input and output: for every behaviour of the kernel, transfers are exact, end, and leave no event registered; a connection makes no call
      on its descriptor after it closed it (an interrupted \<open>close\<close> is repeated); the kernel's interest list has what the contexts ask for, in the form the operations leave it.
    \<^item> Remote calls: the generated classes write what they parse, in the size they announce, and parse any bytes to an end; messages survive the wire; requests are answered; answers match calls; \<open>rpc_call_end_to_end\<close> below joins the parts.
    \<^item> Limits and defects: where the code runs out of bounds, loses a sleeper, a waiter or an event, or ignores a failure, a theorem gives the
      exact condition.

  \<^bold>\<open>Bounds.\<close>
  Loops around system calls recurse on the list of answers and have the value \<open>None\<close> when it ends; the theorems on completion
  say which answers suffice (\<open>accepts\<close>, \<open>delivers\<close>). \<open>SchedulerImpl_Loop\<close> takes a list of calls of \<open>epoll_wait\<close>,
  \<open>TcpServer_Loop\<close> and \<open>serve_conn\<close> a number of turns: these loops of the program do not end by themselves. \<open>parse_loop\<close> of the
  generated classes is given one turn more than there are bytes, which always suffices (\<open>parse_any_bytes\<close>).

  \<^bold>\<open>Not modelled.\<close>
  The branches of the context switch and of other files for Windows, macOS and iOS, which a Linux build leaves out; descriptors and reflection of the generated
  protobuf classes; the thread and logging libraries, of which the repository has only headers (messages to the log are calls in the traces or left
  out), and with them the operators \<open>log_stream.h\<close> only declares; type traits, macros and casts; test
  programs. Within the modelled parts: the addresses that \<open>accept\<close> and \<open>recvfrom\<close> can store, which the library never asks
  for; memory ordering of plain accesses, since the theories assume that the accesses named in a step are atomic.
\<close>

section \<open>A remote call from end to end\<close>

text \<open>The parts joined, for any serialisation: payloads and both messages survive the wire.\<close>

lemma call_joined:
  fixes ser and parse
  defines "enc \<equiv> RpcProtocol_Encode ser"
  assumes codec: "hello_parse pcd (hello_ser pcd arg) = arg" "world_parse pcd (world_ser pcd (g arg)) = g arg"
    and service: "hs n = Some f" "pm n = Some HelloSrvTraits" "handler_ok hs"
      "\<And>ns. ns_data_req ns = Some (HelloProtocol arg) \<Longrightarrow> ns_data_resp (f ns) = Some (WorldProtocol (g arg))"
    and request: "p = (Protocol_Create kRequestCall (cl_req_id cl) (hello_ser pcd arg))\<lparr>p_srv_name := n\<rparr>"
    and answer: "a = answer_msg hs p (world_ser pcd (g arg))"
    and wire: "wire_ok ser parse p" "wire_ok ser parse a"
    and client: "sk_connected s" "sk_conn s = Some c" "accepts (- 1) False (length (enc p)) (inputs st1) rest1"
      "delivers_frame ser a (inputs st3) rest3"
    and server: "sk_connected s'" "sk_conn s' = Some c'" "ns_error ns \<noteq> 1" "delivers_frame ser p (inputs st2) mid"
      "accepts (- 1) False (length (enc a)) mid rest2"
  shows "Call_send pcd SerHello n (Some (HelloProtocol arg)) cl = Inr p \<and>
    (\<exists>st1' tr. SendLoop_turn ser False (Some p) s st1 = Inr (True, st1') \<and>
       trace st1' = trace st1 @ tr \<and> sent_all tr = enc p) \<and>
    (\<exists>ns' st2' tr. NetworkServer_OnNewConn in_sched ser parse pcd pm hs s' ns st2 = Inr ((ns', s'), st2') \<and>
       trace st2' = trace st2 @ tr \<and> sent_all tr = enc a) \<and>
    (\<exists>q st3' cl'. RpcProtocol_RecvProtocol in_sched parse s st3 = Inr ((Some q, s), st3') \<and>
       RecvLoop_turn q (Call_register ch cl) = (Some ch, cl') \<and>
       Call_result pcd SerWorld False (Some q) (Some (HelloProtocol arg)) u =
         Inr \<lparr>res_base_proto = Some (HelloProtocol arg), res_target_proto = Some (WorldProtocol (g arg)), res_state = kSuccess\<rparr>)"
proof (intro conjI)
  have len: "length (ser (to_buf p)) < 10000" "length (ser (to_buf a)) < 10000" using wire by (simp_all add: wire_ok_def)
  have p: "p_type p = kRequestCall" "p_srv_name p = n" "p_data p = hello_ser pcd arg" "p_req_id p = cl_req_id cl" "created p"
    by (simp_all add: request created_def as_received_def Protocol_Create_def Protocol_Protocol_def)
  have a: "p_req_id a = cl_req_id cl" "p_data a = world_ser pcd (g arg)"
    using service(1) p by (simp_all add: answer answer_msg_def Protocol_Create_def Protocol_Protocol_def)
  show "Call_send pcd SerHello n (Some (HelloProtocol arg)) cl = Inr p"
    by (simp add: Call_send_def request)
  show "\<exists>st1' tr. SendLoop_turn ser False (Some p) s st1 = Inr (True, st1') \<and> trace st1' = trace st1 @ tr \<and> sent_all tr = enc p"
    using SendProtocol_frame [of ser p s c st1 rest1] len(1) client(1-3)
    by (auto simp: SendLoop_turn_def io_bind_def io_return_def enc_def)
  have ans: "call_answer pcd hs p (ns\<lparr>ns_req_protocol := Some p\<rparr>) = Some (world_ser pcd (g arg))"
    using service(1) service(4) p codec(1) by (simp add: call_answer_def)
  obtain mid1 where mid: "delivers (- 1) False (take 4 (RpcProtocol_Encode ser p)) (inputs st2) mid1"
    "delivers (- 1) False (drop 4 (RpcProtocol_Encode ser p)) mid1 mid"
    using server(4) by (auto simp: delivers_frame_def)
  show "\<exists>ns' st2' tr. NetworkServer_OnNewConn in_sched ser parse pcd pm hs s' ns st2 = Inr ((ns', s'), st2') \<and>
      trace st2' = trace st2 @ tr \<and> sent_all tr = enc a"
    using request_frame_answered [of p parse ser hs "world_ser pcd (g arg)" s' c' ns pcd pm st2 mid1 mid rest2 in_sched]
      p wire(1) len(2) server service(2,3) ans mid by (auto simp: wire_ok_def answer enc_def)
  obtain st3' where "RpcProtocol_RecvProtocol in_sched parse s st3 = Inr ((Some (as_received a), s), st3')"
    using RecvProtocol_received [of parse ser a s c st3 _ rest3 in_sched] wire(2) client(1,2,4)
    by (auto simp: wire_ok_def delivers_frame_def)
  then show "\<exists>q st3' cl'. RpcProtocol_RecvProtocol in_sched parse s st3 = Inr ((Some q, s), st3') \<and>
      RecvLoop_turn q (Call_register ch cl) = (Some ch, cl') \<and>
      Call_result pcd SerWorld False (Some q) (Some (HelloProtocol arg)) u =
        Inr \<lparr>res_base_proto = Some (HelloProtocol arg), res_target_proto = Some (WorldProtocol (g arg)), res_state = kSuccess\<rparr>"
    using a codec(2) by (auto simp: RecvLoop_turn_def Call_register_def Call_result_def Result_Result_def Result_set_state_def)
qed

text \<open>C14: a remote call returns what the service computes, down to the bytes. A client calls a service that is registered with the server and whose
  function computes \<open>g\<close>. Envelopes and payloads are those of the generated protobuf classes on any library that keeps to the wire format; the name of the service and the argument
  are texts without zero bytes that fit into a frame; both sockets are connected, the server is not in its error state, and the kernels pass the bytes on
  in pieces of any size, with interruptions and waits. Then the client sends exactly the frame of its request; the server, given the bytes of that frame, sends exactly the
  frame of an answer; and the client, given the bytes of that, finds the channel of its call under the number in the answer and returns success with
  the value of \<open>g\<close>, whatever it is.\<close>

theorem rpc_call_end_to_end:
  fixes rt :: "'u pb_runtime" and pfb pfh pfw
  defines "ser \<equiv> pb_ser rt" and "parse \<equiv> pb_parse rt pfb" and "pcd \<equiv> pb_codec rt pfh pfw" and "enc \<equiv> RpcProtocol_Encode (pb_ser rt)"
  assumes library: "pb_wire rt" "clears_and_parses pfb" "clears_and_parses pfh" "clears_and_parses pfw"
    and service: "hs n = Some f" "pm n = Some HelloSrvTraits" "handler_ok hs"
      "\<And>ns. ns_data_req ns = Some (HelloProtocol arg) \<Longrightarrow> ns_data_resp (f ns) = Some (WorldProtocol (g arg))"
    and texts: "rt_VerifyUTF8 rt n" "rt_VerifyUTF8 rt arg" "nul \<notin> set n" "nul \<notin> set arg" "length n + length arg \<le> 9800"
    and request: "p = (Protocol_Create kRequestCall (cl_req_id cl) (hello_ser pcd arg))\<lparr>p_srv_name := n\<rparr>"
    and answer: "a = answer_msg hs p (world_ser pcd (g arg))"
    and client: "sk_connected s" "sk_conn s = Some c" "accepts (- 1) False (length (enc p)) (inputs st1) rest1"
      "delivers_frame ser a (inputs st3) rest3"
    and server: "sk_connected s'" "sk_conn s' = Some c'" "ns_error ns \<noteq> 1" "delivers_frame ser p (inputs st2) mid"
      "accepts (- 1) False (length (enc a)) mid rest2"
  shows "Call_send pcd SerHello n (Some (HelloProtocol arg)) cl = Inr p \<and>
    (\<exists>st1' tr. SendLoop_turn ser False (Some p) s st1 = Inr (True, st1') \<and>
       trace st1' = trace st1 @ tr \<and> sent_all tr = enc p) \<and>
    (\<exists>ns' st2' tr. NetworkServer_OnNewConn in_sched ser parse pcd pm hs s' ns st2 = Inr ((ns', s'), st2') \<and>
       trace st2' = trace st2 @ tr \<and> sent_all tr = enc a) \<and>
    (\<exists>q st3' cl'. RpcProtocol_RecvProtocol in_sched parse s st3 = Inr ((Some q, s), st3') \<and>
       RecvLoop_turn q (Call_register ch cl) = (Some ch, cl') \<and>
       Call_result pcd SerWorld False (Some q) (Some (HelloProtocol arg)) u =
         Inr \<lparr>res_base_proto = Some (HelloProtocol arg), res_target_proto = Some (WorldProtocol (g arg)), res_state = kSuccess\<rparr>)"
proof -
  have "length arg < 2 ^ 31 - 6" using texts(5) by simp
  note pay = pb_payloads [OF library(1,3,4) texts(2) this, folded pcd_def]
  have "p_srv_name p = n" "p_data p = hello_ser pcd arg" "p_magic p = kMagic" "p_srv_name a = []" "p_data a = world_ser pcd (g arg)"
    "p_magic a = kMagic"
    by (simp_all add: request answer answer_msg_def Protocol_Create_def Protocol_Protocol_def)
  then have "carried rt p" "carried rt a"
    using texts pay(2,3) pay(5,6) [of "g arg"] by (simp_all add: carried_def kMagic_def)
  then have "wire_ok ser parse p" "wire_ok ser parse a"
    using pb_wire_ok [OF library(1,2)] by (simp_all add: ser_def parse_def)
  with call_joined [of pcd arg g hs n f pm p cl a ser parse s c st1 rest1 st3 rest3 s' c' ns st2 mid rest2 in_sched ch u]
  show ?thesis using pay(1,4) service request answer client server unfolding enc_def ser_def [symmetric] by blast
qed

text \<open>A run on the library of theory \<open>Pb_Reference\<close>: a client with the number 1 calls \<open>hello\<close> with \<open>data\<close>, whose length is the answer. Request and answer
  are frames of 26 and 13 bytes.\<close>

definition wire_codec :: payload_codec where
  "wire_codec = pb_codec wire_runtime plain_driver plain_driver"

definition wire_call :: Protocol where
  "wire_call = (Protocol_Create kRequestCall 1 (hello_ser wire_codec ''data''))\<lparr>p_srv_name := ''hello''\<rparr>"

definition wire_answer :: Protocol where
  "wire_answer = answer_msg hello_handlers wire_call (world_ser wire_codec 4)"

definition request_body :: "byte list" where
  "request_body = [CHR 0x08, CHR 0xAA, CHR 0x01, CHR 0x10, CHR 0x01, CHR 0x18, CHR 0x05, CHR 0x20, CHR 0x01, CHR 0x28, CHR 0x06,
     CHR 0x32, CHR 0x05] @ ''hello'' @ [CHR 0x3A, CHR 0x06, CHR 0x0A, CHR 0x04] @ ''data''"

definition answer_body :: "byte list" where
  "answer_body = [CHR 0x08, CHR 0xAA, CHR 0x01, CHR 0x10, CHR 0x01, CHR 0x18, CHR 0x06, CHR 0x20, CHR 0x01,
     CHR 0x3A, CHR 0x02, CHR 0x08, CHR 0x04]"

definition io_script :: "input list \<Rightarrow> io_st" where
  "io_script is = \<lparr>inputs = is, trace = [], errno = 0\<rparr>"

lemma varint_small: "n < 128 \<Longrightarrow> varint n = [char_of n]"
  by (subst varint.simps) simp

lemma byte_values:
  "char_of (Suc 0) = CHR 0x01" "char_of (Suc (Suc 0)) = CHR 0x02" "char_of (Suc (Suc (Suc (Suc 0)))) = CHR 0x04"
  "char_of (Suc (Suc (Suc (Suc (Suc 0))))) = CHR 0x05" "char_of (Suc (Suc (Suc (Suc (Suc (Suc 0)))))) = CHR 0x06"
  "char_of (4 :: nat) = CHR 0x04" "char_of (5 :: nat) = CHR 0x05" "char_of (6 :: nat) = CHR 0x06" "char_of (8 :: nat) = CHR 0x08"
  "char_of (10 :: nat) = CHR 0x0A" "char_of (16 :: nat) = CHR 0x10" "char_of (24 :: nat) = CHR 0x18" "char_of (32 :: nat) = CHR 0x20"
  "char_of (40 :: nat) = CHR 0x28" "char_of (50 :: nat) = CHR 0x32" "char_of (58 :: nat) = CHR 0x3A" "char_of (170 :: nat) = CHR 0xAA"
  by (simp_all add: char_of_eq_iff take_bit_eq_mod)

lemma payload_bytes:
  "hello_ser wire_codec ''data'' = [CHR 0x0A, CHR 0x04] @ ''data''" "world_ser wire_codec 4 = [CHR 0x08, CHR 0x04]"
  by (simp_all add: wire_codec_def pb_codec_def HelloProtocolBuf_SerializeAsString_def wire_runtime_def HelloProtocolBuf_InternalSerialize_def
      HelloProtocolBuf_set_name_def HelloProtocolBuf_SharedCtor_def WorldProtocolBuf_SerializeAsString_def
      WorldProtocolBuf_InternalSerialize_def WorldProtocolBuf_set_result_def WorldProtocolBuf_SharedCtor_def wire_field_def
      varint_small byte_values)

lemma varint_magic: "varint 170 = [CHR 0xAA, CHR 0x01]"
  by (simp add: varint.simps byte_values)

lemma envelope_bytes: "pb_ser wire_runtime (to_buf wire_call) = request_body" "pb_ser wire_runtime (to_buf wire_answer) = answer_body"
  by (simp_all add: pb_ser_def BaseProtocolBuf_SerializeAsString_def wire_runtime_def BaseProtocolBuf_InternalSerialize_def pb_object_def
      to_buf_def wire_call_def wire_answer_def answer_msg_def payload_bytes request_body_def answer_body_def hello_handlers_def
      RpcServerProvider_RegisterHandler_def Protocol_Create_def Protocol_Protocol_def kMagic_def kVersion_def kRequestCall_def
      kResponseCall_def wire_field_def varint_small varint_magic byte_values BaseProtocolBuf_has_srv_name_def)

lemma length_bodies: "length request_body = 26" "length answer_body = 13"
  by (simp_all add: request_body_def answer_body_def)

lemma call_frames:
  "RpcProtocol_Encode (pb_ser wire_runtime) wire_call = ''0026'' @ request_body"
  "RpcProtocol_Encode (pb_ser wire_runtime) wire_answer = ''0013'' @ answer_body"
  by (simp_all add: RpcProtocol_Encode_def SerializerHandler_Serialize_def envelope_bytes length_bodies kDataMaxLen_def pad04_def snprintf_def
      Let_def convert_def convert_loop.simps zero_def digits_def signed_divide_int_def signed_modulo_int_def eval_nat_numeral)

lemma call_delivered:
  "delivers_frame (pb_ser wire_runtime) wire_call (Ret 4 0 ''0026'' # Ret 26 0 request_body # rest) rest"
  "delivers_frame (pb_ser wire_runtime) wire_answer (Ret 4 0 ''0013'' # Ret 13 0 answer_body # rest) rest"
proof -
  have b: "request_body \<noteq> []" "answer_body \<noteq> []" by (simp_all add: request_body_def answer_body_def)
  have "delivers (- 1) False request_body (Ret 26 0 request_body # rest) rest"
    "delivers (- 1) False answer_body (Ret 13 0 answer_body # rest) rest"
    using delivers_all [of request_body "- 1" False 0 rest] delivers_all [of answer_body "- 1" False 0 rest] b
    by (simp_all add: length_bodies)
  then show "delivers_frame (pb_ser wire_runtime) wire_call (Ret 4 0 ''0026'' # Ret 26 0 request_body # rest) rest"
    "delivers_frame (pb_ser wire_runtime) wire_answer (Ret 4 0 ''0013'' # Ret 13 0 answer_body # rest) rest"
    using delivers_all [of "''0026''" "- 1" False 0] delivers_all [of "''0013''" "- 1" False 0]
    by (auto simp: delivers_frame_def call_frames)
qed

theorem rpc_call_end_to_end_witness:
  "(\<exists>st1'. SendLoop_turn (pb_ser wire_runtime) False (Some wire_call) (open_socket 8) (io_script [Ret 30 0 []]) = Inr (True, st1') \<and>
      sent_all (trace st1') = ''0026'' @ request_body) \<and>
   (\<exists>ns' st2'. NetworkServer_OnNewConn True (pb_ser wire_runtime) (pb_parse wire_runtime plain_driver) wire_codec
      (HelloSrvTraits_register Map.empty) hello_handlers (open_socket 9) (NetworkServer_init None None 0 0)
      (io_script [Ret 4 0 ''0026'', Ret 26 0 request_body, Ret 17 0 []]) = Inr ((ns', open_socket 9), st2') \<and>
      sent_all (trace st2') = ''0013'' @ answer_body) \<and>
   (\<exists>q st3' u. RpcProtocol_RecvProtocol True (pb_parse wire_runtime plain_driver) (open_socket 8)
      (io_script [Ret 4 0 ''0013'', Ret 13 0 answer_body]) = Inr ((Some q, open_socket 8), st3') \<and>
      Call_result wire_codec SerWorld False (Some q) (Some (HelloProtocol ''data'')) u =
        Inr \<lparr>res_base_proto = Some (HelloProtocol ''data''), res_target_proto = Some (WorldProtocol 4), res_state = kSuccess\<rparr>)"
proof -
  let ?cl = "RpcClient_RpcClient kDefaultParams :: nat RpcClient" and ?pm = "HelloSrvTraits_register Map.empty"
  have a: "accepts (- 1) False (length (RpcProtocol_Encode (pb_ser wire_runtime) wire_call)) (inputs (io_script [Ret 30 0 []])) []"
    "accepts (- 1) False (length (RpcProtocol_Encode (pb_ser wire_runtime) wire_answer)) [Ret 17 0 []] []"
    using accepts_all [of 30 "- 1" False 0 "[]" "[]"] accepts_all [of 17 "- 1" False 0 "[]" "[]"]
    by (simp_all add: call_frames length_bodies io_script_def)
  have s: "sk_connected (open_socket fd)" "sk_conn (open_socket fd) = Some (TcpConn_TcpConn fd)" for fd
    by (simp_all add: open_socket_def)
  obtain f where f: "hello_handlers ''hello'' = Some f"
    "\<And>ns. ns_data_req ns = Some (HelloProtocol ''data'') \<Longrightarrow> ns_data_resp (f ns) = Some (WorldProtocol 4)"
    by (simp add: hello_handlers_def RpcServerProvider_RegisterHandler_def)
  have pm: "?pm ''hello'' = Some HelloSrvTraits"
    by (simp add: HelloSrvTraits_register_def ProtocolManager_Register_def)
  have t: "rt_VerifyUTF8 wire_runtime ''hello''" "rt_VerifyUTF8 wire_runtime ''data''" "nul \<notin> set ''hello''" "nul \<notin> set ''data''"
    by (simp_all add: wire_runtime_def ascii_def nul_def)
  have req: "wire_call = (Protocol_Create kRequestCall (cl_req_id ?cl) (hello_ser (pb_codec wire_runtime plain_driver plain_driver) ''data''))
      \<lparr>p_srv_name := ''hello''\<rparr>"
    by (simp add: wire_call_def wire_codec_def RpcClient_RpcClient_def)
  have ns: "ns_error (NetworkServer_init None None 0 0) \<noteq> 1" by (simp add: NetworkServer_init_def)
  have d: "delivers_frame (pb_ser wire_runtime) wire_answer (inputs (io_script [Ret 4 0 ''0013'', Ret 13 0 answer_body])) []"
    "delivers_frame (pb_ser wire_runtime) wire_call (inputs (io_script [Ret 4 0 ''0026'', Ret 26 0 request_body, Ret 17 0 []])) [Ret 17 0 []]"
    by (simp_all add: io_script_def call_delivered)
  have "wire_answer = answer_msg hello_handlers wire_call (world_ser (pb_codec wire_runtime plain_driver plain_driver) 4)"
    by (simp add: wire_answer_def wire_codec_def)
  from rpc_call_end_to_end [where rt = wire_runtime and g = "\<lambda>_. 4" and hs = hello_handlers and pm = ?pm and n = "''hello''" and arg = "''data''" and f = f and s = "open_socket 8" and s' = "open_socket 9" and in_sched = True and
      u = "(None, None)" and ch = 0, OF wire.pb_wire_axioms plain_driver_parses plain_driver_parses plain_driver_parses f(1) pm hello_handler_ok
      _ t _ req this s a(1) d(1) s ns d(2) a(2)] f(2)
  show ?thesis
    by (simp add: call_frames io_script_def wire_codec_def) blast
qed

end
